(* ===== verification/Prelude.thy ===== *)
theory Prelude
  imports Main "HOL-Library.Word"
begin

text \<open>
  Shared vocabulary of the development: the type synonyms of the machine integers the
  program uses, the lemma collections the component theories fill, and the generic
  facts on lists, maps and optional values that several components need.
\<close>

type_synonym u8 = "8 word"
type_synonym u16 = "16 word"
type_synonym u32 = "32 word"
type_synonym u64 = "64 word"

text \<open>Collections: evaluation rules of the operations, and facts that an operation keeps.\<close>

named_theorems op_defs \<open>definitions of the program's operations\<close>
named_theorems frame \<open>what an operation leaves unchanged\<close>

section \<open>Lists\<close>

text \<open>\<^verbatim>\<open>std::find_if\<close> followed by \<^verbatim>\<open>erase\<close>: the first match is removed, the rest keeps its order.\<close>

fun erase_first :: "('a \<Rightarrow> bool) \<Rightarrow> 'a list \<Rightarrow> 'a list" where
  "erase_first P [] = []"
| "erase_first P (x # xs) = (if P x then xs else x # erase_first P xs)"

lemma erase_first_none [simp]: "(\<And>x. x \<in> set xs \<Longrightarrow> \<not> P x) \<Longrightarrow> erase_first P xs = xs"
  by (induction xs) auto

lemma set_erase_first_subset: "set (erase_first P xs) \<subseteq> set xs"
  by (induction xs) auto

lemma distinct_erase_first: "distinct (map f xs) \<Longrightarrow> distinct (map f (erase_first P xs))"
  using set_erase_first_subset by (induction xs) fastforce+

lemma length_erase_first:
  "length (erase_first P xs) = (if \<exists>x \<in> set xs. P x then length xs - 1 else length xs)"
proof (induction xs)
  case (Cons a xs)
  then show ?case by (cases xs) auto
qed simp

lemma erase_first_append:
  "erase_first P (xs @ ys) = (if \<exists>x \<in> set xs. P x then erase_first P xs @ ys else xs @ erase_first P ys)"
  by (induction xs) auto

text \<open>Removing by a key that is unique in the list removes exactly the elements with that key.\<close>

lemma erase_first_filter:
  "distinct (map f xs) \<Longrightarrow> erase_first (\<lambda>x. f x = k) xs = filter (\<lambda>x. f x \<noteq> k) xs"
proof (induction xs)
  case (Cons a xs)
  then have "f a = k \<Longrightarrow> filter (\<lambda>x. f x \<noteq> k) xs = xs"
    by (metis (mono_tags, lifting) distinct.simps(2) filter_True image_eqI image_set list.simps(9))
  with Cons show ?case by auto
qed simp

lemma find_Some_in: "find P xs = Some x \<Longrightarrow> x \<in> set xs \<and> P x"
  by (auto simp: find_Some_iff)

lemma find_unique:
  "x \<in> set xs \<Longrightarrow> P x \<Longrightarrow> (\<And>y. y \<in> set xs \<Longrightarrow> P y \<Longrightarrow> y = x) \<Longrightarrow> find P xs = Some x"
  by (metis find_None_iff find_Some_in option.exhaust)

section \<open>Maps\<close>

lemma map_upd_dom_iff: "k \<in> dom (m(k' \<mapsto> v)) \<longleftrightarrow> k = k' \<or> k \<in> dom m"
  by auto

section \<open>Words read as numbers\<close>

lemma word32_of_nat_unat [simp]: "word_of_nat (unat (w :: u32)) = w"
  by simp

lemma unat_of_nat_small: "n < 2 ^ LENGTH('a) \<Longrightarrow> unat (word_of_nat n :: 'a::len word) = n"
  by (simp add: unat_of_nat take_bit_nat_eq_self)

end
