(* ===== verification/Float32.thy ===== *)
theory Float32
  imports Prelude
begin

text \<open>
  The C++ type \<^verbatim>\<open>float\<close> (IEEE 754 binary32), which the program uses for prices and
  quantities. Every finite binary32 value is a whole multiple of $2^{-149}$, so a finite
  float is kept as its sign and its magnitude counted in that unit; arithmetic is exact
  on whole numbers followed by the rounding to 24 significant bits, ties to even, that
  the hardware performs. Infinities, NaN, the two zeros, overflow and gradual underflow
  are all present. This theory translates no line of the repository: it is the
  semantics of the language type the other theories compute with.
\<close>

section \<open>Rounding to 24 significant bits\<close>

fun bitlen :: "nat \<Rightarrow> nat" where
  "bitlen n = (if n = 0 then 0 else Suc (bitlen (n div 2)))"
declare bitlen.simps [simp del]

text \<open>\<open>n / d\<close> rounded to the nearest whole number, ties to the even one.\<close>

definition rne :: "nat \<Rightarrow> nat \<Rightarrow> nat" where
  "rne n d = (let q = n div d; r = n mod d
     in if 2 * r < d \<or> (2 * r = d \<and> even q) then q else q + 1)"

text \<open>\<open>n / d\<close> (in units of $2^{-149}$) rounded to a magnitude with 24 significant bits.\<close>

definition rnd_mag :: "nat \<Rightarrow> nat \<Rightarrow> nat" where
  "rnd_mag n d = (let e = bitlen (n div d) - 24 in rne n (d * 2 ^ e) * 2 ^ e)"

lemma bitlen_0 [simp]: "bitlen 0 = 0" by (simp add: bitlen.simps)

lemma bitlen_pos: "0 < n \<Longrightarrow> bitlen n = Suc (bitlen (n div 2))"
  by (subst bitlen.simps) simp

lemma bitlen_bounds: "0 < n \<Longrightarrow> 2 ^ (bitlen n - 1) \<le> n \<and> n < 2 ^ bitlen n"
proof (induction n rule: bitlen.induct)
  case (1 n)
  show ?case
  proof (cases "n div 2 = 0")
    case True
    with "1.prems" have "n = 1" by auto
    then show ?thesis by (simp add: bitlen.simps)
  next
    case False
    with 1 have IH: "2 ^ (bitlen (n div 2) - 1) \<le> n div 2" "n div 2 < 2 ^ bitlen (n div 2)"
      by auto
    from False have "bitlen (n div 2) > 0" by (simp add: bitlen_pos)
    then obtain b where b: "bitlen (n div 2) = Suc b" by (cases "bitlen (n div 2)") auto
    from IH b "1.prems" show ?thesis by (auto simp: bitlen_pos[of n])
  qed
qed

lemma less_bitlen: "n < 2 ^ bitlen n"
  using bitlen_bounds[of n] by (cases "n = 0") auto

lemma bitlen_le: "n < 2 ^ k \<Longrightarrow> bitlen n \<le> k"
proof (cases "n = 0")
  case False
  assume "n < 2 ^ k"
  with bitlen_bounds[of n] False have "(2::nat) ^ (bitlen n - 1) < 2 ^ k" by linarith
  then have "bitlen n - 1 < k" by (rule power_less_imp_less_exp[rotated]) simp
  then show ?thesis by simp
qed simp

lemma bitlen_mono: "m \<le> n \<Longrightarrow> bitlen m \<le> bitlen n"
  by (rule bitlen_le) (use less_bitlen[of n] in simp)

lemma rne_mono: assumes "n \<le> n'" shows "rne n d \<le> rne n' d"
proof (cases "n div d = n' div d")
  case True
  then have "n mod d \<le> n' mod d"
    using assms by (metis add_le_cancel_left div_mult_mod_eq)
  with True show ?thesis by (auto simp: rne_def Let_def)
next
  case False
  then have "n div d < n' div d" using div_le_mono[OF assms, of d] by simp
  then show ?thesis by (auto simp: rne_def Let_def)
qed

lemma rne_exact [simp]: "0 < d \<Longrightarrow> rne (k * d) d = k"
  by (simp add: rne_def)

lemma rne_one [simp]: "rne n (Suc 0) = n"
  using rne_exact[of 1 n] by simp

lemma rne_le: "0 < d \<Longrightarrow> n \<le> k * d \<Longrightarrow> rne n d \<le> k"
  using rne_mono[of n "k * d" d] by simp

lemma rne_ge: "0 < d \<Longrightarrow> k * d \<le> n \<Longrightarrow> k \<le> rne n d"
  using rne_mono[of "k * d" n d] by simp

section \<open>Representable magnitudes\<close>

definition repr :: "nat \<Rightarrow> bool" where
  "repr m \<longleftrightarrow> (\<exists>k e. m = k * 2 ^ e \<and> k < 2 ^ 24)"

lemma reprI: "k \<le> 2 ^ 24 \<Longrightarrow> repr (k * 2 ^ e)"
proof (cases "k = 2 ^ 24")
  case True
  have "(2::nat) ^ 24 * 2 ^ e = 2 ^ 23 * 2 ^ (e + 1)" by simp
  moreover have "(2::nat) ^ 23 < 2 ^ 24" by simp
  ultimately show ?thesis unfolding repr_def True by blast
next
  case False
  assume "k \<le> 2 ^ 24"
  with False have "k < 2 ^ 24" by (rule le_neq_implies_less[rotated])
  then show ?thesis unfolding repr_def by blast
qed

lemma repr_small: "m \<le> 2 ^ 24 \<Longrightarrow> repr m"
  using reprI[of m 0] by simp

lemma repr_0 [simp]: "repr 0" by (rule repr_small) simp

lemma rnd_mag_one: "rnd_mag m (Suc 0) = rne m (2 ^ (bitlen m - 24)) * 2 ^ (bitlen m - 24)"
  by (simp add: rnd_mag_def Let_def)

lemma rnd_mag_0 [simp]: "rnd_mag 0 d = 0"
  by (cases d) (auto simp: rnd_mag_def Let_def rne_def)

lemma rnd_mag_repr: "0 < d \<Longrightarrow> repr (rnd_mag n d)"
proof -
  assume d: "0 < d"
  let ?q = "n div d" and ?e = "bitlen (n div d) - 24"
  have "?q < 2 ^ (24 + ?e)"
    using less_bitlen[of ?q] by (rule less_le_trans) (simp add: power_increasing)
  then have "n < 2 ^ (24 + ?e) * d"
    using d by (simp only: div_less_iff_less_mult)
  moreover have "2 ^ (24 + ?e) * d = 2 ^ 24 * (d * 2 ^ ?e)" by (simp only: power_add ac_simps)
  ultimately have "n \<le> 2 ^ 24 * (d * 2 ^ ?e)" by (metis less_imp_le)
  moreover have "0 < d * 2 ^ ?e" using d by simp
  ultimately have "rne n (d * 2 ^ ?e) \<le> 2 ^ 24" by (rule rne_le[rotated])
  then show ?thesis by (simp add: rnd_mag_def Let_def reprI)
qed

lemma rnd_mag_exact: "repr m \<Longrightarrow> rnd_mag m (Suc 0) = m"
proof (cases "bitlen m \<le> 24")
  case True
  then show ?thesis by (simp add: rnd_mag_one)
next
  case False
  assume "repr m"
  then obtain k e where ke: "m = k * 2 ^ e" "k < 2 ^ 24" unfolding repr_def by blast
  let ?f = "bitlen m - 24"
  have pos: "0 < m" using False by (cases "m = 0") auto
  have "?f \<le> e"
  proof (rule ccontr)
    assume "\<not> ?f \<le> e"
    then have le: "24 + e \<le> bitlen m - 1" using False by simp
    have "m < 2 ^ 24 * 2 ^ e" using ke by simp
    also have "\<dots> = 2 ^ (24 + e)" by (simp only: power_add)
    finally have "bitlen m \<le> 24 + e" by (rule bitlen_le)
    with le pos show False by (simp add: bitlen_pos)
  qed
  then have "m = (k * 2 ^ (e - ?f)) * 2 ^ ?f"
    using ke(1) by (simp add: power_add[symmetric])
  then have "rne m (2 ^ ?f) = k * 2 ^ (e - ?f)"
    by (metis rne_exact zero_less_numeral zero_less_power)
  with \<open>m = (k * 2 ^ (e - ?f)) * 2 ^ ?f\<close> show ?thesis by (simp add: rnd_mag_one)
qed

lemma rnd_mag_mono: "m \<le> n \<Longrightarrow> rnd_mag m (Suc 0) \<le> rnd_mag n (Suc 0)"
proof (cases "bitlen m - 24 = bitlen n - 24")
  case True
  assume "m \<le> n"
  with True show ?thesis by (simp add: rnd_mag_one rne_mono)
next
  case False
  assume le: "m \<le> n"
  let ?e = "bitlen m - 24" and ?f = "bitlen n - 24"
  from False bitlen_mono[OF le] have lt: "?e < ?f" and big: "24 < bitlen n" by auto
  have "m < 2 ^ (24 + ?e)"
    using less_bitlen[of m] by (rule less_le_trans) (simp add: power_increasing)
  then have "m \<le> 2 ^ 24 * 2 ^ ?e" by (simp only: power_add less_imp_le)
  then have "rne m (2 ^ ?e) \<le> 2 ^ 24" by (rule rne_le[rotated]) simp
  then have A: "rnd_mag m (Suc 0) \<le> 2 ^ (24 + ?e)" by (simp only: rnd_mag_one power_add mult_le_mono1)
  have "0 < n" using big by (cases "n = 0") auto
  then have "2 ^ (bitlen n - 1) \<le> n" using bitlen_bounds by blast
  moreover have "bitlen n - 1 = 23 + ?f" using big by simp
  ultimately have "2 ^ 23 * 2 ^ ?f \<le> n" by (simp only: power_add)
  then have "2 ^ 23 \<le> rne n (2 ^ ?f)" by (rule rne_ge[rotated]) simp
  then have "(2::nat) ^ 23 * 2 ^ ?f \<le> rnd_mag n (Suc 0)" by (simp only: rnd_mag_one mult_le_mono1)
  moreover have "(2::nat) ^ (24 + ?e) \<le> 2 ^ 23 * 2 ^ ?f"
    unfolding power_add[symmetric] by (rule power_increasing) (use lt in auto)
  ultimately show ?thesis using A by linarith
qed

lemma rnd_mag_pos: "0 < m \<Longrightarrow> 0 < rnd_mag m (Suc 0)"
proof -
  assume "0 < m"
  then have "rnd_mag 1 (Suc 0) \<le> rnd_mag m (Suc 0)" by (intro rnd_mag_mono) simp
  moreover have "rnd_mag 1 (Suc 0) = 1" by (rule rnd_mag_exact) (rule repr_small, simp)
  ultimately show ?thesis by simp
qed

section \<open>The values\<close>

text \<open>
  \<open>FFin s m\<close> is the finite value of magnitude \<open>m\<close> units, negative when \<open>s\<close>; \<open>FFin True 0\<close> is
  the negative zero.
\<close>

datatype f32 = FNaN | FInf bool | FFin bool nat

definition sgnval :: "bool \<Rightarrow> nat \<Rightarrow> int" where
  "sgnval s m = (if s then - int m else int m)"

fun fval :: "f32 \<Rightarrow> int" where
  "fval (FFin s m) = sgnval s m"
| "fval _ = 0"

fun is_fin :: "f32 \<Rightarrow> bool" where
  "is_fin (FFin s m) = True"
| "is_fin _ = False"

definition max_mag :: nat where
  "max_mag = (2 ^ 24 - 1) * 2 ^ 253"

text \<open>A finite value the format can hold.\<close>

fun wf_f32 :: "f32 \<Rightarrow> bool" where
  "wf_f32 (FFin s m) \<longleftrightarrow> repr m \<and> m \<le> max_mag"
| "wf_f32 _ \<longleftrightarrow> True"

text \<open>The float nearest to $\pm n/d$ units; beyond the largest finite magnitude, an infinity.\<close>

definition f32_of :: "bool \<Rightarrow> nat \<Rightarrow> nat \<Rightarrow> f32" where
  "f32_of s n d = (let m = rnd_mag n d in if m \<le> max_mag then FFin s m else FInf s)"

definition f32_unit :: nat where
  "f32_unit = 2 ^ 149"

definition f32_of_int :: "int \<Rightarrow> f32" where
  "f32_of_int i = f32_of (i < 0) (nat \<bar>i\<bar> * f32_unit) 1"

definition fzero :: f32 where
  "fzero = FFin False 0"

section \<open>Arithmetic and comparison\<close>

definition fneg :: "f32 \<Rightarrow> f32" where
  "fneg x = (case x of FNaN \<Rightarrow> FNaN | FInf s \<Rightarrow> FInf (\<not> s) | FFin s m \<Rightarrow> FFin (\<not> s) m)"

fun fadd :: "f32 \<Rightarrow> f32 \<Rightarrow> f32" where
  "fadd FNaN y = FNaN"
| "fadd x FNaN = FNaN"
| "fadd (FInf s) (FInf t) = (if s = t then FInf s else FNaN)"
| "fadd (FInf s) (FFin t n) = FInf s"
| "fadd (FFin s m) (FInf t) = FInf t"
| "fadd (FFin s m) (FFin t n) =
     (let r = sgnval s m + sgnval t n
      in if r = 0 then FFin (s \<and> t) 0 else f32_of (r < 0) (nat \<bar>r\<bar>) 1)"

definition fsub :: "f32 \<Rightarrow> f32 \<Rightarrow> f32" where
  "fsub x y = fadd x (fneg y)"

fun fmul :: "f32 \<Rightarrow> f32 \<Rightarrow> f32" where
  "fmul FNaN y = FNaN"
| "fmul x FNaN = FNaN"
| "fmul (FInf s) (FInf t) = FInf (s \<noteq> t)"
| "fmul (FInf s) (FFin t n) = (if n = 0 then FNaN else FInf (s \<noteq> t))"
| "fmul (FFin s m) (FInf t) = (if m = 0 then FNaN else FInf (s \<noteq> t))"
| "fmul (FFin s m) (FFin t n) = f32_of (s \<noteq> t) (m * n) f32_unit"

fun fdiv :: "f32 \<Rightarrow> f32 \<Rightarrow> f32" where
  "fdiv FNaN y = FNaN"
| "fdiv x FNaN = FNaN"
| "fdiv (FInf s) (FInf t) = FNaN"
| "fdiv (FInf s) (FFin t n) = FInf (s \<noteq> t)"
| "fdiv (FFin s m) (FInf t) = FFin (s \<noteq> t) 0"
| "fdiv (FFin s m) (FFin t n) =
     (if n = 0 then (if m = 0 then FNaN else FInf (s \<noteq> t))
      else f32_of (s \<noteq> t) (m * f32_unit) n)"

text \<open>Comparisons with NaN are false, as in C++; the two zeros are equal.\<close>

fun flt :: "f32 \<Rightarrow> f32 \<Rightarrow> bool" where
  "flt FNaN y = False"
| "flt x FNaN = False"
| "flt (FInf s) (FInf t) = (s \<and> \<not> t)"
| "flt (FInf s) (FFin t n) = s"
| "flt (FFin s m) (FInf t) = (\<not> t)"
| "flt (FFin s m) (FFin t n) = (sgnval s m < sgnval t n)"

fun feq :: "f32 \<Rightarrow> f32 \<Rightarrow> bool" where
  "feq (FInf s) (FInf t) = (s = t)"
| "feq (FFin s m) (FFin t n) = (sgnval s m = sgnval t n)"
| "feq x y = False"

definition fle :: "f32 \<Rightarrow> f32 \<Rightarrow> bool" where
  "fle x y \<longleftrightarrow> flt x y \<or> feq x y"

text \<open>\<^verbatim>\<open>std::min(a, b)\<close> and \<^verbatim>\<open>std::max(a, b)\<close>: the first argument unless the comparison holds.\<close>

definition std_min :: "f32 \<Rightarrow> f32 \<Rightarrow> f32" where
  "std_min a b = (if flt b a then b else a)"

definition std_max :: "f32 \<Rightarrow> f32 \<Rightarrow> f32" where
  "std_max a b = (if flt a b then b else a)"

section \<open>Laws of the comparison\<close>

lemma sgnval_False [simp]: "sgnval False m = int m" by (simp add: sgnval_def)
lemma sgnval_True [simp]: "sgnval True m = - int m" by (simp add: sgnval_def)

lemma fval_fzero [simp]: "fval fzero = 0" by (simp add: fzero_def)
lemma is_fin_fzero [simp]: "is_fin fzero" by (simp add: fzero_def)
lemma wf_f32_fzero [simp]: "wf_f32 fzero" by (simp add: fzero_def)

lemma is_fin_cases [elim?]: "is_fin x \<Longrightarrow> (\<And>s m. x = FFin s m \<Longrightarrow> P) \<Longrightarrow> P"
  by (cases x) auto

lemma flt_fin: "is_fin x \<Longrightarrow> is_fin y \<Longrightarrow> flt x y \<longleftrightarrow> fval x < fval y"
  by (cases x; cases y) auto

lemma feq_fin: "is_fin x \<Longrightarrow> is_fin y \<Longrightarrow> feq x y \<longleftrightarrow> fval x = fval y"
  by (cases x; cases y) auto

lemma fle_fin: "is_fin x \<Longrightarrow> is_fin y \<Longrightarrow> fle x y \<longleftrightarrow> fval x \<le> fval y"
  by (auto simp: fle_def flt_fin feq_fin)

lemma flt_irrefl [simp]: "\<not> flt x x"
  by (cases x) auto

lemma flt_trans: "flt x y \<Longrightarrow> flt y z \<Longrightarrow> flt x z"
  by (cases x; cases y; cases z) auto

lemma flt_asym: "flt x y \<Longrightarrow> \<not> flt y x"
  using flt_trans flt_irrefl by blast

lemma feq_refl: "x \<noteq> FNaN \<Longrightarrow> feq x x"
  by (cases x) auto

lemma feq_sym: "feq x y \<Longrightarrow> feq y x"
  by (cases x; cases y) auto

lemma flt_total: "x \<noteq> FNaN \<Longrightarrow> y \<noteq> FNaN \<Longrightarrow> flt x y \<or> feq x y \<or> flt y x"
  by (cases x; cases y) auto

lemma feq_flt_left: "feq x y \<Longrightarrow> flt x z \<longleftrightarrow> flt y z"
  by (cases x; cases y; cases z) auto

lemma feq_flt_right: "feq x y \<Longrightarrow> flt z x \<longleftrightarrow> flt z y"
  by (cases x; cases y; cases z) auto

lemma flt_not_feq: "flt x y \<Longrightarrow> \<not> feq x y"
  by (cases x; cases y) auto

section \<open>Laws of the subtraction\<close>

text \<open>
  The facts the order book needs: a difference is finite and exactly zero only for equal
  values (gradual underflow), never negative for an ordered pair, and never larger than
  what was subtracted from.
\<close>

lemma f32_of_cases: "wf_f32 (f32_of s n (Suc 0))"
  using rnd_mag_repr[of "Suc 0" n] by (simp add: f32_of_def Let_def)

lemma wf_fneg [simp]: "wf_f32 (fneg x) = wf_f32 x"
  by (cases x) (auto simp: fneg_def)

lemma wf_fadd: "wf_f32 (fadd x y)"
  by (cases x; cases y) (auto simp: Let_def f32_of_cases)

lemma wf_fsub: "wf_f32 (fsub x y)"
  by (simp add: fsub_def wf_fadd)

lemma fadd_mag:
  assumes "repr b" "b \<le> max_mag" "0 < a" "a \<le> b"
  shows "\<exists>m. f32_of False a (Suc 0) = FFin False m \<and> 0 < m \<and> m \<le> b"
proof -
  have "rnd_mag a (Suc 0) \<le> b"
    using rnd_mag_mono[OF assms(4)] rnd_mag_exact[OF assms(1)] by simp
  with assms rnd_mag_pos[OF assms(3)] show ?thesis
    by (simp add: f32_of_def Let_def)
qed

lemma fsub_ordered:
  assumes "wf_f32 x" "is_fin x" "is_fin y" "0 \<le> fval y" "fval y \<le> fval x"
  shows "is_fin (fsub x y) \<and> 0 \<le> fval (fsub x y) \<and> fval (fsub x y) \<le> fval x
    \<and> (fval (fsub x y) = 0 \<longleftrightarrow> fval x = fval y)"
proof -
  obtain s m t n where xy: "x = FFin s m" "y = FFin t n"
    using assms(2,3) by (metis is_fin_cases)
  let ?r = "sgnval s m + sgnval (\<not> t) n"
  have r: "?r = fval x - fval y" by (simp add: xy sgnval_def)
  have m: "int m = fval x" using assms(4,5) by (auto simp: xy sgnval_def split: if_splits)
  show ?thesis
  proof (cases "?r = 0")
    case True
    with r assms(4,5) show ?thesis
      by (auto simp: fsub_def fneg_def xy sgnval_def split: if_splits)
  next
    case False
    with r assms(5) have pos: "0 < ?r" by simp
    have le: "nat \<bar>?r\<bar> \<le> m" using r m pos assms(4) by linarith
    obtain k where k: "f32_of False (nat \<bar>?r\<bar>) (Suc 0) = FFin False k" "0 < k" "k \<le> m"
      using fadd_mag[of m "nat \<bar>?r\<bar>"] assms(1) le pos by (auto simp: xy)
    have "fsub x y = FFin False k"
      using False pos k(1) by (simp add: fsub_def fneg_def xy Let_def)
    with k m r False show ?thesis by (simp add: xy)
  qed
qed

lemmas fsub_bounds = fsub_ordered [THEN conjunct1]
  fsub_ordered [THEN conjunct2, THEN conjunct1]
  fsub_ordered [THEN conjunct2, THEN conjunct2, THEN conjunct1]
  fsub_ordered [THEN conjunct2, THEN conjunct2, THEN conjunct2]

text \<open>Where the exact difference fits the format, the subtraction is exact.\<close>

lemma fsub_exact:
  assumes "is_fin x" "is_fin y" "repr (nat \<bar>fval x - fval y\<bar>)"
    and "nat \<bar>fval x - fval y\<bar> \<le> max_mag"
  shows "is_fin (fsub x y)" and "fval (fsub x y) = fval x - fval y"
proof -
  obtain s m t n where xy: "x = FFin s m" "y = FFin t n"
    using assms(1,2) by (metis is_fin_cases)
  let ?r = "sgnval s m + sgnval (\<not> t) n"
  have r: "?r = fval x - fval y" by (simp add: xy sgnval_def)
  have "fsub x y = (if ?r = 0 then FFin (s \<and> \<not> t) 0 else FFin (?r < 0) (nat \<bar>?r\<bar>))"
    using assms(3,4) unfolding r[symmetric]
    by (simp add: fsub_def fneg_def xy Let_def f32_of_def rnd_mag_exact)
  then show "is_fin (fsub x y)" and "fval (fsub x y) = fval x - fval y"
    by (auto simp: r[symmetric] sgnval_def)
qed

text \<open>Whole numbers up to $2^{24}$, the quantities of a market that trades whole units.\<close>

definition whole :: "f32 \<Rightarrow> bool" where
  "whole x \<longleftrightarrow> is_fin x \<and> (\<exists>k. fval x = int k * int f32_unit \<and> k \<le> 2 ^ 24)"

lemma repr_whole: "k \<le> 2 ^ 24 \<Longrightarrow> repr (k * f32_unit)"
  unfolding f32_unit_def by (rule reprI)

lemma whole_max: "k \<le> 2 ^ 24 \<Longrightarrow> k * f32_unit \<le> max_mag"
proof -
  assume "k \<le> 2 ^ 24"
  then have "k * f32_unit \<le> 2 ^ 24 * f32_unit" by (rule mult_le_mono1)
  also have "\<dots> \<le> max_mag" by (simp add: f32_unit_def max_mag_def)
  finally show ?thesis .
qed

lemma whole_fsub:
  assumes "whole x" "whole y" "fval y \<le> fval x"
  shows "whole (fsub x y)" and "fval (fsub x y) = fval x - fval y"
proof -
  obtain k l where k: "fval x = int k * int f32_unit" "k \<le> 2 ^ 24"
    and l: "fval y = int l * int f32_unit" "l \<le> 2 ^ 24"
    and fin: "is_fin x" "is_fin y"
    using assms(1,2) unfolding whole_def by auto
  have "0 < int f32_unit" by (simp add: f32_unit_def)
  with assms(3) k l have lk: "l \<le> k" by simp
  then have d: "fval x - fval y = int (k - l) * int f32_unit"
    by (simp add: k l left_diff_distrib of_nat_diff)
  then have n: "nat \<bar>fval x - fval y\<bar> = (k - l) * f32_unit"
    by (metis abs_of_nat nat_int of_nat_mult)
  have kl: "k - l \<le> 2 ^ 24" using k(2) by simp
  from fsub_exact[OF fin] n repr_whole[OF kl] whole_max[OF kl]
  have e: "is_fin (fsub x y)" "fval (fsub x y) = fval x - fval y" by simp_all
  then show "fval (fsub x y) = fval x - fval y" by simp
  from e d kl show "whole (fsub x y)" unfolding whole_def by auto
qed

lemma f32_of_int_eval:
  assumes "k \<le> 2 ^ 24"
  shows "f32_of_int (int k) = FFin False (k * f32_unit)"
  using rnd_mag_exact[OF repr_whole[OF assms]] whole_max[OF assms]
  by (simp add: f32_of_int_def f32_of_def)

lemma whole_f32_of_int: "k \<le> 2 ^ 24 \<Longrightarrow> whole (f32_of_int (int k))"
  by (auto simp: f32_of_int_eval whole_def)

lemma wf_f32_whole: "k \<le> 2 ^ 24 \<Longrightarrow> wf_f32 (f32_of_int (int k))"
  by (simp add: f32_of_int_eval repr_whole whole_max)

lemma fval_f32_of_int: "k \<le> 2 ^ 24 \<Longrightarrow> fval (f32_of_int (int k)) = int k * int f32_unit"
  by (simp add: f32_of_int_eval)

lemma is_fin_f32_of_int: "k \<le> 2 ^ 24 \<Longrightarrow> is_fin (f32_of_int (int k))"
  by (simp add: f32_of_int_eval)

lemma f32_unit_pos [simp]: "0 < f32_unit"
  by (simp add: f32_unit_def)

end
