(* ===== verification/FixTypes.thy ===== *)
theory FixTypes
  imports Float32
begin

text \<open>
  The vocabulary of the protocol: the enumerations of \<^verbatim>\<open>shared/Core/.../Enum.hpp\<close>, the order
  of \<^verbatim>\<open>shared/Core/.../Core.hpp\<close>, the tag numbers of \<^verbatim>\<open>shared/Message-v2/.../Tag.hpp\<close> and the
  messages of \<^verbatim>\<open>shared/Message-v2/.../Message.hpp\<close>, one record per message type with one field
  per declared tag. An unscoped C++ enumeration also holds values that are no enumerator (a
  cast from a byte, the zero of a value-initialised message); they are the constructor
  \<open>..._raw\<close> of its datatype.
\<close>

type_synonym UserId = string
type_synonym OrderId = string
type_synonym ExecId = string
type_synonym Quantity = f32
type_synonym Price = f32
type_synonym TagName = nat
type_synonym time_point = int \<comment> \<open>nanoseconds since the epoch, as \<^verbatim>\<open>system_clock\<close> counts them\<close>

section \<open>Enumerations\<close>

datatype RejectReasonSession = RS_InvalidTagNum | RS_RequiredTagMissing | RS_TagNotDefine
  | RS_UndefineTag | RS_TagWithoutValue | RS_ValueOutOfRange | RS_IncorrectDataFormat
  | RS_SignatureProblem | RS_CompIDProblem | RS_SendingTimeAccuracy | RS_InvalidMsgType
  | RS_raw int

datatype TransactionType = TT_New | TT_Cancel | TT_Correct | TT_Status | TT_raw char

datatype OrderStatus = OS_NewOrder | OS_PartiallyFilled | OS_Filled | OS_DoneForDay
  | OS_Canceled | OS_Replaced | OS_PendingCancel | OS_Stopped | OS_Rejected | OS_Suspended
  | OS_PendingNew | OS_Caluclated | OS_Expired | OS_AcceptedBidding_Restated
  | OS_PendingReplace | OS_raw char

type_synonym ExecutionStatus = OrderStatus

datatype OrderRejectReason = OR_BrokerOption | OR_UnknowSymbol | OR_ExchangeClose
  | OR_OrderExceedLimit | OR_TooLate | OR_UnknownOrder | OR_Duplicate | OR_DuplicateVerbally
  | OR_StaleOrder | OR_raw char

datatype Side = Side_Buy | Side_Sell | Side_BuyMinus | Side_SellPlus | Side_SellShort
  | Side_SellShortExempt | Side_Undisclosed | Side_Cross | Side_CrossShort | Side_raw char

datatype RejectReasonBusiness = RB_Other | RB_UnknownId | RB_UnknownSecurity
  | RB_UnsupportedMsgType | RB_AppNotAvailable | RB_CondReqFieldMissing | RB_raw char

datatype EncryptionMethod = EM_None | EM_PKCS | EM_DES | EM_PKCSDES | EM_PGPDES
  | EM_PGPDESMD5 | EM_PEMDESMD5 | EM_raw char

datatype HandleInstance = HI_AutoPrivate | HI_AutoPublic | HI_Manual | HI_raw char

datatype OrderType = OT_Market | OT_Limit | OT_Stop | OT_StopLimit | OT_MarketOnClose
  | OT_WithOrWithout | OT_LimitOrBetter | OT_LimitWithOrWithout | OT_OnBasis | OT_OnClose
  | OT_LimitOnClose | OT_ForexMarket | OT_PrevQuoted | OT_PrevIndicated | OT_ForexLimit
  | OT_ForexSwap | OT_ForexPrevQuoted | OT_Funari | OT_Pegged | OT_raw char

datatype CancelRejectResponseTo = CRT_CancelRequest | CRT_ReplaceRequest | CRT_raw char

datatype CancelRejectReason = CRR_TooLateCancel | CRR_UnknownOrderCancel
  | CRR_BrokerOptionCancel | CRR_OrderPendingCancelorReplace | CRR_raw char

section \<open>Orders\<close>

record Order =
  o_userId :: UserId
  o_orderId :: OrderId
  o_originalQty :: Quantity
  o_remainQty :: Quantity
  o_avgPrice :: Price
  o_side :: Side
  o_status :: OrderStatus

section \<open>Tags\<close>

definition tag_BeginString :: TagName where "tag_BeginString = 8"
definition tag_BodyLength :: TagName where "tag_BodyLength = 9"
definition tag_CheckSum :: TagName where "tag_CheckSum = 10"
definition tag_MsgSeqNum :: TagName where "tag_MsgSeqNum = 34"
definition tag_MsgType :: TagName where "tag_MsgType = 35"
definition tag_SenderCompId :: TagName where "tag_SenderCompId = 49"
definition tag_SendingTime :: TagName where "tag_SendingTime = 52"
definition tag_TargetCompId :: TagName where "tag_TargetCompId = 56"

lemmas tag_defs = tag_BeginString_def tag_BodyLength_def tag_CheckSum_def tag_MsgSeqNum_def
  tag_MsgType_def tag_SenderCompId_def tag_SendingTime_def tag_TargetCompId_def

section \<open>Messages\<close>

text \<open>The header: the three positional tags, then the free ones.\<close>

record Header =
  h_BeginString :: string
  h_BodyLength :: u32
  h_MsgType :: char
  h_SenderCompId :: string
  h_TargetCompId :: string
  h_MsgSeqNum :: u32
  h_SendingTime :: time_point

definition NUL :: char where "NUL = CHR 0x00"

definition Header_init :: Header where
  "Header_init = \<lparr>h_BeginString = [], h_BodyLength = 0, h_MsgType = NUL,
     h_SenderCompId = [], h_TargetCompId = [], h_MsgSeqNum = 0, h_SendingTime = 0\<rparr>"

text \<open>The message type of each message.\<close>

definition MT_HeartBeat :: char where "MT_HeartBeat = CHR ''0''"
definition MT_TestRequest :: char where "MT_TestRequest = CHR ''1''"
definition MT_SessionReject :: char where "MT_SessionReject = CHR ''3''"
definition MT_Logout :: char where "MT_Logout = CHR ''5''"
definition MT_ExecutionReport :: char where "MT_ExecutionReport = CHR ''8''"
definition MT_OrderCancelReject :: char where "MT_OrderCancelReject = CHR ''9''"
definition MT_BusinessReject :: char where "MT_BusinessReject = CHR ''j''"
definition MT_Logon :: char where "MT_Logon = CHR ''A''"
definition MT_NewOrderSingle :: char where "MT_NewOrderSingle = CHR ''D''"
definition MT_OrderCancelRequest :: char where "MT_OrderCancelRequest = CHR ''F''"

lemmas MT_defs [simp] = MT_HeartBeat_def MT_TestRequest_def MT_SessionReject_def MT_Logout_def
  MT_ExecutionReport_def MT_OrderCancelReject_def MT_BusinessReject_def MT_Logon_def
  MT_NewOrderSingle_def MT_OrderCancelRequest_def

record HeartBeat =
  hb_TestReqId :: "string option"

record TestRequest =
  tr_TestReqId :: string

record SessionReject =
  sr_RefSeqNum :: u32
  sr_RefTagId :: "TagName option"
  sr_RefMsgType :: "char option"
  sr_SessionRejectReason :: "RejectReasonSession option"
  sr_Text :: "string option"

record ExecutionReport =
  er_OrderID :: string
  er_ClOrdID :: "string option"
  er_ExecId :: string
  er_ExecTransType :: TransactionType
  er_ExecType :: ExecutionStatus
  er_OrdStatus :: OrderStatus
  er_OrdRejReason :: "OrderRejectReason option"
  er_Symbol :: string
  er_Side :: Side
  er_OrderQty :: "Quantity option"
  er_OrdType :: "OrderType option"
  er_Price :: "Price option"
  er_LeavesQty :: Quantity
  er_LastShares :: "Quantity option"
  er_LastPx :: "Quantity option"
  er_CumQty :: Quantity
  er_AvgPx :: Price
  er_Text :: "string option"

record OrderCancelReject =
  cr_OrderID :: string
  cr_OrigClOrdID :: string
  cr_OrdStatus :: OrderStatus
  cr_CxlRejResponseTo :: CancelRejectResponseTo
  cr_CxlRejReason :: "CancelRejectReason option"
  cr_Text :: "string option"

record BusinessReject =
  br_RefSeqNum :: "u32 option"
  br_RefMsgType :: char
  br_BusinessRejectRefId :: "string option"
  br_BusinessRejectReason :: RejectReasonBusiness
  br_Text :: "string option"

record Logon =
  lg_EncryptMethod :: EncryptionMethod
  lg_HeartBtInt :: u32

record NewOrderSingle =
  no_ClOrdID :: string
  no_HandlInst :: HandleInstance
  no_Symbol :: string
  no_Side :: Side
  no_OrderQty :: "Quantity option"
  no_OrdType :: OrderType
  no_Price :: "Price option"

record OrderCancelRequest =
  oc_OrigClOrdID :: string
  oc_OrderID :: "string option"
  oc_ClOrdID :: string
  oc_Symbol :: string
  oc_Side :: Side
  oc_TransactTime :: time_point
  oc_OrderQty :: "Quantity option"

text \<open>
  The body of a message, whatever its type. \<open>Msg_type\<close> is the \<^verbatim>\<open>::Type\<close> the code passes next to
  the body when it queues it.
\<close>

datatype FixMsg = M_HeartBeat HeartBeat | M_TestRequest TestRequest
  | M_SessionReject SessionReject | M_Logout | M_ExecutionReport ExecutionReport
  | M_OrderCancelReject OrderCancelReject | M_BusinessReject BusinessReject
  | M_Logon Logon | M_NewOrderSingle NewOrderSingle | M_OrderCancelRequest OrderCancelRequest

fun Msg_type :: "FixMsg \<Rightarrow> char" where
  "Msg_type (M_HeartBeat _) = MT_HeartBeat"
| "Msg_type (M_TestRequest _) = MT_TestRequest"
| "Msg_type (M_SessionReject _) = MT_SessionReject"
| "Msg_type M_Logout = MT_Logout"
| "Msg_type (M_ExecutionReport _) = MT_ExecutionReport"
| "Msg_type (M_OrderCancelReject _) = MT_OrderCancelReject"
| "Msg_type (M_BusinessReject _) = MT_BusinessReject"
| "Msg_type (M_Logon _) = MT_Logon"
| "Msg_type (M_NewOrderSingle _) = MT_NewOrderSingle"
| "Msg_type (M_OrderCancelRequest _) = MT_OrderCancelRequest"

section \<open>Value-initialised messages\<close>

text \<open>\<^verbatim>\<open>T msg{}\<close>: empty strings, zeros, empty optionals, and enumerations that hold the zero byte.\<close>

definition HeartBeat_init :: HeartBeat where
  "HeartBeat_init = \<lparr>hb_TestReqId = None\<rparr>"

definition TestRequest_init :: TestRequest where
  "TestRequest_init = \<lparr>tr_TestReqId = []\<rparr>"

definition SessionReject_init :: SessionReject where
  "SessionReject_init = \<lparr>sr_RefSeqNum = 0, sr_RefTagId = None, sr_RefMsgType = None,
     sr_SessionRejectReason = None, sr_Text = None\<rparr>"

definition ExecutionReport_init :: ExecutionReport where
  "ExecutionReport_init = \<lparr>er_OrderID = [], er_ClOrdID = None, er_ExecId = [],
     er_ExecTransType = TT_raw NUL, er_ExecType = OS_raw NUL, er_OrdStatus = OS_raw NUL,
     er_OrdRejReason = None, er_Symbol = [], er_Side = Side_raw NUL, er_OrderQty = None,
     er_OrdType = None, er_Price = None, er_LeavesQty = fzero, er_LastShares = None,
     er_LastPx = None, er_CumQty = fzero, er_AvgPx = fzero, er_Text = None\<rparr>"

definition OrderCancelReject_init :: OrderCancelReject where
  "OrderCancelReject_init = \<lparr>cr_OrderID = [], cr_OrigClOrdID = [], cr_OrdStatus = OS_raw NUL,
     cr_CxlRejResponseTo = CRT_raw NUL, cr_CxlRejReason = None, cr_Text = None\<rparr>"

definition BusinessReject_init :: BusinessReject where
  "BusinessReject_init = \<lparr>br_RefSeqNum = None, br_RefMsgType = NUL,
     br_BusinessRejectRefId = None, br_BusinessRejectReason = RB_raw NUL, br_Text = None\<rparr>"

definition Logon_init :: Logon where
  "Logon_init = \<lparr>lg_EncryptMethod = EM_raw NUL, lg_HeartBtInt = 0\<rparr>"

definition NewOrderSingle_init :: NewOrderSingle where
  "NewOrderSingle_init = \<lparr>no_ClOrdID = [], no_HandlInst = HI_raw NUL, no_Symbol = [],
     no_Side = Side_raw NUL, no_OrderQty = None, no_OrdType = OT_raw NUL, no_Price = None\<rparr>"

end
