(* ===== verification/FixConvert.thy ===== *)
theory FixConvert
  imports FixTypes
begin

text \<open>
  The field conversions of \<^verbatim>\<open>shared/Message-v2/src/FixConvertor.cpp\<close>: each \<^verbatim>\<open>from_FIX\<close> reads the
  text of a field into a value or a \<open>RejectError\<close>, each \<^verbatim>\<open>to_FIX\<close> writes a value. The
  character-coded enumerations share one interface, the locale \<open>char_enum\<close>, interpreted on
  every enumeration. \<^verbatim>\<open>std::from_chars\<close> and \<^verbatim>\<open>std::to_chars\<close> on unsigned integers are modelled
  as the standard defines them. The conversions of \<^verbatim>\<open>float\<close> and of time points are in
  \<open>FixTime\<close>.
\<close>

section \<open>Reject errors\<close>

text \<open>
  \<^verbatim>\<open>fix::RejectError\<close> belongs to the FIX-Message library; the source builds it with a reason, a
  text and, in some places, a tag. Reasons the source never names are \<open>OtherReason\<close>.
\<close>

datatype Reason = IncorrectFormat | ValueOORange | ReqTagMissing | OtherReason nat

record RejectError =
  re_Reason :: Reason
  re_Message :: string
  re_Tag :: "TagName option"

definition reject2 :: "Reason \<Rightarrow> string \<Rightarrow> RejectError" where
  "reject2 r t = \<lparr>re_Reason = r, re_Message = t, re_Tag = None\<rparr>"

definition reject3 :: "Reason \<Rightarrow> string \<Rightarrow> TagName \<Rightarrow> RejectError" where
  "reject3 r t g = \<lparr>re_Reason = r, re_Message = t, re_Tag = Some g\<rparr>"

section \<open>Decimal numbers\<close>

definition is_digit :: "char \<Rightarrow> bool" where
  "is_digit c \<longleftrightarrow> 48 \<le> (of_char c :: nat) \<and> (of_char c :: nat) \<le> 57"

definition digit_val :: "char \<Rightarrow> nat" where
  "digit_val c = of_char c - 48"

definition digit_char :: "nat \<Rightarrow> char" where
  "digit_char d = char_of (48 + d)"

fun dec_val :: "nat \<Rightarrow> string \<Rightarrow> nat" where
  "dec_val acc [] = acc"
| "dec_val acc (c # cs) = dec_val (10 * acc + digit_val c) cs"

fun dec_string :: "nat \<Rightarrow> string" where
  "dec_string n = (if n < 10 then [digit_char n] else dec_string (n div 10) @ [digit_char (n mod 10)])"
declare dec_string.simps [simp del]

text \<open>
  \<^verbatim>\<open>std::from_chars\<close> into an unsigned type whose largest value is \<open>mx\<close>: the longest prefix of
  digits is the number; no sign is accepted.
\<close>

datatype from_chars_result = FC_ok nat string | FC_invalid_argument | FC_out_of_range

definition from_chars_uint :: "nat \<Rightarrow> string \<Rightarrow> from_chars_result" where
  "from_chars_uint mx s =
     (let ds = takeWhile is_digit s; rest = dropWhile is_digit s; v = dec_val 0 ds
      in if ds = [] then FC_invalid_argument
         else if mx < v then FC_out_of_range else FC_ok v rest)"

lemma of_char_char_of_small: "n < 256 \<Longrightarrow> of_char (char_of n) = (n :: nat)"
  by simp

lemma digit_char_digit: "d < 10 \<Longrightarrow> is_digit (digit_char d) \<and> digit_val (digit_char d) = d"
  by (simp add: is_digit_def digit_val_def digit_char_def)

lemma dec_val_append: "dec_val acc (s @ t) = dec_val (dec_val acc s) t"
  by (induction s arbitrary: acc) auto

lemma dec_string_digits: "c \<in> set (dec_string n) \<Longrightarrow> is_digit c"
proof (induction n rule: dec_string.induct)
  case (1 n)
  then show ?case
    by (subst (asm) (2) dec_string.simps) (auto simp: digit_char_digit split: if_splits)
qed

lemma dec_string_nonempty [simp]: "dec_string n \<noteq> []"
  by (subst dec_string.simps) auto

lemma dec_val_dec_string: "dec_val 0 (dec_string n) = n"
proof (induction n rule: dec_string.induct)
  case (1 n)
  show ?case
  proof (cases "n < 10")
    case True
    then show ?thesis by (simp add: dec_string.simps[of n] digit_char_digit)
  next
    case False
    with 1 have "dec_val 0 (dec_string (n div 10)) = n div 10" by simp
    with False show ?thesis
      by (simp add: dec_string.simps[of n] dec_val_append digit_char_digit)
  qed
qed

lemma from_chars_dec_string: "n \<le> mx \<Longrightarrow> from_chars_uint mx (dec_string n) = FC_ok n []"
proof -
  assume n: "n \<le> mx"
  have t: "takeWhile is_digit (dec_string n) = dec_string n" "dropWhile is_digit (dec_string n) = []"
    by (simp_all add: takeWhile_eq_all_conv dec_string_digits)
  show ?thesis
    unfolding from_chars_uint_def Let_def t dec_val_dec_string using n by simp
qed

text \<open>The reading shared by the three unsigned conversions; \<open>ty\<close> is the type's name in the texts.\<close>

definition from_FIX_uint :: "nat \<Rightarrow> string \<Rightarrow> string \<Rightarrow> RejectError + nat" where
  "from_FIX_uint mx ty s = (case from_chars_uint mx s of
       FC_ok v rest \<Rightarrow> if rest = [] then Inr v
         else Inl (reject2 IncorrectFormat (''Unknow error will parsing '' @ ty))
     | FC_invalid_argument \<Rightarrow> Inl (reject2 IncorrectFormat (''Expected an '' @ ty))
     | FC_out_of_range \<Rightarrow> Inl (reject2 ValueOORange (''Value out of range of '' @ ty)))"

definition from_FIX_u8 :: "string \<Rightarrow> RejectError + u8" where
  "from_FIX_u8 s = map_sum id of_nat (from_FIX_uint 255 ''uint8_t'' s)"

definition to_FIX_u8 :: "u8 \<Rightarrow> string" where
  "to_FIX_u8 v = dec_string (unat v)"

definition from_FIX_u16 :: "string \<Rightarrow> RejectError + u16" where
  "from_FIX_u16 s = map_sum id of_nat (from_FIX_uint 65535 ''uint16_t'' s)"

definition to_FIX_u16 :: "u16 \<Rightarrow> string" where
  "to_FIX_u16 v = dec_string (unat v)"

definition from_FIX_u32 :: "string \<Rightarrow> RejectError + u32" where
  "from_FIX_u32 s = map_sum id of_nat (from_FIX_uint 4294967295 ''uint32_t'' s)"

definition to_FIX_u32 :: "u32 \<Rightarrow> string" where
  "to_FIX_u32 v = dec_string (unat v)"

lemma from_FIX_uint_dec: "n \<le> mx \<Longrightarrow> from_FIX_uint mx ty (dec_string n) = Inr n"
  by (simp add: from_FIX_uint_def from_chars_dec_string)

lemma from_FIX_uint_bound: "from_FIX_uint mx ty s = Inr n \<Longrightarrow> n \<le> mx"
  by (auto simp: from_FIX_uint_def from_chars_uint_def Let_def split: if_splits from_chars_result.splits)

lemma unat_u8_le: "unat (v :: u8) \<le> 255"
  using unsigned_less[of v, where ?'a = nat] by simp

lemma unat_u16_le: "unat (v :: u16) \<le> 65535"
  using unsigned_less[of v, where ?'a = nat] by simp

lemma unat_u32_le: "unat (v :: u32) \<le> 4294967295"
  using unsigned_less[of v, where ?'a = nat] by simp

lemma roundtrip_u8: "from_FIX_u8 (to_FIX_u8 v) = Inr v"
  by (simp add: from_FIX_u8_def to_FIX_u8_def from_FIX_uint_dec unat_u8_le)

lemma roundtrip_u16: "from_FIX_u16 (to_FIX_u16 v) = Inr v"
  by (simp add: from_FIX_u16_def to_FIX_u16_def from_FIX_uint_dec unat_u16_le)

lemma roundtrip_u32: "from_FIX_u32 (to_FIX_u32 v) = Inr v"
  by (simp add: from_FIX_u32_def to_FIX_u32_def from_FIX_uint_dec unat_u32_le)

section \<open>Strings and characters\<close>

text \<open>\<^verbatim>\<open>_value[0]\<close> of an empty \<^verbatim>\<open>std::string\<close> is the terminating zero byte.\<close>

definition first_char :: "string \<Rightarrow> char" where
  "first_char s = (case s of [] \<Rightarrow> NUL | c # _ \<Rightarrow> c)"

definition from_FIX_string :: "string \<Rightarrow> RejectError + string" where
  "from_FIX_string s = Inr s"

definition to_FIX_string :: "string \<Rightarrow> string" where
  "to_FIX_string s = s"

definition from_FIX_char :: "string \<Rightarrow> RejectError + char" where
  "from_FIX_char s = (if 1 < length s then Inl (reject2 ValueOORange ''Expected a char'')
     else Inr (first_char s))"

definition to_FIX_char :: "char \<Rightarrow> string" where
  "to_FIX_char c = [c]"

section \<open>Character-coded enumerations\<close>

text \<open>\<^verbatim>\<open>static_cast<E>(c)\<close>: the enumerator with that code, else the raw value.\<close>

definition enum_of_char :: "('e \<Rightarrow> char) \<Rightarrow> (char \<Rightarrow> 'e) \<Rightarrow> 'e list \<Rightarrow> char \<Rightarrow> 'e" where
  "enum_of_char code raw es c = (case find (\<lambda>e. code e = c) es of Some e \<Rightarrow> e | None \<Rightarrow> raw c)"

text \<open>The body the eleven readers share: the length check, the cast, the switch over the enumerators.\<close>

definition enum_from_FIX ::
    "('e \<Rightarrow> char) \<Rightarrow> (char \<Rightarrow> 'e) \<Rightarrow> 'e list \<Rightarrow> string \<Rightarrow> string \<Rightarrow> RejectError + 'e" where
  "enum_from_FIX code raw es txt s =
     (if 1 < length s then Inl (reject2 IncorrectFormat ''Value to long'')
      else let out = enum_of_char code raw es (first_char s)
           in if out \<in> set es then Inr out else Inl (reject2 ValueOORange txt))"

definition enum_to_FIX :: "('e \<Rightarrow> char) \<Rightarrow> 'e \<Rightarrow> string" where
  "enum_to_FIX code e = [code e]"

text \<open>
  What the readers and writers rely on: the codes of the enumerators differ, a raw value is
  its own code and is no enumerator.
\<close>

locale char_enum =
  fixes code :: "'e \<Rightarrow> char" and raw :: "char \<Rightarrow> 'e" and es :: "'e list"
  assumes codes_distinct: "distinct (map code es)"
    and raw_code: "code (raw c) = c"
    and raw_no_enumerator: "raw c \<notin> set es"
begin

lemma of_char_code: "e \<in> set es \<Longrightarrow> enum_of_char code raw es (code e) = e"
proof -
  assume e: "e \<in> set es"
  have "find (\<lambda>x. code x = code e) es = Some e"
    using codes_distinct e by (intro find_unique) (auto simp: distinct_map inj_on_def)
  then show ?thesis by (simp add: enum_of_char_def)
qed

lemma code_of_char: "code (enum_of_char code raw es c) = c"
  by (auto simp: enum_of_char_def raw_code split: option.splits dest: find_Some_in)

lemma of_char_enumerator: "enum_of_char code raw es c \<in> set es \<longleftrightarrow> c \<in> code ` set es"
  by (metis (no_types, lifting) code_of_char image_iff of_char_code)

lemma read_written: "e \<in> set es \<Longrightarrow> enum_from_FIX code raw es txt (enum_to_FIX code e) = Inr e"
  by (simp add: enum_from_FIX_def enum_to_FIX_def first_char_def of_char_code)

lemma read_ok_iff:
  "enum_from_FIX code raw es txt s = Inr e
     \<longleftrightarrow> length s \<le> 1 \<and> e \<in> set es \<and> code e = first_char s"
  using of_char_code[of e] code_of_char[of "first_char s"]
  by (auto simp: enum_from_FIX_def Let_def split: if_splits)

lemma written_read: "enum_from_FIX code raw es txt s = Inr e \<Longrightarrow> s \<noteq> [] \<Longrightarrow> enum_to_FIX code e = s"
  by (cases s) (auto simp: read_ok_iff enum_to_FIX_def first_char_def)

end

section \<open>The enumerations of the protocol\<close>

fun TransactionType_code :: "TransactionType \<Rightarrow> char" where
  "TransactionType_code TT_New = CHR ''0''"
| "TransactionType_code TT_Cancel = CHR ''1''"
| "TransactionType_code TT_Correct = CHR ''2''"
| "TransactionType_code TT_Status = CHR ''3''"
| "TransactionType_code (TT_raw c) = c"

definition TransactionType_all :: "TransactionType list" where
  "TransactionType_all = [TT_New, TT_Cancel, TT_Correct, TT_Status]"

definition from_FIX_TransactionType :: "string \<Rightarrow> RejectError + TransactionType" where
  "from_FIX_TransactionType = enum_from_FIX TransactionType_code TT_raw TransactionType_all
     ''Expected: 0 GE value GE 3''"

definition to_FIX_TransactionType :: "TransactionType \<Rightarrow> string" where
  "to_FIX_TransactionType = enum_to_FIX TransactionType_code"

interpretation tt: char_enum TransactionType_code TT_raw TransactionType_all
  by unfold_locales (auto simp: TransactionType_all_def)

fun OrderStatus_code :: "OrderStatus \<Rightarrow> char" where
  "OrderStatus_code OS_NewOrder = CHR ''0''"
| "OrderStatus_code OS_PartiallyFilled = CHR ''1''"
| "OrderStatus_code OS_Filled = CHR ''2''"
| "OrderStatus_code OS_DoneForDay = CHR ''3''"
| "OrderStatus_code OS_Canceled = CHR ''4''"
| "OrderStatus_code OS_Replaced = CHR ''5''"
| "OrderStatus_code OS_PendingCancel = CHR ''6''"
| "OrderStatus_code OS_Stopped = CHR ''7''"
| "OrderStatus_code OS_Rejected = CHR ''8''"
| "OrderStatus_code OS_Suspended = CHR ''9''"
| "OrderStatus_code OS_PendingNew = CHR ''A''"
| "OrderStatus_code OS_Caluclated = CHR ''B''"
| "OrderStatus_code OS_Expired = CHR ''C''"
| "OrderStatus_code OS_AcceptedBidding_Restated = CHR ''D''"
| "OrderStatus_code OS_PendingReplace = CHR ''E''"
| "OrderStatus_code (OS_raw c) = c"

definition OrderStatus_all :: "OrderStatus list" where
  "OrderStatus_all = [OS_NewOrder, OS_PartiallyFilled, OS_Filled, OS_DoneForDay, OS_Canceled,
     OS_Replaced, OS_PendingCancel, OS_Stopped, OS_Rejected, OS_Suspended, OS_PendingNew,
     OS_Caluclated, OS_Expired, OS_AcceptedBidding_Restated, OS_PendingReplace]"

definition from_FIX_OrderStatus :: "string \<Rightarrow> RejectError + OrderStatus" where
  "from_FIX_OrderStatus = enum_from_FIX OrderStatus_code OS_raw OrderStatus_all
     ''Expected: 0 GE value GE 9 || A GE value GE E''"

definition to_FIX_OrderStatus :: "OrderStatus \<Rightarrow> string" where
  "to_FIX_OrderStatus = enum_to_FIX OrderStatus_code"

interpretation os: char_enum OrderStatus_code OS_raw OrderStatus_all
  by unfold_locales (auto simp: OrderStatus_all_def)

fun OrderRejectReason_code :: "OrderRejectReason \<Rightarrow> char" where
  "OrderRejectReason_code OR_BrokerOption = CHR ''0''"
| "OrderRejectReason_code OR_UnknowSymbol = CHR ''1''"
| "OrderRejectReason_code OR_ExchangeClose = CHR ''2''"
| "OrderRejectReason_code OR_OrderExceedLimit = CHR ''3''"
| "OrderRejectReason_code OR_TooLate = CHR ''4''"
| "OrderRejectReason_code OR_UnknownOrder = CHR ''5''"
| "OrderRejectReason_code OR_Duplicate = CHR ''6''"
| "OrderRejectReason_code OR_DuplicateVerbally = CHR ''7''"
| "OrderRejectReason_code OR_StaleOrder = CHR ''8''"
| "OrderRejectReason_code (OR_raw c) = c"

definition OrderRejectReason_all :: "OrderRejectReason list" where
  "OrderRejectReason_all = [OR_BrokerOption, OR_UnknowSymbol, OR_ExchangeClose,
     OR_OrderExceedLimit, OR_TooLate, OR_UnknownOrder, OR_Duplicate, OR_DuplicateVerbally,
     OR_StaleOrder]"

definition from_FIX_OrderRejectReason :: "string \<Rightarrow> RejectError + OrderRejectReason" where
  "from_FIX_OrderRejectReason = enum_from_FIX OrderRejectReason_code OR_raw
     OrderRejectReason_all ''Expected: 0 GE value GE 8''"

definition to_FIX_OrderRejectReason :: "OrderRejectReason \<Rightarrow> string" where
  "to_FIX_OrderRejectReason = enum_to_FIX OrderRejectReason_code"

interpretation orr: char_enum OrderRejectReason_code OR_raw OrderRejectReason_all
  by unfold_locales (auto simp: OrderRejectReason_all_def)

fun Side_code :: "Side \<Rightarrow> char" where
  "Side_code Side_Buy = CHR ''1''"
| "Side_code Side_Sell = CHR ''2''"
| "Side_code Side_BuyMinus = CHR ''3''"
| "Side_code Side_SellPlus = CHR ''4''"
| "Side_code Side_SellShort = CHR ''5''"
| "Side_code Side_SellShortExempt = CHR ''6''"
| "Side_code Side_Undisclosed = CHR ''7''"
| "Side_code Side_Cross = CHR ''8''"
| "Side_code Side_CrossShort = CHR ''9''"
| "Side_code (Side_raw c) = c"

definition Side_all :: "Side list" where
  "Side_all = [Side_Buy, Side_Sell, Side_BuyMinus, Side_SellPlus, Side_SellShort,
     Side_SellShortExempt, Side_Undisclosed, Side_Cross, Side_CrossShort]"

definition from_FIX_Side :: "string \<Rightarrow> RejectError + Side" where
  "from_FIX_Side = enum_from_FIX Side_code Side_raw Side_all ''Expected: 1 GE value GE 9''"

definition to_FIX_Side :: "Side \<Rightarrow> string" where
  "to_FIX_Side = enum_to_FIX Side_code"

interpretation sd: char_enum Side_code Side_raw Side_all
  by unfold_locales (auto simp: Side_all_def)

fun RejectReasonBusiness_code :: "RejectReasonBusiness \<Rightarrow> char" where
  "RejectReasonBusiness_code RB_Other = CHR ''0''"
| "RejectReasonBusiness_code RB_UnknownId = CHR ''1''"
| "RejectReasonBusiness_code RB_UnknownSecurity = CHR ''2''"
| "RejectReasonBusiness_code RB_UnsupportedMsgType = CHR ''3''"
| "RejectReasonBusiness_code RB_AppNotAvailable = CHR ''4''"
| "RejectReasonBusiness_code RB_CondReqFieldMissing = CHR ''5''"
| "RejectReasonBusiness_code (RB_raw c) = c"

definition RejectReasonBusiness_all :: "RejectReasonBusiness list" where
  "RejectReasonBusiness_all = [RB_Other, RB_UnknownId, RB_UnknownSecurity,
     RB_UnsupportedMsgType, RB_AppNotAvailable, RB_CondReqFieldMissing]"

definition from_FIX_RejectReasonBusiness :: "string \<Rightarrow> RejectError + RejectReasonBusiness" where
  "from_FIX_RejectReasonBusiness = enum_from_FIX RejectReasonBusiness_code RB_raw
     RejectReasonBusiness_all ''Expected: 0 GE value GE 5''"

definition to_FIX_RejectReasonBusiness :: "RejectReasonBusiness \<Rightarrow> string" where
  "to_FIX_RejectReasonBusiness = enum_to_FIX RejectReasonBusiness_code"

interpretation rb: char_enum RejectReasonBusiness_code RB_raw RejectReasonBusiness_all
  by unfold_locales (auto simp: RejectReasonBusiness_all_def)

fun EncryptionMethod_code :: "EncryptionMethod \<Rightarrow> char" where
  "EncryptionMethod_code EM_None = CHR ''0''"
| "EncryptionMethod_code EM_PKCS = CHR ''1''"
| "EncryptionMethod_code EM_DES = CHR ''2''"
| "EncryptionMethod_code EM_PKCSDES = CHR ''3''"
| "EncryptionMethod_code EM_PGPDES = CHR ''4''"
| "EncryptionMethod_code EM_PGPDESMD5 = CHR ''5''"
| "EncryptionMethod_code EM_PEMDESMD5 = CHR ''6''"
| "EncryptionMethod_code (EM_raw c) = c"

definition EncryptionMethod_all :: "EncryptionMethod list" where
  "EncryptionMethod_all = [EM_None, EM_PKCS, EM_DES, EM_PKCSDES, EM_PGPDES, EM_PGPDESMD5,
     EM_PEMDESMD5]"

definition from_FIX_EncryptionMethod :: "string \<Rightarrow> RejectError + EncryptionMethod" where
  "from_FIX_EncryptionMethod = enum_from_FIX EncryptionMethod_code EM_raw EncryptionMethod_all
     ''Expected: 0 GE value GE 6''"

definition to_FIX_EncryptionMethod :: "EncryptionMethod \<Rightarrow> string" where
  "to_FIX_EncryptionMethod = enum_to_FIX EncryptionMethod_code"

interpretation em: char_enum EncryptionMethod_code EM_raw EncryptionMethod_all
  by unfold_locales (auto simp: EncryptionMethod_all_def)

fun HandleInstance_code :: "HandleInstance \<Rightarrow> char" where
  "HandleInstance_code HI_AutoPrivate = CHR ''1''"
| "HandleInstance_code HI_AutoPublic = CHR ''2''"
| "HandleInstance_code HI_Manual = CHR ''3''"
| "HandleInstance_code (HI_raw c) = c"

definition HandleInstance_all :: "HandleInstance list" where
  "HandleInstance_all = [HI_AutoPrivate, HI_AutoPublic, HI_Manual]"

definition from_FIX_HandleInstance :: "string \<Rightarrow> RejectError + HandleInstance" where
  "from_FIX_HandleInstance = enum_from_FIX HandleInstance_code HI_raw HandleInstance_all
     ''Expected: 1 GE value GE 3''"

definition to_FIX_HandleInstance :: "HandleInstance \<Rightarrow> string" where
  "to_FIX_HandleInstance = enum_to_FIX HandleInstance_code"

interpretation hi: char_enum HandleInstance_code HI_raw HandleInstance_all
  by unfold_locales (auto simp: HandleInstance_all_def)

fun OrderType_code :: "OrderType \<Rightarrow> char" where
  "OrderType_code OT_Market = CHR ''1''"
| "OrderType_code OT_Limit = CHR ''2''"
| "OrderType_code OT_Stop = CHR ''3''"
| "OrderType_code OT_StopLimit = CHR ''4''"
| "OrderType_code OT_MarketOnClose = CHR ''5''"
| "OrderType_code OT_WithOrWithout = CHR ''6''"
| "OrderType_code OT_LimitOrBetter = CHR ''7''"
| "OrderType_code OT_LimitWithOrWithout = CHR ''8''"
| "OrderType_code OT_OnBasis = CHR ''9''"
| "OrderType_code OT_OnClose = CHR ''A''"
| "OrderType_code OT_LimitOnClose = CHR ''B''"
| "OrderType_code OT_ForexMarket = CHR ''C''"
| "OrderType_code OT_PrevQuoted = CHR ''D''"
| "OrderType_code OT_PrevIndicated = CHR ''E''"
| "OrderType_code OT_ForexLimit = CHR ''F''"
| "OrderType_code OT_ForexSwap = CHR ''G''"
| "OrderType_code OT_ForexPrevQuoted = CHR ''H''"
| "OrderType_code OT_Funari = CHR ''I''"
| "OrderType_code OT_Pegged = CHR ''P''"
| "OrderType_code (OT_raw c) = c"

definition OrderType_all :: "OrderType list" where
  "OrderType_all = [OT_Market, OT_Limit, OT_Stop, OT_StopLimit, OT_MarketOnClose,
     OT_WithOrWithout, OT_LimitOrBetter, OT_LimitWithOrWithout, OT_OnBasis, OT_OnClose,
     OT_LimitOnClose, OT_ForexMarket, OT_PrevQuoted, OT_PrevIndicated, OT_ForexLimit,
     OT_ForexSwap, OT_ForexPrevQuoted, OT_Funari, OT_Pegged]"

definition from_FIX_OrderType :: "string \<Rightarrow> RejectError + OrderType" where
  "from_FIX_OrderType = enum_from_FIX OrderType_code OT_raw OrderType_all
     ''Expected: 1 GE value GE 9 || A GE value GE I || value EQ P''"

definition to_FIX_OrderType :: "OrderType \<Rightarrow> string" where
  "to_FIX_OrderType = enum_to_FIX OrderType_code"

interpretation ot: char_enum OrderType_code OT_raw OrderType_all
  by unfold_locales (auto simp: OrderType_all_def)

fun CancelRejectResponseTo_code :: "CancelRejectResponseTo \<Rightarrow> char" where
  "CancelRejectResponseTo_code CRT_CancelRequest = CHR ''1''"
| "CancelRejectResponseTo_code CRT_ReplaceRequest = CHR ''2''"
| "CancelRejectResponseTo_code (CRT_raw c) = c"

definition CancelRejectResponseTo_all :: "CancelRejectResponseTo list" where
  "CancelRejectResponseTo_all = [CRT_CancelRequest, CRT_ReplaceRequest]"

definition from_FIX_CancelRejectResponseTo :: "string \<Rightarrow> RejectError + CancelRejectResponseTo" where
  "from_FIX_CancelRejectResponseTo = enum_from_FIX CancelRejectResponseTo_code CRT_raw
     CancelRejectResponseTo_all ''Expected: value EQ 1 OR 2''"

definition to_FIX_CancelRejectResponseTo :: "CancelRejectResponseTo \<Rightarrow> string" where
  "to_FIX_CancelRejectResponseTo = enum_to_FIX CancelRejectResponseTo_code"

interpretation crt: char_enum CancelRejectResponseTo_code CRT_raw CancelRejectResponseTo_all
  by unfold_locales (auto simp: CancelRejectResponseTo_all_def)

fun CancelRejectReason_code :: "CancelRejectReason \<Rightarrow> char" where
  "CancelRejectReason_code CRR_TooLateCancel = CHR ''0''"
| "CancelRejectReason_code CRR_UnknownOrderCancel = CHR ''1''"
| "CancelRejectReason_code CRR_BrokerOptionCancel = CHR ''2''"
| "CancelRejectReason_code CRR_OrderPendingCancelorReplace = CHR ''3''"
| "CancelRejectReason_code (CRR_raw c) = c"

definition CancelRejectReason_all :: "CancelRejectReason list" where
  "CancelRejectReason_all = [CRR_TooLateCancel, CRR_UnknownOrderCancel,
     CRR_BrokerOptionCancel, CRR_OrderPendingCancelorReplace]"

definition from_FIX_CancelRejectReason :: "string \<Rightarrow> RejectError + CancelRejectReason" where
  "from_FIX_CancelRejectReason = enum_from_FIX CancelRejectReason_code CRR_raw
     CancelRejectReason_all ''Expected: 1 GE value GE 4''"

definition to_FIX_CancelRejectReason :: "CancelRejectReason \<Rightarrow> string" where
  "to_FIX_CancelRejectReason = enum_to_FIX CancelRejectReason_code"

interpretation crr: char_enum CancelRejectReason_code CRR_raw CancelRejectReason_all
  by unfold_locales (auto simp: CancelRejectReason_all_def)

lemmas from_FIX_enum_defs = from_FIX_TransactionType_def from_FIX_OrderStatus_def
  from_FIX_OrderRejectReason_def from_FIX_Side_def from_FIX_RejectReasonBusiness_def
  from_FIX_EncryptionMethod_def from_FIX_HandleInstance_def from_FIX_OrderType_def
  from_FIX_CancelRejectResponseTo_def from_FIX_CancelRejectReason_def

lemmas to_FIX_enum_defs = to_FIX_TransactionType_def to_FIX_OrderStatus_def
  to_FIX_OrderRejectReason_def to_FIX_Side_def to_FIX_RejectReasonBusiness_def
  to_FIX_EncryptionMethod_def to_FIX_HandleInstance_def to_FIX_OrderType_def
  to_FIX_CancelRejectResponseTo_def to_FIX_CancelRejectReason_def

section \<open>The number-coded session reject reason\<close>

fun RejectReasonSession_code :: "RejectReasonSession \<Rightarrow> int" where
  "RejectReasonSession_code RS_InvalidTagNum = 1"
| "RejectReasonSession_code RS_RequiredTagMissing = 2"
| "RejectReasonSession_code RS_TagNotDefine = 3"
| "RejectReasonSession_code RS_UndefineTag = 4"
| "RejectReasonSession_code RS_TagWithoutValue = 5"
| "RejectReasonSession_code RS_ValueOutOfRange = 6"
| "RejectReasonSession_code RS_IncorrectDataFormat = 7"
| "RejectReasonSession_code RS_SignatureProblem = 8"
| "RejectReasonSession_code RS_CompIDProblem = 9"
| "RejectReasonSession_code RS_SendingTimeAccuracy = 10"
| "RejectReasonSession_code RS_InvalidMsgType = 11"
| "RejectReasonSession_code (RS_raw i) = i"

definition RejectReasonSession_all :: "RejectReasonSession list" where
  "RejectReasonSession_all = [RS_InvalidTagNum, RS_RequiredTagMissing, RS_TagNotDefine,
     RS_UndefineTag, RS_TagWithoutValue, RS_ValueOutOfRange, RS_IncorrectDataFormat,
     RS_SignatureProblem, RS_CompIDProblem, RS_SendingTimeAccuracy, RS_InvalidMsgType]"

definition RejectReasonSession_of_int :: "int \<Rightarrow> RejectReasonSession" where
  "RejectReasonSession_of_int i =
     (case find (\<lambda>e. RejectReasonSession_code e = i) RejectReasonSession_all of
        Some e \<Rightarrow> e | None \<Rightarrow> RS_raw i)"

definition from_FIX_RejectReasonSession :: "string \<Rightarrow> RejectError + RejectReasonSession" where
  "from_FIX_RejectReasonSession s = (case from_FIX_uint 255 ''uint8_t'' s of
       Inl e \<Rightarrow> Inl e
     | Inr n \<Rightarrow> let out = RejectReasonSession_of_int (int n)
         in if out \<in> set RejectReasonSession_all then Inr out
            else Inl (reject2 ValueOORange ''Expected: 1 GE value GE 10''))"

text \<open>
  \<^verbatim>\<open>std::to_chars\<close> into an uninitialised buffer of two characters: when the text is longer, the
  end of the buffer is returned and what the buffer held, \<open>buf\<close>, is appended.
\<close>

definition to_FIX_RejectReasonSession :: "string \<Rightarrow> RejectReasonSession \<Rightarrow> string" where
  "to_FIX_RejectReasonSession buf e =
     (let i = RejectReasonSession_code e;
          s = (if i < 0 then CHR ''-'' # dec_string (nat (- i)) else dec_string (nat i))
      in if length s \<le> 2 then s else buf)"

lemma dec_string_two_digits: "n < 100 \<Longrightarrow> length (dec_string n) \<le> 2"
  by (auto simp: dec_string.simps[of n] dec_string.simps[of "n div 10"])

lemma RejectReasonSession_of_int_code:
  "e \<in> set RejectReasonSession_all \<Longrightarrow> RejectReasonSession_of_int (RejectReasonSession_code e) = e"
  by (auto simp: RejectReasonSession_of_int_def RejectReasonSession_all_def)

lemma roundtrip_RejectReasonSession:
  assumes "e \<in> set RejectReasonSession_all"
  shows "from_FIX_RejectReasonSession (to_FIX_RejectReasonSession buf e) = Inr e"
proof -
  have b: "0 \<le> RejectReasonSession_code e \<and> RejectReasonSession_code e \<le> 11"
    using assms by (auto simp: RejectReasonSession_all_def)
  then have "nat (RejectReasonSession_code e) < 100" by linarith
  with b have "to_FIX_RejectReasonSession buf e = dec_string (nat (RejectReasonSession_code e))"
    using dec_string_two_digits[of "nat (RejectReasonSession_code e)"]
    by (auto simp: to_FIX_RejectReasonSession_def Let_def)
  moreover have "from_FIX_uint 255 ''uint8_t'' (dec_string (nat (RejectReasonSession_code e)))
    = Inr (nat (RejectReasonSession_code e))"
    by (rule from_FIX_uint_dec) (use b in linarith)
  ultimately show ?thesis
    using b assms by (simp add: from_FIX_RejectReasonSession_def RejectReasonSession_of_int_code Let_def)
qed

end
