(* ===== verification/FixTime.thy ===== *)
theory FixTime
  imports FixConvert "HOL-Library.Signed_Division"
begin

text \<open>
  The conversions of time points and of \<^verbatim>\<open>float\<close> in \<^verbatim>\<open>FixConvertor.cpp\<close>. The broken-down time is
  \<^verbatim>\<open>std::tm\<close>; \<open>mktime\<close> and \<open>gmtime\<close> of the C library and the floating point versions of
  \<^verbatim>\<open>std::from_chars\<close> and \<^verbatim>\<open>std::to_chars\<close> are arguments.
\<close>

record tm =
  tm_year :: int \<comment> \<open>years since 1900\<close>
  tm_mon :: int \<comment> \<open>from 0\<close>
  tm_mday :: int
  tm_hour :: int
  tm_min :: int
  tm_sec :: int

section \<open>Reading\<close>

text \<open>\<^verbatim>\<open>parse2\<close> and \<^verbatim>\<open>parse4\<close>: \<open>n\<close> digits from position \<open>p\<close>; their value always fits the variable.\<close>

definition parse_digits :: "nat \<Rightarrow> nat \<Rightarrow> string \<Rightarrow> nat option" where
  "parse_digits n p s = (let d = take n (drop p s) in if list_all is_digit d then Some (dec_val 0 d) else None)"

definition time_format_error :: RejectError where
  "time_format_error = reject2 IncorrectFormat ''Awaited a time format''"

definition time_shape :: "string \<Rightarrow> bool" where
  "time_shape s \<longleftrightarrow> length s = 17 \<and> s ! 8 = CHR ''-'' \<and> s ! 11 = CHR '':'' \<and> s ! 14 = CHR '':''"

definition parse_tm :: "string \<Rightarrow> tm option" where
  "parse_tm s = (if \<not> time_shape s then None else
     case (parse_digits 4 0 s, parse_digits 2 4 s, parse_digits 2 6 s, parse_digits 2 9 s, parse_digits 2 12 s, parse_digits 2 15 s) of
       (Some year, Some month, Some day, Some hour, Some mn, Some sec) \<Rightarrow>
         Some \<lparr>tm_year = int year - 1900, tm_mon = int month - 1, tm_mday = int day, tm_hour = int hour, tm_min = int mn, tm_sec = int sec\<rparr>
     | _ \<Rightarrow> None)"

text \<open>\<open>mktime\<close> gives seconds since the epoch, -1 for a time it cannot represent.\<close>

definition from_FIX_time :: "(tm \<Rightarrow> int) \<Rightarrow> string \<Rightarrow> RejectError + time_point" where
  "from_FIX_time mktime s = (case parse_tm s of
       None \<Rightarrow> Inl time_format_error
     | Some t \<Rightarrow> if mktime t = -1 then Inl (reject2 ValueOORange ''Unknow error on time convertion'')
         else Inr (mktime t * 1000000000))"

section \<open>Writing\<close>

text \<open>\<^verbatim>\<open>'0' + n\<close> stored in a \<^verbatim>\<open>char\<close>; division and remainder truncate.\<close>

definition digit_of :: "int \<Rightarrow> char" where
  "digit_of n = char_of (nat ((48 + n) mod 256))"

definition write_tm :: "tm \<Rightarrow> string" where
  "write_tm t = (let year = 1900 + tm_year t; month = tm_mon t + 1; day = tm_mday t;
       hour = tm_hour t; minute = tm_min t; second = tm_sec t in
     [digit_of ((year sdiv 1000) smod 10), digit_of ((year sdiv 100) smod 10), digit_of ((year sdiv 10) smod 10), digit_of (year smod 10),
      digit_of (month sdiv 10), digit_of (month smod 10), digit_of (day sdiv 10), digit_of (day smod 10), CHR ''-'',
      digit_of (hour sdiv 10), digit_of (hour smod 10), CHR '':'', digit_of (minute sdiv 10), digit_of (minute smod 10), CHR '':'',
      digit_of (second sdiv 10), digit_of (second smod 10)])"

definition to_FIX_time :: "(int \<Rightarrow> tm) \<Rightarrow> time_point \<Rightarrow> string" where
  "to_FIX_time gmtime t = write_tm (gmtime (t sdiv 1000000000))"

section \<open>Round trip\<close>

text \<open>The fields that fit their places in the text.\<close>

definition tm_ok :: "tm \<Rightarrow> bool" where
  "tm_ok t \<longleftrightarrow> 0 \<le> 1900 + tm_year t \<and> 1900 + tm_year t < 10000 \<and> 0 \<le> tm_mon t \<and> tm_mon t < 99
     \<and> 0 \<le> tm_mday t \<and> tm_mday t < 100 \<and> 0 \<le> tm_hour t \<and> tm_hour t < 100
     \<and> 0 \<le> tm_min t \<and> tm_min t < 100 \<and> 0 \<le> tm_sec t \<and> tm_sec t < 100"

lemma digit_of_digit:
  assumes "0 \<le> d" "d < 10"
  shows "is_digit (digit_of d)" "int (digit_val (digit_of d)) = d"
proof -
  have "digit_of d = digit_char (nat d)" using assms by (simp add: digit_of_def digit_char_def nat_add_distrib)
  with digit_char_digit[of "nat d"] assms show "is_digit (digit_of d)" "int (digit_val (digit_of d)) = d" by simp_all
qed

lemma trunc_nonneg:
  "0 \<le> (x :: int) \<Longrightarrow> 0 < k \<Longrightarrow> x sdiv k = x div k" "0 \<le> x \<Longrightarrow> 0 < k \<Longrightarrow> x smod k = x mod k"
  by (simp_all add: signed_divide_int_def signed_modulo_int_def sgn_if)

lemma two_digits:
  assumes "0 \<le> n" "n < 100"
  shows "is_digit (digit_of (n sdiv 10))" "is_digit (digit_of (n smod 10))"
    "dec_val 0 [digit_of (n sdiv 10), digit_of (n smod 10)] = nat n"
proof -
  have r: "0 \<le> n div 10" "n div 10 < 10" "0 \<le> n mod 10" "n mod 10 < 10" using assms by auto
  show "is_digit (digit_of (n sdiv 10))" "is_digit (digit_of (n smod 10))"
    using r assms by (simp_all add: trunc_nonneg digit_of_digit)
  have "int (dec_val 0 [digit_of (n div 10), digit_of (n mod 10)]) = n"
    using digit_of_digit(2)[OF r(1,2)] digit_of_digit(2)[OF r(3,4)] by simp
  then show "dec_val 0 [digit_of (n sdiv 10), digit_of (n smod 10)] = nat n"
    using assms by (simp add: trunc_nonneg)
qed

lemma four_digits:
  assumes "0 \<le> n" "n < 10000"
  defines "ds \<equiv> [digit_of ((n sdiv 1000) smod 10), digit_of ((n sdiv 100) smod 10), digit_of ((n sdiv 10) smod 10), digit_of (n smod 10)]"
  shows "list_all is_digit ds" "dec_val 0 ds = nat n"
proof -
  let ?a = "(n div 1000) mod 10" and ?b = "(n div 100) mod 10" and ?c = "(n div 10) mod 10" and ?d = "n mod 10"
  have ds: "ds = [digit_of ?a, digit_of ?b, digit_of ?c, digit_of ?d]"
    using assms(1) by (simp add: ds_def trunc_nonneg pos_imp_zdiv_nonneg_iff)
  show "list_all is_digit ds" by (simp add: ds digit_of_digit)
  have "int (dec_val 0 ds) = 1000 * ?a + 100 * ?b + 10 * ?c + ?d"
    by (simp add: ds digit_of_digit)
  also have "\<dots> = n"
  proof -
    have "n div 100 = n div 10 div 10" "n div 1000 = n div 100 div 10" by (simp_all add: div_mult2_eq[symmetric] zdiv_zmult2_eq[symmetric])
    moreover have "0 \<le> n div 1000" "n div 1000 < 10" using assms(1,2) by (simp_all add: pos_imp_zdiv_nonneg_iff)
    then have "?a = n div 1000" by simp
    ultimately show ?thesis
      using mult_div_mod_eq[of 10 n] mult_div_mod_eq[of 10 "n div 10"] mult_div_mod_eq[of 10 "n div 100"] by linarith
  qed
  finally show "dec_val 0 ds = nat n" by simp
qed

lemma parse_tm_chars:
  assumes "list_all is_digit [y1, y2, y3, y4]" "list_all is_digit [m1, m2, d1, d2, h1, h2, i1, i2, s1, s2]"
  shows "parse_tm [y1, y2, y3, y4, m1, m2, d1, d2, CHR ''-'', h1, h2, CHR '':'', i1, i2, CHR '':'', s1, s2]
    = Some \<lparr>tm_year = int (dec_val 0 [y1, y2, y3, y4]) - 1900, tm_mon = int (dec_val 0 [m1, m2]) - 1, tm_mday = int (dec_val 0 [d1, d2]),
        tm_hour = int (dec_val 0 [h1, h2]), tm_min = int (dec_val 0 [i1, i2]), tm_sec = int (dec_val 0 [s1, s2])\<rparr>"
  using assms by (simp add: parse_tm_def time_shape_def parse_digits_def del: dec_val.simps)

lemma parse_write:
  assumes "tm_ok t"
  shows "parse_tm (write_tm t) = Some t"
proof -
  have f: "0 \<le> 1900 + tm_year t" "1900 + tm_year t < 10000" "0 \<le> tm_mon t + 1" "tm_mon t + 1 < 100"
    "0 \<le> tm_mday t" "tm_mday t < 100" "0 \<le> tm_hour t" "tm_hour t < 100" "0 \<le> tm_min t" "tm_min t < 100" "0 \<le> tm_sec t" "tm_sec t < 100"
    using assms by (simp_all add: tm_ok_def)
  note two = two_digits[OF f(3,4)] two_digits[OF f(5,6)] two_digits[OF f(7,8)] two_digits[OF f(9,10)] two_digits[OF f(11,12)]
  note four = four_digits(2)[OF f(1,2)] four_digits(1)[OF f(1,2), simplified]
  show ?thesis
    unfolding write_tm_def Let_def
    by (subst parse_tm_chars) (use f in \<open>simp_all add: two four del: dec_val.simps\<close>)
qed

section \<open>Floating point numbers\<close>

text \<open>\<open>from_chars\<close>: the value and the rest of the text, or one of the two errors.\<close>

datatype float_chars = FF_ok f32 string | FF_invalid_argument | FF_out_of_range

definition from_FIX_float :: "(string \<Rightarrow> float_chars) \<Rightarrow> string \<Rightarrow> RejectError + f32" where
  "from_FIX_float from_chars s = (case from_chars s of
       FF_ok v rest \<Rightarrow> if rest = [] then Inr v else Inl (reject2 IncorrectFormat ''Unknow error will parsing float'')
     | FF_invalid_argument \<Rightarrow> Inl (reject2 IncorrectFormat ''Expected an float'')
     | FF_out_of_range \<Rightarrow> Inl (reject2 ValueOORange ''Value out of range of float''))"

definition to_FIX_float :: "(f32 \<Rightarrow> string) \<Rightarrow> f32 \<Rightarrow> string" where
  "to_FIX_float to_chars v = to_chars v"

end
