(* ===== verification/FixClaims.thy ===== *)
theory FixClaims
  imports FixTime
begin

text \<open>The properties of the conversions between FIX field text and values.\<close>



lemma side_read: "from_FIX_Side s = Inr e \<Longrightarrow>
    e \<in> set Side_all \<and> Side_code e = first_char s \<and> (s \<noteq> [] \<longrightarrow> to_FIX_Side e = s)"
  using sd.written_read unfolding from_FIX_Side_def to_FIX_Side_def by (auto simp: sd.read_ok_iff)

lemma status_read: "from_FIX_OrderStatus s = Inr e \<Longrightarrow>
    e \<in> set OrderStatus_all \<and> OrderStatus_code e = first_char s \<and> (s \<noteq> [] \<longrightarrow> to_FIX_OrderStatus e = s)"
  using os.written_read unfolding from_FIX_OrderStatus_def to_FIX_OrderStatus_def by (auto simp: os.read_ok_iff)

lemma side_zero_refused: "from_FIX_Side (to_FIX_Side (Side_raw NUL)) \<noteq> Inr e"
  by (simp add: from_FIX_Side_def to_FIX_Side_def enum_from_FIX_def enum_of_char_def enum_to_FIX_def
      first_char_def Side_all_def NUL_def)

lemma status_zero_refused: "from_FIX_OrderStatus (to_FIX_OrderStatus (OS_raw NUL)) \<noteq> Inr e"
  by (simp add: from_FIX_OrderStatus_def to_FIX_OrderStatus_def enum_from_FIX_def enum_of_char_def
      enum_to_FIX_def first_char_def OrderStatus_all_def NUL_def)

text \<open>
  The readers accept exactly the texts of the enumerators: a side or an order status is read
  only from a text whose first character is its code, an accepted non-empty text is the one
  the writer produces, and the zero byte of a field that was never set is refused.
\<close>

theorem side_and_status_reading_exact:
  shows "(from_FIX_Side s = Inr e \<longrightarrow> e \<in> set Side_all \<and> Side_code e = first_char s \<and> (s \<noteq> [] \<longrightarrow> to_FIX_Side e = s))
    \<and> (from_FIX_OrderStatus s = Inr st \<longrightarrow> st \<in> set OrderStatus_all \<and> OrderStatus_code st = first_char s
         \<and> (s \<noteq> [] \<longrightarrow> to_FIX_OrderStatus st = s))
    \<and> (\<forall>e. from_FIX_Side (to_FIX_Side (Side_raw NUL)) \<noteq> Inr e)
    \<and> (\<forall>e. from_FIX_OrderStatus (to_FIX_OrderStatus (OS_raw NUL)) \<noteq> Inr e)"
  by (auto dest: side_read status_read simp: side_zero_refused status_zero_refused)

theorem side_and_status_reading_exact_witness:
  "Side_code Side_Buy = first_char ''1'' \<and> to_FIX_Side Side_Buy = ''1''"
proof -
  have "from_FIX_Side ''1'' = Inr Side_Buy"
    by (simp add: from_FIX_Side_def enum_from_FIX_def enum_of_char_def Side_all_def first_char_def)
  with side_and_status_reading_exact[of "''1''" Side_Buy OS_Filled] show ?thesis by simp
qed

text \<open>
  Unsigned integers of 8, 16 and 32 bits and the session reject reasons survive writing
  and reading, whatever the writer's uninitialised buffer held.
\<close>

theorem integers_roundtrip:
  shows "from_FIX_u8 (to_FIX_u8 a) = Inr a \<and> from_FIX_u16 (to_FIX_u16 b) = Inr b
    \<and> from_FIX_u32 (to_FIX_u32 c) = Inr c
    \<and> (\<forall>e \<in> set RejectReasonSession_all.
         from_FIX_RejectReasonSession (to_FIX_RejectReasonSession buf e) = Inr e)"
  by (simp add: roundtrip_u8 roundtrip_u16 roundtrip_u32 roundtrip_RejectReasonSession)

theorem integers_roundtrip_witness:
  "from_FIX_u8 (to_FIX_u8 255) = Inr 255
   \<and> from_FIX_RejectReasonSession (to_FIX_RejectReasonSession [] RS_InvalidMsgType) = Inr RS_InvalidMsgType"
  using integers_roundtrip[of 255 0 0 "[]"] by (simp add: RejectReasonSession_all_def)

text \<open>
  C11: a time written as FIX text reads back cut to whole seconds and shifted by the host's offset
  from UTC: it is written as UTC, and read as local time. Only where that offset is zero does a whole
  second survive.
\<close>

theorem times_read_back_shifted:
  assumes "tm_ok (gmtime (t sdiv 1000000000))" "mktime (gmtime (t sdiv 1000000000)) = t sdiv 1000000000 - offset"
    and "t sdiv 1000000000 - offset \<noteq> -1"
  shows "from_FIX_time mktime (to_FIX_time gmtime t) = Inr ((t sdiv 1000000000 - offset) * 1000000000)
    \<and> (0 \<le> t \<and> 1000000000 dvd t \<longrightarrow> from_FIX_time mktime (to_FIX_time gmtime t) = Inr (t - offset * 1000000000))"
proof -
  have r: "from_FIX_time mktime (to_FIX_time gmtime t) = Inr ((t sdiv 1000000000 - offset) * 1000000000)"
    using assms(2,3) by (simp add: from_FIX_time_def to_FIX_time_def parse_write[OF assms(1)])
  have "t sdiv 1000000000 * 1000000000 = t" if "0 \<le> t" "1000000000 dvd t"
    using that by (simp add: trunc_nonneg)
  with r show ?thesis by (simp add: left_diff_distrib)
qed

text \<open>The first day of the epoch, in a zone one hour ahead.\<close>

definition day_gmtime :: "int \<Rightarrow> tm" where
  "day_gmtime s = \<lparr>tm_year = 70, tm_mon = 0, tm_mday = 1, tm_hour = s div 3600, tm_min = s mod 3600 div 60, tm_sec = s mod 60\<rparr>"

definition day_mktime :: "tm \<Rightarrow> int" where
  "day_mktime t = tm_hour t * 3600 + tm_min t * 60 + tm_sec t - 3600"

theorem times_read_back_shifted_witness:
  "from_FIX_time day_mktime (to_FIX_time day_gmtime 7384000000000) = Inr 3784000000000"
proof -
  have s: "(7384000000000 :: int) sdiv 1000000000 = 7384" by (simp add: trunc_nonneg)
  have "tm_ok (day_gmtime (7384000000000 sdiv 1000000000))"
    "day_mktime (day_gmtime (7384000000000 sdiv 1000000000)) = 7384000000000 sdiv 1000000000 - 3600"
    "(7384000000000 :: int) sdiv 1000000000 - 3600 \<noteq> -1"
    unfolding s by (simp_all add: tm_ok_def day_gmtime_def day_mktime_def)
  from conjunct1[OF times_read_back_shifted[of day_gmtime 7384000000000 day_mktime 3600, OF this]] show ?thesis by (simp add: s)
qed

end
