(* ===== verification/NetBuffer.thy ===== *)
theory NetBuffer
  imports FixTypes
begin

text \<open>
  \<^verbatim>\<open>net::Buffer\<close> (\<^verbatim>\<open>shared/Network/.../Buffer.hpp\<close>, \<^verbatim>\<open>Buffer.inl\<close>, \<^verbatim>\<open>Buffer.cpp\<close>): the byte
  buffer of the IPC protocol, with its big-endian integers, raw floats and length-prefixed
  strings, its read cursor and its validity flag. The host is little-endian, as the
  program's targets are: an object's bytes in memory are the least significant first.
  The contract of one reader and writer pair is the locale \<open>wire\<close>.
\<close>

section \<open>Bytes of numbers\<close>

type_synonym byte = u8

fun le_bytes :: "nat \<Rightarrow> nat \<Rightarrow> byte list" where
  "le_bytes 0 n = []"
| "le_bytes (Suc k) n = of_nat (n mod 256) # le_bytes k (n div 256)"

fun of_le :: "byte list \<Rightarrow> nat" where
  "of_le [] = 0"
| "of_le (b # bs) = unat b + 256 * of_le bs"

lemma length_le_bytes [simp]: "length (le_bytes k n) = k"
  by (induction k arbitrary: n) auto

lemma unat_byte: "n < 256 \<Longrightarrow> unat (of_nat n :: byte) = n"
  by (rule unat_of_nat_small) simp

lemma of_le_le_bytes: "of_le (le_bytes k n) = n mod 256 ^ k"
proof (induction k arbitrary: n)
  case (Suc k)
  have "of_le (le_bytes (Suc k) n) = n mod 256 + 256 * (n div 256 mod 256 ^ k)"
    using Suc by (simp add: unat_byte)
  then show ?case by (simp add: mod_mult2_eq)
qed simp

lemma byte_le: "unat (b :: byte) < 256"
  using unsigned_less[of b, where ?'a = nat] by simp

lemma of_le_bound: "of_le bs < 256 ^ length bs"
proof (induction bs)
  case (Cons b bs)
  then have "of_le bs + 1 \<le> 256 ^ length bs" by simp
  then have "256 * (of_le bs + 1) \<le> 256 ^ length (b # bs)" by simp
  with byte_le[of b] show ?case by simp
qed simp

lemma le_bytes_of_le: "le_bytes (length bs) (of_le bs) = bs"
proof (induction bs)
  case (Cons b bs)
  have "(unat b + 256 * of_le bs) mod 256 = unat b" "(unat b + 256 * of_le bs) div 256 = of_le bs"
    using byte_le[of b] by auto
  with Cons show ?case by simp
qed simp

text \<open>\<^verbatim>\<open>htons\<close> and \<^verbatim>\<open>htonl\<close> on a little-endian host: the bytes reversed.\<close>

definition htons :: "u16 \<Rightarrow> u16" where
  "htons w = of_nat (of_le (rev (le_bytes 2 (unat w))))"

definition htonl :: "u32 \<Rightarrow> u32" where
  "htonl w = of_nat (of_le (rev (le_bytes 4 (unat w))))"

lemma u16_less: "unat (w :: u16) < 256 ^ 2"
  using unsigned_less[of w, where ?'a = nat] by simp

lemma u32_less: "unat (w :: u32) < 256 ^ 4"
  using unsigned_less[of w, where ?'a = nat] by simp

lemma unat_u16_of_nat: "n < 256 ^ 2 \<Longrightarrow> unat (of_nat n :: u16) = n"
  by (rule unat_of_nat_small) simp

lemma unat_u32_of_nat: "n < 256 ^ 4 \<Longrightarrow> unat (of_nat n :: u32) = n"
  by (rule unat_of_nat_small) simp

lemma bytes_htons: "le_bytes 2 (unat (htons w)) = rev (le_bytes 2 (unat w))"
  using of_le_bound[of "rev (le_bytes 2 (unat w))"] le_bytes_of_le[of "rev (le_bytes 2 (unat w))"]
  by (simp add: htons_def unat_u16_of_nat)

lemma bytes_htonl: "le_bytes 4 (unat (htonl w)) = rev (le_bytes 4 (unat w))"
  using of_le_bound[of "rev (le_bytes 4 (unat w))"] le_bytes_of_le[of "rev (le_bytes 4 (unat w))"]
  by (simp add: htonl_def unat_u32_of_nat)

lemma htons_htons [simp]: "htons (htons w) = w"
  using u16_less[of w] by (simp add: htons_def[of "htons w"] bytes_htons of_le_le_bytes)

lemma htonl_htonl [simp]: "htonl (htonl w) = w"
  using u32_less[of w] by (simp add: htonl_def[of "htonl w"] bytes_htonl of_le_le_bytes)

section \<open>Bytes of floats and characters\<close>

text \<open>The bit pattern of a binary32: sign, eight bits of exponent, 23 bits of fraction.\<close>

definition f32_bits :: "f32 \<Rightarrow> nat" where
  "f32_bits x = (case x of
       FNaN \<Rightarrow> 2143289344
     | FInf s \<Rightarrow> (if s then 2 ^ 31 else 0) + 255 * 2 ^ 23
     | FFin s m \<Rightarrow> (if s then 2 ^ 31 else 0)
         + (if m < 2 ^ 23 then m
            else (let e = bitlen m - 24 in (e + 1) * 2 ^ 23 + (m div 2 ^ e - 2 ^ 23))))"

definition f32_of_bits :: "nat \<Rightarrow> f32" where
  "f32_of_bits n =
     (let s = (2 ^ 31 \<le> n mod 2 ^ 32); ex = n div 2 ^ 23 mod 256; fr = n mod 2 ^ 23
      in if ex = 0 then FFin s fr
         else if ex = 255 then (if fr = 0 then FInf s else FNaN)
         else FFin s ((2 ^ 23 + fr) * 2 ^ (ex - 1)))"

definition byte_of :: "char \<Rightarrow> byte" where
  "byte_of c = of_nat (of_char c)"

definition char_of_byte :: "byte \<Rightarrow> char" where
  "char_of_byte b = char_of (unat b)"

lemma char_byte [simp]: "char_of_byte (byte_of c) = c"
proof -
  have "(of_char c :: nat) < 256" by simp
  then show ?thesis by (simp add: char_of_byte_def byte_of_def unat_byte)
qed

lemma map_char_byte [simp]: "map char_of_byte (map byte_of s) = s"
  by (induction s) auto

lemma repr_scaled:
  assumes "repr m" "2 ^ 23 \<le> m"
  shows "m div 2 ^ (bitlen m - 24) * 2 ^ (bitlen m - 24) = m"
    and "2 ^ 23 \<le> m div 2 ^ (bitlen m - 24)" and "m div 2 ^ (bitlen m - 24) < 2 ^ 24"
proof -
  let ?e = "bitlen m - 24"
  have "rnd_mag m (Suc 0) = m" by (rule rnd_mag_exact[OF assms(1)])
  then have d: "m = rne m (2 ^ ?e) * 2 ^ ?e" by (simp add: rnd_mag_one)
  then show e: "m div 2 ^ ?e * 2 ^ ?e = m"
    by (metis dvd_div_mult_self dvd_triv_right)
  have pos: "0 < m" using assms(2) by (metis gr0I le_zero_eq power_not_zero zero_neq_numeral)
  have b: "2 ^ (bitlen m - 1) \<le> m" "m < 2 ^ bitlen m" using bitlen_bounds[OF pos] by auto
  have bl: "24 \<le> bitlen m"
  proof (rule ccontr)
    assume "\<not> 24 \<le> bitlen m"
    then have "bitlen m \<le> 23" by simp
    then have "(2::nat) ^ bitlen m \<le> 2 ^ 23" by (rule power_increasing) simp
    with b(2) assms(2) show False by linarith
  qed
  then have "(2::nat) ^ (bitlen m - 1) = 2 ^ 23 * 2 ^ ?e" "(2::nat) ^ bitlen m = 2 ^ 24 * 2 ^ ?e"
    by (simp_all only: power_add [symmetric]) simp_all
  with b show "2 ^ 23 \<le> m div 2 ^ ?e" "m div 2 ^ ?e < 2 ^ 24"
    by (simp_all add: less_eq_div_iff_mult_less_eq div_less_iff_less_mult)
qed

text \<open>The exponent of the largest finite value is 254.\<close>

lemma bitlen_max:
  assumes "m \<le> max_mag"
  shows "bitlen m - 24 \<le> 253"
proof -
  have "max_mag < 2 ^ 277" by (simp add: max_mag_def)
  with assms have "m < 2 ^ 277" by simp
  then have "bitlen m \<le> 277" by (rule bitlen_le)
  then show ?thesis by simp
qed

lemma f32_fields:
  fixes ex fr :: nat
  assumes "ex < 256" "fr < 2 ^ 23"
  shows "f32_of_bits ((if s then 2 ^ 31 else 0) + ex * 2 ^ 23 + fr)
    = (if ex = 0 then FFin s fr else if ex = 255 then (if fr = 0 then FInf s else FNaN)
       else FFin s ((2 ^ 23 + fr) * 2 ^ (ex - 1)))"
proof -
  define h where "h = (if s then 256 else 0) + ex"
  have n: "(if s then 2 ^ 31 else 0) + ex * 2 ^ 23 + fr = h * 2 ^ 23 + fr" by (simp add: h_def)
  have d: "(h * 2 ^ 23 + fr) div 2 ^ 23 mod 256 = ex" "(h * 2 ^ 23 + fr) mod 2 ^ 23 = fr"
  proof -
    have "h mod 256 = ex" using assms(1) by (simp add: h_def)
    then show "(h * 2 ^ 23 + fr) div 2 ^ 23 mod 256 = ex" using assms(2) by simp
    show "(h * 2 ^ 23 + fr) mod 2 ^ 23 = fr" using assms(2) by simp
  qed
  have "h * 2 ^ 23 + fr < 2 ^ 32" using assms by (auto simp: h_def)
  then have sg: "(2 ^ 31 \<le> (h * 2 ^ 23 + fr) mod 2 ^ 32) = s" using assms by (auto simp: h_def)
  show ?thesis unfolding n f32_of_bits_def Let_def d sg ..
qed

lemma f32_bits_inverse:
  assumes "wf_f32 x"
  shows "f32_of_bits (f32_bits x) = x" and "f32_bits x < 2 ^ 32"
proof -
  have "f32_of_bits (f32_bits x) = x \<and> f32_bits x < 2 ^ 32"
  proof (cases x)
    case FNaN
    then show ?thesis by (simp add: f32_bits_def f32_of_bits_def)
  next
    case (FInf s)
    then show ?thesis by (simp add: f32_bits_def f32_of_bits_def)
  next
    case (FFin s m)
    show ?thesis
    proof (cases "m < 2 ^ 23")
      case True
      then show ?thesis using f32_fields[of 0 m s] by (auto simp: FFin f32_bits_def)
    next
      case False
      then have m: "repr m" "2 ^ 23 \<le> m" "m \<le> max_mag" using assms FFin by auto
      let ?e = "bitlen m - 24"
      let ?q = "m div 2 ^ ?e"
      note q = repr_scaled[OF m(1,2)]
      have e: "?e + 1 < 255" "?e \<le> 253" using bitlen_max[OF m(3)] by auto
      have fr: "?q - 2 ^ 23 < 2 ^ 23" using q(2,3) by simp
      have n: "f32_bits x = (if s then 2 ^ 31 else 0) + (?e + 1) * 2 ^ 23 + (?q - 2 ^ 23)"
        using False by (simp add: FFin f32_bits_def Let_def)
      have "f32_of_bits (f32_bits x) = FFin s ((2 ^ 23 + (?q - 2 ^ 23)) * 2 ^ ?e)"
        using f32_fields[of "?e + 1" "?q - 2 ^ 23" s] e(1) fr by (simp only: n) simp
      also have "(2 ^ 23 + (?q - 2 ^ 23)) * 2 ^ ?e = m" using q(1,2) by simp
      finally have "f32_of_bits (f32_bits x) = x" by (simp add: FFin)
      moreover have "(?e + 1) * 2 ^ 23 \<le> 254 * 2 ^ 23" using e by (intro mult_le_mono1) simp
      then have "f32_bits x < 2 ^ 32" using fr unfolding n by (cases s) auto
      ultimately show ?thesis by simp
    qed
  qed
  then show "f32_of_bits (f32_bits x) = x" "f32_bits x < 2 ^ 32" by auto
qed

section \<open>The buffer\<close>

record net_buffer =
  m_valid :: bool
  m_read :: u64
  m_data :: "byte list"

definition Buffer_init :: net_buffer where
  "Buffer_init = \<lparr>m_valid = True, m_read = 0, m_data = []\<rparr>"

definition append_bytes :: "byte list \<Rightarrow> net_buffer \<Rightarrow> net_buffer" where
  "append_bytes bs b = b\<lparr>m_data := m_data b @ bs\<rparr>"

definition buf_size :: "net_buffer \<Rightarrow> nat" where
  "buf_size b = length (m_data b)"

definition buf_reset :: "net_buffer \<Rightarrow> net_buffer" where
  "buf_reset b = b\<lparr>m_read := 0\<rparr>"

definition buf_clear :: "net_buffer \<Rightarrow> net_buffer" where
  "buf_clear b = (buf_reset b)\<lparr>m_data := []\<rparr>"

text \<open>\<^verbatim>\<open>size_t\<close> arithmetic: the sum wraps at 64 bits, which the overflow test looks for.\<close>

definition checkSize :: "u64 \<Rightarrow> net_buffer \<Rightarrow> bool \<times> net_buffer" where
  "checkSize sz b =
     (let overflow = m_read b + sz < m_read b;
          v = (m_valid b \<and> m_read b + sz \<le> of_nat (length (m_data b)) \<and> \<not> overflow)
      in (v, b\<lparr>m_valid := v\<rparr>))"

text \<open>The \<open>n\<close> bytes under the cursor, and the cursor moved past them.\<close>

definition peek :: "nat \<Rightarrow> net_buffer \<Rightarrow> byte list" where
  "peek n b = take n (drop (unat (m_read b)) (m_data b))"

definition skip :: "nat \<Rightarrow> net_buffer \<Rightarrow> net_buffer" where
  "skip n b = b\<lparr>m_read := m_read b + of_nat n\<rparr>"

subsection \<open>Writing\<close>

definition put_u8 :: "u8 \<Rightarrow> net_buffer \<Rightarrow> net_buffer" where
  "put_u8 v = append_bytes [v]"

definition put_u16 :: "u16 \<Rightarrow> net_buffer \<Rightarrow> net_buffer" where
  "put_u16 v = append_bytes (le_bytes 2 (unat (htons v)))"

definition put_u32 :: "u32 \<Rightarrow> net_buffer \<Rightarrow> net_buffer" where
  "put_u32 v = append_bytes (le_bytes 4 (unat (htonl v)))"

definition put_f32 :: "f32 \<Rightarrow> net_buffer \<Rightarrow> net_buffer" where
  "put_f32 x = append_bytes (le_bytes 4 (f32_bits x))"

text \<open>The length is cast to 32 bits.\<close>

definition put_string :: "string \<Rightarrow> net_buffer \<Rightarrow> net_buffer" where
  "put_string s b =
     (let len = of_nat (length s) :: u32; b' = put_u32 len b
      in if 0 < len then append_bytes (map byte_of (take (unat len) s)) b' else b')"

subsection \<open>Reading\<close>

text \<open>A reader takes the variable's old value, which it keeps when too few bytes are left.\<close>

definition get_u8 :: "u8 \<Rightarrow> net_buffer \<Rightarrow> u8 \<times> net_buffer" where
  "get_u8 d b = (case checkSize 1 b of (ok, b') \<Rightarrow>
     if ok then (of_nat (of_le (peek 1 b')), skip 1 b') else (d, b'))"

definition get_u16 :: "u16 \<Rightarrow> net_buffer \<Rightarrow> u16 \<times> net_buffer" where
  "get_u16 d b = (case checkSize 2 b of (ok, b') \<Rightarrow>
     if ok then (htons (of_nat (of_le (peek 2 b'))), skip 2 b') else (d, b'))"

definition get_u32 :: "u32 \<Rightarrow> net_buffer \<Rightarrow> u32 \<times> net_buffer" where
  "get_u32 d b = (case checkSize 4 b of (ok, b') \<Rightarrow>
     if ok then (htonl (of_nat (of_le (peek 4 b'))), skip 4 b') else (d, b'))"

definition get_f32 :: "f32 \<Rightarrow> net_buffer \<Rightarrow> f32 \<times> net_buffer" where
  "get_f32 d b = (case checkSize 4 b of (ok, b') \<Rightarrow>
     if ok then (f32_of_bits (of_le (peek 4 b')), skip 4 b') else (d, b'))"

definition get_string :: "string \<Rightarrow> net_buffer \<Rightarrow> string \<times> net_buffer" where
  "get_string d b = (case get_u32 0 b of (len, b1) \<Rightarrow>
     if 0 < len then (case checkSize (ucast len) b1 of (ok, b2) \<Rightarrow>
         if ok then (map char_of_byte (peek (unat len) b2), skip (unat len) b2) else ([], b2))
     else ([], b1))"

section \<open>Reading back what was written\<close>

text \<open>The cursor stands before the bytes \<open>bs\<close>, the rest of the data.\<close>

definition reads_at :: "net_buffer \<Rightarrow> byte list \<Rightarrow> bool" where
  "reads_at b bs \<longleftrightarrow> m_valid b \<and> unat (m_read b) \<le> length (m_data b)
     \<and> drop (unat (m_read b)) (m_data b) = bs \<and> length (m_data b) < 2 ^ 63"

lemma u64_add:
  assumes "unat (a :: u64) + n < 2 ^ 64"
  shows "unat (a + of_nat n) = unat a + n"
proof -
  have "a + of_nat n = of_nat (unat a + n)" by simp
  moreover have "unat (of_nat (unat a + n) :: u64) = unat a + n"
    by (rule unat_of_nat_small) (use assms in simp)
  ultimately show ?thesis by simp
qed

lemma checkSize_iff:
  assumes "unat (m_read b) \<le> length (m_data b)" "length (m_data b) < 2 ^ 63" "n < 2 ^ 63"
  shows "checkSize (of_nat n) b =
    (let v = m_valid b \<and> unat (m_read b) + n \<le> length (m_data b) in (v, b\<lparr>m_valid := v\<rparr>))"
proof -
  have s: "unat (m_read b) + n < 2 ^ 64" using assms by simp
  have a: "unat (m_read b + of_nat n) = unat (m_read b) + n" by (rule u64_add[OF s])
  have l: "unat (of_nat (length (m_data b)) :: u64) = length (m_data b)"
    using assms(2) by (intro unat_of_nat_small) simp
  have "(m_read b + of_nat n < m_read b) = False" using a by (simp add: word_less_nat_alt)
  moreover have "(m_read b + of_nat n \<le> of_nat (length (m_data b))) = (unat (m_read b) + n \<le> length (m_data b))"
    using a l by (simp add: word_le_nat_alt)
  ultimately show ?thesis by (simp add: checkSize_def Let_def)
qed

lemma reads_at_check:
  assumes "reads_at b (bs @ post)"
  shows "checkSize (of_nat (length bs)) b = (True, b)" "peek (length bs) b = bs"
    "reads_at (skip (length bs) b) post"
proof -
  have r: "m_valid b" "unat (m_read b) \<le> length (m_data b)" "length (m_data b) < 2 ^ 63"
    "drop (unat (m_read b)) (m_data b) = bs @ post" using assms by (auto simp: reads_at_def)
  have "length (m_data b) - unat (m_read b) = length bs + length post"
    using arg_cong[OF r(4), of length] by simp
  with r(2) have le: "unat (m_read b) + length bs \<le> length (m_data b)" by simp
  with r show "checkSize (of_nat (length bs)) b = (True, b)" by (simp add: checkSize_iff Let_def)
  show "peek (length bs) b = bs" using r(4) by (simp add: peek_def)
  have u: "unat (m_read b + of_nat (length bs)) = unat (m_read b) + length bs"
    using le r(3) by (intro u64_add) simp
  have "drop (unat (m_read b) + length bs) (m_data b) = drop (length bs) (drop (unat (m_read b)) (m_data b))"
    by (simp add: add.commute)
  then show "reads_at (skip (length bs) b) post"
    using r le u by (simp add: reads_at_def skip_def)
qed

text \<open>
  The contract between a writer and its reader: the writer appends an encoding, and the
  reader, standing before that encoding, yields the value and moves past it, whatever the
  variable held and whatever follows.
\<close>

locale wire =
  fixes put :: "'a \<Rightarrow> net_buffer \<Rightarrow> net_buffer" and get :: "'a \<Rightarrow> net_buffer \<Rightarrow> 'a \<times> net_buffer"
    and enc :: "'a \<Rightarrow> byte list" and ok :: "'a \<Rightarrow> bool"
  assumes put_enc: "ok x \<Longrightarrow> put x b = append_bytes (enc x) b"
    and get_enc: "ok x \<Longrightarrow> reads_at b (enc x @ post) \<Longrightarrow> get d b = (x, skip (length (enc x)) b)"
begin

lemma get_moves: "ok x \<Longrightarrow> reads_at b (enc x @ post) \<Longrightarrow> reads_at (snd (get d b)) post"
  by (simp add: get_enc reads_at_check)

lemma read_written:
  assumes "ok x" "length (enc x) < 2 ^ 63"
  shows "fst (get d (put x Buffer_init)) = x"
proof -
  have "reads_at (put x Buffer_init) (enc x @ [])"
    using assms by (simp add: put_enc reads_at_def append_bytes_def Buffer_init_def)
  from get_enc[OF assms(1) this] show ?thesis by simp
qed

end

definition be16 :: "u16 \<Rightarrow> byte list" where
  "be16 v = rev (le_bytes 2 (unat v))"

definition be32 :: "u32 \<Rightarrow> byte list" where
  "be32 v = rev (le_bytes 4 (unat v))"

definition enc_string :: "string \<Rightarrow> byte list" where
  "enc_string s = be32 (of_nat (length s)) @ map byte_of s"

definition string_ok :: "string \<Rightarrow> bool" where
  "string_ok s \<longleftrightarrow> length s < 2 ^ 32"

lemma length_be32 [simp]: "length (be32 v) = 4"
  by (simp add: be32_def)

lemma length_be16 [simp]: "length (be16 v) = 2"
  by (simp add: be16_def)

lemma length_enc_string [simp]: "length (enc_string s) = 4 + length s"
  by (simp add: enc_string_def)

lemma of_le_be32: "of_nat (of_le (be32 v)) = htonl v"
  by (simp add: be32_def htonl_def)

lemma of_le_be16: "of_nat (of_le (be16 v)) = htons v"
  by (simp add: be16_def htons_def)

lemma append_bytes_append: "append_bytes y (append_bytes x b) = append_bytes (x @ y) b"
  by (simp add: append_bytes_def)

interpretation w8: wire put_u8 get_u8 "\<lambda>v. [v]" "\<lambda>_. True"
proof
  fix x :: u8 and b post d assume "reads_at b ([x] @ post)"
  from reads_at_check[OF this] show "get_u8 d b = (x, skip (length [x]) b)"
    by (simp add: get_u8_def)
qed (simp add: put_u8_def)

interpretation w16: wire put_u16 get_u16 be16 "\<lambda>_. True"
proof
  fix x :: u16 and b post d assume "reads_at b (be16 x @ post)"
  from reads_at_check[OF this] show "get_u16 d b = (x, skip (length (be16 x)) b)"
    by (simp add: get_u16_def of_le_be16)
qed (simp add: put_u16_def be16_def bytes_htons)

interpretation w32: wire put_u32 get_u32 be32 "\<lambda>_. True"
proof
  fix x :: u32 and b post d assume "reads_at b (be32 x @ post)"
  from reads_at_check[OF this] show "get_u32 d b = (x, skip (length (be32 x)) b)"
    by (simp add: get_u32_def of_le_be32)
qed (simp add: put_u32_def be32_def bytes_htonl)

interpretation wf: wire put_f32 get_f32 "\<lambda>x. le_bytes 4 (f32_bits x)" wf_f32
proof
  fix x :: f32 and b post d assume ok: "wf_f32 x" and r: "reads_at b (le_bytes 4 (f32_bits x) @ post)"
  have "f32_bits x mod 256 ^ 4 = f32_bits x" using f32_bits_inverse(2)[OF ok] by simp
  with reads_at_check[OF r] show "get_f32 d b = (x, skip (length (le_bytes 4 (f32_bits x))) b)"
    by (simp add: get_f32_def of_le_le_bytes f32_bits_inverse(1)[OF ok])
qed (simp add: put_f32_def)

lemma unat_length_u32: "string_ok s \<Longrightarrow> unat (of_nat (length s) :: u32) = length s"
  unfolding string_ok_def by (rule unat_of_nat_small) simp

interpretation ws: wire put_string get_string enc_string string_ok
proof
  fix s b assume ok: "string_ok s"
  show "put_string s b = append_bytes (enc_string s) b"
    using unat_length_u32[OF ok]
    by (auto simp: put_string_def Let_def w32.put_enc append_bytes_append enc_string_def word_less_nat_alt)
next
  fix s b post d assume ok: "string_ok s" and r: "reads_at b (enc_string s @ post)"
  let ?len = "of_nat (length s) :: u32"
  have r1: "reads_at b (be32 ?len @ (map byte_of s @ post))" using r by (simp add: enc_string_def)
  have g: "get_u32 0 b = (?len, skip 4 b)" using w32.get_enc[OF TrueI r1] by simp
  have r2: "reads_at (skip 4 b) (map byte_of s @ post)" using reads_at_check(3)[OF r1] by simp
  have c: "(ucast ?len :: u64) = of_nat (length s)"
    using unat_length_u32[OF ok] by (metis of_nat_unat)
  have sk: "skip n (skip m b) = skip (m + n) b" for m n by (simp add: skip_def)
  show "get_string d b = (s, skip (length (enc_string s)) b)"
    using reads_at_check(1,2)[OF r2] unat_length_u32[OF ok]
    by (auto simp: get_string_def g c sk word_less_nat_alt comp_def)
qed

end
