(* ===== verification/Ipc.thy ===== *)
theory Ipc
  imports NetBuffer FixConvert
begin

text \<open>
  The binary protocol between the client's processes (\<^verbatim>\<open>client/shared/IPC\<close>): the message types,
  the five-byte header, the messages with their readers and writers, the frame builders
  of \<^verbatim>\<open>ipc::Helper\<close> and the framing of \<^verbatim>\<open>IPCNetworkManager::receiveLoop\<close>. Every reader and writer
  pair is an interpretation of the \<open>wire\<close> contract; every frame builder is an
  interpretation of its extension \<open>frame\<close>.
\<close>

section \<open>Message types and header\<close>

text \<open>A received byte is cast, so a type can be no enumerator: \<open>IT_raw\<close>.\<close>

datatype IpcType = IT_Reject | IT_FrontToInitiatorAuth | IT_InitiatorToFrontAuth
  | IT_BackToInitiatorAuth | IT_InitiatorToBackAuth | IT_InitiatorToFrontValidToken
  | IT_FrontToBackValidToken | IT_BackToFrontValidToken | IT_HandShakeAuth | IT_Status | IT_Logon
  | IT_OrderSingle | IT_ExecNew | IT_ExecEvent | IT_raw u8

definition IpcType_all :: "IpcType list" where
  "IpcType_all = [IT_Reject, IT_FrontToInitiatorAuth, IT_InitiatorToFrontAuth,
     IT_BackToInitiatorAuth, IT_InitiatorToBackAuth, IT_InitiatorToFrontValidToken,
     IT_FrontToBackValidToken, IT_BackToFrontValidToken, IT_HandShakeAuth, IT_Status, IT_Logon,
     IT_OrderSingle, IT_ExecNew, IT_ExecEvent]"

fun IpcType_code :: "IpcType \<Rightarrow> u8" where
  "IpcType_code IT_Reject = 0"
| "IpcType_code IT_FrontToInitiatorAuth = 1"
| "IpcType_code IT_InitiatorToFrontAuth = 2"
| "IpcType_code IT_BackToInitiatorAuth = 3"
| "IpcType_code IT_InitiatorToBackAuth = 4"
| "IpcType_code IT_InitiatorToFrontValidToken = 5"
| "IpcType_code IT_FrontToBackValidToken = 6"
| "IpcType_code IT_BackToFrontValidToken = 7"
| "IpcType_code IT_HandShakeAuth = 8"
| "IpcType_code IT_Status = 9"
| "IpcType_code IT_Logon = 10"
| "IpcType_code IT_OrderSingle = 11"
| "IpcType_code IT_ExecNew = 12"
| "IpcType_code IT_ExecEvent = 13"
| "IpcType_code (IT_raw w) = w"

definition IpcType_of :: "u8 \<Rightarrow> IpcType" where
  "IpcType_of w = (case find (\<lambda>t. IpcType_code t = w) IpcType_all of Some t \<Rightarrow> t | None \<Rightarrow> IT_raw w)"

text \<open>The values a cast can produce: no raw value stands for an enumerator's byte.\<close>

definition IpcType_ok :: "IpcType \<Rightarrow> bool" where
  "IpcType_ok t \<longleftrightarrow> IpcType_of (IpcType_code t) = t"

lemma IpcType_all_ok: "t \<in> set IpcType_all \<Longrightarrow> IpcType_ok t"
  by (auto simp: IpcType_ok_def IpcType_of_def IpcType_all_def)

definition put_IpcType :: "IpcType \<Rightarrow> net_buffer \<Rightarrow> net_buffer" where
  "put_IpcType t = put_u8 (IpcType_code t)"

text \<open>The local byte of the reader is not initialised: \<open>junk\<close> is what it holds.\<close>

definition get_IpcType :: "u8 \<Rightarrow> IpcType \<Rightarrow> net_buffer \<Rightarrow> IpcType \<times> net_buffer" where
  "get_IpcType junk t b = (case get_u8 junk b of (w, b') \<Rightarrow> (IpcType_of w, b'))"

record IpcHeader =
  ih_MsgType :: IpcType
  ih_BodySize :: u32

definition sizeof_IpcHeader :: nat where
  "sizeof_IpcHeader = 5"

definition put_IpcHeader :: "IpcHeader \<Rightarrow> net_buffer \<Rightarrow> net_buffer" where
  "put_IpcHeader h b = put_u32 (ih_BodySize h) (put_IpcType (ih_MsgType h) b)"

definition get_IpcHeader :: "u8 \<Rightarrow> IpcHeader \<Rightarrow> net_buffer \<Rightarrow> IpcHeader \<times> net_buffer" where
  "get_IpcHeader junk d b =
     (case get_IpcType junk (ih_MsgType d) b of (t, b1) \<Rightarrow>
      case get_u32 (ih_BodySize d) b1 of (n, b2) \<Rightarrow> (\<lparr>ih_MsgType = t, ih_BodySize = n\<rparr>, b2))"

section \<open>Messages\<close>

record AuthFrontToInitiator =
  afi_apikey :: string
  afi_name :: string

record AuthInitiatorToFront =
  aif_name :: string

record AuthInitiatorToBack =
  aib_token :: string
  aib_apikey :: string

record AuthBackToInitiator =
  abi_apikey :: string
  abi_port :: u32

record InitiatorToFrontValidToken =
  ifv_token :: string
  ifv_port :: u32

record FrontToBackValidToken =
  fbv_token :: string

type_synonym BackToFrontValidToken = FrontToBackValidToken

record IpcReject =
  ir_message :: string

record IpcLogon =
  il_UserId :: string
  il_SeqNum :: u32
  il_HeartBeat :: u32

record IpcOrderSingle =
  io_symbol :: string
  io_orderId :: string
  io_price :: Price
  io_quantity :: Quantity
  io_type :: Side

record IpcExecution =
  ie_symbol :: string
  ie_orderId :: OrderId
  ie_execId :: string
  ie_avgPrice :: Price
  ie_price :: Price
  ie_side :: Side
  ie_quantity :: Quantity
  ie_remainQty :: Quantity

text \<open>\<^verbatim>\<open>static_cast<uint8_t>(side)\<close> and back.\<close>

definition side_byte :: "Side \<Rightarrow> u8" where
  "side_byte s = byte_of (Side_code s)"

definition side_of_byte :: "u8 \<Rightarrow> Side" where
  "side_of_byte w = enum_of_char Side_code Side_raw Side_all (char_of_byte w)"

definition side_ok :: "Side \<Rightarrow> bool" where
  "side_ok s \<longleftrightarrow> side_of_byte (side_byte s) = s"

lemma side_all_ok: "s \<in> set Side_all \<Longrightarrow> side_ok s"
  by (simp add: side_ok_def side_of_byte_def side_byte_def sd.of_char_code)

subsection \<open>Writers\<close>

definition put_AuthFrontToInitiator :: "AuthFrontToInitiator \<Rightarrow> net_buffer \<Rightarrow> net_buffer" where
  "put_AuthFrontToInitiator m b = put_string (afi_name m) (put_string (afi_apikey m) b)"

definition put_AuthInitiatorToFront :: "AuthInitiatorToFront \<Rightarrow> net_buffer \<Rightarrow> net_buffer" where
  "put_AuthInitiatorToFront m b = put_string (aif_name m) b"

definition put_AuthInitiatorToBack :: "AuthInitiatorToBack \<Rightarrow> net_buffer \<Rightarrow> net_buffer" where
  "put_AuthInitiatorToBack m b = put_string (aib_apikey m) (put_string (aib_token m) b)"

definition put_AuthBackToInitiator :: "AuthBackToInitiator \<Rightarrow> net_buffer \<Rightarrow> net_buffer" where
  "put_AuthBackToInitiator m b = put_u32 (abi_port m) (put_string (abi_apikey m) b)"

definition put_InitiatorToFrontValidToken :: "InitiatorToFrontValidToken \<Rightarrow> net_buffer \<Rightarrow> net_buffer" where
  "put_InitiatorToFrontValidToken m b = put_u32 (ifv_port m) (put_string (ifv_token m) b)"

definition put_FrontToBackValidToken :: "FrontToBackValidToken \<Rightarrow> net_buffer \<Rightarrow> net_buffer" where
  "put_FrontToBackValidToken m b = put_string (fbv_token m) b"

definition put_IpcReject :: "IpcReject \<Rightarrow> net_buffer \<Rightarrow> net_buffer" where
  "put_IpcReject m b = put_string (ir_message m) b"

definition put_IpcLogon :: "IpcLogon \<Rightarrow> net_buffer \<Rightarrow> net_buffer" where
  "put_IpcLogon m b = put_u32 (il_HeartBeat m) (put_u32 (il_SeqNum m) (put_string (il_UserId m) b))"

definition put_IpcOrderSingle :: "IpcOrderSingle \<Rightarrow> net_buffer \<Rightarrow> net_buffer" where
  "put_IpcOrderSingle m b = put_u8 (side_byte (io_type m)) (put_f32 (io_quantity m)
     (put_f32 (io_price m) (put_string (io_orderId m) (put_string (io_symbol m) b))))"

definition put_IpcExecution :: "IpcExecution \<Rightarrow> net_buffer \<Rightarrow> net_buffer" where
  "put_IpcExecution m b = put_f32 (ie_remainQty m) (put_f32 (ie_quantity m)
     (put_u8 (side_byte (ie_side m)) (put_f32 (ie_price m) (put_f32 (ie_avgPrice m)
     (put_string (ie_execId m) (put_string (ie_orderId m) (put_string (ie_symbol m) b)))))))"

subsection \<open>Readers\<close>

definition get_AuthFrontToInitiator :: "AuthFrontToInitiator \<Rightarrow> net_buffer \<Rightarrow> AuthFrontToInitiator \<times> net_buffer" where
  "get_AuthFrontToInitiator d b =
     (case get_string (afi_apikey d) b of (k, b1) \<Rightarrow> case get_string (afi_name d) b1 of (n, b2) \<Rightarrow>
        (\<lparr>afi_apikey = k, afi_name = n\<rparr>, b2))"

definition get_AuthInitiatorToFront :: "AuthInitiatorToFront \<Rightarrow> net_buffer \<Rightarrow> AuthInitiatorToFront \<times> net_buffer" where
  "get_AuthInitiatorToFront d b = (case get_string (aif_name d) b of (n, b1) \<Rightarrow> (\<lparr>aif_name = n\<rparr>, b1))"

definition get_AuthInitiatorToBack :: "AuthInitiatorToBack \<Rightarrow> net_buffer \<Rightarrow> AuthInitiatorToBack \<times> net_buffer" where
  "get_AuthInitiatorToBack d b =
     (case get_string (aib_token d) b of (t, b1) \<Rightarrow> case get_string (aib_apikey d) b1 of (k, b2) \<Rightarrow>
        (\<lparr>aib_token = t, aib_apikey = k\<rparr>, b2))"

definition get_AuthBackToInitiator :: "AuthBackToInitiator \<Rightarrow> net_buffer \<Rightarrow> AuthBackToInitiator \<times> net_buffer" where
  "get_AuthBackToInitiator d b =
     (case get_string (abi_apikey d) b of (k, b1) \<Rightarrow> case get_u32 (abi_port d) b1 of (p, b2) \<Rightarrow>
        (\<lparr>abi_apikey = k, abi_port = p\<rparr>, b2))"

definition get_InitiatorToFrontValidToken ::
    "InitiatorToFrontValidToken \<Rightarrow> net_buffer \<Rightarrow> InitiatorToFrontValidToken \<times> net_buffer" where
  "get_InitiatorToFrontValidToken d b =
     (case get_string (ifv_token d) b of (t, b1) \<Rightarrow> case get_u32 (ifv_port d) b1 of (p, b2) \<Rightarrow>
        (\<lparr>ifv_token = t, ifv_port = p\<rparr>, b2))"

definition get_FrontToBackValidToken :: "FrontToBackValidToken \<Rightarrow> net_buffer \<Rightarrow> FrontToBackValidToken \<times> net_buffer" where
  "get_FrontToBackValidToken d b = (case get_string (fbv_token d) b of (t, b1) \<Rightarrow> (\<lparr>fbv_token = t\<rparr>, b1))"

definition get_IpcReject :: "IpcReject \<Rightarrow> net_buffer \<Rightarrow> IpcReject \<times> net_buffer" where
  "get_IpcReject d b = (case get_string (ir_message d) b of (t, b1) \<Rightarrow> (\<lparr>ir_message = t\<rparr>, b1))"

definition get_IpcLogon :: "IpcLogon \<Rightarrow> net_buffer \<Rightarrow> IpcLogon \<times> net_buffer" where
  "get_IpcLogon d b =
     (case get_string (il_UserId d) b of (u, b1) \<Rightarrow> case get_u32 (il_SeqNum d) b1 of (n, b2) \<Rightarrow>
      case get_u32 (il_HeartBeat d) b2 of (h, b3) \<Rightarrow>
        (\<lparr>il_UserId = u, il_SeqNum = n, il_HeartBeat = h\<rparr>, b3))"

text \<open>The type byte of an order is a local that is not initialised; that of an execution starts at zero.\<close>

definition get_IpcOrderSingle :: "u8 \<Rightarrow> IpcOrderSingle \<Rightarrow> net_buffer \<Rightarrow> IpcOrderSingle \<times> net_buffer" where
  "get_IpcOrderSingle junk d b =
     (case get_string (io_symbol d) b of (sy, b1) \<Rightarrow> case get_string (io_orderId d) b1 of (x, b2) \<Rightarrow>
      case get_f32 (io_price d) b2 of (p, b3) \<Rightarrow> case get_f32 (io_quantity d) b3 of (q, b4) \<Rightarrow>
      case get_u8 junk b4 of (t, b5) \<Rightarrow>
        (\<lparr>io_symbol = sy, io_orderId = x, io_price = p, io_quantity = q, io_type = side_of_byte t\<rparr>, b5))"

definition get_IpcExecution :: "IpcExecution \<Rightarrow> net_buffer \<Rightarrow> IpcExecution \<times> net_buffer" where
  "get_IpcExecution d b =
     (case get_string (ie_symbol d) b of (sy, b1) \<Rightarrow> case get_string (ie_orderId d) b1 of (x, b2) \<Rightarrow>
      case get_string (ie_execId d) b2 of (e, b3) \<Rightarrow> case get_f32 (ie_avgPrice d) b3 of (a, b4) \<Rightarrow>
      case get_f32 (ie_price d) b4 of (p, b5) \<Rightarrow> case get_u8 0 b5 of (t, b6) \<Rightarrow>
      case get_f32 (ie_quantity d) b6 of (q, b7) \<Rightarrow> case get_f32 (ie_remainQty d) b7 of (r, b8) \<Rightarrow>
        (\<lparr>ie_symbol = sy, ie_orderId = x, ie_execId = e, ie_avgPrice = a, ie_price = p,
          ie_side = side_of_byte t, ie_quantity = q, ie_remainQty = r\<rparr>, b8))"

section \<open>Every pair meets the contract\<close>

lemmas put_encs = w8.put_enc w32.put_enc wf.put_enc ws.put_enc append_bytes_append

text \<open>A read step under the contract: the value, and where the reader then stands.\<close>

lemma step8: "reads_at b (w # post) \<Longrightarrow> get_u8 d b = (w, skip 1 b) \<and> reads_at (skip 1 b) post"
  using w8.get_enc[where x = w and b = b and post = post and d = d]
    w8.get_moves[where x = w and b = b and post = post and d = d] by simp

lemma step32: "reads_at b (be32 w @ post) \<Longrightarrow> get_u32 d b = (w, skip 4 b) \<and> reads_at (skip 4 b) post"
  using w32.get_enc[where x = w and b = b and post = post and d = d]
    w32.get_moves[where x = w and b = b and post = post and d = d] by simp

lemma stepf: "wf_f32 x \<Longrightarrow> reads_at b (le_bytes 4 (f32_bits x) @ post) \<Longrightarrow>
    get_f32 d b = (x, skip 4 b) \<and> reads_at (skip 4 b) post"
  using wf.get_enc[where x = x and b = b and post = post and d = d]
    wf.get_moves[where x = x and b = b and post = post and d = d] by simp

lemma steps: "string_ok t \<Longrightarrow> reads_at b (enc_string t @ post) \<Longrightarrow>
    get_string d b = (t, skip (4 + length t) b) \<and> reads_at (skip (4 + length t) b) post"
  using ws.get_enc[where x = t and b = b and post = post and d = d]
    ws.get_moves[where x = t and b = b and post = post and d = d] by simp

lemma skip_skip [simp]: "skip n (skip m b) = skip (m + n) b"
  by (simp add: skip_def)

definition enc_IpcHeader :: "IpcHeader \<Rightarrow> byte list" where
  "enc_IpcHeader h = IpcType_code (ih_MsgType h) # be32 (ih_BodySize h)"

interpretation wh: wire put_IpcHeader "get_IpcHeader junk" enc_IpcHeader "\<lambda>h. IpcType_ok (ih_MsgType h)"
  for junk
proof
  fix h b post d assume ok: "IpcType_ok (ih_MsgType h)" and r: "reads_at b (enc_IpcHeader h @ post)"
  have r1: "reads_at b (IpcType_code (ih_MsgType h) # be32 (ih_BodySize h) @ post)"
    using r by (simp add: enc_IpcHeader_def)
  note s1 = step8[OF r1, of junk]
  note s2 = step32[OF conjunct2[OF s1]]
  from ok show "get_IpcHeader junk d b = (h, skip (length (enc_IpcHeader h)) b)"
    by (cases h) (use s1 s2 in \<open>simp add: get_IpcHeader_def get_IpcType_def IpcType_ok_def enc_IpcHeader_def\<close>)
qed (simp add: put_IpcHeader_def put_IpcType_def put_encs enc_IpcHeader_def)

definition enc_AuthFrontToInitiator :: "AuthFrontToInitiator \<Rightarrow> byte list" where
  "enc_AuthFrontToInitiator m = enc_string (afi_apikey m) @ enc_string (afi_name m)"

definition ok_AuthFrontToInitiator :: "AuthFrontToInitiator \<Rightarrow> bool" where
  "ok_AuthFrontToInitiator m \<longleftrightarrow> string_ok (afi_apikey m) \<and> string_ok (afi_name m)"

interpretation wfi: wire put_AuthFrontToInitiator get_AuthFrontToInitiator enc_AuthFrontToInitiator ok_AuthFrontToInitiator
proof
  fix m b post d assume ok: "ok_AuthFrontToInitiator m" and r: "reads_at b (enc_AuthFrontToInitiator m @ post)"
  note r0 = r[unfolded enc_AuthFrontToInitiator_def append_assoc append_Cons append_Nil]
  have o': "string_ok (afi_apikey m)" "string_ok (afi_name m)" using ok by (simp_all add: ok_AuthFrontToInitiator_def)
  note s1 = steps[OF o'(1) r0]
  note s2 = steps[OF o'(2) conjunct2[OF s1]]
  show "get_AuthFrontToInitiator d b = (m, skip (length (enc_AuthFrontToInitiator m)) b)"
    by (cases m) (use s1 s2 in \<open>simp add: get_AuthFrontToInitiator_def enc_AuthFrontToInitiator_def ac_simps\<close>)
qed (simp add: put_AuthFrontToInitiator_def enc_AuthFrontToInitiator_def ok_AuthFrontToInitiator_def put_encs)

definition enc_AuthInitiatorToFront :: "AuthInitiatorToFront \<Rightarrow> byte list" where
  "enc_AuthInitiatorToFront m = enc_string (aif_name m)"

definition ok_AuthInitiatorToFront :: "AuthInitiatorToFront \<Rightarrow> bool" where
  "ok_AuthInitiatorToFront m \<longleftrightarrow> string_ok (aif_name m)"

interpretation wif: wire put_AuthInitiatorToFront get_AuthInitiatorToFront enc_AuthInitiatorToFront ok_AuthInitiatorToFront
proof
  fix m b post d assume ok: "ok_AuthInitiatorToFront m" and r: "reads_at b (enc_AuthInitiatorToFront m @ post)"
  note r0 = r[unfolded enc_AuthInitiatorToFront_def append_assoc append_Cons append_Nil]
  have o': "string_ok (aif_name m)" using ok by (simp_all add: ok_AuthInitiatorToFront_def)
  note s1 = steps[OF o' r0]
  show "get_AuthInitiatorToFront d b = (m, skip (length (enc_AuthInitiatorToFront m)) b)"
    by (cases m) (use s1 in \<open>simp add: get_AuthInitiatorToFront_def enc_AuthInitiatorToFront_def ac_simps\<close>)
qed (simp add: put_AuthInitiatorToFront_def enc_AuthInitiatorToFront_def ok_AuthInitiatorToFront_def put_encs)

definition enc_AuthInitiatorToBack :: "AuthInitiatorToBack \<Rightarrow> byte list" where
  "enc_AuthInitiatorToBack m = enc_string (aib_token m) @ enc_string (aib_apikey m)"

definition ok_AuthInitiatorToBack :: "AuthInitiatorToBack \<Rightarrow> bool" where
  "ok_AuthInitiatorToBack m \<longleftrightarrow> string_ok (aib_token m) \<and> string_ok (aib_apikey m)"

interpretation wib: wire put_AuthInitiatorToBack get_AuthInitiatorToBack enc_AuthInitiatorToBack ok_AuthInitiatorToBack
proof
  fix m b post d assume ok: "ok_AuthInitiatorToBack m" and r: "reads_at b (enc_AuthInitiatorToBack m @ post)"
  note r0 = r[unfolded enc_AuthInitiatorToBack_def append_assoc append_Cons append_Nil]
  have o': "string_ok (aib_token m)" "string_ok (aib_apikey m)" using ok by (simp_all add: ok_AuthInitiatorToBack_def)
  note s1 = steps[OF o'(1) r0]
  note s2 = steps[OF o'(2) conjunct2[OF s1]]
  show "get_AuthInitiatorToBack d b = (m, skip (length (enc_AuthInitiatorToBack m)) b)"
    by (cases m) (use s1 s2 in \<open>simp add: get_AuthInitiatorToBack_def enc_AuthInitiatorToBack_def ac_simps\<close>)
qed (simp add: put_AuthInitiatorToBack_def enc_AuthInitiatorToBack_def ok_AuthInitiatorToBack_def put_encs)

definition enc_AuthBackToInitiator :: "AuthBackToInitiator \<Rightarrow> byte list" where
  "enc_AuthBackToInitiator m = enc_string (abi_apikey m) @ be32 (abi_port m)"

definition ok_AuthBackToInitiator :: "AuthBackToInitiator \<Rightarrow> bool" where
  "ok_AuthBackToInitiator m \<longleftrightarrow> string_ok (abi_apikey m)"

interpretation wbi: wire put_AuthBackToInitiator get_AuthBackToInitiator enc_AuthBackToInitiator ok_AuthBackToInitiator
proof
  fix m b post d assume ok: "ok_AuthBackToInitiator m" and r: "reads_at b (enc_AuthBackToInitiator m @ post)"
  note r0 = r[unfolded enc_AuthBackToInitiator_def append_assoc append_Cons append_Nil]
  have o': "string_ok (abi_apikey m)" using ok by (simp_all add: ok_AuthBackToInitiator_def)
  note s1 = steps[OF o' r0]
  note s2 = step32[OF conjunct2[OF s1]]
  show "get_AuthBackToInitiator d b = (m, skip (length (enc_AuthBackToInitiator m)) b)"
    by (cases m) (use s1 s2 in \<open>simp add: get_AuthBackToInitiator_def enc_AuthBackToInitiator_def ac_simps\<close>)
qed (simp add: put_AuthBackToInitiator_def enc_AuthBackToInitiator_def ok_AuthBackToInitiator_def put_encs)

definition enc_InitiatorToFrontValidToken :: "InitiatorToFrontValidToken \<Rightarrow> byte list" where
  "enc_InitiatorToFrontValidToken m = enc_string (ifv_token m) @ be32 (ifv_port m)"

definition ok_InitiatorToFrontValidToken :: "InitiatorToFrontValidToken \<Rightarrow> bool" where
  "ok_InitiatorToFrontValidToken m \<longleftrightarrow> string_ok (ifv_token m)"

interpretation wifv: wire put_InitiatorToFrontValidToken get_InitiatorToFrontValidToken enc_InitiatorToFrontValidToken ok_InitiatorToFrontValidToken
proof
  fix m b post d assume ok: "ok_InitiatorToFrontValidToken m" and r: "reads_at b (enc_InitiatorToFrontValidToken m @ post)"
  note r0 = r[unfolded enc_InitiatorToFrontValidToken_def append_assoc append_Cons append_Nil]
  have o': "string_ok (ifv_token m)" using ok by (simp_all add: ok_InitiatorToFrontValidToken_def)
  note s1 = steps[OF o' r0]
  note s2 = step32[OF conjunct2[OF s1]]
  show "get_InitiatorToFrontValidToken d b = (m, skip (length (enc_InitiatorToFrontValidToken m)) b)"
    by (cases m) (use s1 s2 in \<open>simp add: get_InitiatorToFrontValidToken_def enc_InitiatorToFrontValidToken_def ac_simps\<close>)
qed (simp add: put_InitiatorToFrontValidToken_def enc_InitiatorToFrontValidToken_def ok_InitiatorToFrontValidToken_def put_encs)

definition enc_FrontToBackValidToken :: "FrontToBackValidToken \<Rightarrow> byte list" where
  "enc_FrontToBackValidToken m = enc_string (fbv_token m)"

definition ok_FrontToBackValidToken :: "FrontToBackValidToken \<Rightarrow> bool" where
  "ok_FrontToBackValidToken m \<longleftrightarrow> string_ok (fbv_token m)"

interpretation wfbv: wire put_FrontToBackValidToken get_FrontToBackValidToken enc_FrontToBackValidToken ok_FrontToBackValidToken
proof
  fix m b post d assume ok: "ok_FrontToBackValidToken m" and r: "reads_at b (enc_FrontToBackValidToken m @ post)"
  note r0 = r[unfolded enc_FrontToBackValidToken_def append_assoc append_Cons append_Nil]
  have o': "string_ok (fbv_token m)" using ok by (simp_all add: ok_FrontToBackValidToken_def)
  note s1 = steps[OF o' r0]
  show "get_FrontToBackValidToken d b = (m, skip (length (enc_FrontToBackValidToken m)) b)"
    by (cases m) (use s1 in \<open>simp add: get_FrontToBackValidToken_def enc_FrontToBackValidToken_def ac_simps\<close>)
qed (simp add: put_FrontToBackValidToken_def enc_FrontToBackValidToken_def ok_FrontToBackValidToken_def put_encs)

definition enc_IpcReject :: "IpcReject \<Rightarrow> byte list" where
  "enc_IpcReject m = enc_string (ir_message m)"

definition ok_IpcReject :: "IpcReject \<Rightarrow> bool" where
  "ok_IpcReject m \<longleftrightarrow> string_ok (ir_message m)"

interpretation wrej: wire put_IpcReject get_IpcReject enc_IpcReject ok_IpcReject
proof
  fix m b post d assume ok: "ok_IpcReject m" and r: "reads_at b (enc_IpcReject m @ post)"
  note r0 = r[unfolded enc_IpcReject_def append_assoc append_Cons append_Nil]
  have o': "string_ok (ir_message m)" using ok by (simp_all add: ok_IpcReject_def)
  note s1 = steps[OF o' r0]
  show "get_IpcReject d b = (m, skip (length (enc_IpcReject m)) b)"
    by (cases m) (use s1 in \<open>simp add: get_IpcReject_def enc_IpcReject_def ac_simps\<close>)
qed (simp add: put_IpcReject_def enc_IpcReject_def ok_IpcReject_def put_encs)

definition enc_IpcLogon :: "IpcLogon \<Rightarrow> byte list" where
  "enc_IpcLogon m = enc_string (il_UserId m) @ be32 (il_SeqNum m) @ be32 (il_HeartBeat m)"

definition ok_IpcLogon :: "IpcLogon \<Rightarrow> bool" where
  "ok_IpcLogon m \<longleftrightarrow> string_ok (il_UserId m)"

interpretation wlog: wire put_IpcLogon get_IpcLogon enc_IpcLogon ok_IpcLogon
proof
  fix m b post d assume ok: "ok_IpcLogon m" and r: "reads_at b (enc_IpcLogon m @ post)"
  note r0 = r[unfolded enc_IpcLogon_def append_assoc append_Cons append_Nil]
  have o': "string_ok (il_UserId m)" using ok by (simp_all add: ok_IpcLogon_def)
  note s1 = steps[OF o' r0]
  note s2 = step32[OF conjunct2[OF s1]]
  note s3 = step32[OF conjunct2[OF s2]]
  show "get_IpcLogon d b = (m, skip (length (enc_IpcLogon m)) b)"
    by (cases m) (use s1 s2 s3 in \<open>simp add: get_IpcLogon_def enc_IpcLogon_def ac_simps\<close>)
qed (simp add: put_IpcLogon_def enc_IpcLogon_def ok_IpcLogon_def put_encs)

definition enc_IpcOrderSingle :: "IpcOrderSingle \<Rightarrow> byte list" where
  "enc_IpcOrderSingle m = enc_string (io_symbol m) @ enc_string (io_orderId m) @ le_bytes 4 (f32_bits (io_price m))
     @ le_bytes 4 (f32_bits (io_quantity m)) @ [side_byte (io_type m)]"

definition ok_IpcOrderSingle :: "IpcOrderSingle \<Rightarrow> bool" where
  "ok_IpcOrderSingle m \<longleftrightarrow> string_ok (io_symbol m) \<and> string_ok (io_orderId m) \<and> wf_f32 (io_price m) \<and> wf_f32 (io_quantity m) \<and> side_ok (io_type m)"

interpretation wos: wire put_IpcOrderSingle "get_IpcOrderSingle junk" enc_IpcOrderSingle ok_IpcOrderSingle
  for junk
proof
  fix m b post d assume ok: "ok_IpcOrderSingle m" and r: "reads_at b (enc_IpcOrderSingle m @ post)"
  note r0 = r[unfolded enc_IpcOrderSingle_def append_assoc append_Cons append_Nil]
  have o': "string_ok (io_symbol m)" "string_ok (io_orderId m)" "wf_f32 (io_price m)" "wf_f32 (io_quantity m)" "side_ok (io_type m)" using ok by (simp_all add: ok_IpcOrderSingle_def)
  note s1 = steps[OF o'(1) r0]
  note s2 = steps[OF o'(2) conjunct2[OF s1]]
  note s3 = stepf[OF o'(3) conjunct2[OF s2]]
  note s4 = stepf[OF o'(4) conjunct2[OF s3]]
  note s5 = step8[OF conjunct2[OF s4]]
  show "get_IpcOrderSingle junk d b = (m, skip (length (enc_IpcOrderSingle m)) b)"
    by (cases m) (use s1 s2 s3 s4 s5 o' in \<open>simp add: get_IpcOrderSingle_def enc_IpcOrderSingle_def side_ok_def ac_simps\<close>)
qed (simp add: put_IpcOrderSingle_def enc_IpcOrderSingle_def ok_IpcOrderSingle_def put_encs)

definition enc_IpcExecution :: "IpcExecution \<Rightarrow> byte list" where
  "enc_IpcExecution m = enc_string (ie_symbol m) @ enc_string (ie_orderId m) @ enc_string (ie_execId m)
     @ le_bytes 4 (f32_bits (ie_avgPrice m)) @ le_bytes 4 (f32_bits (ie_price m)) @ [side_byte (ie_side m)] @ le_bytes 4 (f32_bits (ie_quantity m)) @ le_bytes 4 (f32_bits (ie_remainQty m))"

definition ok_IpcExecution :: "IpcExecution \<Rightarrow> bool" where
  "ok_IpcExecution m \<longleftrightarrow> string_ok (ie_symbol m) \<and> string_ok (ie_orderId m) \<and> string_ok (ie_execId m) \<and> wf_f32 (ie_avgPrice m) \<and> wf_f32 (ie_price m) \<and> side_ok (ie_side m) \<and> wf_f32 (ie_quantity m) \<and> wf_f32 (ie_remainQty m)"

interpretation wex: wire put_IpcExecution get_IpcExecution enc_IpcExecution ok_IpcExecution
proof
  fix m b post d assume ok: "ok_IpcExecution m" and r: "reads_at b (enc_IpcExecution m @ post)"
  note r0 = r[unfolded enc_IpcExecution_def append_assoc append_Cons append_Nil]
  have o': "string_ok (ie_symbol m)" "string_ok (ie_orderId m)" "string_ok (ie_execId m)" "wf_f32 (ie_avgPrice m)" "wf_f32 (ie_price m)" "side_ok (ie_side m)" "wf_f32 (ie_quantity m)" "wf_f32 (ie_remainQty m)" using ok by (simp_all add: ok_IpcExecution_def)
  note s1 = steps[OF o'(1) r0]
  note s2 = steps[OF o'(2) conjunct2[OF s1]]
  note s3 = steps[OF o'(3) conjunct2[OF s2]]
  note s4 = stepf[OF o'(4) conjunct2[OF s3]]
  note s5 = stepf[OF o'(5) conjunct2[OF s4]]
  note s6 = step8[OF conjunct2[OF s5]]
  note s7 = stepf[OF o'(7) conjunct2[OF s6]]
  note s8 = stepf[OF o'(8) conjunct2[OF s7]]
  show "get_IpcExecution d b = (m, skip (length (enc_IpcExecution m)) b)"
    by (cases m) (use s1 s2 s3 s4 s5 s6 s7 s8 o' in \<open>simp add: get_IpcExecution_def enc_IpcExecution_def side_ok_def ac_simps\<close>)
qed (simp add: put_IpcExecution_def enc_IpcExecution_def ok_IpcExecution_def put_encs)


section \<open>Frames\<close>

definition Helper_FrontToInitiator :: "AuthFrontToInitiator \<Rightarrow> net_buffer" where
  "Helper_FrontToInitiator m = put_AuthFrontToInitiator m (put_IpcHeader
     \<lparr>ih_MsgType = IT_FrontToInitiatorAuth, ih_BodySize = of_nat (4 * 2 + length (afi_apikey m) + length (afi_name m))\<rparr> Buffer_init)"

definition Helper_InitiatorToFront :: "AuthInitiatorToFront \<Rightarrow> net_buffer" where
  "Helper_InitiatorToFront m = put_AuthInitiatorToFront m (put_IpcHeader
     \<lparr>ih_MsgType = IT_InitiatorToFrontAuth, ih_BodySize = of_nat (4 + length (aif_name m))\<rparr> Buffer_init)"

definition Helper_BackToInitiator :: "AuthBackToInitiator \<Rightarrow> net_buffer" where
  "Helper_BackToInitiator m = put_AuthBackToInitiator m (put_IpcHeader
     \<lparr>ih_MsgType = IT_BackToInitiatorAuth, ih_BodySize = of_nat (4 * 2 + length (abi_apikey m))\<rparr> Buffer_init)"

definition Helper_InitiatorToBack :: "AuthInitiatorToBack \<Rightarrow> net_buffer" where
  "Helper_InitiatorToBack m = put_AuthInitiatorToBack m (put_IpcHeader
     \<lparr>ih_MsgType = IT_InitiatorToBackAuth, ih_BodySize = of_nat (4 * 2 + length (aib_apikey m) + length (aib_token m))\<rparr> Buffer_init)"

definition Helper_InitiatorToFrontToken :: "InitiatorToFrontValidToken \<Rightarrow> net_buffer" where
  "Helper_InitiatorToFrontToken m = put_InitiatorToFrontValidToken m (put_IpcHeader
     \<lparr>ih_MsgType = IT_InitiatorToFrontValidToken, ih_BodySize = of_nat (4 * 2 + length (ifv_token m))\<rparr> Buffer_init)"

definition Helper_FrontToBackToken :: "FrontToBackValidToken \<Rightarrow> net_buffer" where
  "Helper_FrontToBackToken m = put_FrontToBackValidToken m (put_IpcHeader
     \<lparr>ih_MsgType = IT_FrontToBackValidToken, ih_BodySize = of_nat (4 + length (fbv_token m))\<rparr> Buffer_init)"

definition Helper_BackToFrontToken :: "BackToFrontValidToken \<Rightarrow> net_buffer" where
  "Helper_BackToFrontToken m = put_FrontToBackValidToken m (put_IpcHeader
     \<lparr>ih_MsgType = IT_BackToFrontValidToken, ih_BodySize = of_nat (4 + length (fbv_token m))\<rparr> Buffer_init)"

definition Helper_Reject :: "IpcReject \<Rightarrow> net_buffer" where
  "Helper_Reject m = put_IpcReject m (put_IpcHeader
     \<lparr>ih_MsgType = IT_Reject, ih_BodySize = of_nat (4 + length (ir_message m))\<rparr> Buffer_init)"

definition Helper_Logon :: "IpcLogon \<Rightarrow> net_buffer" where
  "Helper_Logon m = put_IpcLogon m (put_IpcHeader
     \<lparr>ih_MsgType = IT_Logon, ih_BodySize = of_nat (4 * 2 + length (il_UserId m) + 4)\<rparr> Buffer_init)"

definition Helper_OrderSingle :: "IpcOrderSingle \<Rightarrow> net_buffer" where
  "Helper_OrderSingle m = put_IpcOrderSingle m (put_IpcHeader
     \<lparr>ih_MsgType = IT_OrderSingle, ih_BodySize = of_nat (4 * 2 + length (io_symbol m) + length (io_orderId m) + 4 + 4 + 1)\<rparr> Buffer_init)"

definition Helper_ExecutionEvent :: "IpcType \<Rightarrow> IpcExecution \<Rightarrow> net_buffer" where
  "Helper_ExecutionEvent ty m = put_IpcExecution m (put_IpcHeader
     \<lparr>ih_MsgType = ty, ih_BodySize = of_nat (4 * 3 + length (ie_symbol m) + length (ie_orderId m)
        + length (ie_execId m) + 4 * 2 + 1 + 4 * 2)\<rparr> Buffer_init)"

definition Helper_HandShake :: net_buffer where
  "Helper_HandShake = put_IpcHeader \<lparr>ih_MsgType = IT_HandShakeAuth, ih_BodySize = 0\<rparr> Buffer_init"

text \<open>The status is cast to its byte; \<^verbatim>\<open>sizeof(PUStatus)\<close> is one.\<close>

definition Helper_Status :: "u8 \<Rightarrow> net_buffer" where
  "Helper_Status st = put_u8 st (put_IpcHeader \<lparr>ih_MsgType = IT_Status, ih_BodySize = 1\<rparr> Buffer_init)"

text \<open>
  The contract of a frame builder: the header announces its type and exactly the bytes its
  message takes. It extends \<open>wire\<close>, and gives what the receiver reads.
\<close>

locale frame = wire put get enc ok
  for put :: "'a \<Rightarrow> net_buffer \<Rightarrow> net_buffer" and get :: "'a \<Rightarrow> net_buffer \<Rightarrow> 'a \<times> net_buffer"
    and enc :: "'a \<Rightarrow> byte list" and ok :: "'a \<Rightarrow> bool" +
  fixes helper :: "'a \<Rightarrow> net_buffer" and ty :: IpcType
  assumes helper: "ok x \<Longrightarrow> helper x = put x (put_IpcHeader \<lparr>ih_MsgType = ty, ih_BodySize = of_nat (length (enc x))\<rparr> Buffer_init)"
    and ty_ok: "IpcType_ok ty"
begin

lemma frame_bytes: "ok x \<Longrightarrow> m_data (helper x) = IpcType_code ty # be32 (of_nat (length (enc x))) @ enc x"
  by (simp add: helper put_enc wh.put_enc ty_ok append_bytes_def enc_IpcHeader_def Buffer_init_def)

lemma frame_fresh: "ok x \<Longrightarrow> m_valid (helper x) \<and> m_read (helper x) = 0"
  by (simp add: helper put_enc wh.put_enc ty_ok append_bytes_def Buffer_init_def)

lemma frame_read:
  assumes "ok x" "length (enc x) < 2 ^ 32" "get_IpcHeader junk d (helper x) = (h, b)"
  shows "ih_MsgType h = ty" "unat (ih_BodySize h) = length (enc x)" "fst (get d' b) = x"
proof -
  let ?h = "\<lparr>ih_MsgType = ty, ih_BodySize = of_nat (length (enc x))\<rparr>"
  have r: "reads_at (helper x) (enc_IpcHeader ?h @ (enc x @ []))"
    using assms(1,2) frame_bytes[OF assms(1)] frame_fresh[OF assms(1)]
    by (simp add: reads_at_def enc_IpcHeader_def)
  have k: "IpcType_ok (ih_MsgType ?h)" using ty_ok by simp
  have e: "h = ?h" "b = skip (length (enc_IpcHeader ?h)) (helper x)"
    using wh.get_enc[OF k r, of junk d] assms(3) by simp_all
  have "reads_at b (enc x @ [])" using wh.get_moves[OF k r, of junk d] assms(3) by simp
  from get_enc[OF assms(1) this] show "fst (get d' b) = x" by simp
  show "ih_MsgType h = ty" using e by simp
  have "unat (of_nat (length (enc x)) :: u32) = length (enc x)"
    by (rule unat_of_nat_small) (use assms(2) in simp)
  then show "unat (ih_BodySize h) = length (enc x)" using e by simp
qed

end

interpretation hfi: frame put_AuthFrontToInitiator get_AuthFrontToInitiator enc_AuthFrontToInitiator ok_AuthFrontToInitiator Helper_FrontToInitiator IT_FrontToInitiatorAuth
  by unfold_locales (auto simp: Helper_FrontToInitiator_def enc_AuthFrontToInitiator_def ac_simps intro: IpcType_all_ok simp: IpcType_all_def)

interpretation hif: frame put_AuthInitiatorToFront get_AuthInitiatorToFront enc_AuthInitiatorToFront ok_AuthInitiatorToFront Helper_InitiatorToFront IT_InitiatorToFrontAuth
  by unfold_locales (auto simp: Helper_InitiatorToFront_def enc_AuthInitiatorToFront_def ac_simps intro: IpcType_all_ok simp: IpcType_all_def)

interpretation hbi: frame put_AuthBackToInitiator get_AuthBackToInitiator enc_AuthBackToInitiator ok_AuthBackToInitiator Helper_BackToInitiator IT_BackToInitiatorAuth
  by unfold_locales (auto simp: Helper_BackToInitiator_def enc_AuthBackToInitiator_def ac_simps intro: IpcType_all_ok simp: IpcType_all_def)

interpretation hib: frame put_AuthInitiatorToBack get_AuthInitiatorToBack enc_AuthInitiatorToBack ok_AuthInitiatorToBack Helper_InitiatorToBack IT_InitiatorToBackAuth
  by unfold_locales (auto simp: Helper_InitiatorToBack_def enc_AuthInitiatorToBack_def ac_simps intro: IpcType_all_ok simp: IpcType_all_def)

interpretation hifv: frame put_InitiatorToFrontValidToken get_InitiatorToFrontValidToken enc_InitiatorToFrontValidToken ok_InitiatorToFrontValidToken Helper_InitiatorToFrontToken IT_InitiatorToFrontValidToken
  by unfold_locales (auto simp: Helper_InitiatorToFrontToken_def enc_InitiatorToFrontValidToken_def ac_simps intro: IpcType_all_ok simp: IpcType_all_def)

interpretation hfbv: frame put_FrontToBackValidToken get_FrontToBackValidToken enc_FrontToBackValidToken ok_FrontToBackValidToken Helper_FrontToBackToken IT_FrontToBackValidToken
  by unfold_locales (auto simp: Helper_FrontToBackToken_def enc_FrontToBackValidToken_def ac_simps intro: IpcType_all_ok simp: IpcType_all_def)

interpretation hbfv: frame put_FrontToBackValidToken get_FrontToBackValidToken enc_FrontToBackValidToken ok_FrontToBackValidToken Helper_BackToFrontToken IT_BackToFrontValidToken
  by unfold_locales (auto simp: Helper_BackToFrontToken_def enc_FrontToBackValidToken_def ac_simps intro: IpcType_all_ok simp: IpcType_all_def)

interpretation hrej: frame put_IpcReject get_IpcReject enc_IpcReject ok_IpcReject Helper_Reject IT_Reject
  by unfold_locales (auto simp: Helper_Reject_def enc_IpcReject_def ac_simps intro: IpcType_all_ok simp: IpcType_all_def)

interpretation hlog: frame put_IpcLogon get_IpcLogon enc_IpcLogon ok_IpcLogon Helper_Logon IT_Logon
  by unfold_locales (auto simp: Helper_Logon_def enc_IpcLogon_def ac_simps intro: IpcType_all_ok simp: IpcType_all_def)

interpretation hos: frame put_IpcOrderSingle "get_IpcOrderSingle junk" enc_IpcOrderSingle ok_IpcOrderSingle Helper_OrderSingle IT_OrderSingle for junk
  by unfold_locales (auto simp: Helper_OrderSingle_def enc_IpcOrderSingle_def ac_simps intro: IpcType_all_ok simp: IpcType_all_def)

interpretation hen: frame put_IpcExecution get_IpcExecution enc_IpcExecution ok_IpcExecution
  "Helper_ExecutionEvent IT_ExecNew" IT_ExecNew
  by unfold_locales (auto simp: Helper_ExecutionEvent_def enc_IpcExecution_def ac_simps intro: IpcType_all_ok simp: IpcType_all_def)

interpretation hev: frame put_IpcExecution get_IpcExecution enc_IpcExecution ok_IpcExecution
  "Helper_ExecutionEvent IT_ExecEvent" IT_ExecEvent
  by unfold_locales (auto simp: Helper_ExecutionEvent_def enc_IpcExecution_def ac_simps intro: IpcType_all_ok simp: IpcType_all_def)

interpretation hst: frame put_u8 get_u8 "\<lambda>v. [v]" "\<lambda>_. True" Helper_Status IT_Status
  by unfold_locales (auto simp: Helper_Status_def ac_simps intro: IpcType_all_ok simp: IpcType_all_def)


section \<open>The receive loop\<close>

text \<open>
  One round of \<^verbatim>\<open>IPCNetworkManager::receiveLoop\<close> when the selector reports the socket. The
  socket is a parameter: \<open>recv n st\<close> is \<^verbatim>\<open>receive(n, error)\<close> in the connection's state \<open>st\<close>, with
  the bytes and the value of \<^verbatim>\<open>error\<close>.
\<close>

datatype ipc_event =
    IE_error
  | IE_disconnection
  | IE_wrongSize "byte list" int
  | IE_wrongBodySize "byte list" u32
  | IE_receive net_buffer

definition recv_round :: "(nat \<Rightarrow> 's \<Rightarrow> (byte list \<times> int) \<times> 's) \<Rightarrow> u8 \<Rightarrow> IpcHeader \<Rightarrow> 's \<Rightarrow> ipc_event \<times> 's" where
  "recv_round recv junk d st =
     (case recv sizeof_IpcHeader st of ((bytes, err), st1) \<Rightarrow>
        if err \<noteq> int sizeof_IpcHeader
        then ((if err = -1 then IE_error else if err = 0 then IE_disconnection
               else IE_wrongSize bytes err), st1)
        else case get_IpcHeader junk d (append_bytes bytes Buffer_init) of (h, b) \<Rightarrow>
          (case recv (unat (ih_BodySize h)) st1 of ((body, err2), st2) \<Rightarrow>
             if err2 \<noteq> sint (ih_BodySize h) then (IE_wrongBodySize body (ih_BodySize h), st2)
             else (IE_receive (buf_reset (append_bytes body b)), st2)))"

fun recv_rounds :: "(nat \<Rightarrow> 's \<Rightarrow> (byte list \<times> int) \<times> 's) \<Rightarrow> u8 \<Rightarrow> IpcHeader \<Rightarrow> nat \<Rightarrow> 's \<Rightarrow> ipc_event list \<times> 's" where
  "recv_rounds recv junk d 0 st = ([], st)"
| "recv_rounds recv junk d (Suc n) st =
     (case recv_round recv junk d st of (e, st1) \<Rightarrow>
      case recv_rounds recv junk d n st1 of (es, st2) \<Rightarrow> (e # es, st2))"

text \<open>A stream connection whose peer has sent \<open>bs\<close>: at most \<open>n\<close> of the waiting bytes.\<close>

definition stream_recv :: "nat \<Rightarrow> byte list \<Rightarrow> (byte list \<times> int) \<times> byte list" where
  "stream_recv n bs = ((take n bs, int (length (take n bs))), drop n bs)"

definition frame_of :: "IpcType \<Rightarrow> byte list \<Rightarrow> byte list" where
  "frame_of ty body = IpcType_code ty # be32 (of_nat (length body)) @ body"

lemma frame_of_header:
  "frame_of ty body = enc_IpcHeader \<lparr>ih_MsgType = ty, ih_BodySize = of_nat (length body)\<rparr> @ body"
  by (simp add: frame_of_def enc_IpcHeader_def)

text \<open>One frame, from whatever keeps the bytes that wait.\<close>

lemma recv_round_frame_by:
  assumes recv: "\<And>n k. n = 0 \<or> waiting k \<noteq> [] \<Longrightarrow>
      \<exists>k'. recv n k = ((take n (waiting k), int (length (take n (waiting k)))), k') \<and> waiting k' = drop n (waiting k) \<and> keep k' = keep k"
    and "IpcType_ok ty" "length body < 2 ^ 31" and w: "waiting k = frame_of ty body @ rest"
  shows "\<exists>k'. recv_round recv junk d k = (IE_receive \<lparr>m_valid = True, m_read = 0, m_data = frame_of ty body\<rparr>, k')
    \<and> waiting k' = rest \<and> keep k' = keep k"
proof -
  let ?h = "\<lparr>ih_MsgType = ty, ih_BodySize = of_nat (length body) :: u32\<rparr>"
  let ?b = "append_bytes (enc_IpcHeader ?h) Buffer_init"
  have l: "length (enc_IpcHeader ?h) = 5" by (simp add: enc_IpcHeader_def)
  have n: "unat (of_nat (length body) :: u32) = length body"
    by (rule unat_of_nat_small) (use assms(3) in simp)
  have si: "sint (of_nat (length body) :: u32) = int (length body)"
    using assms(3) by (simp add: signed_of_nat signed_take_bit_int_eq_self)
  have "reads_at ?b (enc_IpcHeader ?h @ [])" by (simp add: reads_at_def append_bytes_def Buffer_init_def l)
  from wh.get_enc[OF _ this, of junk d] have g: "get_IpcHeader junk d ?b = (?h, skip 5 ?b)" using assms(2) l by simp
  have w1: "waiting k = enc_IpcHeader ?h @ body @ rest" using w by (simp add: frame_of_header)
  with l have "waiting k \<noteq> []" by auto
  with w1 l recv[of 5 k] obtain k1 where k1: "recv 5 k = ((enc_IpcHeader ?h, 5), k1)" "waiting k1 = body @ rest" "keep k1 = keep k"
    by auto
  from recv[of "length body" k1] k1(2) obtain k2 where
    "recv (length body) k1 = ((body, int (length body)), k2)" "waiting k2 = rest" "keep k2 = keep k1" by auto
  with k1 g n si show ?thesis
    by (simp add: recv_round_def sizeof_IpcHeader_def append_bytes_def buf_reset_def skip_def Buffer_init_def frame_of_header)
qed

lemma recv_round_frame:
  assumes "IpcType_ok ty" "length body < 2 ^ 31"
  shows "recv_round stream_recv junk d (frame_of ty body @ rest)
    = (IE_receive \<lparr>m_valid = True, m_read = 0, m_data = frame_of ty body\<rparr>, rest)"
  using recv_round_frame_by[where waiting = "\<lambda>st. st" and keep = "\<lambda>_. ()" and recv = stream_recv and rest = rest and junk = junk and d = d, OF _ assms refl]
  by (simp add: stream_recv_def)

lemma recv_rounds_frames:
  assumes "\<forall>(ty, body) \<in> set fs. IpcType_ok ty \<and> length body < 2 ^ 31"
  shows "recv_rounds stream_recv junk d (length fs) (concat (map (\<lambda>(ty, body). frame_of ty body) fs) @ rest)
    = (map (\<lambda>(ty, body). IE_receive \<lparr>m_valid = True, m_read = 0, m_data = frame_of ty body\<rparr>) fs, rest)"
  using assms by (induction fs) (auto simp: recv_round_frame split: prod.splits)

end
