(* ===== verification/Threads.thy ===== *)
theory Threads
  imports Prelude
begin

text \<open>
  The concurrency building blocks of \<^verbatim>\<open>shared/Thread\<close> and \<^verbatim>\<open>shared/ProcessUnit\<close>: the queue every
  processing unit reads (\<^verbatim>\<open>ts::Queue\<close>), the loop that empties it (\<^verbatim>\<open>AInputProcess::runtime\<close>), the
  ticket lock that orders the market's workers (\<^verbatim>\<open>QueueMutex\<close>), the thread pool and the life
  cycle of a processing unit.
\<close>

section \<open>The queue between units\<close>

type_synonym 'a ts_queue = "'a list"

definition ts_empty :: "'a ts_queue \<Rightarrow> bool" where
  "ts_empty q \<longleftrightarrow> q = []"

definition ts_size :: "'a ts_queue \<Rightarrow> nat" where
  "ts_size q = length q"

definition ts_push :: "'a \<Rightarrow> 'a ts_queue \<Rightarrow> 'a ts_queue" where
  "ts_push x q = q @ [x]"

text \<open>\<open>front\<close>, \<open>pop\<close> and \<open>pop_front\<close> of an empty \<^verbatim>\<open>std::queue\<close> are undefined: \<open>None\<close>.\<close>

definition ts_front :: "'a ts_queue \<Rightarrow> 'a option" where
  "ts_front q = (case q of [] \<Rightarrow> None | x # _ \<Rightarrow> Some x)"

definition ts_pop :: "'a ts_queue \<Rightarrow> 'a ts_queue option" where
  "ts_pop q = (case q of [] \<Rightarrow> None | _ # q' \<Rightarrow> Some q')"

definition ts_pop_front :: "'a ts_queue \<Rightarrow> ('a \<times> 'a ts_queue) option" where
  "ts_pop_front q = (case q of [] \<Rightarrow> None | x # q' \<Rightarrow> Some (x, q'))"

text \<open>What the units rely on: first in, first out, and popping exactly when not empty.\<close>

locale fifo =
  fixes empty :: "'q \<Rightarrow> bool" and push :: "'a \<Rightarrow> 'q \<Rightarrow> 'q" and pop :: "'q \<Rightarrow> ('a \<times> 'q) option"
    and contents :: "'q \<Rightarrow> 'a list"
  assumes empty_iff: "empty q \<longleftrightarrow> contents q = []"
    and push_contents: "contents (push x q) = contents q @ [x]"
    and pop_none: "pop q = None \<longleftrightarrow> contents q = []"
    and pop_some: "pop q = Some (x, q') \<Longrightarrow> contents q = x # contents q'"
begin

lemma pop_head: "contents q = x # xs \<Longrightarrow> \<exists>q'. pop q = Some (x, q') \<and> contents q' = xs"
  using pop_none[of q] pop_some[of q] by (cases "pop q") auto

lemma contents_push_all: "contents (fold push xs q) = contents q @ xs"
  by (induction xs arbitrary: q) (auto simp: push_contents)

end

interpretation tsq: fifo ts_empty ts_push ts_pop_front "\<lambda>q. q"
  by unfold_locales (auto simp: ts_empty_def ts_push_def ts_pop_front_def split: list.splits)

text \<open>
  The inner loop of \<^verbatim>\<open>AInputProcess::runtime\<close>: while the queue is not empty, take the front and
  hand it to \<^verbatim>\<open>onInput\<close>.
\<close>

function drain :: "('a \<Rightarrow> 's \<Rightarrow> 's) \<Rightarrow> 'a ts_queue \<Rightarrow> 's \<Rightarrow> 'a ts_queue \<times> 's" where
  "drain onInput q s = (if ts_empty q then (q, s)
     else case ts_pop_front q of None \<Rightarrow> (q, s) | Some (x, q') \<Rightarrow> drain onInput q' (onInput x s))"
  by pat_completeness auto
termination
  by (relation "measure (\<lambda>(f, q, s). length q)") (auto dest: tsq.pop_some)
declare drain.simps [simp del]

text \<open>Every input is handled exactly once, in the order of arrival.\<close>

lemma drain_cases:
  "drain f [] s = ([], s)" "drain f (x # q) s = drain f q (f x s)"
  by (subst drain.simps, simp add: ts_empty_def ts_pop_front_def)+

lemma drain_fold: "drain f q s = ([], fold f q s)"
  by (induction q arbitrary: s) (simp_all add: drain_cases)

section \<open>The ticket lock of the market workers\<close>

record 'a queue_mutex =
  qm_queue :: "'a list"
  qm_lock :: bool

definition qm_init :: "'a queue_mutex" where
  "qm_init = \<lparr>qm_queue = [], qm_lock = False\<rparr>"

definition qm_allow :: "'a \<Rightarrow> 'a queue_mutex \<Rightarrow> 'a queue_mutex" where
  "qm_allow x m = m\<lparr>qm_queue := qm_queue m @ [x]\<rparr>"

text \<open>The search runs from the back: the last ticket with that value goes.\<close>

definition qm_finish :: "'a \<Rightarrow> 'a queue_mutex \<Rightarrow> bool \<times> 'a queue_mutex" where
  "qm_finish x m = (if x \<in> set (qm_queue m)
     then (True, m\<lparr>qm_queue := rev (erase_first (\<lambda>y. y = x) (rev (qm_queue m)))\<rparr>)
     else (False, m))"

definition qm_unlock :: "'a queue_mutex \<Rightarrow> 'a queue_mutex" where
  "qm_unlock m = m\<lparr>qm_lock := False, qm_queue := tl (qm_queue m)\<rparr>"

definition qm_empty :: "'a queue_mutex \<Rightarrow> bool" where
  "qm_empty m \<longleftrightarrow> qm_queue m = []"

definition qm_front :: "'a queue_mutex \<Rightarrow> 'a option" where
  "qm_front m = (case qm_queue m of [] \<Rightarrow> None | x # _ \<Rightarrow> Some x)"

text \<open>The condition \<^verbatim>\<open>lock\<close> spins on.\<close>

definition qm_spins :: "'a \<Rightarrow> 'a queue_mutex \<Rightarrow> bool" where
  "qm_spins x m \<longleftrightarrow> qm_empty m \<or> qm_front m \<noteq> Some x \<or> qm_lock m"

text \<open>
  The threads around one lock, at the grain of the single reads of the loop condition, since
  \<^verbatim>\<open>empty()\<close>, \<^verbatim>\<open>front()\<close> and \<^verbatim>\<open>m_lock\<close> are read one after the other without a common lock. The
  router takes a ticket for an identifier and then either withdraws it or starts the worker.
  With \<open>late\<close>, it also starts the worker of a withdrawn ticket.
\<close>

datatype pc = Idle | Ticket | Withdrawn | Loop | SawNonEmpty | SawFront | SawFree | Inside | Left

record 'a qm_sys =
  qs_m :: "'a queue_mutex"
  qs_pc :: "'a \<Rightarrow> pc"
  qs_order :: "'a list" \<comment> \<open>the tickets taken and not withdrawn, in order\<close>
  qs_log :: "'a list" \<comment> \<open>who entered, in order\<close>

abbreviation (input) goto :: "'a \<Rightarrow> pc \<Rightarrow> 'a qm_sys \<Rightarrow> 'a qm_sys" where
  "goto x p s \<equiv> s\<lparr>qs_pc := (qs_pc s)(x := p)\<rparr>"

inductive qm_step :: "bool \<Rightarrow> 'a qm_sys \<Rightarrow> 'a qm_sys \<Rightarrow> bool" for late where
  st_allow: "qs_pc s x = Idle \<Longrightarrow>
     qm_step late s (goto x Ticket s\<lparr>qs_m := qm_allow x (qs_m s), qs_order := qs_order s @ [x]\<rparr>)"
| st_finish: "qs_pc s x = Ticket \<Longrightarrow> qm_finish x (qs_m s) = (b, m') \<Longrightarrow>
     qm_step late s (goto x Withdrawn s\<lparr>qs_m := m', qs_order := erase_first (\<lambda>y. y = x) (qs_order s)\<rparr>)"
| st_start: "qs_pc s x = Ticket \<or> (late \<and> qs_pc s x = Withdrawn) \<Longrightarrow> qm_step late s (goto x Loop s)"
| st_empty: "qs_pc s x = Loop \<Longrightarrow>
     qm_step late s (if qm_empty (qs_m s) then s else goto x SawNonEmpty s)"
| st_front: "qs_pc s x = SawNonEmpty \<Longrightarrow>
     qm_step late s (if qm_front (qs_m s) = Some x then goto x SawFront s else goto x Loop s)"
| st_free: "qs_pc s x = SawFront \<Longrightarrow>
     qm_step late s (if qm_lock (qs_m s) then goto x Loop s else goto x SawFree s)"
| st_enter: "qs_pc s x = SawFree \<Longrightarrow>
     qm_step late s (goto x Inside s\<lparr>qs_m := (qs_m s)\<lparr>qm_lock := True\<rparr>, qs_log := qs_log s @ [x]\<rparr>)"
| st_unlock: "qs_pc s x = Inside \<Longrightarrow>
     qm_step late s (goto x Left s\<lparr>qs_m := qm_unlock (qs_m s)\<rparr>)"

definition qs_init :: "'a qm_sys" where
  "qs_init = \<lparr>qs_m = qm_init, qs_pc = (\<lambda>_. Idle), qs_order = [], qs_log = []\<rparr>"

inductive qm_reach :: "bool \<Rightarrow> 'a qm_sys \<Rightarrow> bool" for late where
  qr_init: "qm_reach late qs_init"
| qr_step: "qm_reach late s \<Longrightarrow> qm_step late s s' \<Longrightarrow> qm_reach late s'"

definition qm_inv :: "'a qm_sys \<Rightarrow> bool" where
  "qm_inv s \<longleftrightarrow> distinct (qm_queue (qs_m s))
     \<and> (\<forall>x. x \<in> set (qm_queue (qs_m s)) \<longrightarrow> qs_pc s x \<notin> {Idle, Withdrawn, Left})
     \<and> (\<forall>x. qs_pc s x = Ticket \<longrightarrow> x \<in> set (qm_queue (qs_m s)))
     \<and> (\<forall>x. qs_pc s x \<in> {SawFront, SawFree, Inside} \<longrightarrow> qm_front (qs_m s) = Some x)
     \<and> (\<forall>x. qs_pc s x = SawFree \<longrightarrow> \<not> qm_lock (qs_m s))
     \<and> (\<forall>x. qs_pc s x = Inside \<longrightarrow> qm_lock (qs_m s))
     \<and> (qm_lock (qs_m s) \<longrightarrow> (\<exists>x. qm_front (qs_m s) = Some x \<and> qs_pc s x = Inside))
     \<and> qs_order s = qs_log s @ (if qm_lock (qs_m s) then tl (qm_queue (qs_m s)) else qm_queue (qs_m s))
     \<and> set (qs_log s) \<subseteq> {x. qs_pc s x \<in> {Inside, Left}}"

lemma qm_inv_init: "qm_inv qs_init"
  by (simp add: qm_inv_def qs_init_def qm_init_def)

lemma qm_front_Cons: "qm_front m = Some x \<longleftrightarrow> (\<exists>xs. qm_queue m = x # xs)"
  by (auto simp: qm_front_def split: list.splits)

lemma rev_erase_distinct: "distinct q \<Longrightarrow> rev (erase_first (\<lambda>y. y = x) (rev q)) = filter (\<lambda>y. y \<noteq> x) q"
  using erase_first_filter[of "\<lambda>y. y" "rev q" x] by (simp add: rev_filter[symmetric])

lemma qm_invD:
  assumes "qm_inv s"
  shows "distinct (qm_queue (qs_m s))"
    "z \<in> set (qm_queue (qs_m s)) \<Longrightarrow> qs_pc s z \<notin> {Idle, Withdrawn, Left}"
    "qs_pc s z = Ticket \<Longrightarrow> z \<in> set (qm_queue (qs_m s))"
    "qs_pc s z \<in> {SawFront, SawFree, Inside} \<Longrightarrow> \<exists>xs. qm_queue (qs_m s) = z # xs"
    "qs_pc s z = SawFree \<Longrightarrow> \<not> qm_lock (qs_m s)" "qs_pc s z = Inside \<Longrightarrow> qm_lock (qs_m s)"
    "qm_lock (qs_m s) \<Longrightarrow> \<exists>y xs. qm_queue (qs_m s) = y # xs \<and> qs_pc s y = Inside"
    "qs_order s = qs_log s @ (if qm_lock (qs_m s) then tl (qm_queue (qs_m s)) else qm_queue (qs_m s))"
    "set (qs_log s) \<subseteq> {x. qs_pc s x \<in> {Inside, Left}}"
  using assms unfolding qm_inv_def qm_front_Cons by blast+

text \<open>A step inside the spin loop moves only the program counter.\<close>

lemma qm_inv_goto:
  assumes inv: "qm_inv s" and x: "qs_pc s x \<notin> {Inside, Left}"
    and p: "p \<in> {Loop, SawNonEmpty, SawFront, SawFree}"
    and f: "p \<in> {SawFront, SawFree} \<Longrightarrow> qm_front (qs_m s) = Some x"
    and l: "p = SawFree \<Longrightarrow> \<not> qm_lock (qs_m s)"
  shows "qm_inv (goto x p s)"
proof -
  note J = qm_invD[OF inv]
  show ?thesis unfolding qm_inv_def
  proof (intro conjI allI impI, goal_cases)
    case 1 then show ?case using J(1) by simp
  next
    case (2 z) then show ?case using J(2)[of z] p by (cases "z = x") auto
  next
    case (3 z) then show ?case using J(3)[of z] p by (cases "z = x") auto
  next
    case (4 z) then show ?case using J(4)[of z] f p by (cases "z = x") (auto simp: qm_front_Cons)
  next
    case (5 z) then show ?case using J(5)[of z] l by (cases "z = x") simp_all
  next
    case (6 z) then show ?case using J(6)[of z] p by (cases "z = x") auto
  next
    case 7
    then obtain y xs where y: "qm_queue (qs_m s) = y # xs" "qs_pc s y = Inside" using J(7) by auto
    then have "y \<noteq> x" using x by auto
    with y show ?case by (intro exI[of _ y]) (simp add: qm_front_Cons)
  next
    case 8 then show ?case using J(8) by simp
  next
    case 9 then show ?case using J(9) x by auto
  qed
qed

lemma qm_step_inv:
  assumes "qm_step late s s'" "qm_inv s"
  shows "qm_inv s'"
  using assms
proof (induction rule: qm_step.induct)
  case (st_allow s x)
  then have q: "x \<notin> set (qm_queue (qs_m s))" by (auto simp: qm_inv_def)
  have old: "qs_pc s x = Idle" by (rule st_allow)
  show ?case
  proof (cases "qm_queue (qs_m s)")
    case Nil
    with st_allow show ?thesis by (auto simp: qm_inv_def qm_allow_def qm_front_def)
  next
    case (Cons y ys)
    with q have "y \<noteq> x" by auto
    have I: "distinct (y # ys)" "\<forall>z \<in> set (y # ys). qs_pc s z \<notin> {Idle, Withdrawn, Left}"
      "\<forall>z. qs_pc s z = Ticket \<longrightarrow> z \<in> set (y # ys)"
      "\<forall>z. qs_pc s z \<in> {SawFront, SawFree, Inside} \<longrightarrow> z = y"
      "\<forall>z. qs_pc s z = SawFree \<longrightarrow> \<not> qm_lock (qs_m s)" "\<forall>z. qs_pc s z = Inside \<longrightarrow> qm_lock (qs_m s)"
      "qm_lock (qs_m s) \<longrightarrow> qs_pc s y = Inside"
      "qs_order s = qs_log s @ (if qm_lock (qs_m s) then ys else y # ys)"
      "set (qs_log s) \<subseteq> {z. qs_pc s z \<in> {Inside, Left}}"
      using st_allow(2) unfolding qm_inv_def qm_front_def Cons by auto
    show ?thesis unfolding qm_inv_def
    proof (intro conjI allI impI, goal_cases)
      case 1 then show ?case using I(1) q Cons \<open>y \<noteq> x\<close> by (simp add: qm_allow_def)
    next
      case (2 z) then show ?case using I(2) Cons by (auto simp: qm_allow_def)
    next
      case (3 z) then show ?case using I(3)[rule_format, of z] Cons
        by (cases "z = x") (simp_all add: qm_allow_def)
    next
      case (4 z)
      then have "qs_pc s z \<in> {SawFront, SawFree, Inside}" by (auto split: if_splits)
      then have "z = y" by (rule I(4)[rule_format])
      then show ?case using Cons by (simp add: qm_allow_def qm_front_def)
    next
      case (5 z) then show ?case using I(5)[rule_format, of z] by (auto simp: qm_allow_def split: if_splits)
    next
      case (6 z) then show ?case using I(6)[rule_format, of z] by (auto simp: qm_allow_def split: if_splits)
    next
      case 7
      then have "qs_pc s y = Inside" using I(7) by (simp add: qm_allow_def)
      then show ?case using \<open>y \<noteq> x\<close> Cons by (intro exI[of _ y]) (simp add: qm_allow_def qm_front_def)
    next
      case 8 then show ?case using I(8) Cons by (simp add: qm_allow_def)
    next
      case 9 then show ?case using I(9) old by (auto simp: qm_allow_def)
    qed
  qed
next
  case (st_finish s x b m')
  let ?q = "qm_queue (qs_m s)"
  note J = qm_invD[OF st_finish(3)]
  have pc: "qs_pc s x = Ticket" by (rule st_finish)
  have x: "x \<in> set ?q" by (rule J(3)[OF pc])
  have xl: "x \<notin> set (qs_log s)" using J(9) pc by auto
  have m': "m' = (qs_m s)\<lparr>qm_queue := filter (\<lambda>y. y \<noteq> x) ?q\<rparr>"
    using st_finish(2) J(1) x by (simp add: qm_finish_def rev_erase_distinct)
  have er: "erase_first (\<lambda>y. y = x) l = filter (\<lambda>y. y \<noteq> x) l" if "distinct l" for l
    using erase_first_filter[of "\<lambda>y. y" l x] that by simp
  have ap: "erase_first (\<lambda>y. y = x) (qs_log s @ l) = qs_log s @ erase_first (\<lambda>y. y = x) l" for l
    using xl by (auto simp: erase_first_append)
  let ?q' = "filter (\<lambda>y. y \<noteq> x) ?q"
  have keep: "\<exists>xs. ?q' = y # xs" if "qs_pc s y \<in> {SawFront, SawFree, Inside}" for y
    using J(4)[OF that] that pc by auto
  have ord: "erase_first (\<lambda>y. y = x) (qs_order s) = qs_log s @ (if qm_lock (qs_m s) then tl ?q' else ?q')"
  proof (cases "qm_lock (qs_m s)")
    case True
    then obtain y xs where y: "?q = y # xs" "qs_pc s y = Inside" using J(7) by blast
    then have "y \<noteq> x" using pc by auto
    with y True J(1) show ?thesis unfolding J(8) ap by (simp add: er)
  next
    case False
    with J(1) show ?thesis unfolding J(8) ap by (simp add: er)
  qed
  show ?case unfolding qm_inv_def
  proof (intro conjI allI impI, goal_cases)
    case 1 then show ?case using J(1) by (simp add: m')
  next
    case (2 z) then show ?case using J(2)[of z] by (auto simp: m')
  next
    case (3 z) then show ?case using J(3)[of z] by (cases "z = x") (simp_all add: m')
  next
    case (4 z) then have "z \<noteq> x" "qs_pc s z \<in> {SawFront, SawFree, Inside}" by (auto split: if_splits)
    then show ?case using keep[of z] by (simp add: m' qm_front_Cons)
  next
    case (5 z) then show ?case using J(5)[of z] by (cases "z = x") (simp_all add: m')
  next
    case (6 z) then show ?case using J(6)[of z] by (cases "z = x") (simp_all add: m')
  next
    case 7
    then obtain y where y: "qs_pc s y = Inside" using J(7) by (auto simp: m')
    then have "y \<noteq> x" using pc by auto
    with y keep[of y] show ?case by (intro exI[of _ y]) (simp add: m' qm_front_Cons)
  next
    case 8 then show ?case using ord by (simp add: m')
  next
    case 9 then show ?case using J(9) xl by auto
  qed
next
  case (st_start s x)
  then show ?case by (intro qm_inv_goto) auto
next
  case (st_empty s x)
  then show ?case by (auto intro!: qm_inv_goto)
next
  case (st_front s x)
  then show ?case by (auto intro!: qm_inv_goto)
next
  case (st_free s x)
  note J = qm_invD(4)[OF st_free(2), of x]
  with st_free show ?case by (auto intro!: qm_inv_goto simp: qm_front_Cons)
next
  case (st_enter s x)
  note J = qm_invD[OF st_enter(2)]
  have free: "\<not> qm_lock (qs_m s)" by (rule J(5)[OF st_enter(1)])
  obtain xs where q: "qm_queue (qs_m s) = x # xs" using J(4)[of x] st_enter(1) by auto
  have only: "z = x" if "qs_pc s z \<in> {SawFront, SawFree, Inside}" for z
    using J(4)[OF that] q by simp
  show ?case unfolding qm_inv_def
  proof (intro conjI allI impI, goal_cases)
    case 1 then show ?case using J(1) by simp
  next
    case (2 z) then show ?case using J(2)[of z] by (cases "z = x") auto
  next
    case (3 z) then show ?case using J(3)[of z] by (cases "z = x") simp_all
  next
    case (4 z) then show ?case using only[of z] q by (cases "z = x") (simp_all add: qm_front_Cons)
  next
    case (5 z) then show ?case using only[of z] by (cases "z = x") simp_all
  next
    case (6 z) then show ?case by simp
  next
    case 7 then show ?case using q by (intro exI[of _ x]) (simp add: qm_front_Cons)
  next
    case 8 then show ?case using J(8) free q by simp
  next
    case 9 then show ?case using J(9) by auto
  qed
next
  case (st_unlock s x)
  note J = qm_invD[OF st_unlock(2)]
  obtain xs where q: "qm_queue (qs_m s) = x # xs" using J(4)[of x] st_unlock(1) by auto
  have lock: "qm_lock (qs_m s)" by (rule J(6)[OF st_unlock(1)])
  have only: "z = x" if "qs_pc s z \<in> {SawFront, SawFree, Inside}" for z
    using J(4)[OF that] q by simp
  show ?case unfolding qm_inv_def
  proof (intro conjI allI impI, goal_cases)
    case 1 then show ?case using J(1) q by (simp add: qm_unlock_def)
  next
    case (2 z) then show ?case using J(1) J(2)[of z] q by (cases "z = x") (simp_all add: qm_unlock_def)
  next
    case (3 z) then show ?case using J(3)[of z] q by (cases "z = x") (simp_all add: qm_unlock_def)
  next
    case (4 z) then show ?case using only[of z] by (cases "z = x") simp_all
  next
    case (5 z) then show ?case by (simp add: qm_unlock_def)
  next
    case (6 z) then show ?case using only[of z] by (cases "z = x") simp_all
  next
    case 7 then show ?case by (simp add: qm_unlock_def)
  next
    case 8 then show ?case using J(8) lock q by (simp add: qm_unlock_def)
  next
    case 9 then show ?case using J(9) by auto
  qed
qed

lemma qm_reach_inv: "qm_reach late s \<Longrightarrow> qm_inv s"
  by (induction rule: qm_reach.induct) (auto intro: qm_inv_init qm_step_inv)

inductive_cases qm_step_start: "qm_step late s s'"

text \<open>The worker at the front is never blocked: its own steps alone take it inside.\<close>

inductive own_steps :: "'a \<Rightarrow> 'a qm_sys \<Rightarrow> 'a qm_sys \<Rightarrow> bool" for x where
  own_refl: "own_steps x s s"
| own_step: "qm_step False s s' \<Longrightarrow> (\<And>y. y \<noteq> x \<Longrightarrow> qs_pc s' y = qs_pc s y) \<Longrightarrow> own_steps x s' s''
    \<Longrightarrow> own_steps x s s''"

definition enters :: "'a \<Rightarrow> 'a qm_sys \<Rightarrow> bool" where
  "enters x s \<longleftrightarrow> (\<exists>s'. own_steps x s s' \<and> qs_pc s' x = Inside)"

lemma enters_step: "qm_step False s s' \<Longrightarrow> (\<And>y. y \<noteq> x \<Longrightarrow> qs_pc s' y = qs_pc s y) \<Longrightarrow> enters x s' \<Longrightarrow> enters x s"
  unfolding enters_def by (meson own_step)

lemma enters_free: "qs_pc s x = SawFree \<Longrightarrow> enters x s"
  by (rule enters_step[OF st_enter]) (auto simp: enters_def intro: own_refl)

lemma enters_front: "qs_pc s x = SawFront \<Longrightarrow> \<not> qm_lock (qs_m s) \<Longrightarrow> enters x s"
  by (rule enters_step[OF st_free[of s x]]) (simp_all add: enters_free)

lemma enters_nonempty:
  "qs_pc s x = SawNonEmpty \<Longrightarrow> qm_front (qs_m s) = Some x \<Longrightarrow> \<not> qm_lock (qs_m s) \<Longrightarrow> enters x s"
  by (rule enters_step[OF st_front[of s x]]) (simp_all add: enters_front)

lemma enters_loop:
  "qs_pc s x = Loop \<Longrightarrow> qm_front (qs_m s) = Some x \<Longrightarrow> \<not> qm_lock (qs_m s) \<Longrightarrow> enters x s"
  by (rule enters_step[OF st_empty[of s x]])
    (simp_all add: enters_nonempty qm_empty_def qm_front_def split: list.splits)

lemma front_enters:
  assumes inv: "qm_inv s" and f: "qm_front (qs_m s) = Some x"
    and pc: "qs_pc s x \<in> {Loop, SawNonEmpty, SawFront, SawFree}"
  shows "enters x s"
proof -
  have "\<not> qm_lock (qs_m s)"
  proof
    assume "qm_lock (qs_m s)"
    then have "qs_pc s x = Inside" using inv f unfolding qm_inv_def by simp
    with pc show False by simp
  qed
  with f pc show ?thesis
    by (auto simp: enters_loop enters_nonempty enters_front enters_free)
qed

text \<open>A worker whose ticket was withdrawn never gets in, and spins for ever once started.\<close>

definition lost :: "'a \<Rightarrow> 'a qm_sys \<Rightarrow> bool" where
  "lost x s \<longleftrightarrow> x \<notin> set (qm_queue (qs_m s)) \<and> qs_pc s x \<in> {Withdrawn, Loop, SawNonEmpty}"

lemma lost_stays:
  assumes "qm_step late s s'" "qm_inv s" "lost x s"
  shows "lost x s'"
  using assms
proof (induction rule: qm_step.induct)
  case (st_finish s y b m')
  then have "distinct (qm_queue (qs_m s))" by (simp add: qm_inv_def)
  with st_finish(2) have "set (qm_queue m') \<subseteq> set (qm_queue (qs_m s))"
    by (auto simp: qm_finish_def rev_erase_distinct split: if_splits)
  with st_finish show ?case by (auto simp: lost_def)
next
  case (st_unlock s y)
  then show ?case by (cases "qm_queue (qs_m s)") (auto simp: lost_def qm_unlock_def)
next
  case (st_front s y)
  then show ?case by (auto simp: lost_def qm_front_Cons)
qed (auto simp: lost_def qm_allow_def)

section \<open>The thread pool\<close>

datatype TPFinishStrategy = WaitEmpty | Direct

record 'a pool =
  tp_isStarted :: bool
  tp_terminate :: bool
  tp_queue :: "'a ts_queue"
  tp_finish :: TPFinishStrategy

definition pool_new :: "'a pool" where
  "pool_new = \<lparr>tp_isStarted = False, tp_terminate = False, tp_queue = [], tp_finish = Direct\<rparr>"

text \<open>\<open>start\<close> also tells whether it created the threads; \<open>stop\<close> whether it waits for them.\<close>

definition pool_start :: "'a pool \<Rightarrow> bool \<times> 'a pool" where
  "pool_start p = (if tp_isStarted p then (False, p) else (True, p\<lparr>tp_isStarted := True\<rparr>))"

definition pool_stop :: "TPFinishStrategy \<Rightarrow> 'a pool \<Rightarrow> bool \<times> 'a pool" where
  "pool_stop fin p = (if \<not> tp_isStarted p then (False, p)
     else (True, p\<lparr>tp_finish := fin, tp_terminate := True, tp_isStarted := False\<rparr>))"

definition pool_enqueue :: "'a \<Rightarrow> 'a pool \<Rightarrow> 'a pool" where
  "pool_enqueue t p = p\<lparr>tp_queue := ts_push t (tp_queue p)\<rparr>"

definition pool_empty :: "'a pool \<Rightarrow> bool" where
  "pool_empty p \<longleftrightarrow> ts_empty (tp_queue p)"

definition pool_create :: "'a pool" where
  "pool_create = snd (pool_start pool_new)"

text \<open>
  A worker thread in \<^verbatim>\<open>ThreadPool::loop\<close>: at the loop condition, waiting on the condition
  variable with the mutex released, running a task, or returned.
\<close>

datatype 'a worker = W_head | W_wait | W_run 'a | W_exit

definition worker_step :: "'a worker \<Rightarrow> 'a pool \<Rightarrow> ('a worker \<times> 'a pool) option" where
  "worker_step w p = (case w of
       W_head \<Rightarrow> Some (if tp_terminate p then W_exit else W_wait, p)
     | W_wait \<Rightarrow>
         if pool_empty p \<and> \<not> tp_terminate p then None
         else if tp_terminate p \<and> ((tp_finish p = WaitEmpty \<and> pool_empty p) \<or> tp_finish p = Direct)
         then Some (W_exit, p)
         else (case ts_pop_front (tp_queue p) of
             Some (t, q) \<Rightarrow> Some (W_run t, p\<lparr>tp_queue := q\<rparr>) | None \<Rightarrow> None)
     | W_run t \<Rightarrow> Some (W_head, p)
     | W_exit \<Rightarrow> None)"

text \<open>One worker alone, for at most \<open>n\<close> steps, with the tasks it starts.\<close>

fun worker_run :: "nat \<Rightarrow> 'a worker \<Rightarrow> 'a pool \<Rightarrow> 'a worker \<times> 'a pool \<times> 'a list" where
  "worker_run 0 w p = (w, p, [])"
| "worker_run (Suc n) w p = (case worker_step w p of
       None \<Rightarrow> (w, p, [])
     | Some (w', p') \<Rightarrow> (case worker_run n w' p' of (w2, p2, ts) \<Rightarrow>
         (w2, p2, (case w' of W_run t \<Rightarrow> [t] | _ \<Rightarrow> []) @ ts)))"

lemma worker_run_exit [simp]: "worker_run n W_exit p = (W_exit, p, [])"
  by (cases n) (simp_all add: worker_step_def)

lemma worker_run_head_terminated: "tp_terminate p \<Longrightarrow>
    worker_run (Suc n) W_head p = (W_exit, p, [])"
  by (simp add: worker_step_def)

text \<open>While the pool runs, a worker takes every task in order and then waits for the next.\<close>

lemma worker_runs_all:
  assumes "\<not> tp_terminate p"
  shows "worker_run (3 * length (tp_queue p)) W_wait p = (W_wait, p\<lparr>tp_queue := []\<rparr>, tp_queue p)"
  using assms
proof (induction "tp_queue p" arbitrary: p)
  case Nil
  then show ?case by (metis list.size(3) mult_0_right pool.surjective pool.update_convs(3) worker_run.simps(1))
next
  case (Cons t q)
  let ?p = "p\<lparr>tp_queue := q\<rparr>"
  have IH: "worker_run (3 * length q) W_wait ?p = (W_wait, ?p\<lparr>tp_queue := []\<rparr>, q)"
    using Cons.hyps(1)[of ?p] Cons.prems by simp
  have n: "3 * length (tp_queue p) = Suc (Suc (Suc (3 * length q)))" by (simp flip: Cons.hyps(2))
  have "worker_step W_wait p = Some (W_run t, ?p)"
    using Cons by (simp add: worker_step_def pool_empty_def ts_empty_def ts_pop_front_def flip: Cons.hyps(2))
  moreover have "worker_step (W_run t) ?p = Some (W_head, ?p)" by (simp add: worker_step_def)
  moreover have "worker_step W_head ?p = Some (W_wait, ?p)" using Cons.prems by (simp add: worker_step_def)
  ultimately show ?case unfolding n using IH
    by (simp only: worker_run.simps option.case prod.case worker.case append.simps
        pool.update_convs flip: Cons.hyps(2)) simp
qed

section \<open>The life cycle of a processing unit\<close>

datatype PUStatus = PU_Unknown | PU_Initialize | PU_Running | PU_Stop

fun PUStatus_code :: "PUStatus \<Rightarrow> u8" where
  "PUStatus_code PU_Unknown = 0"
| "PUStatus_code PU_Initialize = 1"
| "PUStatus_code PU_Running = 2"
| "PUStatus_code PU_Stop = 3"

datatype future_status = F_ready | F_timeout | F_deferred | F_other

text \<open>\<^verbatim>\<open>m_future.get()\<close> rethrows what the unit's loop threw: \<open>None\<close>.\<close>

definition pu_status :: "future_status \<Rightarrow> bool \<Rightarrow> PUStatus option" where
  "pu_status fs crashed = (case fs of
       F_ready \<Rightarrow> if crashed then None else Some PU_Stop
     | F_timeout \<Rightarrow> Some PU_Running
     | F_deferred \<Rightarrow> Some PU_Initialize
     | F_other \<Rightarrow> Some PU_Unknown)"

text \<open>
  \<^verbatim>\<open>ProcessUnit::process\<close>: setup when the unit is stoppable, the loop, whose exception is caught
  and kept in the promise, then \<^verbatim>\<open>onStop\<close>. \<open>run\<close> is the loop: the state it ends in and whether
  it threw.
\<close>

definition pu_process :: "bool \<Rightarrow> ('s \<Rightarrow> 's) \<Rightarrow> ('s \<Rightarrow> 's \<times> bool) \<Rightarrow> ('s \<Rightarrow> 's) \<Rightarrow> 's \<Rightarrow> 's \<times> bool" where
  "pu_process stopable setup run onStop s =
     (let s1 = (if stopable then setup s else s)
      in case run s1 of (s2, crashed) \<Rightarrow> ((if stopable then onStop s2 else s2), crashed))"

end
