(* ===== verification/Gui.thy ===== *)
theory Gui
  imports Ipc Threads
begin

text \<open>
  The front end: the managers of its two connections turn frames into Qt signals, the login screen
  is a state machine over them, the order widgets build and show orders. The managers live in
  threads of their own, so a signal is queued: it becomes one event for each slot
  connected at that moment, and the events are handled later, one by one, in the thread of the
  widgets. Of the widgets only what the code reads or decides is kept.
\<close>

section \<open>The managers\<close>

datatype gui_signal =
    GS_connectionReady
  | GS_IdentifyFront string
  | GS_ValidationToken string u32
  | GS_Reject string
  | GS_TokenValidation string
  | GS_Status u8
  | GS_Logon IpcLogon
  | GS_ExecutionNew IpcExecution
  | GS_ExecutionEvent IpcExecution

text \<open>\<open>junk\<close> and \<open>dx\<close>: the contents of the uninitialised locals.\<close>

definition gui_back_onReceive :: "u8 \<Rightarrow> IpcHeader \<Rightarrow> IpcExecution \<Rightarrow> net_buffer \<Rightarrow> gui_signal option" where
  "gui_back_onReceive junk d dx buf = (case get_IpcHeader junk d buf of (h, b) \<Rightarrow>
     (case ih_MsgType h of
       IT_BackToFrontValidToken \<Rightarrow> Some (GS_TokenValidation (fbv_token (fst (get_FrontToBackValidToken \<lparr>fbv_token = []\<rparr> b))))
     | IT_Status \<Rightarrow> Some (GS_Status (fst (get_u8 junk b)))
     | IT_Logon \<Rightarrow> Some (GS_Logon (fst (get_IpcLogon \<lparr>il_UserId = [], il_SeqNum = 0, il_HeartBeat = 0\<rparr> b)))
     | IT_ExecNew \<Rightarrow> Some (GS_ExecutionNew (fst (get_IpcExecution dx b)))
     | IT_ExecEvent \<Rightarrow> Some (GS_ExecutionEvent (fst (get_IpcExecution dx b)))
     | _ \<Rightarrow> None))"

definition gui_initiator_onReceive :: "u8 \<Rightarrow> IpcHeader \<Rightarrow> net_buffer \<Rightarrow> gui_signal option" where
  "gui_initiator_onReceive junk d buf = (case get_IpcHeader junk d buf of (h, b) \<Rightarrow>
     (case ih_MsgType h of
       IT_InitiatorToFrontAuth \<Rightarrow> Some (GS_IdentifyFront (aif_name (fst (get_AuthInitiatorToFront \<lparr>aif_name = []\<rparr> b))))
     | IT_InitiatorToFrontValidToken \<Rightarrow> (case fst (get_InitiatorToFrontValidToken \<lparr>ifv_token = [], ifv_port = 0\<rparr> b) of t \<Rightarrow>
         Some (GS_ValidationToken (ifv_token t) (ifv_port t)))
     | IT_Reject \<Rightarrow> Some (GS_Reject (ir_message (fst (get_IpcReject \<lparr>ir_message = []\<rparr> b))))
     | _ \<Rightarrow> None))"

text \<open>
  A round of \<^verbatim>\<open>BackManager::startConnection\<close>: it repeats the receive loop of the other managers, but
  goes on after an error and after the end of the stream.
\<close>

definition gui_back_round :: "(nat \<Rightarrow> 's \<Rightarrow> (byte list \<times> int) \<times> 's) \<Rightarrow> u8 \<Rightarrow> IpcHeader \<Rightarrow> IpcExecution \<Rightarrow> 's \<Rightarrow> gui_signal option \<times> 's" where
  "gui_back_round recv junk d dx st = (case recv_round recv junk d st of
       (IE_receive b, st1) \<Rightarrow> (gui_back_onReceive junk d dx b, st1)
     | (_, st1) \<Rightarrow> (None, st1))"

section \<open>The login screen\<close>

datatype login_slot = SL_sendIdentification | SL_validatedIdentification | SL_invalidIdentification
  | SL_tokenAuth | SL_tokenValidated | SL_backNotifyStatus | SL_backNotifyLogon

definition slot_takes :: "login_slot \<Rightarrow> gui_signal \<Rightarrow> bool" where
  "slot_takes sl sig = (case sig of
       GS_connectionReady \<Rightarrow> sl = SL_sendIdentification
     | GS_IdentifyFront _ \<Rightarrow> sl = SL_validatedIdentification
     | GS_ValidationToken _ _ \<Rightarrow> sl = SL_tokenAuth
     | GS_Reject _ \<Rightarrow> sl = SL_invalidIdentification
     | GS_TokenValidation _ \<Rightarrow> sl = SL_tokenValidated
     | GS_Status _ \<Rightarrow> sl = SL_backNotifyStatus
     | GS_Logon _ \<Rightarrow> sl = SL_backNotifyLogon
     | _ \<Rightarrow> False)"

text \<open>
  \<open>lo_uid\<close>, \<open>lo_hb\<close> and \<open>lo_seq\<close> are the contents of the entries, the numbers as \<^verbatim>\<open>toUInt\<close> reads them.
  \<open>lo_conn\<close> are the connected slots, a slot connected twice stands twice; \<open>lo_events\<close> are the calls
  queued for the widgets' thread. \<open>lo_to_initiator\<close> and \<open>lo_to_back\<close> are the frames sent,
  \<open>lo_start\<close> counts the requests to start the two connections.
\<close>

record login_screen =
  lo_uid :: string
  lo_hb :: u32
  lo_seq :: u32
  lo_enabled :: bool
  lo_progress :: "int option" \<comment> \<open>the value of the progress bar, \<open>None\<close> while it is hidden\<close>
  lo_name :: string
  lo_accepted :: bool
  lo_conn :: "login_slot list"
  lo_events :: "(login_slot \<times> gui_signal) list"
  lo_start :: "nat \<times> nat"
  lo_port :: "u32 option"
  lo_to_initiator :: "net_buffer list"
  lo_to_back :: "net_buffer list"

definition Login_init :: "string \<Rightarrow> u32 \<Rightarrow> u32 \<Rightarrow> login_screen" where
  "Login_init uid hb seq = \<lparr>lo_uid = uid, lo_hb = hb, lo_seq = seq, lo_enabled = True, lo_progress = None, lo_name = [],
     lo_accepted = False, lo_conn = [], lo_events = [], lo_start = (0, 0), lo_port = None, lo_to_initiator = [], lo_to_back = []\<rparr>"

abbreviation connect_slot :: "login_slot \<Rightarrow> login_screen \<Rightarrow> login_screen" where
  "connect_slot sl g \<equiv> g\<lparr>lo_conn := lo_conn g @ [sl]\<rparr>"

abbreviation disconnect_slot :: "login_slot \<Rightarrow> login_screen \<Rightarrow> login_screen" where
  "disconnect_slot sl g \<equiv> g\<lparr>lo_conn := removeAll sl (lo_conn g)\<rparr>"

abbreviation initiator_send :: "net_buffer \<Rightarrow> login_screen \<Rightarrow> login_screen" where
  "initiator_send f g \<equiv> g\<lparr>lo_to_initiator := lo_to_initiator g @ [f]\<rparr>"

abbreviation back_send :: "net_buffer \<Rightarrow> login_screen \<Rightarrow> login_screen" where
  "back_send f g \<equiv> g\<lparr>lo_to_back := lo_to_back g @ [f]\<rparr>"

text \<open>\<open>gui_emit\<close>: a manager emits a signal; only what is connected then gets it.\<close>

definition gui_emit :: "gui_signal \<Rightarrow> login_screen \<Rightarrow> login_screen" where
  "gui_emit sig g = g\<lparr>lo_events := lo_events g @ map (\<lambda>sl. (sl, sig)) (filter (\<lambda>sl. slot_takes sl sig) (lo_conn g))\<rparr>"

definition sendIdentification :: "string \<Rightarrow> login_screen \<Rightarrow> login_screen" where
  "sendIdentification apikey g = initiator_send (Helper_FrontToInitiator \<lparr>afi_apikey = apikey, afi_name = lo_uid g\<rparr>)
     (connect_slot SL_validatedIdentification (connect_slot SL_invalidIdentification (g\<lparr>lo_progress := Some 1\<rparr>)))"

definition validatedIdentification :: "string \<Rightarrow> login_screen \<Rightarrow> login_screen" where
  "validatedIdentification name g =
     disconnect_slot SL_validatedIdentification (connect_slot SL_tokenAuth (g\<lparr>lo_progress := Some 2, lo_name := name\<rparr>))"

definition invalidIdentification :: "login_screen \<Rightarrow> login_screen" where
  "invalidIdentification g = (disconnect_slot SL_invalidIdentification (disconnect_slot SL_validatedIdentification g))
     \<lparr>lo_enabled := True, lo_progress := None\<rparr>"

definition tokenAuth :: "string \<Rightarrow> u32 \<Rightarrow> login_screen \<Rightarrow> login_screen" where
  "tokenAuth token port g = back_send (Helper_FrontToBackToken \<lparr>fbv_token = token\<rparr>)
     (connect_slot SL_tokenValidated (disconnect_slot SL_tokenAuth
       (g\<lparr>lo_port := Some port, lo_progress := Some 3, lo_start := (fst (lo_start g), snd (lo_start g) + 1)\<rparr>)))"

definition tokenValidated :: "login_screen \<Rightarrow> login_screen" where
  "tokenValidated g = back_send Helper_HandShake
     (connect_slot SL_backNotifyStatus (disconnect_slot SL_tokenValidated (g\<lparr>lo_progress := Some 4\<rparr>)))"

definition backNotifyStatus :: "u8 \<Rightarrow> login_screen \<Rightarrow> login_screen" where
  "backNotifyStatus st g =
     (if st = PUStatus_code PU_Initialize then g\<lparr>lo_progress := Some 5\<rparr>
      else if st = PUStatus_code PU_Running then
        back_send (Helper_Logon \<lparr>il_UserId = lo_name g, il_SeqNum = lo_seq g, il_HeartBeat = lo_hb g\<rparr>)
          (connect_slot SL_backNotifyLogon (disconnect_slot SL_backNotifyStatus (g\<lparr>lo_progress := Some 6\<rparr>)))
      else g\<lparr>lo_progress := (if uint st \<le> 7 then Some (uint st) else lo_progress g)\<rparr>)"

definition backNotifyLogon :: "login_screen \<Rightarrow> login_screen" where
  "backNotifyLogon g = g\<lparr>lo_progress := Some 7, lo_accepted := True\<rparr>"

text \<open>\<open>ready\<close>: \<^verbatim>\<open>isConnectionReady\<close> of the initiator's manager.\<close>

definition login_onSubmit :: "string \<Rightarrow> bool \<Rightarrow> login_screen \<Rightarrow> login_screen" where
  "login_onSubmit apikey ready g =
     (let g1 = g\<lparr>lo_enabled := False, lo_progress := Some 0\<rparr>;
          g2 = (if ready then sendIdentification apikey g1 else connect_slot SL_sendIdentification g1)
      in g2\<lparr>lo_start := (fst (lo_start g2) + 1, snd (lo_start g2))\<rparr>)"

definition run_slot :: "string \<Rightarrow> login_slot \<Rightarrow> gui_signal \<Rightarrow> login_screen \<Rightarrow> login_screen" where
  "run_slot apikey sl sig g = (if \<not> slot_takes sl sig then g else case sig of
       GS_connectionReady \<Rightarrow> sendIdentification apikey g
     | GS_IdentifyFront name \<Rightarrow> validatedIdentification name g
     | GS_ValidationToken token port \<Rightarrow> tokenAuth token port g
     | GS_Reject _ \<Rightarrow> invalidIdentification g
     | GS_TokenValidation _ \<Rightarrow> tokenValidated g
     | GS_Status st \<Rightarrow> backNotifyStatus st g
     | GS_Logon _ \<Rightarrow> backNotifyLogon g
     | _ \<Rightarrow> g)"

text \<open>The widgets' thread handles the next queued event, if there is one.\<close>

definition gui_deliver :: "string \<Rightarrow> login_screen \<Rightarrow> login_screen" where
  "gui_deliver apikey g = (case lo_events g of [] \<Rightarrow> g
     | (sl, sig) # rest \<Rightarrow> run_slot apikey sl sig (g\<lparr>lo_events := rest\<rparr>))"

datatype gui_step = Emit gui_signal | Deliver

fun gui_run :: "string \<Rightarrow> gui_step list \<Rightarrow> login_screen \<Rightarrow> login_screen" where
  "gui_run apikey [] g = g"
| "gui_run apikey (Emit sig # xs) g = gui_run apikey xs (gui_emit sig g)"
| "gui_run apikey (Deliver # xs) g = gui_run apikey xs (gui_deliver apikey g)"

section \<open>The order widgets\<close>

text \<open>
  \<open>stof\<close> and \<open>stoul\<close> are the library's conversions of the entries' texts, \<open>None\<close> when they throw.
  The quantity is read as an integer.
\<close>

definition order_onSubmit :: "(string \<Rightarrow> f32 option) \<Rightarrow> (string \<Rightarrow> nat option) \<Rightarrow> string \<Rightarrow> string \<Rightarrow> string \<Rightarrow> string \<Rightarrow> bool \<Rightarrow> net_buffer option" where
  "order_onSubmit stof stoul symbol orderid price qty ask = (case (stof price, stoul qty) of
       (Some p, Some q) \<Rightarrow> Some (Helper_OrderSingle \<lparr>io_symbol = symbol, io_orderId = orderid, io_price = p,
         io_quantity = f32_of_int (int q), io_type = (if ask then Side_SellPlus else Side_BuyMinus)\<rparr>)
     | _ \<Rightarrow> None)"

text \<open>
  The historic: the rows of the table with their executions, and the map from an order's identifier
  to its row. \<open>toInt\<close> is \<^verbatim>\<open>QVariant::toInt\<close> of a stored number.
\<close>

record hist_row =
  hr_exec :: IpcExecution
  hr_remain :: f32
  hr_avg :: f32
  hr_children :: "IpcExecution list"

record historic =
  hi_rows :: "hist_row list"
  hi_root :: "string \<rightharpoonup> nat"

definition historic_newOrder :: "IpcExecution \<Rightarrow> historic \<Rightarrow> historic" where
  "historic_newOrder x t = \<lparr>hi_rows = hi_rows t @ [\<lparr>hr_exec = x, hr_remain = ie_remainQty x, hr_avg = ie_avgPrice x, hr_children = []\<rparr>],
     hi_root = (hi_root t)(ie_orderId x \<mapsto> length (hi_rows t))\<rparr>"

definition historic_average :: "(f32 \<Rightarrow> int) \<Rightarrow> hist_row \<Rightarrow> IpcExecution \<Rightarrow> f32" where
  "historic_average toInt row x =
     (let qty1 = f32_of_int (toInt (ie_quantity (hr_exec row)) - toInt (hr_remain row));
          qty2 = fsub (ie_quantity x) (ie_remainQty x)
      in fdiv (fadd (fmul qty1 (f32_of_int (toInt (hr_avg row)))) (fmul qty2 (ie_avgPrice x)))
           (f32_of_int (toInt (ie_quantity (hr_exec row)))))"

definition historic_eventOrder :: "(f32 \<Rightarrow> int) \<Rightarrow> IpcExecution \<Rightarrow> historic \<Rightarrow> historic" where
  "historic_eventOrder toInt x t = (case hi_root t (ie_orderId x) of None \<Rightarrow> t
     | Some k \<Rightarrow> t\<lparr>hi_rows := (hi_rows t)[k := (let row = hi_rows t ! k in row\<lparr>hr_children := hr_children row @ [x],
         hr_avg := historic_average toInt row x, hr_remain := ie_remainQty x\<rparr>)]\<rparr>)"

end
