(* ===== verification/Utils.thy ===== *)
theory Utils
  imports FixConvert
begin

text \<open>
  The helpers of \<^verbatim>\<open>shared/Utils\<close>: \<^verbatim>\<open>split\<close> on a delimiter as \<^verbatim>\<open>std::getline\<close> cuts, \<^verbatim>\<open>space_split\<close>,
  \<^verbatim>\<open>trunc\<close>, the layout of a generated identifier, and \<^verbatim>\<open>net::Ip\<close>.
\<close>

section \<open>Splitting\<close>

text \<open>\<^verbatim>\<open>getline\<close> yields no token after a final delimiter, and none from an empty text.\<close>

function split_on :: "char \<Rightarrow> string \<Rightarrow> string list" where
  "split_on c s = (if s = [] then []
     else takeWhile (\<lambda>x. x \<noteq> c) s # split_on c (drop 1 (dropWhile (\<lambda>x. x \<noteq> c) s)))"
  by pat_completeness auto
termination
  by (relation "measure (\<lambda>(c, s). length s)") (auto simp: less_Suc_eq_le length_dropWhile_le
      intro: le_less_trans[OF diff_le_mono[OF length_dropWhile_le]])
declare split_on.simps [simp del]

lemma split_on_Nil [simp]: "split_on c [] = []"
  by (simp add: split_on.simps)

lemma split_on_Cons: "s \<noteq> [] \<Longrightarrow>
    split_on c s = takeWhile (\<lambda>x. x \<noteq> c) s # split_on c (drop 1 (dropWhile (\<lambda>x. x \<noteq> c) s))"
  by (subst split_on.simps) simp

lemma take_drop_field:
  assumes "c \<notin> set f"
  shows "takeWhile (\<lambda>x. x \<noteq> c) (f @ c # s) = f" "dropWhile (\<lambda>x. x \<noteq> c) (f @ c # s) = c # s"
    "takeWhile (\<lambda>x. x \<noteq> c) f = f" "dropWhile (\<lambda>x. x \<noteq> c) f = []"
  using assms by (induction f) auto

lemma split_on_field: "c \<notin> set f \<Longrightarrow> split_on c (f @ c # s) = f # split_on c s"
  by (subst split_on_Cons) (simp_all add: take_drop_field)

lemma split_on_last: "c \<notin> set f \<Longrightarrow> f \<noteq> [] \<Longrightarrow> split_on c f = [f]"
  by (subst split_on_Cons) (simp_all add: take_drop_field)

text \<open>Fields, each followed by the delimiter, split back into the fields.\<close>

lemma split_on_fields:
  "\<forall>f \<in> set fs. c \<notin> set f \<Longrightarrow> split_on c (concat (map (\<lambda>f. f @ [c]) fs)) = fs"
  by (induction fs) (auto simp: split_on_field)

lemma split_on_no_delim: "f \<in> set (split_on c s) \<Longrightarrow> c \<notin> set f"
proof (induction c s rule: split_on.induct)
  case (1 c s)
  show ?case
  proof (cases "s = []")
    case False
    have "f = takeWhile (\<lambda>x. x \<noteq> c) s \<or> f \<in> set (split_on c (drop 1 (dropWhile (\<lambda>x. x \<noteq> c) s)))"
      using "1.prems" unfolding split_on_Cons[OF False] by simp
    then show ?thesis
    proof
      assume "f = takeWhile (\<lambda>x. x \<noteq> c) s"
      then show ?thesis by (auto dest: set_takeWhileD)
    qed (rule "1.IH"[OF False])
  qed (use "1.prems" in simp)
qed

definition is_space :: "char \<Rightarrow> bool" where
  "is_space c \<longleftrightarrow> c \<in> {CHR '' '', CHR 0x09, CHR 0x0A, CHR 0x0B, CHR 0x0C, CHR 0x0D}"

text \<open>\<^verbatim>\<open>stream >> value\<close> skips white space and takes a maximal run of other characters.\<close>

fun space_words :: "string \<Rightarrow> string \<Rightarrow> string list" where
  "space_words w [] = (if w = [] then [] else [rev w])"
| "space_words w (c # s) =
     (if is_space c then (if w = [] then space_words [] s else rev w # space_words [] s)
      else space_words (c # w) s)"

definition space_split :: "string \<Rightarrow> string list" where
  "space_split s = space_words [] s"

lemma space_words_word: "\<forall>c \<in> set v. \<not> is_space c \<Longrightarrow> space_words w (v @ s) = space_words (rev v @ w) s"
  by (induction v arbitrary: w) auto

lemma space_split_unwords:
  "\<forall>w \<in> set ws. w \<noteq> [] \<and> (\<forall>c \<in> set w. \<not> is_space c) \<Longrightarrow>
     space_split (concat (map (\<lambda>w. w @ '' '') ws)) = ws"
proof (induction ws)
  case (Cons w ws)
  then have w: "w \<noteq> []" "\<forall>c \<in> set w. \<not> is_space c" by auto
  have "is_space CHR '' ''" by (simp add: is_space_def)
  with Cons w show ?case by (simp add: space_split_def space_words_word)
qed (simp add: space_split_def)

definition word_ok :: "string \<Rightarrow> bool" where
  "word_ok w \<longleftrightarrow> w \<noteq> [] \<and> (\<forall>c \<in> set w. \<not> is_space c)"

lemma space_words_words: "\<forall>c \<in> set v. \<not> is_space c \<Longrightarrow> list_all word_ok (space_words v s)"
  by (induction v s rule: space_words.induct) (simp_all add: word_ok_def)

lemma space_split_words: "w \<in> set (space_split s) \<Longrightarrow> w \<noteq> [] \<and> (\<forall>c \<in> set w. \<not> is_space c)"
  using space_words_words[of "[]" s] by (simp add: space_split_def list_all_iff word_ok_def)

definition trunc :: "string \<Rightarrow> nat \<Rightarrow> string" where
  "trunc s n = take n s @ ''...''"

section \<open>Identifiers\<close>

text \<open>
  \<^verbatim>\<open>Uuid::Generate\<close>: sixteen random bytes, the version and variant bits forced, written in
  hexadecimal with dashes. The random bytes are the argument.
\<close>

definition hex_digit :: "nat \<Rightarrow> char" where
  "hex_digit d = ''0123456789abcdef'' ! d"

definition uuid_fix :: "u8 list \<Rightarrow> u8 list" where
  "uuid_fix bs = bs[6 := or (and (bs ! 6) 0x0F) 0x40, 8 := or (and (bs ! 8) 0x3F) 0x80]"

definition hex_byte :: "u8 \<Rightarrow> string" where
  "hex_byte b = [hex_digit (unat b div 16), hex_digit (unat b mod 16)]"

definition Uuid_Generate :: "u8 list \<Rightarrow> string" where
  "Uuid_Generate bytes = concat (map (\<lambda>(i, b). hex_byte b @ (if i \<in> {3, 5, 7, 9} then ''-'' else []))
     (zip [0..<16] (uuid_fix bytes)))"

lemma Uuid_length:
  assumes "length bytes = 16"
  shows "length (Uuid_Generate bytes) = 36"
proof -
  have "length (Uuid_Generate bytes)
      = (\<Sum>(i, b) \<leftarrow> zip [0..<16] (uuid_fix bytes). 2 + (if i \<in> {3, 5, 7, 9} then 1 else 0))"
    unfolding Uuid_Generate_def length_concat map_map
    by (intro arg_cong[of _ _ sum_list] map_cong) (auto simp: hex_byte_def)
  also have "\<dots> = (\<Sum>i \<leftarrow> map fst (zip [0..<16] (uuid_fix bytes)). 2 + (if i \<in> {3, 5, 7, 9} then 1 else 0))"
    unfolding map_map by (intro arg_cong[of _ _ sum_list] map_cong) auto
  also have "map fst (zip [0..<16] (uuid_fix bytes)) = [0..<16]"
    using assms by (simp add: uuid_fix_def)
  finally show ?thesis by (simp add: upt_rec[of 0] upt_rec)
qed

section \<open>Addresses\<close>

definition Ip_init :: string where
  "Ip_init = ''0.0.0.0''"

definition Ip_set_bytes :: "u8 \<Rightarrow> u8 \<Rightarrow> u8 \<Rightarrow> u8 \<Rightarrow> string" where
  "Ip_set_bytes a b c d = dec_string (unat a) @ ''.'' @ dec_string (unat b) @ ''.''
     @ dec_string (unat c) @ ''.'' @ dec_string (unat d)"

text \<open>The masks and shifts are the source's: \<^verbatim>\<open>0xf\<close> is fifteen, as a mask and as a shift.\<close>

definition Ip_set_u32 :: "u32 \<Rightarrow> string" where
  "Ip_set_u32 ip = Ip_set_bytes (ucast (and ip 0xf)) (ucast (and (drop_bit 0x8 ip) 0xf))
     (ucast (and (drop_bit 0xf ip) 0xf)) (ucast (and (drop_bit 0x18 ip) 0xf))"

end
