(* ===== verification/Initiator.thy ===== *)
theory Initiator
  imports Ipc Utils "HOL-Library.List_Lexorder" "HOL-Library.Char_ord"
begin

text \<open>
  The client initiator: it authenticates a front end against the table of clients, launches a
  back end for it, and hands both a token with which they find each other (\<^verbatim>\<open>Session\<close>,
  \<^verbatim>\<open>SessionManager\<close>, \<^verbatim>\<open>FrontHandler\<close>, \<^verbatim>\<open>BackHandler\<close>, \<^verbatim>\<open>shell::Command\<close>). Sessions are held by
  \<^verbatim>\<open>std::shared_ptr\<close>, so they live in a heap; a null pointer is \<open>None\<close>. An operation gives \<open>None\<close>
  when it throws or when its behaviour is undefined.
\<close>

section \<open>Child processes\<close>

datatype cmd_status = CS_Running | CS_SignalError | CS_Runned | CS_Unknown

record Command =
  sh_cmd :: string
  sh_env :: "(string \<times> string) list"
  sh_arg :: "string list"
  sh_exitcode :: int
  sh_pid :: int
  sh_launch :: bool
  sh_status :: cmd_status

definition Command_new :: "string \<Rightarrow> Command" where
  "Command_new cmd = \<lparr>sh_cmd = cmd, sh_env = [], sh_arg = [], sh_exitcode = -1, sh_pid = -1,
     sh_launch = False, sh_status = CS_Unknown\<rparr>"

text \<open>\<^verbatim>\<open>m_env\<close> is a \<^verbatim>\<open>std::map\<close>: sorted by key, and \<^verbatim>\<open>emplace\<close> keeps an entry that is already there.\<close>

fun map_emplace :: "string \<Rightarrow> string \<Rightarrow> (string \<times> string) list \<Rightarrow> (string \<times> string) list" where
  "map_emplace k v [] = [(k, v)]"
| "map_emplace k v ((k', v') # m) =
     (if k < k' then (k, v) # (k', v') # m else if k = k' then (k', v') # m else (k', v') # map_emplace k v m)"

definition addEnvironement :: "string \<Rightarrow> string \<Rightarrow> Command \<Rightarrow> Command" where
  "addEnvironement k v c = c\<lparr>sh_env := map_emplace k v (sh_env c)\<rparr>"

definition addArgument :: "string \<Rightarrow> Command \<Rightarrow> Command" where
  "addArgument a c = c\<lparr>sh_arg := sh_arg c @ [a]\<rparr>"

text \<open>\<open>pid\<close> is what \<^verbatim>\<open>fork\<close> returns in the parent; the child executes \<open>command_exec\<close>.\<close>

definition command_run :: "int \<Rightarrow> Command \<Rightarrow> bool \<times> Command" where
  "command_run pid c = (let c1 = c\<lparr>sh_pid := pid\<rparr> in if pid > 0 then (True, c1\<lparr>sh_launch := True\<rparr>) else (False, c1))"

definition command_exec :: "Command \<Rightarrow> string \<times> string list \<times> string list" where
  "command_exec c = (sh_cmd c, sh_cmd c # sh_arg c, map (\<lambda>(k, v). k @ ''='' @ v) (sh_env c))"

text \<open>
  \<open>w\<close> is what \<^verbatim>\<open>waitpid\<close> stored, \<open>None\<close> when it failed and left the status at 0, which the macros
  read as an exit with code 0.
\<close>

datatype wait_status = W_exited u8 | W_signaled u8 | W_stopped | W_continued

definition command_status :: "wait_status option \<Rightarrow> Command \<Rightarrow> Command" where
  "command_status w c = (case (case w of None \<Rightarrow> W_exited 0 | Some x \<Rightarrow> x) of
       W_exited n \<Rightarrow> c\<lparr>sh_exitcode := uint n, sh_status := CS_Runned\<rparr>
     | W_signaled n \<Rightarrow> c\<lparr>sh_exitcode := uint n, sh_status := CS_SignalError\<rparr>
     | W_continued \<Rightarrow> c\<lparr>sh_status := CS_Running\<rparr>
     | W_stopped \<Rightarrow> c)"

text \<open>The process sent \<^verbatim>\<open>SIGTERM\<close>, and the command after it.\<close>

definition command_stop :: "wait_status option \<Rightarrow> Command \<Rightarrow> int option \<times> Command" where
  "command_stop w c = (if sh_pid c \<noteq> -1 then (Some (sh_pid c), command_status w c) else (None, c))"

section \<open>The state\<close>

text \<open>The table \<^verbatim>\<open>dev.client\<close>; every column but the identifier may be null.\<close>

record client_row =
  cr_apikey :: "string option"
  cr_client :: "string option"
  cr_server :: "string option"
  cr_connected :: "bool option"

definition row_matches :: "string option \<Rightarrow> string option \<Rightarrow> client_row \<Rightarrow> bool" where
  "row_matches key name r \<longleftrightarrow> key \<noteq> None \<and> name \<noteq> None \<and> cr_apikey r = key \<and> cr_client r = name"

text \<open>\<^verbatim>\<open>SELECT ... LIMIT 1\<close> and \<^verbatim>\<open>UPDATE ... SET connected\<close>, both \<^verbatim>\<open>WHERE apikey = $ AND client_name = $\<close>.\<close>

definition sql_select :: "string \<Rightarrow> string \<Rightarrow> client_row list \<Rightarrow> client_row option" where
  "sql_select key name t = find (row_matches (Some key) (Some name)) t"

definition sql_connected :: "bool \<Rightarrow> string option \<Rightarrow> string \<Rightarrow> client_row list \<Rightarrow> client_row list" where
  "sql_connected v key name t = map (\<lambda>r. if row_matches key (Some name) r then r\<lparr>cr_connected := Some v\<rparr> else r) t"

datatype session_side = S_Front | S_Back

record Session =
  ss_id :: string
  sf_apikey :: "string option"
  sf_socket :: nat
  sf_name :: string
  sb_token :: "string option"
  sb_cmd :: "Command option"
  sb_socket :: "nat option"

type_synonym sref = nat

text \<open>
  \<open>in_fsel\<close> and \<open>in_bsel\<close> are the sockets in the two selectors; a selector keeps its sockets open, so
  equal descriptors mean equal sockets. \<open>in_ftask\<close> and \<open>in_btask\<close> are the queues of the two handlers'
  pools, \<open>in_onremove\<close> that of \<^verbatim>\<open>SessionManager\<close>. \<open>in_sent\<close> and \<open>in_killed\<close> are the frames sent and
  the processes terminated.
\<close>

record initiator =
  in_heap :: "sref \<Rightarrow> Session"
  in_next :: sref
  in_session :: "sref list"
  in_onremove :: "sref list"
  in_table :: "client_row list"
  in_fsel :: "nat list"
  in_bsel :: "nat list"
  in_ftask :: "(sref option \<times> IpcHeader \<times> net_buffer) list"
  in_btask :: "(sref option \<times> IpcHeader \<times> net_buffer) list"
  in_sent :: "(session_side \<times> nat \<times> net_buffer) list"
  in_killed :: "int list"

record back_config =
  bc_Executable :: string
  bc_ExecArgs :: "string list"
  bc_Address :: string

definition Session_new :: "string \<Rightarrow> nat \<Rightarrow> Session" where
  "Session_new uid front = \<lparr>ss_id = uid, sf_apikey = None, sf_socket = front, sf_name = [], sb_token = None,
     sb_cmd = None, sb_socket = None\<rparr>"

abbreviation upd_session :: "sref \<Rightarrow> (Session \<Rightarrow> Session) \<Rightarrow> initiator \<Rightarrow> initiator" where
  "upd_session r f s \<equiv> s\<lparr>in_heap := (in_heap s)(r := f (in_heap s r))\<rparr>"

section \<open>One session\<close>

definition session_send :: "net_buffer \<Rightarrow> session_side \<Rightarrow> sref \<Rightarrow> initiator \<Rightarrow> initiator option" where
  "session_send buf side r s = (case side of
       S_Back \<Rightarrow> (case sb_socket (in_heap s r) of None \<Rightarrow> None | Some k \<Rightarrow> Some (s\<lparr>in_sent := in_sent s @ [(S_Back, k, buf)]\<rparr>))
     | S_Front \<Rightarrow> Some (s\<lparr>in_sent := in_sent s @ [(S_Front, sf_socket (in_heap s r), buf)]\<rparr>))"

definition setBackendSocket :: "nat \<Rightarrow> sref \<Rightarrow> initiator \<Rightarrow> initiator" where
  "setBackendSocket k r s = upd_session r (\<lambda>x. x\<lparr>sb_socket := Some k\<rparr>) s"

definition getApiKey :: "sref \<Rightarrow> initiator \<Rightarrow> string option" where
  "getApiKey r s = sf_apikey (in_heap s r)"

text \<open>The counter is never moved.\<close>

definition GenerateToken :: string where
  "GenerateToken = dec_string 0"

definition session_close :: "wait_status option \<Rightarrow> sref \<Rightarrow> initiator \<Rightarrow> initiator" where
  "session_close w r s =
     (let x = in_heap s r; s1 = s\<lparr>in_table := sql_connected False (sf_apikey x) (sf_name x) (in_table s)\<rparr>
      in case sb_cmd x of None \<Rightarrow> s1
         | Some c \<Rightarrow> (case command_stop w c of (killed, c1) \<Rightarrow>
             (upd_session r (\<lambda>y. y\<lparr>sb_cmd := Some c1\<rparr>) s1)\<lparr>in_killed := in_killed s1 @ (case killed of None \<Rightarrow> [] | Some p \<Rightarrow> [p])\<rparr>))"

text \<open>The result of \<^verbatim>\<open>login\<close>; reading a null column throws.\<close>

definition session_login :: "string \<Rightarrow> string \<Rightarrow> sref \<Rightarrow> initiator \<Rightarrow> (string option \<times> initiator) option" where
  "session_login key name r s = (case sql_select key name (in_table s) of
       None \<Rightarrow> map_option (Pair None) (session_send (Helper_Reject \<lparr>ir_message = ''No user found''\<rparr>) S_Front r s)
     | Some row \<Rightarrow> (case (cr_connected row, cr_server row) of
           (Some connected, Some server) \<Rightarrow>
             if connected
             then map_option (Pair None) (session_send (Helper_Reject \<lparr>ir_message = ''User already logged in''\<rparr>) S_Front r s)
             else Some (Some server, s\<lparr>in_table := sql_connected True (Some key) name (in_table s)\<rparr>)
         | _ \<Rightarrow> None))"

definition buildShellBack :: "back_config \<Rightarrow> string \<Rightarrow> Command" where
  "buildShellBack cf key = fold addArgument (bc_ExecArgs cf)
     (addEnvironement ''FIX42-initiator-address'' (bc_Address cf)
       (addEnvironement ''FIX42-apikey'' key (Command_new (bc_Executable cf))))"

definition identifyFrontend :: "back_config \<Rightarrow> int \<Rightarrow> net_buffer \<Rightarrow> sref \<Rightarrow> initiator \<Rightarrow> initiator option" where
  "identifyFrontend cf pid buf r s =
     (case sf_apikey (in_heap s r) of
        Some _ \<Rightarrow> Some s
      | None \<Rightarrow> (case get_AuthFrontToInitiator \<lparr>afi_apikey = [], afi_name = []\<rparr> buf of (auth, _) \<Rightarrow>
          case session_login (afi_apikey auth) (afi_name auth) r s of
            None \<Rightarrow> None
          | Some (None, s1) \<Rightarrow> Some s1
          | Some (Some server, s1) \<Rightarrow>
              let s2 = upd_session r (\<lambda>x. x\<lparr>sf_name := server, sf_apikey := Some (afi_apikey auth)\<rparr>) s1 in
              map_option (upd_session r (\<lambda>x. x\<lparr>sb_cmd := Some (snd (command_run pid (buildShellBack cf (afi_apikey auth))))\<rparr>))
                (session_send (Helper_InitiatorToFront \<lparr>aif_name = server\<rparr>) S_Front r s2)))"

definition handleFrontend :: "back_config \<Rightarrow> int \<Rightarrow> IpcHeader \<Rightarrow> net_buffer \<Rightarrow> sref \<Rightarrow> initiator \<Rightarrow> initiator option" where
  "handleFrontend cf pid h buf r s =
     (case ih_MsgType h of IT_FrontToInitiatorAuth \<Rightarrow> identifyFrontend cf pid buf r s | _ \<Rightarrow> Some s)"

text \<open>\<open>junk\<close>: the port of the uninitialised message, which stays when reading it fails.\<close>

definition identifyBackend :: "u32 \<Rightarrow> net_buffer \<Rightarrow> sref \<Rightarrow> initiator \<Rightarrow> initiator option" where
  "identifyBackend junk buf r s =
     (case get_AuthBackToInitiator \<lparr>abi_apikey = [], abi_port = junk\<rparr> buf of (auth, _) \<Rightarrow>
      let token = GenerateToken; s1 = upd_session r (\<lambda>x. x\<lparr>sb_token := Some token\<rparr>) s in
      case session_send (Helper_InitiatorToBack \<lparr>aib_token = token, aib_apikey = abi_apikey auth\<rparr>) S_Back r s1 of
        None \<Rightarrow> None
      | Some s2 \<Rightarrow> session_send (Helper_InitiatorToFrontToken \<lparr>ifv_token = token, ifv_port = abi_port auth\<rparr>) S_Front r s2)"

definition handleBackend :: "u32 \<Rightarrow> IpcHeader \<Rightarrow> net_buffer \<Rightarrow> sref \<Rightarrow> initiator \<Rightarrow> initiator option" where
  "handleBackend junk h buf r s =
     (case ih_MsgType h of IT_BackToInitiatorAuth \<Rightarrow> identifyBackend junk buf r s | _ \<Rightarrow> Some s)"

definition session_received :: "back_config \<Rightarrow> int \<Rightarrow> u32 \<Rightarrow> IpcHeader \<Rightarrow> net_buffer \<Rightarrow> session_side \<Rightarrow> sref \<Rightarrow> initiator \<Rightarrow> initiator option" where
  "session_received cf pid junk h buf side r s = (case side of
       S_Front \<Rightarrow> handleFrontend cf pid h buf r s | S_Back \<Rightarrow> handleBackend junk h buf r s)"

section \<open>All sessions\<close>

definition newSession :: "string \<Rightarrow> nat \<Rightarrow> initiator \<Rightarrow> initiator" where
  "newSession uid front s = s\<lparr>in_heap := (in_heap s)(in_next s := Session_new uid front), in_next := in_next s + 1,
     in_session := in_session s @ [in_next s]\<rparr>"

definition findSession_front :: "nat \<Rightarrow> initiator \<Rightarrow> sref option" where
  "findSession_front k s = find (\<lambda>r. sf_socket (in_heap s r) = k) (in_session s)"

definition findSession_back :: "nat \<Rightarrow> initiator \<Rightarrow> sref option" where
  "findSession_back k s = find (\<lambda>r. sb_socket (in_heap s r) = Some k) (in_session s)"

text \<open>The search asks every session on its way for its key, and throws at one that has none.\<close>

fun find_key :: "(sref \<Rightarrow> string option) \<Rightarrow> string \<Rightarrow> sref list \<Rightarrow> sref option option" where
  "find_key key k [] = Some None"
| "find_key key k (r # rs) = (case key r of None \<Rightarrow> None
     | Some k' \<Rightarrow> if k' = k then Some (Some r) else find_key key k rs)"

definition findSession_apikey :: "string \<Rightarrow> initiator \<Rightarrow> sref option option" where
  "findSession_apikey k s = find_key (\<lambda>r. getApiKey r s) k (in_session s)"

text \<open>A null session is dereferenced.\<close>

definition removeSession :: "wait_status option \<Rightarrow> sref option \<Rightarrow> initiator \<Rightarrow> initiator option" where
  "removeSession w r s = (case r of None \<Rightarrow> None
     | Some r \<Rightarrow> (let s1 = session_close w r s in Some (s1\<lparr>in_onremove := in_onremove s1 @ [r]\<rparr>)))"

text \<open>The task: erasing a session that is not there is undefined. Then the callbacks of both handlers.\<close>

definition session_remove_task :: "initiator \<Rightarrow> initiator option" where
  "session_remove_task s = (case in_onremove s of [] \<Rightarrow> Some s
     | r # rest \<Rightarrow> if r \<in> set (in_session s)
         then Some (s\<lparr>in_onremove := rest, in_session := remove1 r (in_session s),
           in_fsel := filter (\<lambda>k. k \<noteq> sf_socket (in_heap s r)) (in_fsel s),
           in_bsel := filter (\<lambda>k. sb_socket (in_heap s r) \<noteq> Some k) (in_bsel s)\<rparr>)
         else None)"

text \<open>\<^verbatim>\<open>purge\<close>, up to the stop of the pool (theory Threads): \<open>ws\<close> are the answers of \<^verbatim>\<open>waitpid\<close>.\<close>

fun purge_all :: "wait_status option list \<Rightarrow> sref list \<Rightarrow> initiator \<Rightarrow> initiator option" where
  "purge_all ws [] s = Some s"
| "purge_all ws (r # rs) s = Option.bind (removeSession (case ws of [] \<Rightarrow> None | w # _ \<Rightarrow> w) (Some r) s) (purge_all (tl ws) rs)"

definition purge :: "wait_status option list \<Rightarrow> initiator \<Rightarrow> initiator option" where
  "purge ws s = purge_all ws (in_session s) s"

section \<open>The two handlers\<close>

text \<open>
  One frame: the header is read with its own \<^verbatim>\<open>receive\<close>, whose byte count is tested, and the body with
  a second one, whose count is not.
\<close>

definition read_frame :: "u8 \<Rightarrow> IpcHeader \<Rightarrow> byte list \<times> int \<Rightarrow> byte list \<Rightarrow> (IpcHeader \<times> net_buffer) option" where
  "read_frame junk d hdr body = (case hdr of (bs, error) \<Rightarrow>
     if error \<noteq> int sizeof_IpcHeader then None
     else case get_IpcHeader junk d (append_bytes bs Buffer_init) of (h, b) \<Rightarrow>
       Some (h, append_bytes body (buf_clear b)))"

definition front_accept :: "string \<Rightarrow> nat \<Rightarrow> initiator \<Rightarrow> initiator" where
  "front_accept uid k s = newSession uid k (s\<lparr>in_fsel := in_fsel s @ [k]\<rparr>)"

definition front_process :: "u8 \<Rightarrow> IpcHeader \<Rightarrow> byte list \<times> int \<Rightarrow> byte list \<Rightarrow> sref option \<Rightarrow> initiator \<Rightarrow> bool \<times> initiator" where
  "front_process junk d hdr body r s = (case read_frame junk d hdr body of
       None \<Rightarrow> (False, s)
     | Some (h, b) \<Rightarrow> (True, s\<lparr>in_ftask := in_ftask s @ [(r, h, b)]\<rparr>))"

definition front_event :: "u8 \<Rightarrow> IpcHeader \<Rightarrow> wait_status option \<Rightarrow> byte list \<times> int \<Rightarrow> byte list \<Rightarrow> nat \<Rightarrow> initiator \<Rightarrow> initiator option" where
  "front_event junk d w hdr body k s =
     (let r = findSession_front k s in
      case front_process junk d hdr body r s of
        (True, s1) \<Rightarrow> Some s1
      | (False, s1) \<Rightarrow> removeSession w r s1)"

definition back_accept :: "nat \<Rightarrow> initiator \<Rightarrow> initiator" where
  "back_accept k s = s\<lparr>in_bsel := in_bsel s @ [k]\<rparr>"

text \<open>Every outcome of a back end's frame is ignored by the caller.\<close>

definition back_event :: "u8 \<Rightarrow> IpcHeader \<Rightarrow> u32 \<Rightarrow> byte list \<times> int \<Rightarrow> byte list \<Rightarrow> nat \<Rightarrow> initiator \<Rightarrow> initiator option" where
  "back_event junk d port hdr body k s = (case read_frame junk d hdr body of
       None \<Rightarrow> Some s
     | Some (h, b) \<Rightarrow>
         if ih_MsgType h = IT_BackToInitiatorAuth then
           (case get_AuthBackToInitiator \<lparr>abi_apikey = [], abi_port = port\<rparr> b of (auth, b1) \<Rightarrow>
            case findSession_apikey (abi_apikey auth) s of
              None \<Rightarrow> None
            | Some None \<Rightarrow> None
            | Some (Some r) \<Rightarrow> (let s1 = setBackendSocket k r s in Some (s1\<lparr>in_btask := in_btask s1 @ [(Some r, h, buf_reset b1)]\<rparr>)))
         else Some (s\<lparr>in_btask := in_btask s @ [(findSession_back k s, h, b)]\<rparr>))"

text \<open>The next task of a handler's pool.\<close>

definition front_task :: "back_config \<Rightarrow> int \<Rightarrow> initiator \<Rightarrow> initiator option" where
  "front_task cf pid s = (case in_ftask s of [] \<Rightarrow> Some s
     | (r, h, b) # rest \<Rightarrow> (case r of None \<Rightarrow> None
         | Some r \<Rightarrow> session_received cf pid 0 h b S_Front r (s\<lparr>in_ftask := rest\<rparr>)))"

definition back_task :: "u32 \<Rightarrow> initiator \<Rightarrow> initiator option" where
  "back_task junk s = (case in_btask s of [] \<Rightarrow> Some s
     | (r, h, b) # rest \<Rightarrow> (case r of None \<Rightarrow> None
         | Some r \<Rightarrow> session_received \<lparr>bc_Executable = [], bc_ExecArgs = [], bc_Address = []\<rparr> 0 junk h b S_Back r
             (s\<lparr>in_btask := rest\<rparr>)))"

definition initiator_init :: "client_row list \<Rightarrow> initiator" where
  "initiator_init t = \<lparr>in_heap = (\<lambda>_. Session_new [] 0), in_next = 0, in_session = [], in_onremove = [], in_table = t,
     in_fsel = [], in_bsel = [], in_ftask = [], in_btask = [], in_sent = [], in_killed = []\<rparr>"

text \<open>
  \<^verbatim>\<open>Core::start\<close>: the polls of the handlers are commented out, so only the signal ends the loop.
\<close>

fun initiator_loop :: "(bool \<times> (string \<Rightarrow> bool)) list \<Rightarrow> bool option" where
  "initiator_loop [] = None"
| "initiator_loop ((signal_run, crashed) # rounds) = (if signal_run then initiator_loop rounds else Some True)"

section \<open>The running initiator\<close>

text \<open>One step of one of its threads; \<open>t\<close> is the table it started with.\<close>

inductive initiator_step :: "back_config \<Rightarrow> initiator \<Rightarrow> initiator \<Rightarrow> bool" for cf where
  accept_front: "initiator_step cf s (front_accept uid k s)"
| accept_back: "initiator_step cf s (back_accept k s)"
| front_data: "front_event junk d w hdr body k s = Some s' \<Longrightarrow> initiator_step cf s s'"
| back_data: "back_event junk d port hdr body k s = Some s' \<Longrightarrow> initiator_step cf s s'"
| front_pool: "front_task cf pid s = Some s' \<Longrightarrow> initiator_step cf s s'"
| back_pool: "back_task junk s = Some s' \<Longrightarrow> initiator_step cf s s'"
| remove: "session_remove_task s = Some s' \<Longrightarrow> initiator_step cf s s'"

inductive initiator_reach :: "back_config \<Rightarrow> client_row list \<Rightarrow> initiator \<Rightarrow> bool" for cf t where
  start: "initiator_reach cf t (initiator_init t)"
| step: "initiator_reach cf t s \<Longrightarrow> initiator_step cf s s' \<Longrightarrow> initiator_reach cf t s'"

inductive_cases initiator_stepE: "initiator_step cf s s'"

end
