(* ===== verification/Framing.thy ===== *)
theory Framing
  imports Utils
begin

text \<open>
  Reading and framing a FIX message, as \<^verbatim>\<open>TCPInputNetwork\<close> and \<^verbatim>\<open>TcpOutputNetwork\<close> of the server
  do it (the client's units repeat the code): the checksum, the split into fields, the header,
  the reject built from an error, and \<^verbatim>\<open>parseMessage\<close>. The FIX-Message library is not part of
  the repository: what the code calls of it is the record \<open>fixlib\<close>, an argument of the
  definitions.
\<close>

type_synonym kvs = "(string \<times> string) list" \<comment> \<open>\<^verbatim>\<open>fix::MapMessage\<close>\<close>

section \<open>The message library\<close>

text \<open>
  \<^verbatim>\<open>Header::try_insert\<close> gives an error, or whether the tag belongs to the header, and the header
  with the value; \<^verbatim>\<open>Header::verify\<close>; \<^verbatim>\<open>to_string\<close> of headers and bodies; \<^verbatim>\<open>from_string\<close> of each
  body; and the number behind \<^verbatim>\<open>RejectError::Reason\<close>, which the code casts.
\<close>

record fixlib =
  fl_try_insert :: "string \<Rightarrow> string \<Rightarrow> Header \<Rightarrow> (RejectError + bool) \<times> Header"
  fl_verify :: "Header \<Rightarrow> RejectError option"
  fl_header_string :: "Header \<Rightarrow> string"
  fl_to_string :: "FixMsg \<Rightarrow> string"
  fl_reason_code :: "Reason \<Rightarrow> int"
  fl_HeartBeat :: "kvs \<Rightarrow> RejectError + HeartBeat"
  fl_TestRequest :: "kvs \<Rightarrow> RejectError + TestRequest"
  fl_Logon :: "kvs \<Rightarrow> RejectError + Logon"
  fl_Logout :: "kvs \<Rightarrow> RejectError + unit"
  fl_ExecutionReport :: "kvs \<Rightarrow> RejectError + ExecutionReport"
  fl_NewOrderSingle :: "kvs \<Rightarrow> RejectError + NewOrderSingle"
  fl_OrderCancelRequest :: "kvs \<Rightarrow> RejectError + OrderCancelRequest"

section \<open>The checksum\<close>

text \<open>\<^verbatim>\<open>static_cast<uint32_t>(_c)\<close> of a \<^verbatim>\<open>char\<close>, which is signed on the target.\<close>

definition char_u32 :: "char \<Rightarrow> u32" where
  "char_u32 c = (if (of_char c :: int) < 128 then word_of_int (of_char c) else word_of_int (of_char c - 256))"

fun char_sum :: "string \<Rightarrow> u32" where
  "char_sum [] = 0"
| "char_sum (c # s) = char_u32 c + char_sum s"

definition CountCheckSum :: "string \<Rightarrow> u32" where
  "CountCheckSum d = char_sum d + 1"

definition SOH :: char where "SOH = CHR 0x01"

definition checksum8 :: "u32 \<Rightarrow> u8" where
  "checksum8 w = word_of_nat (unat (w mod 256))"

definition AddCheckSum :: "string \<Rightarrow> string" where
  "AddCheckSum m = m @ ''10='' @ dec_string (unat (checksum8 (char_sum m))) @ [SOH]"

text \<open>The message map comes back without its last pair when the checksum is right.\<close>

definition verifyCheckSum :: "u32 \<Rightarrow> kvs \<Rightarrow> RejectError option \<times> kvs" where
  "verifyCheckSum cs m = (let checksum = checksum8 cs in
     if m = [] then (Some (reject3 ReqTagMissing ''Last tag should be CheckSum'' tag_CheckSum), m)
     else let pair = last m in
       if fst pair = ''10'' then
         (case from_FIX_u8 (snd pair) of
            Inl e \<Rightarrow> (Some e, m)
          | Inr out \<Rightarrow>
              if out \<noteq> checksum then (Some (reject3 ValueOORange ''Miss match on checksum'' tag_CheckSum), m)
              else (None, butlast m))
       else (Some (reject3 ReqTagMissing ''Last tag should be CheckSum'' tag_CheckSum), m))"

section \<open>The header\<close>

fun HeaderVerifyPresence :: "TagName list \<Rightarrow> TagName set \<Rightarrow> RejectError option" where
  "HeaderVerifyPresence [] tags = None"
| "HeaderVerifyPresence (t # ts) tags =
     (if t \<notin> tags then Some (reject3 ReqTagMissing ''Non positional required tag missing'' t)
      else HeaderVerifyPresence ts tags)"

definition verifyHeader :: "fixlib \<Rightarrow> Header \<Rightarrow> TagName set \<Rightarrow> RejectError option" where
  "verifyHeader lib h tags = (case fl_verify lib h of
       Some e \<Rightarrow> Some e
     | None \<Rightarrow> HeaderVerifyPresence [tag_SenderCompId, tag_TargetCompId, tag_MsgSeqNum, tag_SendingTime] tags)"

definition cast_reason :: "fixlib \<Rightarrow> Reason \<Rightarrow> RejectReasonSession" where
  "cast_reason lib r = RejectReasonSession_of_int (fl_reason_code lib r)"

text \<open>\<open>seq\<close> is the sequence number of the connection.\<close>

definition reject_refs :: "u32 \<Rightarrow> TagName set \<Rightarrow> Header \<Rightarrow> SessionReject" where
  "reject_refs seq tags h = SessionReject_init\<lparr>
     sr_RefSeqNum := (if tag_MsgSeqNum \<in> tags then h_MsgSeqNum h else seq),
     sr_RefMsgType := (if tag_MsgSeqNum \<in> tags then Some (h_MsgType h) else None)\<rparr>"

definition BuildRejectFromError :: "fixlib \<Rightarrow> RejectError \<Rightarrow> TagName set \<Rightarrow> Header \<Rightarrow> u32 \<Rightarrow> SessionReject" where
  "BuildRejectFromError lib e tags h seq = (reject_refs seq tags h)\<lparr>
     sr_SessionRejectReason := Some (cast_reason lib (re_Reason e)),
     sr_RefTagId := re_Tag e, sr_Text := Some (re_Message e)\<rparr>"

definition unparsable_reject :: "u32 \<Rightarrow> TagName set \<Rightarrow> Header \<Rightarrow> SessionReject" where
  "unparsable_reject seq tags h = (reject_refs seq tags h)\<lparr>
     sr_SessionRejectReason := Some RS_UndefineTag, sr_Text := Some ''Unable to parse header key-value''\<rparr>"

text \<open>\<^verbatim>\<open>std::stoi\<close>: white space, a sign, digits; \<open>None\<close> where it throws.\<close>

definition stoi :: "string \<Rightarrow> int option" where
  "stoi s = (let t = dropWhile is_space s;
        (neg, u) = (case t of [] \<Rightarrow> (False, []) | c # r \<Rightarrow>
            if c = CHR ''-'' then (True, r) else if c = CHR ''+'' then (False, r) else (False, t));
        ds = takeWhile is_digit u; n = int (dec_val 0 ds); v = (if neg then - n else n)
      in if ds = [] \<or> v < - (2 ^ 31) \<or> 2 ^ 31 \<le> v then None else Some v)"

definition cast_u16 :: "int \<Rightarrow> nat" where
  "cast_u16 v = nat (v mod 65536)"

section \<open>Building the message\<close>

text \<open>What becomes of the received data: queued as a message, refused, or an exception.\<close>

datatype parse_result = PR_message Header kvs | PR_reject SessionReject | PR_throw

text \<open>
  The loop of \<^verbatim>\<open>buildHeader\<close> over the fields, then the checksum. State: header, tags seen, map,
  whether the header is complete, checksum and the last field's share of it.
\<close>

fun build_fields :: "fixlib \<Rightarrow> u32 \<Rightarrow> string list \<Rightarrow> Header \<Rightarrow> TagName set \<Rightarrow> kvs \<Rightarrow> bool \<Rightarrow> u32 \<Rightarrow> u32 \<Rightarrow> parse_result" where
  "build_fields lib seq [] header tags m complete checksum lastc =
     (case verifyCheckSum (checksum - lastc) m of
        (Some e, _) \<Rightarrow> PR_reject (BuildRejectFromError lib e tags header seq)
      | (None, m') \<Rightarrow> PR_message header m')"
| "build_fields lib seq (result # rest) header tags m complete checksum lastc =
     (let kv = split_on (CHR ''='') result; lastc = CountCheckSum result; checksum = checksum + lastc in
      case kv of
        [k, v] \<Rightarrow>
          if \<not> complete then
            (case fl_try_insert lib k v header of
               (Inl e, header) \<Rightarrow> PR_reject (BuildRejectFromError lib e tags header seq)
             | (Inr False, header) \<Rightarrow>
                 (case verifyHeader lib header tags of
                    Some e \<Rightarrow> PR_reject (BuildRejectFromError lib e tags header seq)
                  | None \<Rightarrow> build_fields lib seq rest header tags (m @ [(k, v)]) True checksum lastc)
             | (Inr True, header) \<Rightarrow>
                 (case stoi k of
                    None \<Rightarrow> PR_throw
                  | Some i \<Rightarrow> build_fields lib seq rest header (insert (cast_u16 i) tags) m complete checksum lastc))
          else build_fields lib seq rest header tags (m @ [(k, v)]) complete checksum lastc
      | _ \<Rightarrow> PR_reject (unparsable_reject seq tags header))"

definition parse_data :: "fixlib \<Rightarrow> u32 \<Rightarrow> string \<Rightarrow> parse_result" where
  "parse_data lib seq d = build_fields lib seq (split_on SOH d) Header_init {} [] False 0 0"

section \<open>Parsing a body\<close>

definition parseMessage :: "fixlib \<Rightarrow> char \<Rightarrow> (kvs \<Rightarrow> RejectError + 'm) \<Rightarrow> kvs \<Rightarrow> Header \<Rightarrow> SessionReject + 'm" where
  "parseMessage lib ty from_string msg h = (case from_string msg of
       Inl e \<Rightarrow> Inl (SessionReject_init\<lparr>sr_RefSeqNum := h_MsgSeqNum h, sr_RefMsgType := Some ty,
         sr_SessionRejectReason := Some (cast_reason lib (re_Reason e)), sr_RefTagId := re_Tag e,
         sr_Text := Some (re_Message e)\<rparr>)
     | Inr t \<Rightarrow> Inr t)"

section \<open>Facts on the checksum\<close>

lemma char_sum_append: "char_sum (s @ t) = char_sum s + char_sum t"
  by (induction s) (simp_all add: add.assoc)

fun field_sum :: "string list \<Rightarrow> u32" where
  "field_sum [] = 0"
| "field_sum (f # fs) = CountCheckSum f + field_sum fs"

lemma char_u32_SOH: "char_u32 SOH = 1"
  by (simp add: char_u32_def SOH_def)

text \<open>The per-field count, which adds one for each delimiter, is the sum over the whole text.\<close>

lemma field_sum_char_sum: "field_sum fs = char_sum (concat (map (\<lambda>f. f @ [SOH]) fs))"
  by (induction fs) (simp_all add: CountCheckSum_def char_sum_append char_u32_SOH add.assoc)

lemma field_sum_append: "field_sum (fs @ gs) = field_sum fs + field_sum gs"
  by (induction fs) (simp_all add: add.assoc)

lemma from_FIX_u8_dec: "from_FIX_u8 (dec_string (unat (v :: u8))) = Inr v"
  using roundtrip_u8[of v] by (simp add: to_FIX_u8_def)

lemma verifyCheckSum_good:
  "verifyCheckSum cs (m @ [(''10'', dec_string (unat (checksum8 cs)))]) = (None, m)"
  by (simp add: verifyCheckSum_def from_FIX_u8_dec)

lemma verifyCheckSum_None:
  "verifyCheckSum cs m = (None, m') \<longleftrightarrow>
     (\<exists>v. m = m' @ [(''10'', v)] \<and> from_FIX_u8 v = Inr (checksum8 cs))"
proof
  assume a: "verifyCheckSum cs m = (None, m')"
  then have "m \<noteq> []" "fst (last m) = ''10''"
    "from_FIX_u8 (snd (last m)) = Inr (checksum8 cs)" "butlast m = m'"
    by (auto simp: verifyCheckSum_def Let_def split: if_splits sum.splits)
  then have "m = m' @ [(''10'', snd (last m))]" by (metis append_butlast_last_id prod.collapse)
  with \<open>from_FIX_u8 (snd (last m)) = Inr (checksum8 cs)\<close>
  show "\<exists>v. m = m' @ [(''10'', v)] \<and> from_FIX_u8 v = Inr (checksum8 cs)" by blast
qed (auto simp: verifyCheckSum_def)

text \<open>The loop, once the header is complete: it collects the pairs and counts.\<close>

lemma build_fields_body:
  assumes "\<forall>f \<in> set fs. \<exists>k v. split_on (CHR ''='') f = [k, v]" "fs \<noteq> []"
  shows "build_fields lib seq fs header tags m True checksum lastc =
    (let cs = checksum + field_sum (butlast fs) in
     case verifyCheckSum cs (m @ map (\<lambda>f. (split_on (CHR ''='') f ! 0, split_on (CHR ''='') f ! 1)) fs) of
        (Some e, _) \<Rightarrow> PR_reject (BuildRejectFromError lib e tags header seq)
      | (None, m') \<Rightarrow> PR_message header m')"
  using assms
proof (induction fs arbitrary: m checksum lastc)
  case (Cons f fs)
  then obtain k v where kv: "split_on (CHR ''='') f = [k, v]" by auto
  show ?case
  proof (cases "fs = []")
    case True
    then show ?thesis using kv by (simp add: Let_def)
  next
    case False
    then show ?thesis using Cons kv by (simp add: Let_def add.assoc)
  qed
qed simp

text \<open>The part of a frame that the library takes into the header.\<close>

fun insert_all :: "fixlib \<Rightarrow> string list \<Rightarrow> Header \<Rightarrow> TagName set \<Rightarrow> (Header \<times> TagName set) option" where
  "insert_all lib [] h tags = Some (h, tags)"
| "insert_all lib (f # fs) h tags = (case split_on (CHR ''='') f of
       [k, v] \<Rightarrow> (case (fl_try_insert lib k v h, stoi k) of
           ((Inr True, h'), Some i) \<Rightarrow> insert_all lib fs h' (insert (cast_u16 i) tags)
         | _ \<Rightarrow> None)
     | _ \<Rightarrow> None)"

definition pair_of :: "string \<Rightarrow> string \<times> string" where
  "pair_of f = (split_on (CHR ''='') f ! 0, split_on (CHR ''='') f ! 1)"

definition is_pair :: "string \<Rightarrow> bool" where
  "is_pair f \<longleftrightarrow> length (split_on (CHR ''='') f) = 2"

lemma is_pairE: "is_pair f \<Longrightarrow> split_on (CHR ''='') f = [fst (pair_of f), snd (pair_of f)]"
  unfolding is_pair_def pair_of_def
  by (cases "split_on (CHR ''='') f"; cases "tl (split_on (CHR ''='') f)") auto

lemma insert_all_Cons:
  assumes "insert_all lib (f # fs) h tags = Some r"
  obtains k v h' i where "split_on (CHR ''='') f = [k, v]" "fl_try_insert lib k v h = (Inr True, h')"
    "stoi k = Some i" "insert_all lib fs h' (insert (cast_u16 i) tags) = Some r"
  using assms by (auto split: list.splits prod.splits sum.splits option.splits bool.splits)

lemma build_fields_header:
  "insert_all lib hs h tags = Some (h', tags') \<Longrightarrow>
     \<exists>lc'. build_fields lib seq (hs @ fs) h tags m False cs lc
       = build_fields lib seq fs h' tags' m False (cs + field_sum hs) lc'"
proof (induction hs arbitrary: h tags cs lc)
  case (Cons f hs)
  from insert_all_Cons[OF Cons.prems] obtain k v h1 i where
    f: "split_on (CHR ''='') f = [k, v]" "fl_try_insert lib k v h = (Inr True, h1)" "stoi k = Some i"
    and r: "insert_all lib hs h1 (insert (cast_u16 i) tags) = Some (h', tags')" .
  from Cons.IH[OF r] obtain lc' where
    "build_fields lib seq (hs @ fs) h1 (insert (cast_u16 i) tags) m False (cs + CountCheckSum f) (CountCheckSum f)
      = build_fields lib seq fs h' tags' m False (cs + CountCheckSum f + field_sum hs) lc'" by blast
  with f show ?case by (auto simp: Let_def add.assoc)
qed auto

lemma build_fields_body_pairs:
  assumes "list_all is_pair fs" "fs \<noteq> []"
  shows "build_fields lib seq fs header tags m True cs lc =
    (case verifyCheckSum (cs + field_sum (butlast fs)) (m @ map pair_of fs) of
        (Some e, _) \<Rightarrow> PR_reject (BuildRejectFromError lib e tags header seq)
      | (None, m') \<Rightarrow> PR_message header m')"
proof -
  have "\<forall>f \<in> set fs. \<exists>k v. split_on (CHR ''='') f = [k, v]"
    using assms(1) is_pairE by (auto simp: list_all_iff)
  moreover have "map pair_of fs = map (\<lambda>f. (split_on (CHR ''='') f ! 0, split_on (CHR ''='') f ! 1)) fs"
    by (simp add: pair_of_def)
  ultimately show ?thesis using build_fields_body[OF _ assms(2)] by (simp only: Let_def)
qed

text \<open>A whole read whose header the library accepts, followed by the fields \<open>gs\<close>.\<close>

lemma parse_fields:
  assumes h: "insert_all lib hs Header_init {} = Some (h, tags)" and v: "verifyHeader lib h tags = None"
    and g: "list_all is_pair gs" "gs \<noteq> []"
    and sw: "fl_try_insert lib (fst (pair_of (hd gs))) (snd (pair_of (hd gs))) h = (Inr False, h)"
  shows "build_fields lib seq (hs @ gs) Header_init {} [] False 0 0 =
    (case verifyCheckSum (field_sum hs + field_sum (butlast gs)) (map pair_of gs) of
        (Some e, _) \<Rightarrow> PR_reject (BuildRejectFromError lib e tags h seq)
      | (None, m') \<Rightarrow> PR_message h m')"
proof -
  obtain f fs where gs: "gs = f # fs" using g(2) by (cases gs) auto
  obtain lc where "build_fields lib seq (hs @ gs) Header_init {} [] False 0 0
      = build_fields lib seq gs h tags [] False (field_sum hs) lc"
    using build_fields_header[OF h, of seq gs "[]" 0 0] by auto
  also have "\<dots> = build_fields lib seq fs h tags [pair_of f] True (field_sum hs + CountCheckSum f) (CountCheckSum f)"
    using is_pairE[of f] g(1) sw v by (simp add: gs Let_def)
  also have "\<dots> = (case verifyCheckSum (field_sum hs + field_sum (butlast gs)) (map pair_of gs) of
        (Some e, _) \<Rightarrow> PR_reject (BuildRejectFromError lib e tags h seq)
      | (None, m') \<Rightarrow> PR_message h m')"
  proof (cases "fs = []")
    case False
    then show ?thesis using build_fields_body_pairs[of fs lib seq h tags "[pair_of f]"] g(1)
      by (simp add: gs add.assoc)
  qed (simp add: gs)
  finally show ?thesis .
qed

end
