(* ===== verification/BackInput.thy ===== *)
theory BackInput
  imports Framing
begin

text \<open>
  \<^verbatim>\<open>TcpInputNetwork\<close> of the client back end, which has its own copy of the parsing code, and a
  reference parser in phases (read the header, verify it, pair the fields, compare the checksum
  with the sum over the received text). The two hand-written loops, the client's and the server's,
  are shown equal to the reference.
\<close>

section \<open>The client's parser\<close>

definition back_CountCheckSum :: "string \<Rightarrow> u32" where
  "back_CountCheckSum d = foldl (\<lambda>count c. count + char_u32 c) 0 d + 1"

text \<open>The template recursion over the required tags: the first tag that is not in the set.\<close>

definition back_HeaderVerifyPresence :: "TagName list \<Rightarrow> TagName set \<Rightarrow> RejectError option" where
  "back_HeaderVerifyPresence required tags =
     map_option (reject3 ReqTagMissing ''Non positional required tag missing'') (find (\<lambda>t. t \<notin> tags) required)"

definition back_verifyHeader :: "fixlib \<Rightarrow> Header \<Rightarrow> TagName set \<Rightarrow> RejectError option" where
  "back_verifyHeader lib h tags = (let error = fl_verify lib h in
     if error \<noteq> None then error
     else back_HeaderVerifyPresence [tag_SenderCompId, tag_TargetCompId, tag_MsgSeqNum, tag_SendingTime] tags)"

definition back_BuildRejectFromError :: "fixlib \<Rightarrow> RejectError \<Rightarrow> TagName set \<Rightarrow> Header \<Rightarrow> u32 \<Rightarrow> SessionReject" where
  "back_BuildRejectFromError lib e tags h seq =
     (let r = SessionReject_init;
          r = (if tag_MsgSeqNum \<in> tags then r\<lparr>sr_RefSeqNum := h_MsgSeqNum h\<rparr> else r\<lparr>sr_RefSeqNum := seq\<rparr>);
          r = (if tag_MsgSeqNum \<in> tags then r\<lparr>sr_RefMsgType := Some (h_MsgType h)\<rparr> else r);
          r = r\<lparr>sr_SessionRejectReason := Some (cast_reason lib (re_Reason e))\<rparr>;
          r = r\<lparr>sr_RefTagId := re_Tag e\<rparr>
      in r\<lparr>sr_Text := Some (re_Message e)\<rparr>)"

definition back_verifyCheckSum :: "u32 \<Rightarrow> kvs \<Rightarrow> RejectError option \<times> kvs" where
  "back_verifyCheckSum cs m = (let checksum = checksum8 cs in
     case rev m of
       [] \<Rightarrow> (Some (reject3 ReqTagMissing ''Last tag should be CheckSum'' tag_CheckSum), m)
     | (k, v) # front \<Rightarrow>
         if k = ''10'' then
           (case from_FIX_u8 v of
              Inl reject \<Rightarrow> (Some reject, m)
            | Inr out_checksum \<Rightarrow>
                if out_checksum \<noteq> checksum
                then (Some (reject3 ValueOORange ''Miss match on checksum'' tag_CheckSum), m)
                else (None, rev front))
         else (Some (reject3 ReqTagMissing ''Last tag should be CheckSum'' tag_CheckSum), m))"

text \<open>The variables of the loop of \<^verbatim>\<open>buildHeader\<close>, and one turn of it: a value to return, or go on.\<close>

record input_loop =
  il_header :: Header
  il_tagset :: "TagName set"
  il_map :: kvs
  il_complete :: bool
  il_checksum :: u32
  il_last :: u32

definition input_loop_init :: input_loop where
  "input_loop_init = \<lparr>il_header = Header_init, il_tagset = {}, il_map = [], il_complete = False,
     il_checksum = 0, il_last = 0\<rparr>"

definition back_unparsable :: "u32 \<Rightarrow> input_loop \<Rightarrow> SessionReject" where
  "back_unparsable seq s = SessionReject_init\<lparr>
     sr_RefSeqNum := (if tag_MsgSeqNum \<in> il_tagset s then h_MsgSeqNum (il_header s) else seq),
     sr_RefMsgType := (if tag_MsgSeqNum \<in> il_tagset s then Some (h_MsgType (il_header s)) else None),
     sr_SessionRejectReason := Some RS_UndefineTag, sr_Text := Some ''Unable to parse header key-value''\<rparr>"

definition back_count :: "string \<Rightarrow> input_loop \<Rightarrow> input_loop" where
  "back_count result s = s\<lparr>il_last := back_CountCheckSum result,
     il_checksum := il_checksum s + back_CountCheckSum result\<rparr>"

definition back_field :: "fixlib \<Rightarrow> u32 \<Rightarrow> string \<Rightarrow> input_loop \<Rightarrow> parse_result + input_loop" where
  "back_field lib seq result s0 =
     (let kvsplit = split_on (CHR ''='') result; s = back_count result s0 in
      if length kvsplit \<noteq> 2 then Inl (PR_reject (back_unparsable seq s))
      else let k = kvsplit ! 0; v = kvsplit ! 1 in
        if il_complete s then Inr (s\<lparr>il_map := il_map s @ [(k, v)]\<rparr>)
        else let (error, header) = fl_try_insert lib k v (il_header s); s = s\<lparr>il_header := header\<rparr> in
          case error of
            Inl e \<Rightarrow> Inl (PR_reject (back_BuildRejectFromError lib e (il_tagset s) header seq))
          | Inr inserted \<Rightarrow>
              if \<not> inserted then
                (case back_verifyHeader lib header (il_tagset s) of
                   Some e \<Rightarrow> Inl (PR_reject (back_BuildRejectFromError lib e (il_tagset s) header seq))
                 | None \<Rightarrow> Inr (s\<lparr>il_complete := True, il_map := il_map s @ [(k, v)]\<rparr>))
              else (case stoi k of
                  None \<Rightarrow> Inl PR_throw
                | Some i \<Rightarrow> Inr (s\<lparr>il_tagset := insert (cast_u16 i) (il_tagset s)\<rparr>)))"

primrec back_fields :: "fixlib \<Rightarrow> u32 \<Rightarrow> string list \<Rightarrow> input_loop \<Rightarrow> parse_result + input_loop" where
  "back_fields lib seq [] s = Inr s"
| "back_fields lib seq (result # split) s = (case back_field lib seq result s of
      Inl r \<Rightarrow> Inl r | Inr s' \<Rightarrow> back_fields lib seq split s')"

definition back_parse :: "fixlib \<Rightarrow> u32 \<Rightarrow> string \<Rightarrow> parse_result" where
  "back_parse lib seq d = (case back_fields lib seq (split_on SOH d) input_loop_init of
       Inl r \<Rightarrow> r
     | Inr s \<Rightarrow> (case back_verifyCheckSum (il_checksum s - il_last s) (il_map s) of
           (Some e, m) \<Rightarrow> PR_reject (back_BuildRejectFromError lib e (il_tagset s) (il_header s) seq)
         | (None, m) \<Rightarrow> PR_message (il_header s) m))"

section \<open>The reference parser\<close>

text \<open>Reading the header: how far the library takes the fields, and what is left of them.\<close>

datatype header_read =
  HR_ok Header "TagName set" "string list"
| HR_error RejectError "TagName set" Header
| HR_unparsable "TagName set" Header
| HR_throw

fun read_header :: "fixlib \<Rightarrow> string list \<Rightarrow> Header \<Rightarrow> TagName set \<Rightarrow> header_read" where
  "read_header lib [] h tags = HR_ok h tags []"
| "read_header lib (f # fs) h tags =
     (if \<not> is_pair f then HR_unparsable tags h
      else case fl_try_insert lib (fst (pair_of f)) (snd (pair_of f)) h of
          (Inl e, h') \<Rightarrow> HR_error e tags h'
        | (Inr False, h') \<Rightarrow> HR_ok h' tags (f # fs)
        | (Inr True, h') \<Rightarrow> (case stoi (fst (pair_of f)) of
              None \<Rightarrow> HR_throw
            | Some i \<Rightarrow> read_header lib fs h' (insert (cast_u16 i) tags)))"

text \<open>The received text up to its last field: without a final delimiter, up to the last delimiter.\<close>

definition before_last_field :: "string \<Rightarrow> string" where
  "before_last_field d = (let r = rev d; r = (if r \<noteq> [] \<and> hd r = SOH then tl r else r)
     in rev (dropWhile (\<lambda>c. c \<noteq> SOH) r))"

definition parse_spec :: "fixlib \<Rightarrow> u32 \<Rightarrow> string \<Rightarrow> parse_result" where
  "parse_spec lib seq d = (case read_header lib (split_on SOH d) Header_init {} of
       HR_error e tags h \<Rightarrow> PR_reject (BuildRejectFromError lib e tags h seq)
     | HR_unparsable tags h \<Rightarrow> PR_reject (unparsable_reject seq tags h)
     | HR_throw \<Rightarrow> PR_throw
     | HR_ok h tags fs \<Rightarrow>
         (case (if fs = [] then None else verifyHeader lib h tags) of
            Some e \<Rightarrow> PR_reject (BuildRejectFromError lib e tags h seq)
          | None \<Rightarrow>
              if \<not> list_all is_pair fs then PR_reject (unparsable_reject seq tags h)
              else (case verifyCheckSum (char_sum (before_last_field d)) (map pair_of fs) of
                  (Some e, _) \<Rightarrow> PR_reject (BuildRejectFromError lib e tags h seq)
                | (None, m) \<Rightarrow> PR_message h m)))"

section \<open>The client's helpers are the server's\<close>

lemma foldl_char_sum: "foldl (\<lambda>count c. count + char_u32 c) a d = a + char_sum d"
  by (induction d arbitrary: a) (simp_all add: add.assoc)

lemma back_CountCheckSum_eq: "back_CountCheckSum d = CountCheckSum d"
  by (simp add: back_CountCheckSum_def CountCheckSum_def foldl_char_sum)

lemma back_HeaderVerifyPresence_eq: "back_HeaderVerifyPresence ts tags = HeaderVerifyPresence ts tags"
  by (induction ts) (auto simp: back_HeaderVerifyPresence_def)

lemma back_verifyHeader_eq: "back_verifyHeader lib h tags = verifyHeader lib h tags"
  by (auto simp: back_verifyHeader_def verifyHeader_def back_HeaderVerifyPresence_eq Let_def split: option.splits)

lemma back_BuildRejectFromError_eq: "back_BuildRejectFromError lib e tags h seq = BuildRejectFromError lib e tags h seq"
  by (simp add: back_BuildRejectFromError_def BuildRejectFromError_def reject_refs_def SessionReject_init_def Let_def)

lemma back_unparsable_eq: "back_unparsable seq s = unparsable_reject seq (il_tagset s) (il_header s)"
  by (simp add: back_unparsable_def unparsable_reject_def reject_refs_def)

lemma back_verifyCheckSum_eq: "back_verifyCheckSum cs m = verifyCheckSum cs m"
proof (cases m rule: rev_cases)
  case (snoc front p)
  then show ?thesis
    by (cases p) (simp add: back_verifyCheckSum_def verifyCheckSum_def Let_def split: sum.split)
qed (simp add: back_verifyCheckSum_def verifyCheckSum_def Let_def)

lemmas back_helpers_eq = back_CountCheckSum_eq back_verifyHeader_eq back_BuildRejectFromError_eq
  back_unparsable_eq back_verifyCheckSum_eq

section \<open>The server's loop is the reference parser\<close>

definition checksum_result :: "fixlib \<Rightarrow> u32 \<Rightarrow> TagName set \<Rightarrow> Header \<Rightarrow> u32 \<Rightarrow> kvs \<Rightarrow> parse_result" where
  "checksum_result lib seq tags h cs m = (case verifyCheckSum cs m of
      (Some e, _) \<Rightarrow> PR_reject (BuildRejectFromError lib e tags h seq)
    | (None, m') \<Rightarrow> PR_message h m')"

lemma checksum_result_empty: "checksum_result lib seq tags h cs [] = checksum_result lib seq tags h cs' []"
  by (simp add: checksum_result_def verifyCheckSum_def Let_def)

lemma not_pair: "\<not> is_pair f \<Longrightarrow>
    (case split_on (CHR ''='') f of [] \<Rightarrow> a | [k] \<Rightarrow> a | [k, v] \<Rightarrow> b k v | k # v # w # x \<Rightarrow> a) = a"
  by (auto simp: is_pair_def split: list.splits)

lemma build_fields_Nil: "build_fields lib seq [] h tags m c cs lc = checksum_result lib seq tags h (cs - lc) m"
  by (simp add: checksum_result_def)

lemma build_fields_unparsable:
  "\<not> is_pair f \<Longrightarrow> build_fields lib seq (f # fs) h tags m c cs lc = PR_reject (unparsable_reject seq tags h)"
  by (simp add: not_pair Let_def)

lemma build_fields_complete:
  "fs \<noteq> [] \<Longrightarrow> build_fields lib seq fs h tags m True cs lc =
     (if \<not> list_all is_pair fs then PR_reject (unparsable_reject seq tags h)
      else checksum_result lib seq tags h (cs + field_sum (butlast fs)) (m @ map pair_of fs))"
proof (induction fs arbitrary: m cs lc)
  case (Cons f fs)
  show ?case
  proof (cases "is_pair f")
    case True
    then have "build_fields lib seq (f # fs) h tags m True cs lc
        = build_fields lib seq fs h tags (m @ [pair_of f]) True (cs + CountCheckSum f) (CountCheckSum f)"
      using is_pairE[OF True] by (simp add: Let_def)
    with True show ?thesis
      by (cases "fs = []") (simp_all add: build_fields_Nil Cons.IH add.assoc del: build_fields.simps)
  qed (simp add: build_fields_unparsable del: build_fields.simps)
qed simp

definition phase_result :: "fixlib \<Rightarrow> u32 \<Rightarrow> u32 \<Rightarrow> header_read \<Rightarrow> parse_result" where
  "phase_result lib seq cs r = (case r of
       HR_error e tags h \<Rightarrow> PR_reject (BuildRejectFromError lib e tags h seq)
     | HR_unparsable tags h \<Rightarrow> PR_reject (unparsable_reject seq tags h)
     | HR_throw \<Rightarrow> PR_throw
     | HR_ok h tags fs \<Rightarrow>
         (case (if fs = [] then None else verifyHeader lib h tags) of
            Some e \<Rightarrow> PR_reject (BuildRejectFromError lib e tags h seq)
          | None \<Rightarrow>
              if \<not> list_all is_pair fs then PR_reject (unparsable_reject seq tags h)
              else checksum_result lib seq tags h cs (map pair_of fs)))"

lemma phase_result_Nil: "phase_result lib seq cs (HR_ok h tags []) = checksum_result lib seq tags h cs' []"
  unfolding phase_result_def by (simp add: checksum_result_empty[of _ _ _ _ cs cs'])

text \<open>The field at which the header ends.\<close>

lemma build_fields_switch:
  assumes "is_pair f" "fl_try_insert lib (fst (pair_of f)) (snd (pair_of f)) h = (Inr False, h')"
  shows "build_fields lib seq (f # fs) h tags [] False cs lc =
    phase_result lib seq (cs + field_sum (butlast (f # fs))) (HR_ok h' tags (f # fs))"
proof -
  have "build_fields lib seq (f # fs) h tags [] False cs lc = (case verifyHeader lib h' tags of
      Some e \<Rightarrow> PR_reject (BuildRejectFromError lib e tags h' seq)
    | None \<Rightarrow> build_fields lib seq fs h' tags [pair_of f] True (cs + CountCheckSum f) (CountCheckSum f))"
    using is_pairE[OF assms(1)] assms(2) by (simp add: Let_def split: option.splits)
  then show ?thesis using assms(1)
    by (cases "fs = []") (simp_all add: phase_result_def build_fields_Nil build_fields_complete add.assoc
        split: option.splits del: build_fields.simps)
qed

lemma build_fields_phases:
  "build_fields lib seq fs h tags [] False cs lc =
     phase_result lib seq (cs + field_sum (butlast fs)) (read_header lib fs h tags)"
proof (induction fs arbitrary: h tags cs lc)
  case Nil
  then show ?case unfolding build_fields_Nil by (simp add: phase_result_Nil[where cs' = "cs - lc"])
next
  case (Cons f fs)
  show ?case
  proof (cases "is_pair f")
    case False
    then show ?thesis by (simp add: build_fields_unparsable phase_result_def del: build_fields.simps)
  next
    case p: True
    obtain r h' where t: "fl_try_insert lib (fst (pair_of f)) (snd (pair_of f)) h = (r, h')" by fastforce
    note kv = is_pairE[OF p]
    show ?thesis
    proof (cases r)
      case (Inl e)
      then show ?thesis using kv t p by (simp add: Let_def phase_result_def)
    next
      case (Inr taken)
      show ?thesis
      proof (cases taken)
        case False
        then show ?thesis using t p Inr by (simp add: build_fields_switch del: build_fields.simps)
      next
        case True
        show ?thesis
        proof (cases "stoi (fst (pair_of f))")
          case None
          then show ?thesis using kv t p Inr True by (simp add: Let_def phase_result_def)
        next
          case (Some i)
          have "build_fields lib seq (f # fs) h tags [] False cs lc
              = build_fields lib seq fs h' (insert (cast_u16 i) tags) [] False (cs + CountCheckSum f) (CountCheckSum f)"
            using kv t Inr True Some by (simp add: Let_def)
          also have "\<dots> = phase_result lib seq (cs + CountCheckSum f + field_sum (butlast fs))
              (read_header lib fs h' (insert (cast_u16 i) tags))" by (rule Cons.IH)
          finally show ?thesis using t p Inr True Some
            by (cases "fs = []") (simp_all add: add.assoc phase_result_Nil[where cs' = 0] del: build_fields.simps)
        qed
      qed
    qed
  qed
qed

section \<open>The text before the last field\<close>

lemma split_on_text:
  "d \<noteq> [] \<Longrightarrow>
     (d = concat (map (\<lambda>f. f @ [c]) (butlast (split_on c d))) @ last (split_on c d) \<and> last (split_on c d) \<noteq> []) \<or>
     d = concat (map (\<lambda>f. f @ [c]) (butlast (split_on c d))) @ last (split_on c d) @ [c]"
proof (induction c d rule: split_on.induct)
  case (1 c s)
  let ?f = "takeWhile (\<lambda>x. x \<noteq> c) s" and ?t = "dropWhile (\<lambda>x. x \<noteq> c) s"
  have s: "s = ?f @ ?t" by simp
  show ?case
  proof (cases ?t)
    case Nil
    moreover from this s have "?f = s" by simp
    ultimately have "split_on c s = [s]"
      using split_on_Cons[OF 1(2), of c] by (simp del: dropWhile_eq_Nil_conv takeWhile_eq_all_conv)
    with 1(2) show ?thesis by simp
  next
    case (Cons x r)
    then have x: "x = c" using hd_dropWhile[of "\<lambda>x. x \<noteq> c" s] by simp
    have sp: "split_on c s = ?f # split_on c r" using split_on_Cons[OF 1(2), of c] Cons by simp
    have eq: "s = ?f @ c # r" using s Cons x by simp
    show ?thesis
    proof (cases "r = []")
      case True
      then show ?thesis using sp eq by simp
    next
      case False
      then have ne: "split_on c r \<noteq> []" by (simp add: split_on_Cons)
      have "(r = concat (map (\<lambda>f. f @ [c]) (butlast (split_on c r))) @ last (split_on c r) \<and> last (split_on c r) \<noteq> []) \<or>
        r = concat (map (\<lambda>f. f @ [c]) (butlast (split_on c r))) @ last (split_on c r) @ [c]"
        using 1(1)[OF 1(2)] Cons False by simp
      then show ?thesis
      proof
        assume "r = concat (map (\<lambda>f. f @ [c]) (butlast (split_on c r))) @ last (split_on c r) \<and> last (split_on c r) \<noteq> []"
        then show ?thesis using sp ne eq by simp
      next
        assume "r = concat (map (\<lambda>f. f @ [c]) (butlast (split_on c r))) @ last (split_on c r) @ [c]"
        then show ?thesis using sp ne eq by simp
      qed
    qed
  qed
qed

lemma joined_ends: "fs = [] \<or> (\<exists>u. concat (map (\<lambda>f. f @ [c]) fs) = u @ [c])"
  by (cases fs rule: rev_cases) auto

lemma before_last_field_split:
  "before_last_field d = concat (map (\<lambda>f. f @ [SOH]) (butlast (split_on SOH d)))"
proof (cases "d = []")
  case True
  then show ?thesis by (simp add: before_last_field_def)
next
  case False
  define l where "l = last (split_on SOH d)"
  define u where "u = concat (map (\<lambda>f. f @ [SOH]) (butlast (split_on SOH d)))"
  have l: "SOH \<notin> set l" using split_on_no_delim[of l SOH d] False by (simp add: l_def split_on_Cons)
  have drop: "rev (dropWhile (\<lambda>c. c \<noteq> SOH) (rev l @ rev u)) = u"
    using l joined_ends[of "butlast (split_on SOH d)" SOH] by (auto simp: dropWhile_append3 u_def)
  have "(d = u @ l \<and> l \<noteq> []) \<or> d = u @ l @ [SOH]"
    using split_on_text[OF False, of SOH] by (simp add: l_def u_def)
  then show ?thesis
  proof
    assume a: "d = u @ l \<and> l \<noteq> []"
    then have "hd (rev l) \<noteq> SOH" using l by (metis hd_in_set rev_is_Nil_conv set_rev)
    with a have "before_last_field d = rev (dropWhile (\<lambda>c. c \<noteq> SOH) (rev l @ rev u))"
      by (simp add: before_last_field_def Let_def)
    with drop show ?thesis by (simp add: u_def)
  next
    assume "d = u @ l @ [SOH]"
    then have "before_last_field d = rev (dropWhile (\<lambda>c. c \<noteq> SOH) (rev l @ rev u))"
      by (simp add: before_last_field_def Let_def)
    with drop show ?thesis by (simp add: u_def)
  qed
qed

lemma char_sum_before_last: "char_sum (before_last_field d) = field_sum (butlast (split_on SOH d))"
  by (simp add: before_last_field_split field_sum_char_sum)

lemma parse_data_spec: "parse_data lib seq d = parse_spec lib seq d"
  unfolding parse_data_def build_fields_phases parse_spec_def phase_result_def checksum_result_def
  by (simp only: char_sum_before_last add_0)

section \<open>The client's loop is the server's\<close>

definition run_server_loop :: "fixlib \<Rightarrow> u32 \<Rightarrow> string list \<Rightarrow> input_loop \<Rightarrow> parse_result" where
  "run_server_loop lib seq fs s = build_fields lib seq fs (il_header s) (il_tagset s) (il_map s)
     (il_complete s) (il_checksum s) (il_last s)"

lemma back_field_simulates:
  "(case back_field lib seq f s of Inl r \<Rightarrow> r | Inr s' \<Rightarrow> run_server_loop lib seq fs s') =
     run_server_loop lib seq (f # fs) s"
proof (cases "is_pair f")
  case False
  then have "back_field lib seq f s = Inl (PR_reject (unparsable_reject seq (il_tagset s) (il_header s)))"
    by (simp add: back_field_def is_pair_def back_unparsable_eq back_count_def Let_def)
  with False show ?thesis by (simp add: run_server_loop_def build_fields_unparsable del: build_fields.simps)
next
  case True
  note kv = is_pairE[OF True]
  obtain r h' where t: "fl_try_insert lib (fst (pair_of f)) (snd (pair_of f)) (il_header s) = (r, h')" by fastforce
  show ?thesis
  proof (cases "il_complete s")
    case True
    then show ?thesis using kv
      by (simp add: back_field_def run_server_loop_def back_count_def back_CountCheckSum_eq Let_def)
  next
    case False
    then show ?thesis using kv t
      by (simp add: back_field_def run_server_loop_def back_count_def back_helpers_eq Let_def
          split: sum.split bool.split option.split)
  qed
qed

lemma back_fields_simulates:
  "(case back_fields lib seq fs s of Inl r \<Rightarrow> r | Inr s' \<Rightarrow> run_server_loop lib seq [] s') =
     run_server_loop lib seq fs s"
proof (induction fs arbitrary: s)
  case (Cons f fs)
  show ?case unfolding back_field_simulates[symmetric] by (cases "back_field lib seq f s") (simp_all add: Cons.IH)
qed simp

lemma back_parse_eq: "back_parse lib seq d = parse_data lib seq d"
proof -
  have fin: "(case back_verifyCheckSum (il_checksum s - il_last s) (il_map s) of
      (Some e, m) \<Rightarrow> PR_reject (back_BuildRejectFromError lib e (il_tagset s) (il_header s) seq)
    | (None, m) \<Rightarrow> PR_message (il_header s) m) = run_server_loop lib seq [] s" for s
    unfolding back_helpers_eq run_server_loop_def build_fields.simps(1) ..
  show ?thesis unfolding back_parse_def fin back_fields_simulates
    by (simp add: run_server_loop_def input_loop_init_def parse_data_def)
qed

section \<open>The property\<close>

text \<open>
  C18: the single pass over the fields, the server's and the client's, is the parser in phases: read
  the header, verify it, take the rest apart, compare the checksum with the sum over the received
  text. Both accept the same data with the same message, answer the same reject with the same
  references, and end with the same exception, whatever the message library does.
\<close>

theorem parsers_are_reference_parser:
  "parse_data lib seq d = parse_spec lib seq d \<and> back_parse lib seq d = parse_spec lib seq d"
  by (simp only: back_parse_eq parse_data_spec)

end
