(* ===== verification/BackEnd.thy ===== *)
theory BackEnd
  imports BackInput Ipc Threads
begin

text \<open>
  The client back end: the user of the session (\<^verbatim>\<open>User\<close>, one object), the network, header,
  router, logon, heartbeat and execution units towards the server, and \<^verbatim>\<open>FixBuilder\<close>,
  \<^verbatim>\<open>FrontManager\<close> and \<^verbatim>\<open>InitiatorManager\<close> towards the other processes of the client. A step of a
  unit is one message; what the units share is the record \<open>backend\<close>.
\<close>

section \<open>The state\<close>

record User =
  us_seqnum :: u64
  us_login :: bool
  us_userid :: string
  us_dc_req :: bool
  us_logout_req :: bool
  us_since :: time_point
  us_elapsing :: u32

record ServerMessage =
  sm_ReceiveTime :: time_point
  sm_Header :: Header
  sm_Message :: kvs

record BackOutput =
  bo_ReceiveTime :: time_point
  bo_MessageType :: char
  bo_Message :: FixMsg

record FrontManager =
  fm_auth :: bool
  fm_handshake :: bool
  fm_token :: "string option"

text \<open>
  \<open>bk_front\<close> and \<open>bk_initiator\<close> are the frames sent to the front end and to the initiator, \<open>bk_wire\<close>
  the data handed to the server's socket. \<open>bk_ipc_header\<close> is the local header of \<^verbatim>\<open>FixBuilder\<close>,
  which keeps its value from one message to the next.
\<close>

record backend =
  bk_user :: User
  bk_fm :: FrontManager
  bq_header :: "ServerMessage ts_queue"
  bq_router :: "ServerMessage ts_queue"
  bq_auth :: "ServerMessage ts_queue"
  bq_heartbeat :: "ServerMessage ts_queue"
  bq_execution :: "ServerMessage ts_queue"
  bq_output :: "BackOutput ts_queue"
  bq_builder :: "net_buffer ts_queue"
  bk_ipc_header :: IpcHeader
  bk_front :: "net_buffer list"
  bk_initiator :: "net_buffer list"
  bk_wire :: "string list"

definition User_init :: "time_point \<Rightarrow> u32 \<Rightarrow> User" where
  "User_init epoch junk = \<lparr>us_seqnum = 1, us_login = False, us_userid = [], us_dc_req = False,
     us_logout_req = False, us_since = epoch, us_elapsing = junk\<rparr>"

abbreviation upd_user :: "(User \<Rightarrow> User) \<Rightarrow> backend \<Rightarrow> backend" where
  "upd_user f b \<equiv> b\<lparr>bk_user := f (bk_user b)\<rparr>"

definition us_setSeqNumber :: "u64 \<Rightarrow> User \<Rightarrow> User" where
  "us_setSeqNumber n u = u\<lparr>us_seqnum := n\<rparr>"

definition us_nextSeqNumber :: "User \<Rightarrow> User" where
  "us_nextSeqNumber u = u\<lparr>us_seqnum := us_seqnum u + 1\<rparr>"

definition us_do_login :: "string \<Rightarrow> User \<Rightarrow> User" where
  "us_do_login name u = u\<lparr>us_userid := name, us_login := True\<rparr>"

definition us_setUserId :: "string \<Rightarrow> User \<Rightarrow> User" where
  "us_setUserId name u = u\<lparr>us_userid := name\<rparr>"

definition us_shouldDisconnect :: "bool \<Rightarrow> User \<Rightarrow> User" where
  "us_shouldDisconnect b u = u\<lparr>us_dc_req := b\<rparr>"

definition us_logoutRequested :: "bool \<Rightarrow> User \<Rightarrow> User" where
  "us_logoutRequested b u = u\<lparr>us_logout_req := b\<rparr>"

definition us_disconnect :: "User \<Rightarrow> User" where
  "us_disconnect u = u\<lparr>us_userid := [], us_login := False, us_dc_req := False, us_logout_req := False\<rparr>"

definition back_output :: "time_point \<Rightarrow> FixMsg \<Rightarrow> backend \<Rightarrow> backend" where
  "back_output t m b = b\<lparr>bq_output := ts_push \<lparr>bo_ReceiveTime = t, bo_MessageType = Msg_type m, bo_Message = m\<rparr> (bq_output b)\<rparr>"

definition front_send :: "net_buffer \<Rightarrow> backend \<Rightarrow> backend" where
  "front_send f b = b\<lparr>bk_front := bk_front b @ [f]\<rparr>"

section \<open>From and to the server\<close>

text \<open>
  \<^verbatim>\<open>TcpInputNetwork\<close>: \<open>error\<close> is what \<^verbatim>\<open>receive\<close> reports; a negative one is not tested. \<^verbatim>\<open>buildHeader\<close>
  and the functions below it are those of the server's unit, theory Framing. \<open>None\<close>: the unit
  throws.
\<close>

definition back_buildHeader :: "fixlib \<Rightarrow> time_point \<Rightarrow> string \<Rightarrow> backend \<Rightarrow> backend option" where
  "back_buildHeader lib now d b = (case back_parse lib (ucast (us_seqnum (bk_user b))) d of
       PR_message h m \<Rightarrow> Some (b\<lparr>bq_header := ts_push \<lparr>sm_ReceiveTime = now, sm_Header = h, sm_Message = m\<rparr> (bq_header b)\<rparr>)
     | PR_reject r \<Rightarrow> Some (back_output now (M_SessionReject r) b)
     | PR_throw \<Rightarrow> None)"

definition back_input :: "fixlib \<Rightarrow> time_point \<Rightarrow> int \<Rightarrow> string \<Rightarrow> backend \<Rightarrow> backend option" where
  "back_input lib now error d b =
     (if error = 0 then Some b
      else back_buildHeader lib now d (if us_login (bk_user b) then upd_user us_nextSeqNumber b else b))"

definition back_header :: "string \<Rightarrow> fixlib \<Rightarrow> time_point \<Rightarrow> BackOutput \<Rightarrow> User \<Rightarrow> Header" where
  "back_header provider lib now i u = Header_init\<lparr>h_BeginString := ''FIX.4.2'',
     h_BodyLength := word_of_nat (length (fl_to_string lib (bo_Message i))), h_MsgType := bo_MessageType i,
     h_MsgSeqNum := ucast (us_seqnum u), h_SenderCompId := us_userid u,
     h_TargetCompId := provider, h_SendingTime := now\<rparr>"

text \<open>\<^verbatim>\<open>TcpOutputNetwork::onInput\<close>; \<open>open\<close>: the socket is open. A failed send is only logged.\<close>

definition back_output_step :: "string \<Rightarrow> fixlib \<Rightarrow> time_point \<Rightarrow> bool \<Rightarrow> BackOutput \<Rightarrow> backend \<Rightarrow> backend" where
  "back_output_step provider lib now open i b =
     (let b1 = (if \<not> us_login (bk_user b) then upd_user us_nextSeqNumber b else b);
          header = back_header provider lib now i (bk_user b1);
          b2 = upd_user us_nextSeqNumber b1;
          data = AddCheckSum (fl_header_string lib header @ fl_to_string lib (bo_Message i))
      in if open then b2\<lparr>bk_wire := bk_wire b2 @ [data]\<rparr> else b2)"

section \<open>Header validation and routing\<close>

definition back_ref_reject :: "Header \<Rightarrow> SessionReject" where
  "back_ref_reject h = SessionReject_init\<lparr>sr_RefSeqNum := h_MsgSeqNum h, sr_RefMsgType := Some (h_MsgType h)\<rparr>"

definition back_supported :: "char list" where
  "back_supported = [MT_HeartBeat, MT_TestRequest, MT_SessionReject, MT_Logout, MT_ExecutionReport,
     MT_BusinessReject, MT_Logon]"

definition back_verifyPositionValue :: "Header \<Rightarrow> SessionReject option" where
  "back_verifyPositionValue h =
     (if h_BeginString h \<noteq> ''FIX.4.2'' then Some ((back_ref_reject h)\<lparr>
        sr_SessionRejectReason := Some RS_ValueOutOfRange, sr_RefTagId := Some tag_BeginString,
        sr_Text := Some ''Incorrect begin string. Expected FIX.4.2''\<rparr>)
      else if h_MsgType h \<in> set back_supported then None
      else Some ((back_ref_reject h)\<lparr>
        sr_SessionRejectReason := Some RS_InvalidMsgType, sr_RefTagId := Some tag_MsgType,
        sr_Text := Some ''Not supported message type''\<rparr>))"

text \<open>The number of the header is 32 bits wide, the user's 64: they are compared at 64.\<close>

definition back_verifyUserSpecific :: "string \<Rightarrow> Header \<Rightarrow> User \<Rightarrow> SessionReject option" where
  "back_verifyUserSpecific provider h u =
     (let bad = (\<lambda>tag text. Some ((back_ref_reject h)\<lparr>sr_SessionRejectReason := Some RS_ValueOutOfRange,
            sr_RefTagId := Some tag, sr_Text := Some text\<rparr>)) in
      if h_SenderCompId h \<noteq> provider then bad tag_TargetCompId ''Incorrect target Id''
      else if us_login u then
        if h_TargetCompId h \<noteq> us_userid u then bad tag_SenderCompId ''Incorrect sender Id''
        else if ucast (h_MsgSeqNum h) \<noteq> us_seqnum u - 1 then bad tag_MsgSeqNum ''Inccorect message sequence number''
        else None
      else None)"

definition back_header_onInput :: "string \<Rightarrow> ServerMessage \<Rightarrow> backend \<Rightarrow> backend" where
  "back_header_onInput provider i b = (case back_verifyPositionValue (sm_Header i) of
       Some r \<Rightarrow> back_output (sm_ReceiveTime i) (M_SessionReject r) b
     | None \<Rightarrow> (case back_verifyUserSpecific provider (sm_Header i) (bk_user b) of
         Some r \<Rightarrow> back_output (sm_ReceiveTime i) (M_SessionReject r) b
       | None \<Rightarrow> b\<lparr>bq_router := ts_push i (bq_router b)\<rparr>))"

definition back_unknownMessage :: "ServerMessage \<Rightarrow> backend \<Rightarrow> backend" where
  "back_unknownMessage i b = back_output (sm_ReceiveTime i) (M_SessionReject (SessionReject_init\<lparr>
     sr_RefSeqNum := h_MsgSeqNum (sm_Header i), sr_RefTagId := Some tag_MsgType,
     sr_RefMsgType := Some (h_MsgType (sm_Header i)), sr_SessionRejectReason := Some RS_InvalidMsgType,
     sr_Text := Some ''Unknown message type''\<rparr>)) b"

text \<open>Rejects of either kind are only logged.\<close>

definition back_router_onInput :: "ServerMessage \<Rightarrow> backend \<Rightarrow> backend" where
  "back_router_onInput i b = (let ty = h_MsgType (sm_Header i) in
     if ty = MT_Logon \<or> ty = MT_Logout then b\<lparr>bq_auth := ts_push i (bq_auth b)\<rparr>
     else if ty = MT_HeartBeat \<or> ty = MT_TestRequest then b\<lparr>bq_heartbeat := ts_push i (bq_heartbeat b)\<rparr>
     else if ty = MT_ExecutionReport then b\<lparr>bq_execution := ts_push i (bq_execution b)\<rparr>
     else if ty = MT_BusinessReject then b
     else if ty = MT_SessionReject then b
     else back_unknownMessage i b)"

section \<open>Logon, logout and heartbeats\<close>

definition back_handleLogon :: "fixlib \<Rightarrow> time_point \<Rightarrow> ServerMessage \<Rightarrow> backend \<Rightarrow> backend" where
  "back_handleLogon lib now i b =
     (case parseMessage lib MT_Logon (fl_Logon lib) (sm_Message i) (sm_Header i) of
        Inl r \<Rightarrow> back_output (sm_ReceiveTime i) (M_SessionReject r) b
      | Inr logon \<Rightarrow>
          let b1 = upd_user (\<lambda>u. us_do_login (h_TargetCompId (sm_Header i))
                (us_setSeqNumber (ucast (h_MsgSeqNum (sm_Header i) + 1))
                  (u\<lparr>us_elapsing := lg_HeartBtInt logon, us_since := now\<rparr>))) b;
              u = bk_user b1
          in front_send (Helper_Logon \<lparr>il_UserId = us_userid u, il_SeqNum = ucast (us_seqnum u),
               il_HeartBeat = us_elapsing u\<rparr>) b1)"

definition back_handleLogout :: "fixlib \<Rightarrow> ServerMessage \<Rightarrow> backend \<Rightarrow> backend" where
  "back_handleLogout lib i b =
     (case parseMessage lib MT_Logout (fl_Logout lib) (sm_Message i) (sm_Header i) of
        Inl r \<Rightarrow> back_output (sm_ReceiveTime i) (M_SessionReject r) b
      | Inr _ \<Rightarrow> if us_logout_req (bk_user b) then b
          else back_output (sm_ReceiveTime i) M_Logout (upd_user (us_shouldDisconnect True) b))"

definition back_auth_onInput :: "fixlib \<Rightarrow> time_point \<Rightarrow> ServerMessage \<Rightarrow> backend \<Rightarrow> backend" where
  "back_auth_onInput lib now i b = (let ty = h_MsgType (sm_Header i) in
     if ty = MT_Logon then back_handleLogon lib now i b
     else if ty = MT_Logout then back_handleLogout lib i b else b)"

definition back_handleTestRequest :: "fixlib \<Rightarrow> ServerMessage \<Rightarrow> backend \<Rightarrow> backend" where
  "back_handleTestRequest lib i b =
     (case parseMessage lib MT_TestRequest (fl_TestRequest lib) (sm_Message i) (sm_Header i) of
        Inl r \<Rightarrow> back_output (sm_ReceiveTime i) (M_SessionReject r) b
      | Inr m \<Rightarrow> back_output (sm_ReceiveTime i) (M_HeartBeat (HeartBeat_init\<lparr>hb_TestReqId := Some (tr_TestReqId m)\<rparr>)) b)"

definition back_handleHeartBeat :: "fixlib \<Rightarrow> ServerMessage \<Rightarrow> backend \<Rightarrow> backend" where
  "back_handleHeartBeat lib i b =
     (case parseMessage lib MT_HeartBeat (fl_HeartBeat lib) (sm_Message i) (sm_Header i) of
        Inl r \<Rightarrow> back_output (sm_ReceiveTime i) (M_SessionReject r) b | Inr _ \<Rightarrow> b)"

definition back_heartbeat_onInput :: "fixlib \<Rightarrow> ServerMessage \<Rightarrow> backend \<Rightarrow> backend" where
  "back_heartbeat_onInput lib i b = (let ty = h_MsgType (sm_Header i) in
     if ty = MT_TestRequest then back_handleTestRequest lib i b
     else if ty = MT_HeartBeat then back_handleHeartBeat lib i b else b)"

text \<open>
  The heartbeat thread: it first waits for the login, without looking at the stop request, then
  tests the interval in every round.
\<close>

datatype hb_thread = HB_wait | HB_loop | HB_exit

definition ns_per_s :: int where "ns_per_s = 1000000000"

definition heartbeat_due :: "time_point \<Rightarrow> User \<Rightarrow> bool" where
  "heartbeat_due now u \<longleftrightarrow> (let d = now - us_since u in
     (if 0 \<le> d then d div ns_per_s else - (- d div ns_per_s)) \<ge> uint (us_elapsing u))"

fun heartbeat_thread :: "bool \<Rightarrow> time_point \<Rightarrow> hb_thread \<Rightarrow> backend \<Rightarrow> hb_thread \<times> backend" where
  "heartbeat_thread stop now HB_wait b = (if us_login (bk_user b) then (HB_loop, b) else (HB_wait, b))"
| "heartbeat_thread stop now HB_loop b =
     (if stop then (HB_exit, b)
      else if heartbeat_due now (bk_user b)
        then (HB_loop, back_output now (M_HeartBeat HeartBeat_init) (upd_user (\<lambda>u. u\<lparr>us_since := now\<rparr>) b))
        else (HB_loop, b))"
| "heartbeat_thread stop now HB_exit b = (HB_exit, b)"

end
