(* ===== verification/Clients.thy ===== *)
theory Clients
  imports FixTypes
begin

text \<open>
  The connections of the server: sockets and the epoll selector of \<^verbatim>\<open>shared/Network\<close>, the per
  connection state \<^verbatim>\<open>InternalClient\<close>, and the table \<^verbatim>\<open>ClientStore\<close>. Clients and sockets are held
  by \<^verbatim>\<open>std::shared_ptr\<close> and shared between the units, so they live in heaps and are named by
  references. The state records are extensible; the server state extends them.
\<close>

section \<open>Sockets\<close>

type_synonym sock = nat
type_synonym cref = nat

text \<open>
  \<open>sk_fd\<close> is \<^verbatim>\<open>m_fd\<close> of each socket object, \<open>sk_open\<close> and \<open>sk_epoll\<close> are the kernel's view: the open
  descriptors and those registered with epoll, from where closing a descriptor removes it.
\<close>

record sockets =
  sk_fd :: "sock \<Rightarrow> int"
  sk_next :: sock
  sk_open :: "int \<Rightarrow> bool"
  sk_epoll :: "int list"

definition BaseSocket_isOpen :: "sock \<Rightarrow> 'a sockets_scheme \<Rightarrow> bool" where
  "BaseSocket_isOpen k s \<longleftrightarrow> sk_open s (sk_fd s k)"

definition BaseSocket_close :: "sock \<Rightarrow> 'a sockets_scheme \<Rightarrow> bool \<times> 'a sockets_scheme" where
  "BaseSocket_close k s = (if \<not> BaseSocket_isOpen k s then (True, s)
     else (True, s\<lparr>sk_open := (sk_open s)(sk_fd s k := False),
       sk_epoll := filter (\<lambda>fd. fd \<noteq> sk_fd s k) (sk_epoll s), sk_fd := (sk_fd s)(k := -1)\<rparr>))"

text \<open>\<open>fd\<close> is what the kernel's \<^verbatim>\<open>accept\<close> returned.\<close>

definition Acceptor_accept :: "int \<Rightarrow> 'a sockets_scheme \<Rightarrow> sock option \<times> 'a sockets_scheme" where
  "Acceptor_accept fd s = (if fd = -1 then (None, s)
     else (Some (sk_next s), s\<lparr>sk_fd := (sk_fd s)(sk_next s := fd), sk_next := sk_next s + 1,
       sk_open := (sk_open s)(fd := True)\<rparr>))"

section \<open>The selector\<close>

record selector = sockets +
  sl_clients :: "(int \<times> sock) list" \<comment> \<open>\<^verbatim>\<open>m_clients\<close>, an \<^verbatim>\<open>unordered_map\<close>\<close>

text \<open>\<^verbatim>\<open>epoll_ctl(ADD)\<close> fails on a closed descriptor and on one that is already registered;
  \<^verbatim>\<open>emplace\<close> keeps an entry that is already there.\<close>

definition Selector_client :: "sock \<Rightarrow> 'a selector_scheme \<Rightarrow> bool \<times> 'a selector_scheme" where
  "Selector_client k s = (let fd = sk_fd s k in
     if sk_open s fd \<and> fd \<notin> set (sk_epoll s)
     then (True, s\<lparr>sk_epoll := sk_epoll s @ [fd],
       sl_clients := (if map_of (sl_clients s) fd = None then sl_clients s @ [(fd, k)] else sl_clients s)\<rparr>)
     else (False, s))"

definition Selector_erase :: "sock \<Rightarrow> 'a selector_scheme \<Rightarrow> 'a selector_scheme" where
  "Selector_erase k s = s\<lparr>sl_clients := filter (\<lambda>(_, c). sk_fd s k \<noteq> sk_fd s c) (sl_clients s)\<rparr>"

text \<open>\<open>events\<close> are the descriptors epoll reports. \<^verbatim>\<open>at\<close> throws on a descriptor without entry: \<open>None\<close>.\<close>

fun Selector_pull :: "int list \<Rightarrow> 'a selector_scheme \<Rightarrow> sock list option" where
  "Selector_pull [] s = Some []"
| "Selector_pull (fd # fds) s = (case map_of (sl_clients s) fd of
       None \<Rightarrow> None | Some k \<Rightarrow> map_option ((#) k) (Selector_pull fds s))"

lemma Selector_pull_defined:
  "(\<forall>fd \<in> set fds. map_of (sl_clients s) fd \<noteq> None) \<longleftrightarrow> Selector_pull fds s \<noteq> None"
  by (induction fds) (auto split: option.splits)

section \<open>The state of one connection\<close>

record HeartBeatInfo =
  hi_Elapsing :: u32
  hi_TestRequest :: bool
  hi_TestValue :: "string option"
  hi_since :: time_point

definition HeartBeatInfo_init :: HeartBeatInfo where
  "HeartBeatInfo_init = \<lparr>hi_Elapsing = 1, hi_TestRequest = False, hi_TestValue = None, hi_since = 0\<rparr>"

record InternalClient =
  ic_logged_in :: bool
  ic_should_dc :: bool
  ic_user_id :: UserId
  ic_seq_num :: u32
  ic_socket :: "sock option"
  ic_hb_info :: HeartBeatInfo

definition InternalClient_new :: "sock option \<Rightarrow> InternalClient" where
  "InternalClient_new k = \<lparr>ic_logged_in = False, ic_should_dc = False, ic_user_id = [],
     ic_seq_num = 0, ic_socket = k, ic_hb_info = HeartBeatInfo_init\<rparr>"

definition setSince :: "time_point \<Rightarrow> InternalClient \<Rightarrow> InternalClient" where
  "setSince t c = c\<lparr>ic_hb_info := (ic_hb_info c)\<lparr>hi_since := t\<rparr>\<rparr>"

definition getSince :: "InternalClient \<Rightarrow> time_point" where
  "getSince c = hi_since (ic_hb_info c)"

definition login :: "UserId \<Rightarrow> InternalClient \<Rightarrow> InternalClient" where
  "login u c = c\<lparr>ic_logged_in := True, ic_user_id := u\<rparr>"

abbreviation isLoggedin :: "InternalClient \<Rightarrow> bool" where "isLoggedin \<equiv> ic_logged_in"
abbreviation getUserId :: "InternalClient \<Rightarrow> UserId" where "getUserId \<equiv> ic_user_id"
abbreviation getSeqNumber :: "InternalClient \<Rightarrow> u32" where "getSeqNumber \<equiv> ic_seq_num"
abbreviation shouldDisconnect :: "InternalClient \<Rightarrow> bool" where "shouldDisconnect \<equiv> ic_should_dc"

definition disconnect :: "InternalClient \<Rightarrow> InternalClient" where
  "disconnect c = c\<lparr>ic_user_id := [], ic_logged_in := False, ic_should_dc := False, ic_seq_num := 0\<rparr>"

definition set_shouldDisconnect :: "bool \<Rightarrow> InternalClient \<Rightarrow> InternalClient" where
  "set_shouldDisconnect b c = c\<lparr>ic_should_dc := b\<rparr>"

definition setSeqNumber :: "u32 \<Rightarrow> InternalClient \<Rightarrow> InternalClient" where
  "setSeqNumber n c = c\<lparr>ic_seq_num := n\<rparr>"

definition nextSeqNumber :: "InternalClient \<Rightarrow> InternalClient" where
  "nextSeqNumber c = c\<lparr>ic_seq_num := ic_seq_num c + 1\<rparr>"

section \<open>The client table\<close>

text \<open>
  \<open>cs_heap\<close> holds the client objects, \<open>cs_clients\<close> is \<^verbatim>\<open>m_clients\<close>. \<open>cs_onnew\<close> and \<open>cs_onremove\<close> are
  the tasks that \<^verbatim>\<open>newClientSocket\<close> and \<^verbatim>\<open>removeClient\<close> leave to their one-thread pools.
  \<open>cs_sent\<close> records the data handed to the sockets.
\<close>

record client_store = selector +
  cs_heap :: "cref \<Rightarrow> InternalClient"
  cs_next :: cref
  cs_clients :: "cref list"
  cs_onnew :: "cref list"
  cs_onremove :: "cref list"
  cs_sent :: "(sock \<times> string) list"

definition upd_client :: "cref \<Rightarrow> (InternalClient \<Rightarrow> InternalClient) \<Rightarrow> 'a client_store_scheme \<Rightarrow> 'a client_store_scheme" where
  "upd_client c f s = s\<lparr>cs_heap := (cs_heap s)(c := f (cs_heap s c))\<rparr>"

definition isConnected :: "cref \<Rightarrow> 'a client_store_scheme \<Rightarrow> bool" where
  "isConnected c s = (case ic_socket (cs_heap s c) of None \<Rightarrow> False | Some k \<Rightarrow> BaseSocket_isOpen k s)"

definition client_close :: "cref \<Rightarrow> 'a client_store_scheme \<Rightarrow> bool \<times> 'a client_store_scheme" where
  "client_close c s = (case ic_socket (cs_heap s c) of None \<Rightarrow> (False, s) | Some k \<Rightarrow> BaseSocket_close k s)"

text \<open>\<open>ok\<close> tells whether the kernel took the data. Sending without a socket is undefined: \<open>None\<close>.\<close>

definition client_send :: "bool \<Rightarrow> string \<Rightarrow> cref \<Rightarrow> 'a client_store_scheme \<Rightarrow> (bool \<times> 'a client_store_scheme) option" where
  "client_send ok d c s = (case ic_socket (cs_heap s c) of None \<Rightarrow> None
     | Some k \<Rightarrow> Some (ok, if ok then s\<lparr>cs_sent := cs_sent s @ [(k, d)]\<rparr> else s))"

definition client_eq :: "InternalClient \<Rightarrow> InternalClient \<Rightarrow> bool" where
  "client_eq a b \<longleftrightarrow> ic_socket a = ic_socket b \<and> ic_logged_in a = ic_logged_in b \<and> ic_user_id a = ic_user_id b"

definition newClientSocket :: "sock \<Rightarrow> 'a client_store_scheme \<Rightarrow> 'a client_store_scheme" where
  "newClientSocket k s = s\<lparr>cs_heap := (cs_heap s)(cs_next s := InternalClient_new (Some k)),
     cs_next := cs_next s + 1, cs_clients := cs_clients s @ [cs_next s], cs_onnew := cs_onnew s @ [cs_next s]\<rparr>"

definition findClient_socket :: "sock \<Rightarrow> 'a client_store_scheme \<Rightarrow> cref option" where
  "findClient_socket k s = find (\<lambda>c. ic_socket (cs_heap s c) = Some k) (cs_clients s)"

definition findClient :: "UserId \<Rightarrow> 'a client_store_scheme \<Rightarrow> cref option" where
  "findClient u s = find (\<lambda>c. getUserId (cs_heap s c) = u) (cs_clients s)"

text \<open>The part of \<^verbatim>\<open>removeClient\<close> the caller runs, and the task it leaves. Erasing a client that is
  no longer in the table is \<^verbatim>\<open>erase(end())\<close>, undefined: \<open>None\<close>.\<close>

definition removeClient :: "cref \<Rightarrow> 'a client_store_scheme \<Rightarrow> 'a client_store_scheme" where
  "removeClient c s = (let s1 = upd_client c (\<lambda>x. disconnect (set_shouldDisconnect True x)) s
     in s1\<lparr>cs_onremove := cs_onremove s1 @ [c]\<rparr>)"

definition remove_task :: "(cref \<Rightarrow> 'a client_store_scheme \<Rightarrow> 'a client_store_scheme) list \<Rightarrow> cref
    \<Rightarrow> 'a client_store_scheme \<Rightarrow> 'a client_store_scheme option" where
  "remove_task m_onremove c s = (if c \<in> set (cs_clients s)
     then Some (fold (\<lambda>cb. cb c) m_onremove (s\<lparr>cs_clients := remove1 c (cs_clients s)\<rparr>)) else None)"

definition new_task :: "(cref \<Rightarrow> 'a client_store_scheme \<Rightarrow> 'a client_store_scheme) list \<Rightarrow> cref
    \<Rightarrow> 'a client_store_scheme \<Rightarrow> 'a client_store_scheme" where
  "new_task m_onnew c s = fold (\<lambda>cb. cb c) m_onnew s"

definition Apply :: "(cref \<Rightarrow> 'a client_store_scheme \<Rightarrow> 'a client_store_scheme) \<Rightarrow> 'a client_store_scheme \<Rightarrow> 'a client_store_scheme" where
  "Apply cb s = fold cb (cs_clients s) s"

text \<open>The callbacks the units register: \<^verbatim>\<open>HeartBeatHandler\<close> on a new client, \<^verbatim>\<open>TCPInputNetwork\<close> on
  a removed one.\<close>

definition hb_onnew :: "time_point \<Rightarrow> cref \<Rightarrow> 'a client_store_scheme \<Rightarrow> 'a client_store_scheme" where
  "hb_onnew now c s = upd_client c (setSince now) s"

definition tcp_onremove :: "cref \<Rightarrow> 'a client_store_scheme \<Rightarrow> 'a client_store_scheme" where
  "tcp_onremove c s = (let s1 = snd (client_close c s) in
     case ic_socket (cs_heap s1 c) of None \<Rightarrow> s1 | Some k \<Rightarrow> Selector_erase k s1)"

section \<open>What the table keeps\<close>

text \<open>Every listed client is allocated, listed once, and a client that is not logged in has no name.\<close>

definition store_inv :: "'a client_store_scheme \<Rightarrow> bool" where
  "store_inv s \<longleftrightarrow> distinct (cs_clients s) \<and> (\<forall>c \<in> set (cs_clients s). c < cs_next s)
     \<and> (\<forall>c. \<not> isLoggedin (cs_heap s c) \<longrightarrow> getUserId (cs_heap s c) = [])"

lemma store_inv_new: "store_inv s \<Longrightarrow> store_inv (newClientSocket k s)"
  by (auto simp: store_inv_def newClientSocket_def InternalClient_new_def)

lemma store_inv_upd:
  "store_inv s \<Longrightarrow> (\<not> isLoggedin (f (cs_heap s c)) \<Longrightarrow> getUserId (f (cs_heap s c)) = []) \<Longrightarrow> store_inv (upd_client c f s)"
  by (auto simp: store_inv_def upd_client_def)

lemma store_inv_remove: "store_inv s \<Longrightarrow> store_inv (removeClient c s)"
  by (auto simp: store_inv_def removeClient_def upd_client_def disconnect_def Let_def)

lemma findClient_listed:
  "findClient u s = Some c \<Longrightarrow> c \<in> set (cs_clients s) \<and> getUserId (cs_heap s c) = u"
  unfolding findClient_def using find_Some_in by fastforce

lemma findClient_socket_listed:
  "findClient_socket k s = Some c \<Longrightarrow> c \<in> set (cs_clients s) \<and> ic_socket (cs_heap s c) = Some k"
  unfolding findClient_socket_def using find_Some_in by fastforce

lemma findClient_none: "findClient u s = None \<longleftrightarrow> (\<forall>c \<in> set (cs_clients s). getUserId (cs_heap s c) \<noteq> u)"
  by (auto simp: findClient_def find_None_iff)

end
