(* ===== verification/ServerNet.thy ===== *)
theory ServerNet
  imports Framing Clients Threads
begin

text \<open>
  The server state and its two network units: \<^verbatim>\<open>TCPInputNetwork\<close>, which accepts connections, reads
  and parses, and \<^verbatim>\<open>TcpOutputNetwork\<close>, which frames and sends. Each queue between two units is a
  component of the state.
\<close>

section \<open>The state\<close>

record UnparsedMessage =
  um_Client :: cref
  um_ReceiveTime :: time_point
  um_Header :: Header
  um_Message :: kvs

text \<open>A queued output: the code stores the text \<^verbatim>\<open>to_string\<close> gives; here the body itself is stored
  and written when it is sent.\<close>

record StringOutput =
  so_Client :: cref
  so_ReceiveTime :: time_point
  so_MessageType :: char
  so_Message :: FixMsg

record config =
  cf_ProviderName :: string
  cf_MaxTO :: f32
  cf_Market :: "string list"

record server = client_store +
  q_header :: "UnparsedMessage ts_queue"
  q_router :: "UnparsedMessage ts_queue"
  q_logon :: "UnparsedMessage ts_queue"
  q_logout :: "UnparsedMessage ts_queue"
  q_heartbeat :: "UnparsedMessage ts_queue"
  q_market :: "UnparsedMessage ts_queue"
  q_output :: "StringOutput ts_queue"

text \<open>\<^verbatim>\<open>m_error.append(...)\<close> and \<^verbatim>\<open>m_tcp_output.append(...)\<close>.\<close>

definition append_output :: "cref \<Rightarrow> time_point \<Rightarrow> FixMsg \<Rightarrow> 'a server_scheme \<Rightarrow> 'a server_scheme" where
  "append_output c t m s = s\<lparr>q_output := ts_push \<lparr>so_Client = c, so_ReceiveTime = t,
     so_MessageType = Msg_type m, so_Message = m\<rparr> (q_output s)\<rparr>"

section \<open>Input\<close>

definition buildHeader :: "fixlib \<Rightarrow> time_point \<Rightarrow> cref \<Rightarrow> string \<Rightarrow> 'a server_scheme \<Rightarrow> 'a server_scheme option" where
  "buildHeader lib now c d s = (case parse_data lib (getSeqNumber (cs_heap s c)) d of
       PR_message h m \<Rightarrow> Some (s\<lparr>q_header := ts_push
         \<lparr>um_Client = c, um_ReceiveTime = now, um_Header = h, um_Message = m\<rparr> (q_header s)\<rparr>)
     | PR_reject r \<Rightarrow> Some (append_output c now (M_SessionReject r) s)
     | PR_throw \<Rightarrow> None)"

text \<open>\<open>receive(2048, error)\<close> gives the number of bytes, 0 at the end of the stream or -1, and the data.\<close>

definition process :: "fixlib \<Rightarrow> time_point \<Rightarrow> int \<times> string \<Rightarrow> cref \<Rightarrow> 'a server_scheme \<Rightarrow> (bool \<times> 'a server_scheme) option" where
  "process lib now recv c s =
     (if \<not> isConnected c s then Some (True, s)
      else case recv of (error, d) \<Rightarrow>
        if error = 0 then Some (True, s)
        else if error < 0 then Some (True, s)
        else let s1 = (if isLoggedin (cs_heap s c) then upd_client c nextSeqNumber s else s)
             in map_option (Pair False) (buildHeader lib now c d s1))"

definition input_accept :: "int \<Rightarrow> 'a server_scheme \<Rightarrow> 'a server_scheme" where
  "input_accept fd s = (case Acceptor_accept fd s of
       (None, s1) \<Rightarrow> s1
     | (Some k, s1) \<Rightarrow> snd (Selector_client k (newClientSocket k s1)))"

definition input_event :: "fixlib \<Rightarrow> time_point \<Rightarrow> sock \<times> int \<times> string \<Rightarrow> 'a server_scheme \<Rightarrow> 'a server_scheme option" where
  "input_event lib now ev s = (case ev of (k, recv) \<Rightarrow>
     case findClient_socket k s of
       None \<Rightarrow> Some (snd (BaseSocket_close k (Selector_erase k s)))
     | Some c \<Rightarrow> (case process lib now recv c s of
           None \<Rightarrow> None
         | Some (True, s1) \<Rightarrow> Some (removeClient c s1)
         | Some (False, s1) \<Rightarrow> Some s1))"

fun input_events :: "fixlib \<Rightarrow> time_point \<Rightarrow> (sock \<times> int \<times> string) list \<Rightarrow> 'a server_scheme \<Rightarrow> 'a server_scheme option" where
  "input_events lib now [] s = Some s"
| "input_events lib now (e # es) s = (case input_event lib now e s of
       None \<Rightarrow> None | Some s1 \<Rightarrow> input_events lib now es s1)"

text \<open>
  One round of \<^verbatim>\<open>TCPInputNetwork::runtime\<close>: \<open>accepted\<close> is what the kernel's accept gives, \<open>ready\<close>
  the descriptors epoll reports with what reading each gives. \<open>None\<close>: the unit's thread ends
  with an exception.
\<close>

definition input_round :: "fixlib \<Rightarrow> time_point \<Rightarrow> int \<Rightarrow> (int \<times> int \<times> string) list \<Rightarrow> 'a server_scheme \<Rightarrow> 'a server_scheme option" where
  "input_round lib now accepted ready s =
     (let s1 = input_accept accepted s in
      case Selector_pull (map fst ready) s1 of
        None \<Rightarrow> None
      | Some clients \<Rightarrow> input_events lib now (zip clients (map snd ready)) s1)"

section \<open>Output\<close>

definition output_header :: "config \<Rightarrow> fixlib \<Rightarrow> time_point \<Rightarrow> StringOutput \<Rightarrow> InternalClient \<Rightarrow> Header" where
  "output_header cf lib now i c = Header_init\<lparr>h_BeginString := ''FIX.4.2'',
     h_BodyLength := word_of_nat (length (fl_to_string lib (so_Message i))), h_MsgType := so_MessageType i,
     h_MsgSeqNum := getSeqNumber c, h_SenderCompId := cf_ProviderName cf,
     h_TargetCompId := getUserId c, h_SendingTime := now\<rparr>"

text \<open>The task \<^verbatim>\<open>TcpOutputNetwork::onInput\<close> leaves to its pool; \<open>ok\<close>: the kernel takes the data.\<close>

definition output_task :: "config \<Rightarrow> fixlib \<Rightarrow> time_point \<Rightarrow> bool \<Rightarrow> StringOutput \<Rightarrow> 'a server_scheme \<Rightarrow> 'a server_scheme option" where
  "output_task cf lib now ok i s =
     (let c = so_Client i;
          s1 = (if \<not> isLoggedin (cs_heap s c) then upd_client c nextSeqNumber s else s);
          header = output_header cf lib now i (cs_heap s1 c);
          s2 = upd_client c nextSeqNumber s1;
          data = AddCheckSum (fl_header_string lib header @ fl_to_string lib (so_Message i))
      in if isConnected c s2 then
           (case client_send ok data c s2 of
              None \<Rightarrow> None
            | Some (sent, s3) \<Rightarrow>
                let s4 = (if \<not> sent then removeClient c s3 else s3)
                in Some (if shouldDisconnect (cs_heap s4 c)
                         then removeClient c (snd (client_close c s4)) else s4))
         else Some (removeClient c s2))"

section \<open>The pool of \<^verbatim>\<open>ClientStore\<close>\<close>

definition run_onremove :: "'a server_scheme \<Rightarrow> 'a server_scheme option" where
  "run_onremove s = (case cs_onremove s of [] \<Rightarrow> Some s
     | c # rest \<Rightarrow> remove_task [tcp_onremove] c (s\<lparr>cs_onremove := rest\<rparr>))"

definition run_onnew :: "time_point \<Rightarrow> 'a server_scheme \<Rightarrow> 'a server_scheme" where
  "run_onnew now s = (case cs_onnew s of [] \<Rightarrow> s
     | c # rest \<Rightarrow> new_task [hb_onnew now] c (s\<lparr>cs_onnew := rest\<rparr>))"

end
