(* ===== verification/ServerSession.thy ===== *)
theory ServerSession
  imports ServerNet
begin

text \<open>
  The session units of the server: \<^verbatim>\<open>HeaderValidation\<close>, \<^verbatim>\<open>Router\<close>, \<^verbatim>\<open>LogonHandler\<close>,
  \<^verbatim>\<open>LogoutHandler\<close> and \<^verbatim>\<open>HeartBeatHandler\<close>. Each handler is the whole \<^verbatim>\<open>onInput\<close>; the handlers
  that hand their work to a pool of one thread are the task itself, which the pool runs in the
  order of arrival (theory Threads).
\<close>

section \<open>Header validation\<close>

definition ref_reject :: "Header \<Rightarrow> SessionReject" where
  "ref_reject h = SessionReject_init\<lparr>sr_RefSeqNum := h_MsgSeqNum h, sr_RefMsgType := Some (h_MsgType h)\<rparr>"

definition supported_types :: "char list" where
  "supported_types = [MT_HeartBeat, MT_TestRequest, MT_SessionReject, MT_Logout, MT_ExecutionReport,
     MT_BusinessReject, MT_Logon, MT_NewOrderSingle, MT_OrderCancelRequest]"

definition verifyPositionValue :: "Header \<Rightarrow> SessionReject option" where
  "verifyPositionValue h =
     (if h_BeginString h \<noteq> ''FIX.4.2'' then Some ((ref_reject h)\<lparr>
        sr_SessionRejectReason := Some RS_ValueOutOfRange, sr_RefTagId := Some tag_BeginString,
        sr_Text := Some ''Incorrect begin string. Expected FIX.4.2''\<rparr>)
      else if h_MsgType h \<in> set supported_types then None
      else Some ((ref_reject h)\<lparr>
        sr_SessionRejectReason := Some RS_InvalidMsgType, sr_RefTagId := Some tag_MsgType,
        sr_Text := Some ''Not supported message type''\<rparr>))"

definition verifyUserSpecific :: "config \<Rightarrow> Header \<Rightarrow> InternalClient \<Rightarrow> SessionReject option" where
  "verifyUserSpecific cf h c =
     (let bad = (\<lambda>tag text. Some ((ref_reject h)\<lparr>sr_SessionRejectReason := Some RS_ValueOutOfRange,
            sr_RefTagId := Some tag, sr_Text := Some text\<rparr>)) in
      if h_TargetCompId h \<noteq> cf_ProviderName cf then bad tag_TargetCompId ''Incorrect target Id''
      else if isLoggedin c then
        if h_SenderCompId h \<noteq> getUserId c then bad tag_SenderCompId ''Incorrect sender Id''
        else if h_MsgSeqNum h \<noteq> getSeqNumber c - 1 then bad tag_MsgSeqNum ''Inccorect message sequence number''
        else None
      else None)"

definition header_onInput :: "config \<Rightarrow> UnparsedMessage \<Rightarrow> 'a server_scheme \<Rightarrow> 'a server_scheme" where
  "header_onInput cf i s = (case verifyPositionValue (um_Header i) of
       Some r \<Rightarrow> append_output (um_Client i) (um_ReceiveTime i) (M_SessionReject r) s
     | None \<Rightarrow> (case verifyUserSpecific cf (um_Header i) (cs_heap s (um_Client i)) of
         Some r \<Rightarrow> append_output (um_Client i) (um_ReceiveTime i) (M_SessionReject r) s
       | None \<Rightarrow> s\<lparr>q_router := ts_push i (q_router s)\<rparr>))"

section \<open>The router\<close>

definition treatUnknown :: "UnparsedMessage \<Rightarrow> 'a server_scheme \<Rightarrow> 'a server_scheme" where
  "treatUnknown i s = append_output (um_Client i) (um_ReceiveTime i) (M_SessionReject (SessionReject_init\<lparr>
     sr_RefSeqNum := h_MsgSeqNum (um_Header i), sr_RefTagId := Some tag_MsgType,
     sr_SessionRejectReason := Some RS_ValueOutOfRange, sr_Text := Some ''Unknown message type''\<rparr>)) s"

definition treatRequireLogin :: "UnparsedMessage \<Rightarrow> 'a server_scheme \<Rightarrow> 'a server_scheme" where
  "treatRequireLogin i s = append_output (um_Client i) (um_ReceiveTime i) (M_SessionReject (SessionReject_init\<lparr>
     sr_RefSeqNum := h_MsgSeqNum (um_Header i), sr_RefTagId := Some tag_MsgType,
     sr_SessionRejectReason := Some RS_ValueOutOfRange,
     sr_Text := Some ''Accesing login required features will not logged in''\<rparr>)) s"

text \<open>\<open>treatReject\<close> only logs.\<close>

definition router_onInput :: "UnparsedMessage \<Rightarrow> 'a server_scheme \<Rightarrow> 'a server_scheme" where
  "router_onInput i s = (let ty = h_MsgType (um_Header i) in
     if ty = MT_Logon then s\<lparr>q_logon := ts_push i (q_logon s)\<rparr>
     else if isLoggedin (cs_heap s (um_Client i)) then
       if ty = MT_TestRequest \<or> ty = MT_HeartBeat then s\<lparr>q_heartbeat := ts_push i (q_heartbeat s)\<rparr>
       else if ty = MT_Logout then s\<lparr>q_logout := ts_push i (q_logout s)\<rparr>
       else if ty = MT_NewOrderSingle \<or> ty = MT_OrderCancelRequest then s\<lparr>q_market := ts_push i (q_market s)\<rparr>
       else if ty = MT_SessionReject then s
       else treatUnknown i s
     else treatRequireLogin i s)"

section \<open>Logon and logout\<close>

text \<open>The conversion of a \<^verbatim>\<open>float\<close> to \<^verbatim>\<open>uint32_t\<close> truncates; out of range it is undefined.\<close>

definition u32_of_f32 :: "f32 \<Rightarrow> u32 option" where
  "u32_of_f32 x = (case x of
       FFin neg m \<Rightarrow> let n = m div f32_unit in
         if (neg \<and> n > 0) \<or> 2 ^ 32 \<le> n then None else Some (word_of_nat n)
     | _ \<Rightarrow> None)"

definition heartbeat_interval :: "config \<Rightarrow> u32 \<Rightarrow> u32 option" where
  "heartbeat_interval cf n = u32_of_f32 (std_max (f32_of_int 1) (std_min (cf_MaxTO cf) (f32_of_int (uint n))))"

definition logon_verify :: "Logon \<Rightarrow> UnparsedMessage \<Rightarrow> 'a server_scheme \<Rightarrow> bool \<times> 'a server_scheme" where
  "logon_verify m i s = (if lg_EncryptMethod m \<noteq> EM_None
     then (False, append_output (um_Client i) (um_ReceiveTime i) (M_SessionReject
       ((ref_reject (um_Header i))\<lparr>sr_Text := Some ''Encryption method not supported''\<rparr>)) s)
     else (True, s))"

definition do_login :: "time_point \<Rightarrow> UnparsedMessage \<Rightarrow> u32 \<Rightarrow> InternalClient \<Rightarrow> InternalClient" where
  "do_login now i elapsing c = (let c1 = setSince now
       (setSeqNumber (h_MsgSeqNum (um_Header i) + 1) (login (h_SenderCompId (um_Header i)) c))
     in c1\<lparr>ic_hb_info := (ic_hb_info c1)\<lparr>hi_Elapsing := elapsing\<rparr>\<rparr>)"

definition logon_onInput :: "fixlib \<Rightarrow> config \<Rightarrow> time_point \<Rightarrow> UnparsedMessage \<Rightarrow> 'a server_scheme \<Rightarrow> 'a server_scheme option" where
  "logon_onInput lib cf now i s =
     (let c = um_Client i; t = um_ReceiveTime i in
      case parseMessage lib MT_Logon (fl_Logon lib) (um_Message i) (um_Header i) of
        Inl r \<Rightarrow> Some (append_output c t (M_SessionReject r) s)
      | Inr m \<Rightarrow> (case logon_verify m i s of
          (False, s1) \<Rightarrow> Some s1
        | (True, s1) \<Rightarrow>
            if isLoggedin (cs_heap s1 c) then
              Some (append_output c t (M_SessionReject ((ref_reject (um_Header i))\<lparr>
                sr_SessionRejectReason := Some RS_InvalidMsgType, sr_Text := Some ''User is already logged in''\<rparr>)) s1)
            else (case heartbeat_interval cf (lg_HeartBtInt m) of
                None \<Rightarrow> None
              | Some e \<Rightarrow> Some (append_output c t (M_Logon (Logon_init\<lparr>lg_EncryptMethod := EM_None, lg_HeartBtInt := e\<rparr>))
                  (upd_client c (do_login now i e) s1)))))"

definition logout_onInput :: "fixlib \<Rightarrow> UnparsedMessage \<Rightarrow> 'a server_scheme \<Rightarrow> 'a server_scheme" where
  "logout_onInput lib i s = (let c = um_Client i; t = um_ReceiveTime i in
     case parseMessage lib MT_Logout (fl_Logout lib) (um_Message i) (um_Header i) of
       Inl r \<Rightarrow> append_output c t (M_SessionReject r) s
     | Inr _ \<Rightarrow> append_output c t M_Logout (upd_client c (set_shouldDisconnect True) s))"

section \<open>Heartbeats\<close>

text \<open>Both rejects assign \<^verbatim>\<open>RefTagId\<close> twice, last to the message type, and never \<^verbatim>\<open>RefSeqNum\<close>.\<close>

definition heartbeat_reject :: "RejectReasonSession \<Rightarrow> string \<Rightarrow> SessionReject" where
  "heartbeat_reject r text = SessionReject_init\<lparr>sr_RefTagId := Some (of_char MT_SessionReject),
     sr_SessionRejectReason := Some r, sr_Text := Some text\<rparr>"

definition heartbeat_reply :: "UnparsedMessage \<Rightarrow> 'a server_scheme \<Rightarrow> 'a server_scheme" where
  "heartbeat_reply i s = append_output (um_Client i) (um_ReceiveTime i) (M_HeartBeat HeartBeat_init)
     (upd_client (um_Client i) (setSince (um_ReceiveTime i)) s)"

definition clear_test :: "InternalClient \<Rightarrow> InternalClient" where
  "clear_test c = c\<lparr>ic_hb_info := (ic_hb_info c)\<lparr>hi_TestRequest := False, hi_TestValue := None\<rparr>\<rparr>"

definition processHeartBeat :: "fixlib \<Rightarrow> UnparsedMessage \<Rightarrow> 'a server_scheme \<Rightarrow> 'a server_scheme" where
  "processHeartBeat lib i s = (let c = um_Client i; t = um_ReceiveTime i in
     case parseMessage lib MT_HeartBeat (fl_HeartBeat lib) (um_Message i) (um_Header i) of
       Inl r \<Rightarrow> append_output c t (M_SessionReject r) s
     | Inr m \<Rightarrow> (let hb = ic_hb_info (cs_heap s c) in
         if hi_TestRequest hb then
           (case hi_TestValue hb of
              None \<Rightarrow> s
            | Some v \<Rightarrow> (case hb_TestReqId m of
                None \<Rightarrow> append_output c t (M_SessionReject
                  (heartbeat_reject RS_RequiredTagMissing ''Missing Test request Id'')) s
              | Some w \<Rightarrow>
                  if v \<noteq> w then append_output c t (M_SessionReject
                    (heartbeat_reject RS_ValueOutOfRange ''Incorrect Test Value'')) s
                  else heartbeat_reply i (upd_client c clear_test s)))
         else heartbeat_reply i s))"

definition processTestRequest :: "fixlib \<Rightarrow> UnparsedMessage \<Rightarrow> 'a server_scheme \<Rightarrow> 'a server_scheme" where
  "processTestRequest lib i s = (let c = um_Client i; t = um_ReceiveTime i in
     case parseMessage lib MT_TestRequest (fl_TestRequest lib) (um_Message i) (um_Header i) of
       Inl r \<Rightarrow> append_output c t (M_SessionReject r) s
     | Inr m \<Rightarrow> append_output c t (M_HeartBeat (HeartBeat_init\<lparr>hb_TestReqId := Some (tr_TestReqId m)\<rparr>)) s)"

definition heartbeat_onInput :: "fixlib \<Rightarrow> UnparsedMessage \<Rightarrow> 'a server_scheme \<Rightarrow> 'a server_scheme" where
  "heartbeat_onInput lib i s = (let ty = h_MsgType (um_Header i) in
     if ty = MT_TestRequest then processTestRequest lib i s
     else if ty = MT_HeartBeat then processHeartBeat lib i s
     else s)"

text \<open>
  The monitoring thread: one scan of the table at time \<open>now\<close>. \<open>fmt\<close> is the text of a time as
  \<^verbatim>\<open>std::format\<close> writes it.
\<close>

definition nanos :: int where "nanos = 1000000000"

definition overdue :: "time_point \<Rightarrow> InternalClient \<Rightarrow> bool" where
  "overdue now c \<longleftrightarrow> now - getSince c > uint (hi_Elapsing (ic_hb_info c)) * nanos"

definition send_test :: "(time_point \<Rightarrow> string) \<Rightarrow> time_point \<Rightarrow> InternalClient \<Rightarrow> InternalClient" where
  "send_test fmt now c = (let c1 = setSince now c in
     c1\<lparr>ic_hb_info := (ic_hb_info c1)\<lparr>hi_TestRequest := True, hi_TestValue := Some (fmt now)\<rparr>\<rparr>)"

definition monitor_client :: "(time_point \<Rightarrow> string) \<Rightarrow> time_point \<Rightarrow> cref \<Rightarrow> 'a server_scheme \<Rightarrow> 'a server_scheme" where
  "monitor_client fmt now c s = (let x = cs_heap s c in
     if shouldDisconnect x \<or> \<not> isLoggedin x then s
     else if overdue now x then
       if \<not> hi_TestRequest (ic_hb_info x) then
         append_output c now (M_TestRequest (TestRequest_init\<lparr>tr_TestReqId := fmt now\<rparr>)) (upd_client c (send_test fmt now) s)
       else removeClient c s
     else s)"

definition monitor_scan :: "(time_point \<Rightarrow> string) \<Rightarrow> time_point \<Rightarrow> 'a server_scheme \<Rightarrow> 'a server_scheme" where
  "monitor_scan fmt now s = Apply (monitor_client fmt now) s"

section \<open>The text of a time\<close>

text \<open>\<^verbatim>\<open>std::format("{:%Y-%m-%d %H:%M:%S}", floor<seconds>(t))\<close> in the proleptic Gregorian calendar.\<close>

definition pad2 :: "nat \<Rightarrow> string" where
  "pad2 n = (if n < 10 then ''0'' @ dec_string n else dec_string n)"

definition pad4 :: "nat \<Rightarrow> string" where
  "pad4 n = replicate (4 - length (dec_string n)) (CHR ''0'') @ dec_string n"

definition civil_of_days :: "int \<Rightarrow> int \<times> int \<times> int" where
  "civil_of_days days = (let z = days + 719468; era = z div 146097; doe = z - era * 146097;
       yoe = (doe - doe div 1460 + doe div 36524 - doe div 146096) div 365;
       doy = doe - (365 * yoe + yoe div 4 - yoe div 100); mp = (5 * doy + 2) div 153;
       d = doy - (153 * mp + 2) div 5 + 1; m = (if mp < 10 then mp + 3 else mp - 9);
       y = yoe + era * 400 + (if m \<le> 2 then 1 else 0)
     in (y, m, d))"

definition format_time :: "time_point \<Rightarrow> string" where
  "format_time t = (let sec = t div nanos; (y, m, d) = civil_of_days (sec div 86400); r = sec mod 86400
     in (if y < 0 then ''-'' else []) @ pad4 (nat \<bar>y\<bar>) @ ''-'' @ pad2 (nat m) @ ''-'' @ pad2 (nat d) @ '' '' @
        pad2 (nat (r div 3600)) @ '':'' @ pad2 (nat (r mod 3600 div 60)) @ '':'' @ pad2 (nat (r mod 60)))"

end
