(* ===== verification/PriceLadder.thy ===== *)
theory PriceLadder
  imports FixTypes
begin

text \<open>
  \<^verbatim>\<open>std::map<Price, OrderList, Compare>\<close>, the container of \<^verbatim>\<open>AskBook\<close> (\<^verbatim>\<open>std::less\<close>) and \<^verbatim>\<open>BidBook\<close>
  (\<^verbatim>\<open>std::greater\<close>) in \<^verbatim>\<open>server/include/Server/OrderBook.hpp\<close>: the levels in key order, searched
  as the standard defines \<^verbatim>\<open>lower_bound\<close>, keys equal when neither is before the other. The
  interface between the order book and its container is the locale \<open>price_order\<close>, interpreted
  on both comparators.
\<close>

type_synonym 'v ladder = "(Price \<times> 'v) list"

text \<open>\<^verbatim>\<open>find(p)\<close>: skip the keys before \<open>p\<close>; the next key is \<open>p\<close>'s unless \<open>p\<close> is before it.\<close>

fun ladder_find :: "(Price \<Rightarrow> Price \<Rightarrow> bool) \<Rightarrow> Price \<Rightarrow> 'v ladder \<Rightarrow> 'v option" where
  "ladder_find lt p [] = None"
| "ladder_find lt p ((k, v) # b) =
     (if lt k p then ladder_find lt p b else if lt p k then None else Some v)"

text \<open>\<^verbatim>\<open>operator[](p)\<close> followed by an update \<open>f\<close> of the value, which is \<open>d\<close> when the key is new.\<close>

fun ladder_upd :: "(Price \<Rightarrow> Price \<Rightarrow> bool) \<Rightarrow> Price \<Rightarrow> ('v \<Rightarrow> 'v) \<Rightarrow> 'v \<Rightarrow> 'v ladder \<Rightarrow> 'v ladder" where
  "ladder_upd lt p f d [] = [(p, f d)]"
| "ladder_upd lt p f d ((k, v) # b) =
     (if lt k p then (k, v) # ladder_upd lt p f d b
      else if lt p k then (p, f d) # (k, v) # b else (k, f v) # b)"

definition ladder_sorted :: "(Price \<Rightarrow> Price \<Rightarrow> bool) \<Rightarrow> 'v ladder \<Rightarrow> bool" where
  "ladder_sorted lt b \<longleftrightarrow> sorted_wrt lt (map fst b)"

definition ladder_values :: "'v ladder \<Rightarrow> 'v list" where
  "ladder_values b = map snd b"

lemma ladder_sorted_Nil [simp]: "ladder_sorted lt []"
  by (simp add: ladder_sorted_def)

lemma ladder_sorted_Cons [simp]:
  "ladder_sorted lt ((k, v) # b) \<longleftrightarrow> (\<forall>q \<in> fst ` set b. lt k q) \<and> ladder_sorted lt b"
  by (auto simp: ladder_sorted_def)

lemma ladder_sorted_keys: "map fst b = map fst c \<Longrightarrow> ladder_sorted lt b = ladder_sorted lt c"
  by (simp add: ladder_sorted_def)

lemma ladder_keys_upd: "fst ` set (ladder_upd lt p f d b) \<subseteq> insert p (fst ` set b)"
proof (induction b)
  case (Cons e b)
  then show ?case by (cases e) (auto simp del: image_subset_iff subset_insert_iff)
qed simp

lemma ladder_find_in: "ladder_find lt p b = Some v \<Longrightarrow> \<exists>k. (k, v) \<in> set b \<and> \<not> lt k p \<and> \<not> lt p k"
  by (induction b) (auto split: if_splits)

text \<open>The order a comparator gives: strict, and equal keys are interchangeable in it.\<close>

locale price_order =
  fixes lt :: "Price \<Rightarrow> Price \<Rightarrow> bool"
  assumes irrefl: "\<not> lt p p"
    and trans: "lt p q \<Longrightarrow> lt q r \<Longrightarrow> lt p r"
    and equiv_left: "p \<noteq> FNaN \<Longrightarrow> q \<noteq> FNaN \<Longrightarrow> \<not> lt p q \<Longrightarrow> \<not> lt q p \<Longrightarrow> lt p r \<longleftrightarrow> lt q r"
begin

lemma sorted_upd: "ladder_sorted lt b \<Longrightarrow> ladder_sorted lt (ladder_upd lt p f d b)"
proof (induction b)
  case (Cons e b)
  obtain k v where e: "e = (k, v)" by (cases e)
  have sub: "fst ` set (ladder_upd lt p f d b) \<subseteq> insert p (fst ` set b)"
    by (rule ladder_keys_upd)
  show ?case
  proof (cases "lt k p")
    case True
    have "\<forall>q \<in> fst ` set (ladder_upd lt p f d b). lt k q"
      using sub Cons.prems True unfolding e ladder_sorted_Cons by blast
    with Cons True show ?thesis by (simp add: e)
  next
    case False
    with Cons.prems show ?thesis by (auto simp: e intro: trans)
  qed
qed simp

lemma upd_keys: "ladder_find lt p b = Some v \<Longrightarrow> map fst (ladder_upd lt p f d b) = map fst b"
  by (induction b) (auto split: if_splits)

lemma find_member:
  "ladder_sorted lt b \<Longrightarrow> (k, v) \<in> set b \<Longrightarrow> ladder_find lt k b = Some v"
proof (induction b)
  case (Cons e b)
  obtain k' v' where e: "e = (k', v')" by (cases e)
  show ?case
  proof (cases "(k, v) = e")
    case False
    with Cons.prems have "(k, v) \<in> set b" by simp
    with Cons e have "lt k' k" "ladder_find lt k b = Some v" by force+
    then show ?thesis by (simp add: e)
  qed (simp add: e irrefl)
qed simp

lemma find_upd_same: "ladder_find lt p (ladder_upd lt p f d b)
    = Some (f (case ladder_find lt p b of None \<Rightarrow> d | Some v \<Rightarrow> v))"
  by (induction b) (auto simp: irrefl)

lemma find_equiv:
  assumes "p \<noteq> FNaN" "q \<noteq> FNaN" "\<not> lt p q" "\<not> lt q p" and "\<forall>k \<in> fst ` set b. k \<noteq> FNaN"
  shows "ladder_find lt p b = ladder_find lt q b"
  using assms(5)
proof (induction b)
  case (Cons e b)
  obtain k v where e: "e = (k, v)" by (cases e)
  have k: "k \<noteq> FNaN" using Cons.prems by (simp add: e)
  have 1: "lt p k \<longleftrightarrow> lt q k" by (rule equiv_left) (use assms in auto)
  have 2: "lt k p \<longleftrightarrow> lt k q"
  proof (cases "lt k p \<or> lt k q")
    case True
    then show ?thesis
      by (metis 1 assms(1-4) equiv_left k trans irrefl)
  qed simp
  from Cons 1 2 show ?case by (simp add: e)
qed simp

lemma find_upd_other:
  assumes "lt p q \<or> lt q p" "p \<noteq> FNaN" "q \<noteq> FNaN" and "\<forall>k \<in> fst ` set b. k \<noteq> FNaN"
  shows "ladder_find lt q (ladder_upd lt p f d b) = ladder_find lt q b"
  using assms(4)
proof (induction b)
  case Nil
  then show ?case using assms(1) by auto
next
  case (Cons e b)
  obtain k v where e: "e = (k, v)" by (cases e)
  have k: "k \<noteq> FNaN" using Cons.prems by (simp add: e)
  have eq: "\<not> lt p k \<Longrightarrow> \<not> lt k p \<Longrightarrow> (lt p q \<longleftrightarrow> lt k q)" for q
    by (rule equiv_left) (use assms(2) k in auto)
  have "lt p k \<Longrightarrow> lt k q \<Longrightarrow> lt p q" "lt q p \<Longrightarrow> lt p k \<Longrightarrow> lt q k" "lt k q \<Longrightarrow> lt q p \<Longrightarrow> lt k p"
    by (blast intro: trans)+
  moreover have "\<not> lt p k \<Longrightarrow> \<not> lt k p \<Longrightarrow> lt k q \<or> lt q k"
    using assms(1) eq[of q] trans[of q p k] by (metis assms(2,3) equiv_left k trans irrefl)
  ultimately show ?case using Cons assms(1) by (auto simp: e)
qed

lemma first_best: "ladder_sorted lt ((k, v) # b) \<Longrightarrow> q \<in> fst ` set b \<Longrightarrow> lt k q"
  by auto

end

text \<open>The ask book: lowest price first. The bid book: highest price first.\<close>

definition fgt :: "Price \<Rightarrow> Price \<Rightarrow> bool" where
  "fgt x y \<longleftrightarrow> flt y x"

lemma flt_equiv_left:
  assumes "p \<noteq> FNaN" "q \<noteq> FNaN" "\<not> flt p q" "\<not> flt q p"
  shows "flt p r \<longleftrightarrow> flt q r"
  using assms flt_total[of p q] feq_flt_left by blast

lemma fgt_equiv_left:
  assumes "p \<noteq> FNaN" "q \<noteq> FNaN" "\<not> fgt p q" "\<not> fgt q p"
  shows "fgt p r \<longleftrightarrow> fgt q r"
  using assms flt_total[of p q] feq_flt_right unfolding fgt_def by blast

interpretation ask: price_order flt
  by unfold_locales (auto intro: flt_trans dest: flt_equiv_left)

interpretation bid: price_order fgt
  by unfold_locales (auto simp: fgt_def intro: flt_trans dest: fgt_equiv_left[unfolded fgt_def])

end
