(* ===== verification/OrderBook.thy ===== *)
theory OrderBook
  imports PriceLadder
begin

text \<open>
  The matching engine of one market: \<^verbatim>\<open>class OrderBook\<close> of \<^verbatim>\<open>server/include/Server/OrderBook.hpp\<close>,
  \<^verbatim>\<open>OrderBook.inl\<close> and \<^verbatim>\<open>server/src/OrderBook.cpp\<close>, one definition per member function.

  A list node of \<^verbatim>\<open>std::list<Order>\<close> has an address that its iterators carry; the id maps hold
  such iterators, so an address names the node until it is erased. Twice the code reads an
  object it has just destroyed (\<^verbatim>\<open>order.orderId\<close> after \<^verbatim>\<open>_list.erase(iterator)\<close>, and the
  \<^verbatim>\<open>OrderIdInfo\<close> reference after its map entry is erased). C++ leaves such a read undefined;
  what it yields is the parameter \<open>dangling\<close>. The reads happen to work when the storage still
  holds the old contents (\<open>reads_stale\<close>).
\<close>

section \<open>State\<close>

datatype TickDirection = PlusTick | ZeroPlusTick | MinusTick | ZeroMinusTick

datatype FillStatus = FS_Filled | FS_PartialyFilled | FS_Skipped

type_synonym node = nat
type_synonym OrderList = "(node \<times> Order) list"
type_synonym book = "OrderList ladder"

record OrderInfo =
  oi_execid :: ExecId
  oi_price :: Price
  oi_order :: Order

record OrderIdInfo =
  ii_Order :: node
  ii_price :: Price

record Event =
  ev_execStatus :: ExecutionStatus
  ev_lastPrice :: Price
  ev_lastQty :: Quantity
  ev_order :: Order

type_synonym OrderIdMap = "OrderId \<rightharpoonup> OrderIdInfo"

record order_book =
  m_name :: string
  m_lastprice :: Price
  m_lastprice_diff :: Price
  m_tick :: TickDirection
  m_event_output :: "Event list"
  m_bid_id :: OrderIdMap
  m_ask_id :: OrderIdMap
  m_bid_readers :: nat \<comment> \<open>shared owners of \<^verbatim>\<open>m_bid_id.Mutex\<close>\<close>
  m_ask_readers :: nat
  m_ask_book :: book
  m_bid_book :: book
  m_next_node :: node \<comment> \<open>the address the next list node gets\<close>

record dangling =
  dg_orderId :: "Order \<Rightarrow> OrderId" \<comment> \<open>what reading \<^verbatim>\<open>orderId\<close> of a destroyed order yields\<close>
  dg_info :: "OrderIdInfo \<Rightarrow> OrderIdInfo" \<comment> \<open>what reading a destroyed map entry yields\<close>

definition reads_stale :: "dangling \<Rightarrow> bool" where
  "reads_stale dg \<longleftrightarrow> (\<forall>o'. dg_orderId dg o' = o_orderId o') \<and> (\<forall>i. dg_info dg i = i)"

text \<open>How an operation can end otherwise than by returning.\<close>

datatype ob_error =
    OB_runtime_error string \<comment> \<open>\<^verbatim>\<open>throw std::runtime_error\<close>\<close>
  | OB_out_of_range \<comment> \<open>\<^verbatim>\<open>at\<close> with a missing key\<close>
  | OB_no_return \<comment> \<open>undefined: \<^verbatim>\<open>getOrderIdInfo\<close> falls off its end\<close>
  | OB_bad_iterator \<comment> \<open>undefined: an iterator that is not into the list\<close>

definition OrderBook_init :: "string \<Rightarrow> order_book" where
  "OrderBook_init name = \<lparr>m_name = name, m_lastprice = fzero, m_lastprice_diff = fzero,
     m_tick = ZeroPlusTick, m_event_output = [], m_bid_id = Map.empty, m_ask_id = Map.empty,
     m_bid_readers = 0, m_ask_readers = 0, m_ask_book = [], m_bid_book = [], m_next_node = 0\<rparr>"

section \<open>The two sides\<close>

text \<open>
  The member templates take a book and its id map by reference; a \<open>book_side\<close> says which pair
  the call passes.
\<close>

datatype book_side = BidSide | AskSide

fun other :: "book_side \<Rightarrow> book_side" where
  "other BidSide = AskSide"
| "other AskSide = BidSide"

fun book_lt :: "book_side \<Rightarrow> Price \<Rightarrow> Price \<Rightarrow> bool" where
  "book_lt AskSide = flt"
| "book_lt BidSide = fgt"

fun book_of :: "book_side \<Rightarrow> order_book \<Rightarrow> book" where
  "book_of AskSide ob = m_ask_book ob"
| "book_of BidSide ob = m_bid_book ob"

fun set_book :: "book_side \<Rightarrow> book \<Rightarrow> order_book \<Rightarrow> order_book" where
  "set_book AskSide b ob = ob\<lparr>m_ask_book := b\<rparr>"
| "set_book BidSide b ob = ob\<lparr>m_bid_book := b\<rparr>"

fun ids_of :: "book_side \<Rightarrow> order_book \<Rightarrow> OrderIdMap" where
  "ids_of AskSide ob = m_ask_id ob"
| "ids_of BidSide ob = m_bid_id ob"

fun set_ids :: "book_side \<Rightarrow> OrderIdMap \<Rightarrow> order_book \<Rightarrow> order_book" where
  "set_ids AskSide m ob = ob\<lparr>m_ask_id := m\<rparr>"
| "set_ids BidSide m ob = ob\<lparr>m_bid_id := m\<rparr>"

fun side_of :: "Side \<Rightarrow> book_side option" where
  "side_of Side_Buy = Some BidSide"
| "side_of Side_BuyMinus = Some BidSide"
| "side_of Side_Sell = Some AskSide"
| "side_of Side_SellPlus = Some AskSide"
| "side_of _ = None"

definition push_event :: "Event \<Rightarrow> order_book \<Rightarrow> order_book" where
  "push_event e ob = ob\<lparr>m_event_output := m_event_output ob @ [e]\<rparr>"

section \<open>The tick rule\<close>

definition computeTick :: "order_book \<Rightarrow> order_book" where
  "computeTick ob = ob\<lparr>m_tick :=
     (if flt (m_lastprice_diff ob) (m_lastprice ob) then PlusTick
      else if flt (m_lastprice ob) (m_lastprice_diff ob) then MinusTick
      else if m_tick ob = PlusTick \<or> m_tick ob = ZeroPlusTick then ZeroPlusTick
      else ZeroMinusTick)\<rparr>"

definition computeTick_new :: "Price \<Rightarrow> order_book \<Rightarrow> order_book" where
  "computeTick_new p ob = computeTick (ob\<lparr>m_lastprice_diff := m_lastprice ob, m_lastprice := p\<rparr>)"

definition tick_allows :: "TickDirection \<Rightarrow> Side \<Rightarrow> bool" where
  "tick_allows t s = (case s of
       Side_BuyMinus \<Rightarrow> t = PlusTick \<or> t = ZeroPlusTick
     | Side_SellPlus \<Rightarrow> t = MinusTick \<or> t = ZeroMinusTick
     | _ \<Rightarrow> True)"

definition allowTick :: "Side \<Rightarrow> order_book \<Rightarrow> bool \<times> order_book" where
  "allowTick s ob = (let ob' = computeTick ob in (tick_allows (m_tick ob') s, ob'))"

section \<open>Look-ups\<close>

definition getSymbol :: "order_book \<Rightarrow> string" where
  "getSymbol ob = m_name ob"

definition has :: "OrderId \<Rightarrow> order_book \<Rightarrow> bool" where
  "has oid ob \<longleftrightarrow> m_ask_id ob oid \<noteq> None \<or> m_bid_id ob oid \<noteq> None"

definition has_side :: "OrderId \<Rightarrow> Side \<Rightarrow> order_book \<Rightarrow> bool" where
  "has_side oid s ob = (case side_of s of
       Some bs \<Rightarrow> ids_of bs ob oid \<noteq> None
     | None \<Rightarrow> False)"

text \<open>Dereferencing an iterator: the node with that address, if it is still in the book.\<close>

definition book_nodes :: "book \<Rightarrow> (node \<times> Order) list" where
  "book_nodes b = concat (map snd b)"

definition deref :: "book \<Rightarrow> node \<Rightarrow> ob_error + Order" where
  "deref b a = (case find (\<lambda>n. fst n = a) (book_nodes b) of
       Some n \<Rightarrow> Inr (snd n) | None \<Rightarrow> Inl OB_bad_iterator)"

definition getOrder :: "OrderId \<Rightarrow> order_book \<Rightarrow> ob_error + Order" where
  "getOrder oid ob = (case m_bid_id ob oid of
       Some i \<Rightarrow> deref (m_bid_book ob) (ii_Order i)
     | None \<Rightarrow> (case m_ask_id ob oid of
           Some i \<Rightarrow> deref (m_ask_book ob) (ii_Order i)
         | None \<Rightarrow> Inl OB_out_of_range))"

definition getOrderIdInfo :: "OrderId \<Rightarrow> Side \<Rightarrow> order_book \<Rightarrow> ob_error + OrderIdInfo" where
  "getOrderIdInfo oid s ob = (case side_of s of
       Some bs \<Rightarrow> (case ids_of bs ob oid of Some i \<Rightarrow> Inr i | None \<Rightarrow> Inl OB_no_return)
     | None \<Rightarrow> Inl (OB_runtime_error ''Side not supported, for getOrderIdInfo''))"

definition removeFromIdMap :: "book_side \<Rightarrow> OrderId \<Rightarrow> order_book \<Rightarrow> bool \<times> order_book" where
  "removeFromIdMap bs oid ob = (case ids_of bs ob oid of
       None \<Rightarrow> (False, ob)
     | Some _ \<Rightarrow> (True, set_ids bs ((ids_of bs ob)(oid := None)) ob))"

section \<open>Filling\<close>

text \<open>
  \<^verbatim>\<open>fillOrder\<close>: the resting order \<open>rest\<close> against the incoming one in \<open>me\<close>, at price \<open>p\<close>. An
  order of the same user is skipped. The result is the status, the two updated orders and
  the event of the resting order, which goes to the event queue unless it is skipped.
\<close>

definition fillOrder :: "Event \<Rightarrow> Price \<Rightarrow> Order \<Rightarrow> FillStatus \<times> Event \<times> Order \<times> Event option" where
  "fillOrder me p rest =
     (if o_userId rest = o_userId (ev_order me) then (FS_Skipped, me, rest, None)
      else
        let main = ev_order me;
            fill_qty = std_min (o_remainQty rest) (o_remainQty main);
            cum_qty = fsub (o_originalQty main) (o_remainQty main);
            cum_total = fadd cum_qty fill_qty;
            main' = main\<lparr>o_avgPrice := fdiv (fadd (fmul cum_qty (o_avgPrice main)) (fmul fill_qty p)) cum_total,
                         o_remainQty := fsub (o_remainQty main) fill_qty\<rparr>;
            me' = me\<lparr>ev_lastPrice := p, ev_lastQty := fill_qty, ev_order := main'\<rparr>;
            cum_qty_r = fsub (o_originalQty rest) (o_remainQty rest);
            cum_total_r = fadd cum_qty_r fill_qty;
            avg_r = fdiv (fadd (fmul cum_qty_r (o_avgPrice rest)) (fmul fill_qty p)) cum_total_r;
            rem_r = fsub (o_remainQty rest) fill_qty;
            filled = feq rem_r fzero;
            rest' = rest\<lparr>o_remainQty := rem_r, o_avgPrice := avg_r,
                         o_status := (if filled then OS_Filled else OS_PartiallyFilled)\<rparr>;
            ev = \<lparr>ev_execStatus = (if filled then OS_Filled else OS_PartiallyFilled),
                   ev_lastPrice = p, ev_lastQty = fill_qty,
                   ev_order = rest\<lparr>o_avgPrice := avg_r, o_remainQty := rem_r\<rparr>\<rparr>
        in (if filled then FS_Filled else FS_PartialyFilled, me', rest', Some ev))"

text \<open>
  The inner loop of \<^verbatim>\<open>fillOnBook\<close>, over the list of one price level. The result is the list as
  the loop leaves it, the book, the main event, and whether the incoming order is filled.
\<close>

fun fill_level :: "dangling \<Rightarrow> book_side \<Rightarrow> Price \<Rightarrow> order_book \<Rightarrow> Event \<Rightarrow> OrderList
    \<Rightarrow> OrderList \<times> order_book \<times> Event \<times> bool" where
  "fill_level dg bs p ob me [] = ([], ob, me, False)"
| "fill_level dg bs p ob me ((a, rest) # ns) =
     (case fillOrder me p rest of
        (FS_Skipped, me', rest', ev) \<Rightarrow>
          (case fill_level dg bs p ob me' ns of (ns', r) \<Rightarrow> ((a, rest') # ns', r))
      | (st, me', rest', ev) \<Rightarrow>
          let ob1 = (case ev of Some e \<Rightarrow> push_event e ob | None \<Rightarrow> ob);
              ob2 = (if st = FS_Filled then snd (removeFromIdMap bs (dg_orderId dg rest') ob1) else ob1);
              kept = (if st = FS_Filled then [] else [(a, rest')]);
              ob3 = computeTick_new p ob2
          in if feq (o_remainQty (ev_order me')) fzero
             then let me'' = me'\<lparr>ev_execStatus := OS_Filled\<rparr>
                  in (kept @ ns, push_event me'' ob3, me'', True)
             else (case fill_level dg bs p ob3 me' ns of (ns', r) \<Rightarrow> (kept @ ns', r)))"

text \<open>How the loop over the levels ends, with the pair \<^verbatim>\<open>fillOnBook\<close> returns.\<close>

definition fill_end :: "OrderInfo \<Rightarrow> order_book \<Rightarrow> Event \<Rightarrow> order_book \<times> (Quantity \<times> Price)" where
  "fill_end oi ob me =
     (let ob' = (if \<not> feq (o_remainQty (ev_order me)) (o_originalQty (oi_order oi))
                 then push_event (me\<lparr>ev_execStatus := OS_PartiallyFilled\<rparr>) ob else ob)
      in (ob', (o_remainQty (ev_order me), o_avgPrice (ev_order me))))"

text \<open>The loop over the levels; \<open>cmp\<close> is the \<^verbatim>\<open>Comparator\<close> of the instantiation.\<close>

fun fill_levels :: "dangling \<Rightarrow> book_side \<Rightarrow> (Price \<Rightarrow> Price \<Rightarrow> bool) \<Rightarrow> OrderInfo \<Rightarrow> order_book \<Rightarrow> Event
    \<Rightarrow> book \<Rightarrow> book \<times> order_book \<times> (Quantity \<times> Price)" where
  "fill_levels dg bs cmp oi ob me [] = ([], fill_end oi ob me)"
| "fill_levels dg bs cmp oi ob me ((p, l) # b) =
     (if \<not> cmp p (oi_price oi) then ((p, l) # b, fill_end oi ob me)
      else case allowTick (o_side (oi_order oi)) ob of (ok, ob1) \<Rightarrow>
        if \<not> ok then ((p, l) # b, ob1, (o_remainQty (ev_order me), o_avgPrice (ev_order me)))
        else case fill_level dg bs p ob1 me l of (l', ob2, me', done) \<Rightarrow>
          if done then ((p, l') # b, ob2, (fzero, fzero))
          else case fill_levels dg bs cmp oi ob2 me' b of (b', r) \<Rightarrow> ((p, l') # b', r))"

definition main_event :: "OrderInfo \<Rightarrow> Event" where
  "main_event oi = \<lparr>ev_execStatus = OS_NewOrder, ev_lastPrice = fzero, ev_lastQty = fzero,
     ev_order = oi_order oi\<rparr>"

definition fillOnBook :: "dangling \<Rightarrow> book_side \<Rightarrow> (Price \<Rightarrow> Price \<Rightarrow> bool) \<Rightarrow> OrderInfo \<Rightarrow> order_book
    \<Rightarrow> order_book \<times> (Quantity \<times> Price)" where
  "fillOnBook dg bs cmp oi ob =
     (case fill_levels dg bs cmp oi ob (main_event oi) (book_of bs ob) of
        (b', ob', r) \<Rightarrow> (set_book bs b' ob', r))"

section \<open>Adding and cancelling\<close>

definition addToBook :: "book_side \<Rightarrow> Price \<Rightarrow> Order \<Rightarrow> order_book \<Rightarrow> order_book" where
  "addToBook bs p o' ob =
     (let a = m_next_node ob;
          b' = ladder_upd (book_lt bs) p (\<lambda>l. l @ [(a, o')]) [] (book_of bs ob);
          ob1 = set_book bs b' (ob\<lparr>m_next_node := Suc a\<rparr>)
      in set_ids bs ((ids_of bs ob1)(o_orderId o' \<mapsto> \<lparr>ii_Order = a, ii_price = p\<rparr>)) ob1)"

text \<open>The order \<^verbatim>\<open>add\<close> puts in the book for what the matching left.\<close>

definition resting_order :: "Order \<Rightarrow> Quantity \<times> Price \<Rightarrow> Order" where
  "resting_order o' r = \<lparr>o_userId = o_userId o', o_orderId = o_orderId o',
     o_originalQty = o_originalQty o', o_remainQty = fst r, o_avgPrice = snd r,
     o_side = o_side o',
     o_status = (if feq (fst r) (o_originalQty o') then OS_NewOrder else OS_PartiallyFilled)\<rparr>"

definition fge :: "Price \<Rightarrow> Price \<Rightarrow> bool" where
  "fge x y \<longleftrightarrow> fle y x"

fun book_cmp :: "book_side \<Rightarrow> Price \<Rightarrow> Price \<Rightarrow> bool" where
  "book_cmp BidSide = fle" \<comment> \<open>a buy order, against the asks: \<^verbatim>\<open>std::less_equal\<close>\<close>
| "book_cmp AskSide = fge" \<comment> \<open>a sell order, against the bids: \<^verbatim>\<open>std::greater_equal\<close>\<close>

definition add :: "dangling \<Rightarrow> OrderInfo \<Rightarrow> order_book \<Rightarrow> ob_error + order_book" where
  "add dg oi ob = (case side_of (o_side (oi_order oi)) of
       Some bs \<Rightarrow> (case fillOnBook dg (other bs) (book_cmp bs) oi ob of
          (ob', r) \<Rightarrow> Inr (if \<not> feq (fst r) fzero
             then addToBook bs (oi_price oi) (resting_order (oi_order oi) r) ob' else ob'))
     | None \<Rightarrow> Inl (OB_runtime_error ''Side not supported, for add''))"

definition cancelOrder :: "book_side \<Rightarrow> OrderIdInfo \<Rightarrow> order_book \<Rightarrow> ob_error + order_book" where
  "cancelOrder bs i ob = (case ladder_find (book_lt bs) (ii_price i) (book_of bs ob) of
       None \<Rightarrow> Inl OB_out_of_range
     | Some l \<Rightarrow> if ii_Order i \<in> fst ` set l
         then Inr (set_book bs (ladder_upd (book_lt bs) (ii_price i)
                (erase_first (\<lambda>n. fst n = ii_Order i)) [] (book_of bs ob)) ob)
         else Inl OB_bad_iterator)"

definition cancel :: "dangling \<Rightarrow> OrderId \<Rightarrow> Side \<Rightarrow> order_book \<Rightarrow> ob_error + order_book" where
  "cancel dg oid s ob = (case getOrderIdInfo oid s ob of
       Inl e \<Rightarrow> Inl e
     | Inr info \<Rightarrow> (case side_of s of
           Some bs \<Rightarrow> (case removeFromIdMap bs oid ob of
              (erased, ob') \<Rightarrow> cancelOrder bs (if erased then dg_info dg info else info) ob')
         | None \<Rightarrow> Inl (OB_runtime_error ''Side not supported, for cancel'')))"

section \<open>Read locks\<close>

text \<open>
  \<^verbatim>\<open>lockReadOrder\<close> takes the mutex of the other side (a sell request locks the bid ids), as
  written.
\<close>

definition lockReadOrder :: "Side \<Rightarrow> order_book \<Rightarrow> ob_error + order_book" where
  "lockReadOrder s ob = (case side_of s of
       Some AskSide \<Rightarrow> Inr (ob\<lparr>m_bid_readers := Suc (m_bid_readers ob)\<rparr>)
     | Some BidSide \<Rightarrow> Inr (ob\<lparr>m_ask_readers := Suc (m_ask_readers ob)\<rparr>)
     | None \<Rightarrow> Inl (OB_runtime_error ''Side not supported, for lockReadOrder''))"

definition unlockReadOrder :: "Side \<Rightarrow> order_book \<Rightarrow> ob_error + order_book" where
  "unlockReadOrder s ob = (case side_of s of
       Some AskSide \<Rightarrow> Inr (ob\<lparr>m_bid_readers := m_bid_readers ob - 1\<rparr>)
     | Some BidSide \<Rightarrow> Inr (ob\<lparr>m_ask_readers := m_ask_readers ob - 1\<rparr>)
     | None \<Rightarrow> Inl (OB_runtime_error ''Side not supported, for unlockReadOrder''))"

end
