(* ===== verification/MarketUnits.thy ===== *)
theory MarketUnits
  imports ServerSession OrderBook
begin

text \<open>
  The units of one market: \<^verbatim>\<open>MarketRouter\<close>, which parses an order message, takes a ticket of the
  market's lock and hands the message over, \<^verbatim>\<open>NewOrder\<close> and \<^verbatim>\<open>Cancel\<close>, each an input handler and
  a worker thread, and \<^verbatim>\<open>OBEvent\<close>, which reports executions.
\<close>

section \<open>The state of a market\<close>

record 'm ParsedMessage =
  pm_Client :: cref
  pm_ReceiveTime :: time_point
  pm_ExecutionId :: ExecId
  pm_Header :: Header
  pm_Message :: 'm

text \<open>\<open>mk_order_now\<close> and \<open>mk_cancel_now\<close> are the inputs the workers hold while they wait for the lock.\<close>

record market =
  mk_ob :: order_book
  mk_mutex :: "ExecId queue_mutex"
  mk_orders :: "NewOrderSingle ParsedMessage ts_queue"
  mk_cancels :: "OrderCancelRequest ParsedMessage ts_queue"
  mk_order_queue :: "NewOrderSingle ParsedMessage ts_queue"
  mk_cancel_queue :: "OrderCancelRequest ParsedMessage ts_queue"
  mk_order_now :: "NewOrderSingle ParsedMessage option"
  mk_cancel_now :: "OrderCancelRequest ParsedMessage option"

definition MarketContainer_init :: "string \<Rightarrow> market" where
  "MarketContainer_init symbol = \<lparr>mk_ob = OrderBook_init symbol, mk_mutex = qm_init, mk_orders = [],
     mk_cancels = [], mk_order_queue = [], mk_cancel_queue = [], mk_order_now = None, mk_cancel_now = None\<rparr>"

definition getMarketSymbol :: "market \<Rightarrow> string" where
  "getMarketSymbol mk = getSymbol (mk_ob mk)"

abbreviation set_mutex :: "(ExecId queue_mutex \<Rightarrow> ExecId queue_mutex) \<Rightarrow> market \<Rightarrow> market" where
  "set_mutex f mk \<equiv> mk\<lparr>mk_mutex := f (mk_mutex mk)\<rparr>"

section \<open>The market router\<close>

type_synonym markets = "string \<Rightarrow> market option"

definition registerMarket :: "string \<Rightarrow> market \<Rightarrow> markets \<Rightarrow> markets" where
  "registerMarket symbol mk ms = (if ms symbol = None then ms(symbol \<mapsto> mk) else ms)"

text \<open>\<open>enqueue\<close> appends to the queue of the message's type; \<open>ticket\<close> is the generated identifier.\<close>

definition redirectToMarket :: "('m ParsedMessage \<Rightarrow> market \<Rightarrow> market) \<Rightarrow> string \<Rightarrow> 'm \<Rightarrow> UnparsedMessage \<Rightarrow> ExecId
    \<Rightarrow> markets \<Rightarrow> 'a server_scheme \<Rightarrow> markets \<times> 'a server_scheme" where
  "redirectToMarket enqueue symbol msg i ticket ms s = (case ms symbol of
       Some mk \<Rightarrow> (ms(symbol \<mapsto> enqueue \<lparr>pm_Client = um_Client i, pm_ReceiveTime = um_ReceiveTime i,
           pm_ExecutionId = ticket, pm_Header = um_Header i, pm_Message = msg\<rparr> (set_mutex (qm_allow ticket) mk)), s)
     | None \<Rightarrow> (ms, append_output (um_Client i) (um_ReceiveTime i) (M_BusinessReject (BusinessReject_init\<lparr>
           br_RefSeqNum := Some (h_MsgSeqNum (um_Header i)), br_RefMsgType := h_MsgType (um_Header i),
           br_BusinessRejectReason := RB_UnknownSecurity, br_Text := Some ''Unknown symbol''\<rparr>)) s))"

definition enqueue_order :: "NewOrderSingle ParsedMessage \<Rightarrow> market \<Rightarrow> market" where
  "enqueue_order p mk = mk\<lparr>mk_orders := ts_push p (mk_orders mk)\<rparr>"

definition enqueue_cancel :: "OrderCancelRequest ParsedMessage \<Rightarrow> market \<Rightarrow> market" where
  "enqueue_cancel p mk = mk\<lparr>mk_cancels := ts_push p (mk_cancels mk)\<rparr>"

definition market_router_onInput :: "fixlib \<Rightarrow> ExecId \<Rightarrow> UnparsedMessage \<Rightarrow> markets \<Rightarrow> 'a server_scheme \<Rightarrow> markets \<times> 'a server_scheme" where
  "market_router_onInput lib ticket i ms s = (let ty = h_MsgType (um_Header i) in
     if ty = MT_NewOrderSingle then
       (case parseMessage lib MT_NewOrderSingle (fl_NewOrderSingle lib) (um_Message i) (um_Header i) of
          Inl r \<Rightarrow> (ms, append_output (um_Client i) (um_ReceiveTime i) (M_SessionReject r) s)
        | Inr m \<Rightarrow> redirectToMarket enqueue_order (no_Symbol m) m i ticket ms s)
     else if ty = MT_OrderCancelRequest then
       (case parseMessage lib MT_OrderCancelRequest (fl_OrderCancelRequest lib) (um_Message i) (um_Header i) of
          Inl r \<Rightarrow> (ms, append_output (um_Client i) (um_ReceiveTime i) (M_SessionReject r) s)
        | Inr m \<Rightarrow> redirectToMarket enqueue_cancel (oc_Symbol m) m i ticket ms s)
     else (ms, s))"

section \<open>New orders: the input handler\<close>

definition business_reject :: "'m ParsedMessage \<Rightarrow> string \<Rightarrow> RejectReasonBusiness \<Rightarrow> string \<Rightarrow> FixMsg" where
  "business_reject i ref reason text = M_BusinessReject (BusinessReject_init\<lparr>
     br_RefSeqNum := Some (h_MsgSeqNum (pm_Header i)), br_RefMsgType := h_MsgType (pm_Header i),
     br_BusinessRejectRefId := Some ref, br_BusinessRejectReason := reason, br_Text := Some text\<rparr>)"

definition reply :: "'m ParsedMessage \<Rightarrow> FixMsg \<Rightarrow> 'a server_scheme \<Rightarrow> 'a server_scheme" where
  "reply i m s = append_output (pm_Client i) (pm_ReceiveTime i) m s"

definition notSupportedOrderType :: "NewOrderSingle ParsedMessage \<Rightarrow> 'a server_scheme \<Rightarrow> 'a server_scheme" where
  "notSupportedOrderType i s = reply i (business_reject i (no_ClOrdID (pm_Message i)) RB_Other ''Not supported order type'') s"

definition qm_withdraw :: "ExecId \<Rightarrow> market \<Rightarrow> market" where
  "qm_withdraw x mk = set_mutex (\<lambda>m. snd (qm_finish x m)) mk"

definition notSupportedSide :: "NewOrderSingle ParsedMessage \<Rightarrow> market \<Rightarrow> 'a server_scheme \<Rightarrow> market \<times> 'a server_scheme" where
  "notSupportedSide i mk s = (qm_withdraw (pm_ExecutionId i) mk,
     reply i (business_reject i (no_ClOrdID (pm_Message i)) RB_Other ''Not supported side'') s)"

text \<open>After an unsupported order type the handler goes on to the side and queues the order.\<close>

definition neworder_onInput :: "NewOrderSingle ParsedMessage \<Rightarrow> market \<Rightarrow> 'a server_scheme \<Rightarrow> market \<times> 'a server_scheme" where
  "neworder_onInput i mk s = (let m = pm_Message i; id = pm_ExecutionId i; ref = no_ClOrdID m in
     if no_Price m = None then (qm_withdraw id mk,
       reply i (business_reject i ref RB_CondReqFieldMissing ''Price required when OrderType is Limit'') s)
     else if no_OrderQty m = None then (qm_withdraw id mk,
       reply i (business_reject i ref RB_CondReqFieldMissing ''Order quantity required'') s)
     else
       let (mk1, s1) = (if no_OrdType m = OT_Limit then (mk, s)
                        else (qm_withdraw id mk, notSupportedOrderType i s)) in
       if no_Side m \<in> {Side_Buy, Side_BuyMinus, Side_Sell, Side_SellPlus}
       then (mk1\<lparr>mk_order_queue := ts_push i (mk_order_queue mk1)\<rparr>, s1)
       else (case notSupportedSide i mk1 s1 of (mk2, s2) \<Rightarrow> (qm_withdraw id mk2, s2)))"

section \<open>New orders: the worker\<close>

text \<open>How a step of a worker can fail to happen: it waits for the lock, or it throws.\<close>

datatype unit_error = UE_blocked | UE_bad_optional | UE_book ob_error

definition order_info :: "UserId \<Rightarrow> NewOrderSingle ParsedMessage \<Rightarrow> Price \<Rightarrow> Quantity \<Rightarrow> OrderInfo" where
  "order_info user i price qty = \<lparr>oi_execid = pm_ExecutionId i, oi_price = price, oi_order =
     \<lparr>o_userId = user, o_orderId = no_ClOrdID (pm_Message i), o_originalQty = qty, o_remainQty = qty,
      o_avgPrice = fzero, o_side = no_Side (pm_Message i), o_status = OS_NewOrder\<rparr>\<rparr>"

text \<open>The report common to the three outcomes.\<close>

definition order_report :: "string \<Rightarrow> OrderInfo \<Rightarrow> OrderStatus \<Rightarrow> Quantity \<Rightarrow> ExecutionReport" where
  "order_report symbol info status leaves = ExecutionReport_init\<lparr>er_OrderID := o_orderId (oi_order info),
     er_ExecId := oi_execid info, er_ExecTransType := TT_New, er_ExecType := status, er_OrdStatus := status,
     er_Symbol := symbol, er_Side := o_side (oi_order info), er_OrdType := Some OT_Limit,
     er_OrderQty := Some (o_originalQty (oi_order info)), er_Price := Some (oi_price info),
     er_LeavesQty := leaves, er_LastShares := Some fzero, er_LastPx := Some fzero, er_CumQty := fzero,
     er_AvgPx := fzero\<rparr>"

definition tick_report :: "string \<Rightarrow> OrderInfo \<Rightarrow> ExecutionReport" where
  "tick_report symbol info = (order_report symbol info OS_Rejected fzero)\<lparr>
     er_Text := Some ''Invalid tick direction for selected side''\<rparr>"

definition ack_report :: "string \<Rightarrow> OrderInfo \<Rightarrow> ExecutionReport" where
  "ack_report symbol info = order_report symbol info OS_NewOrder (o_remainQty (oi_order info))"

definition duplicate_report :: "string \<Rightarrow> OrderInfo \<Rightarrow> ExecutionReport" where
  "duplicate_report symbol info = (order_report symbol info OS_Rejected fzero)\<lparr>
     er_OrdRejReason := Some OR_Duplicate, er_Text := Some ''Order Id already used''\<rparr>"

definition order_take :: "market \<Rightarrow> market" where
  "order_take mk = (case mk_order_now mk of
       Some _ \<Rightarrow> mk
     | None \<Rightarrow> (case ts_pop_front (mk_order_queue mk) of
         None \<Rightarrow> mk
       | Some (i, q) \<Rightarrow> mk\<lparr>mk_order_queue := q, mk_order_now := Some i\<rparr>))"

abbreviation locked :: "market \<Rightarrow> market" where
  "locked mk \<equiv> set_mutex (\<lambda>m. m\<lparr>qm_lock := True\<rparr>) mk"

text \<open>The section under the lock, for the order the worker holds. The user is read before the lock.\<close>

definition order_locked :: "dangling \<Rightarrow> UserId \<Rightarrow> market \<Rightarrow> 'a server_scheme \<Rightarrow> unit_error + market \<times> 'a server_scheme" where
  "order_locked dg user mk s = (case mk_order_now mk of
       None \<Rightarrow> Inl UE_blocked
     | Some i \<Rightarrow> (case (no_Price (pm_Message i), no_OrderQty (pm_Message i)) of
         (Some price, Some qty) \<Rightarrow>
           if qm_spins (pm_ExecutionId i) (mk_mutex mk) then Inl UE_blocked
           else (let info = order_info user i price qty; mk1 = (locked mk)\<lparr>mk_order_now := None\<rparr>;
                     symbol = getSymbol (mk_ob mk1) in
             case allowTick (o_side (oi_order info)) (mk_ob mk1) of
               (False, ob) \<Rightarrow> Inr (set_mutex qm_unlock (mk1\<lparr>mk_ob := ob\<rparr>),
                 reply i (M_ExecutionReport (tick_report symbol info)) s)
             | (True, ob) \<Rightarrow>
                 if \<not> has (o_orderId (oi_order info)) ob then
                   (case add dg info ob of
                      Inl e \<Rightarrow> Inl (UE_book e)
                    | Inr ob' \<Rightarrow> Inr (set_mutex qm_unlock (mk1\<lparr>mk_ob := ob'\<rparr>),
                        reply i (M_ExecutionReport (ack_report symbol info)) s))
                 else Inr (set_mutex qm_unlock (mk1\<lparr>mk_ob := ob\<rparr>),
                   reply i (M_ExecutionReport (duplicate_report symbol info)) s))
       | _ \<Rightarrow> Inl UE_bad_optional))"

section \<open>Cancels\<close>

definition cancel_reject :: "string \<Rightarrow> string \<Rightarrow> CancelRejectReason \<Rightarrow> string \<Rightarrow> FixMsg" where
  "cancel_reject order orig reason text = M_OrderCancelReject (OrderCancelReject_init\<lparr>cr_OrderID := order,
     cr_OrigClOrdID := orig, cr_OrdStatus := OS_Rejected, cr_CxlRejResponseTo := CRT_CancelRequest,
     cr_CxlRejReason := Some reason, cr_Text := Some text\<rparr>)"

text \<open>
  The check on arrival, without the market's lock. The read locks are taken and released around
  it; an unsupported side throws.
\<close>

definition verifyOrderState :: "OrderCancelRequest ParsedMessage \<Rightarrow> market \<Rightarrow> 'a server_scheme
    \<Rightarrow> unit_error + Order option \<times> market \<times> 'a server_scheme" where
  "verifyOrderState i mk s = (let m = pm_Message i; side = oc_Side m; orig = oc_OrigClOrdID m; cl = oc_ClOrdID m in
     case lockReadOrder side (mk_ob mk) of
       Inl e \<Rightarrow> Inl (UE_book e)
     | Inr ob \<Rightarrow>
        if \<not> has_side orig side ob then
          (case unlockReadOrder side ob of
             Inl e \<Rightarrow> Inl (UE_book e)
           | Inr ob1 \<Rightarrow> Inr (None, mk\<lparr>mk_ob := ob1\<rparr>,
               reply i (cancel_reject ''NONE'' cl CRR_UnknownOrderCancel ''Unknow order Id on this side'') s))
        else (case getOrder orig ob of
             Inl e \<Rightarrow> Inl (UE_book e)
           | Inr order \<Rightarrow> (case unlockReadOrder side ob of
               Inl e \<Rightarrow> Inl (UE_book e)
             | Inr ob1 \<Rightarrow>
                 if o_side order \<noteq> side then Inr (None, mk\<lparr>mk_ob := ob1\<rparr>,
                   reply i (cancel_reject orig cl CRR_UnknownOrderCancel ''Side doesn't exactly match'') s)
                 else Inr (Some order, mk\<lparr>mk_ob := ob1\<rparr>, s))))"

text \<open>\<open>Side\<close> is not set in the acknowledgement.\<close>

definition pending_report :: "string \<Rightarrow> OrderCancelRequest ParsedMessage \<Rightarrow> Order \<Rightarrow> ExecutionReport" where
  "pending_report symbol i order = ExecutionReport_init\<lparr>er_OrderID := oc_OrigClOrdID (pm_Message i),
     er_ClOrdID := Some (oc_ClOrdID (pm_Message i)), er_ExecId := pm_ExecutionId i,
     er_ExecTransType := TT_Cancel, er_ExecType := OS_PendingCancel, er_OrdStatus := o_status order,
     er_Symbol := symbol, er_LeavesQty := o_remainQty order,
     er_CumQty := fsub (o_originalQty order) (o_remainQty order), er_AvgPx := o_avgPrice order\<rparr>"

definition canceled_report :: "string \<Rightarrow> OrderCancelRequest ParsedMessage \<Rightarrow> Order \<Rightarrow> ExecutionReport" where
  "canceled_report symbol i order = ExecutionReport_init\<lparr>er_OrderID := oc_OrigClOrdID (pm_Message i),
     er_ClOrdID := Some (oc_ClOrdID (pm_Message i)), er_ExecId := pm_ExecutionId i,
     er_ExecTransType := TT_Cancel, er_ExecType := OS_Canceled, er_OrdStatus := o_status order,
     er_Symbol := symbol, er_Side := oc_Side (pm_Message i), er_LeavesQty := fzero,
     er_CumQty := fsub (o_originalQty order) (o_remainQty order), er_AvgPx := o_avgPrice order\<rparr>"

text \<open>\<^verbatim>\<open>m_mutex.front()\<close> of an empty queue is undefined; here it differs from every identifier.\<close>

definition cancel_onInput :: "OrderCancelRequest ParsedMessage \<Rightarrow> market \<Rightarrow> 'a server_scheme
    \<Rightarrow> unit_error + market \<times> 'a server_scheme" where
  "cancel_onInput i mk s = (let m = pm_Message i; id = pm_ExecutionId i in
     if oc_OrderQty m = None then Inr (qm_withdraw id mk,
       reply i (business_reject i (oc_ClOrdID m) RB_CondReqFieldMissing ''Quantity is required'') s)
     else (case verifyOrderState i mk s of
         Inl e \<Rightarrow> Inl e
       | Inr (None, mk1, s1) \<Rightarrow> Inr (qm_withdraw id mk1, s1)
       | Inr (Some order, mk1, s1) \<Rightarrow>
           let s2 = (if \<not> ts_empty (mk_cancel_queue mk1) \<or> qm_front (mk_mutex mk1) \<noteq> Some id
                     then reply i (M_ExecutionReport (pending_report (getSymbol (mk_ob mk1)) i order)) s1 else s1)
           in Inr (mk1\<lparr>mk_cancel_queue := ts_push i (mk_cancel_queue mk1)\<rparr>, s2)))"

definition cancel_take :: "market \<Rightarrow> market" where
  "cancel_take mk = (case mk_cancel_now mk of
       Some _ \<Rightarrow> mk
     | None \<Rightarrow> (case ts_pop_front (mk_cancel_queue mk) of
         None \<Rightarrow> mk
       | Some (i, q) \<Rightarrow> mk\<lparr>mk_cancel_queue := q, mk_cancel_now := Some i\<rparr>))"

text \<open>The check under the lock; when it fails it also leaves the lock.\<close>

definition verifyOrderStateWithLock :: "OrderCancelRequest ParsedMessage \<Rightarrow> market \<Rightarrow> 'a server_scheme
    \<Rightarrow> unit_error + Order option \<times> market \<times> 'a server_scheme" where
  "verifyOrderStateWithLock i mk s = (let m = pm_Message i; orig = oc_OrigClOrdID m; cl = oc_ClOrdID m in
     case oc_OrderQty m of
       None \<Rightarrow> Inl UE_bad_optional
     | Some qty \<Rightarrow>
        if \<not> has_side orig (oc_Side m) (mk_ob mk) then Inr (None, set_mutex qm_unlock mk,
          reply i (cancel_reject orig cl CRR_TooLateCancel ''Order already processed'') s)
        else (case getOrder orig (mk_ob mk) of
            Inl e \<Rightarrow> Inl (UE_book e)
          | Inr order \<Rightarrow>
              if \<not> feq (o_remainQty order) qty then Inr (None, set_mutex qm_unlock mk,
                reply i (cancel_reject orig cl CRR_TooLateCancel ''Order has invalid quantity'') s)
              else Inr (Some order, mk, s)))"

definition cancel_locked :: "dangling \<Rightarrow> market \<Rightarrow> 'a server_scheme \<Rightarrow> unit_error + market \<times> 'a server_scheme" where
  "cancel_locked dg mk s = (case mk_cancel_now mk of
       None \<Rightarrow> Inl UE_blocked
     | Some i \<Rightarrow>
         if qm_spins (pm_ExecutionId i) (mk_mutex mk) then Inl UE_blocked
         else (let mk1 = (locked mk)\<lparr>mk_cancel_now := None\<rparr> in
           case verifyOrderStateWithLock i mk1 s of
             Inl e \<Rightarrow> Inl e
           | Inr (None, mk2, s2) \<Rightarrow> Inr (mk2, s2)
           | Inr (Some order, mk2, s2) \<Rightarrow>
               (case cancel dg (oc_OrigClOrdID (pm_Message i)) (oc_Side (pm_Message i)) (mk_ob mk2) of
                  Inl e \<Rightarrow> Inl (UE_book e)
                | Inr ob \<Rightarrow> Inr (set_mutex qm_unlock (mk2\<lparr>mk_ob := ob\<rparr>),
                    reply i (M_ExecutionReport (canceled_report (getSymbol ob) i order)) s2))))"

section \<open>Execution events\<close>

text \<open>\<open>exec\<close> is the generated identifier. \<open>Price\<close> is not set.\<close>

definition event_report :: "string \<Rightarrow> ExecId \<Rightarrow> Event \<Rightarrow> ExecutionReport" where
  "event_report symbol exec e = ExecutionReport_init\<lparr>er_OrderID := o_orderId (ev_order e), er_ExecId := exec,
     er_ExecTransType := TT_New, er_ExecType := ev_execStatus e, er_OrdStatus := o_status (ev_order e),
     er_Symbol := symbol, er_Side := o_side (ev_order e), er_OrderQty := Some (o_originalQty (ev_order e)),
     er_OrdType := Some OT_Limit, er_LeavesQty := o_remainQty (ev_order e),
     er_LastShares := Some (ev_lastQty e), er_LastPx := Some (ev_lastPrice e),
     er_CumQty := fsub (o_originalQty (ev_order e)) (o_remainQty (ev_order e)), er_AvgPx := o_avgPrice (ev_order e)\<rparr>"

definition createEvent :: "string \<Rightarrow> ExecId \<Rightarrow> time_point \<Rightarrow> Event \<Rightarrow> 'a server_scheme \<Rightarrow> 'a server_scheme" where
  "createEvent symbol exec now e s = (case findClient (o_userId (ev_order e)) s of
       None \<Rightarrow> s
     | Some c \<Rightarrow> append_output c now (M_ExecutionReport (event_report symbol exec e)) s)"

text \<open>The event unit takes the next event of the book.\<close>

definition event_step :: "ExecId \<Rightarrow> time_point \<Rightarrow> market \<Rightarrow> 'a server_scheme \<Rightarrow> market \<times> 'a server_scheme" where
  "event_step exec now mk s = (case ts_pop_front (m_event_output (mk_ob mk)) of
       None \<Rightarrow> (mk, s)
     | Some (e, q) \<Rightarrow> (mk\<lparr>mk_ob := (mk_ob mk)\<lparr>m_event_output := q\<rparr>\<rparr>,
         createEvent (getMarketSymbol mk) exec now e s))"

end
