(* ===== verification/BookFill.thy ===== *)
theory BookFill
  imports OrderBook "HOL-Library.Sublist"
begin

text \<open>
  What filling does to one resting order, to one price level and to the levels of a book:
  the quantities stay between zero and the original quantity, an order leaves the list
  exactly when it is filled, everything else about an order is kept, and the id map loses
  exactly the orders that left.
\<close>

section \<open>One resting order\<close>

definition qty_ok :: "Quantity \<Rightarrow> bool" where
  "qty_ok q \<longleftrightarrow> wf_f32 q \<and> is_fin q \<and> 0 < fval q"

text \<open>An order the book may hold: something is left of it, and no more than was asked.\<close>

definition rest_ok :: "Order \<Rightarrow> bool" where
  "rest_ok r \<longleftrightarrow> qty_ok (o_remainQty r) \<and> qty_ok (o_originalQty r)
     \<and> fval (o_remainQty r) \<le> fval (o_originalQty r)"

text \<open>The part of an order that filling never changes.\<close>

definition same_order :: "Order \<Rightarrow> Order \<Rightarrow> bool" where
  "same_order r r' \<longleftrightarrow> o_userId r' = o_userId r \<and> o_orderId r' = o_orderId r
     \<and> o_originalQty r' = o_originalQty r \<and> o_side r' = o_side r"

lemma same_order_refl [simp]: "same_order r r"
  by (simp add: same_order_def)

lemma same_order_trans: "same_order a b \<Longrightarrow> same_order b c \<Longrightarrow> same_order a c"
  by (simp add: same_order_def)

lemma std_min_fin:
  assumes "is_fin a" "is_fin b"
  shows "std_min a b = (if fval b < fval a then b else a)"
  using assms by (simp add: std_min_def flt_fin)

lemma fsub_self: "wf_f32 x \<Longrightarrow> is_fin x \<Longrightarrow> is_fin (fsub x x) \<and> fval (fsub x x) = 0"
  using fsub_exact[of x x] by simp

lemma feq_zero: "is_fin x \<Longrightarrow> feq x fzero \<longleftrightarrow> fval x = 0"
  by (simp add: feq_fin)

text \<open>
  The outcome of \<^verbatim>\<open>fillOrder\<close> against an order of another user: the smaller of the two
  remaining quantities is executed, and at least one of the two orders is used up.
\<close>

lemma fillOrder_other:
  assumes user: "o_userId rest \<noteq> o_userId (ev_order me)"
    and rest: "rest_ok rest" and main: "qty_ok (o_remainQty (ev_order me))"
    and res: "fillOrder me p rest = (st, me', rest', ev)"
  shows "same_order rest rest'" "o_userId (ev_order me') = o_userId (ev_order me)"
    and "wf_f32 (o_remainQty (ev_order me'))" "is_fin (o_remainQty (ev_order me'))"
    and "fval (o_remainQty (ev_order me')) \<le> fval (o_remainQty (ev_order me))"
    and "0 \<le> fval (o_remainQty (ev_order me'))"
    and "if fval (o_remainQty rest) \<le> fval (o_remainQty (ev_order me))
         then st = FS_Filled \<and> (fval (o_remainQty (ev_order me')) = 0
                \<longleftrightarrow> fval (o_remainQty rest) = fval (o_remainQty (ev_order me)))
         else st = FS_PartialyFilled \<and> fval (o_remainQty (ev_order me')) = 0 \<and> rest_ok rest'"
    and "\<exists>e. ev = Some e \<and> ev_lastPrice e = p \<and> o_userId (ev_order e) = o_userId rest
           \<and> ev_lastQty e = std_min (o_remainQty rest) (o_remainQty (ev_order me))"
proof -
  let ?m = "o_remainQty (ev_order me)" and ?r = "o_remainQty rest"
  let ?f = "std_min ?r ?m"
  have fin: "is_fin ?m" "is_fin ?r" "wf_f32 ?m" "wf_f32 ?r" "0 < fval ?m" "0 < fval ?r"
    using rest main by (auto simp: rest_ok_def qty_ok_def)
  have f: "?f = (if fval ?m < fval ?r then ?m else ?r)"
    using std_min_fin[OF fin(2,1)] .
  have e: "ev_order me' = (ev_order me)\<lparr>o_avgPrice := o_avgPrice (ev_order me'), o_remainQty := fsub ?m ?f\<rparr>"
    "o_remainQty rest' = fsub ?r ?f" "same_order rest rest'"
    "st = (if feq (fsub ?r ?f) fzero then FS_Filled else FS_PartialyFilled)"
    using res user by (auto simp: fillOrder_def Let_def same_order_def)
  have m': "o_remainQty (ev_order me') = fsub ?m ?f" by (subst e(1)) simp
  have fsf: "is_fin ?f" "0 \<le> fval ?f" "fval ?f \<le> fval ?m" "fval ?f \<le> fval ?r"
    using f fin by auto
  note bm = fsub_ordered[OF fin(3,1) fsf(1-3)]
  note br = fsub_ordered[OF fin(4,2) fsf(1,2,4)]
  show "same_order rest rest'" by (rule e(3))
  show "o_userId (ev_order me') = o_userId (ev_order me)" by (subst e(1)) simp
  show "wf_f32 (o_remainQty (ev_order me'))" by (simp add: m' wf_fsub)
  show "is_fin (o_remainQty (ev_order me'))" "0 \<le> fval (o_remainQty (ev_order me'))"
    "fval (o_remainQty (ev_order me')) \<le> fval ?m"
    using bm by (auto simp: m')
  show "if fval ?r \<le> fval ?m then st = FS_Filled \<and> (fval (o_remainQty (ev_order me')) = 0 \<longleftrightarrow> fval ?r = fval ?m)
    else st = FS_PartialyFilled \<and> fval (o_remainQty (ev_order me')) = 0 \<and> rest_ok rest'"
  proof (cases "fval ?r \<le> fval ?m")
    case True
    then have "fval ?f = fval ?r" using f by simp
    then have "feq (fsub ?r ?f) fzero" using br by (simp add: feq_zero)
    with True e(4) bm \<open>fval ?f = fval ?r\<close> show ?thesis by (auto simp: m')
  next
    case False
    then have ff: "fval ?f = fval ?m" using f by simp
    then have nz: "0 < fval (fsub ?r ?f)" using br False by auto
    then have "\<not> feq (fsub ?r ?f) fzero" using br by (simp add: feq_zero)
    moreover have "rest_ok rest'"
      using nz br rest e(2,3) by (auto simp: rest_ok_def qty_ok_def wf_fsub same_order_def)
    ultimately show ?thesis using False e(4) bm ff by (auto simp: m')
  qed
  show "\<exists>e. ev = Some e \<and> ev_lastPrice e = p \<and> o_userId (ev_order e) = o_userId rest
      \<and> ev_lastQty e = ?f"
    using res user by (auto simp: fillOrder_def Let_def)
qed

lemma fillOrder_same_user:
  "o_userId rest = o_userId (ev_order me) \<Longrightarrow> fillOrder me p rest = (FS_Skipped, me, rest, None)"
  by (simp add: fillOrder_def)


lemma fillOrder_whole:
  assumes "o_userId rest \<noteq> o_userId (ev_order me)"
    and "rest_ok rest" "qty_ok (o_remainQty (ev_order me))"
    and w: "whole (o_remainQty rest)" "whole (o_remainQty (ev_order me))"
    and res: "fillOrder me p rest = (st, me', rest', ev)"
  shows "whole (o_remainQty rest')" "whole (o_remainQty (ev_order me'))"
    and "fval (o_remainQty rest') = fval (o_remainQty rest)
           - min (fval (o_remainQty rest)) (fval (o_remainQty (ev_order me)))"
    and "fval (o_remainQty (ev_order me')) = fval (o_remainQty (ev_order me))
           - min (fval (o_remainQty rest)) (fval (o_remainQty (ev_order me)))"
    and "\<exists>e. ev = Some e \<and> ev_lastPrice e = p \<and> o_orderId (ev_order e) = o_orderId rest
           \<and> fval (ev_lastQty e) = min (fval (o_remainQty rest)) (fval (o_remainQty (ev_order me)))"
proof -
  let ?m = "o_remainQty (ev_order me)" and ?r = "o_remainQty rest"
  let ?f = "std_min ?r ?m"
  have fin: "is_fin ?m" "is_fin ?r" using assms(2,3) by (auto simp: rest_ok_def qty_ok_def)
  have f: "whole ?f" "fval ?f = min (fval ?r) (fval ?m)"
    using std_min_fin[OF fin(2,1)] w by auto
  have e: "o_remainQty (ev_order me') = fsub ?m ?f" "o_remainQty rest' = fsub ?r ?f"
    using res assms(1) by (auto simp: fillOrder_def Let_def)
  show "\<exists>e. ev = Some e \<and> ev_lastPrice e = p \<and> o_orderId (ev_order e) = o_orderId rest
           \<and> fval (ev_lastQty e) = min (fval ?r) (fval ?m)"
    using res assms(1) f(2) by (auto simp: fillOrder_def Let_def)
  show "whole (o_remainQty rest')" "whole (o_remainQty (ev_order me'))"
    "fval (o_remainQty rest') = fval ?r - min (fval ?r) (fval ?m)"
    "fval (o_remainQty (ev_order me')) = fval ?m - min (fval ?r) (fval ?m)"
    using whole_fsub[OF w(1) f(1)] whole_fsub[OF w(2) f(1)] f(2) by (auto simp: e)
qed

section \<open>One price level\<close>

text \<open>What a node keeps while it is in a list.\<close>

definition nkey :: "node \<times> Order \<Rightarrow> node \<times> UserId \<times> OrderId \<times> Quantity \<times> Side" where
  "nkey n = (fst n, o_userId (snd n), o_orderId (snd n), o_originalQty (snd n), o_side (snd n))"

definition oids :: "OrderList \<Rightarrow> OrderId set" where
  "oids l = (\<lambda>n. o_orderId (snd n)) ` set l"

text \<open>What filling leaves of the book object: only prices, tick, events and one id map move.\<close>

definition same_frame :: "order_book \<Rightarrow> order_book \<Rightarrow> bool" where
  "same_frame ob ob' \<longleftrightarrow> m_name ob' = m_name ob \<and> m_ask_book ob' = m_ask_book ob
     \<and> m_bid_book ob' = m_bid_book ob \<and> m_next_node ob' = m_next_node ob
     \<and> m_bid_readers ob' = m_bid_readers ob \<and> m_ask_readers ob' = m_ask_readers ob"

lemma same_frame_refl [simp]: "same_frame ob ob"
  by (simp add: same_frame_def)

lemma same_frame_trans: "same_frame a b \<Longrightarrow> same_frame b c \<Longrightarrow> same_frame a c"
  by (simp add: same_frame_def)

lemma same_frame_push_event [frame]: "same_frame ob (push_event e ob)"
  by (simp add: same_frame_def push_event_def)

lemma same_frame_computeTick [frame]: "same_frame ob (computeTick ob)"
  by (simp add: same_frame_def computeTick_def)

lemma same_frame_computeTick_new [frame]: "same_frame ob (computeTick_new p ob)"
  by (simp add: same_frame_def computeTick_new_def computeTick_def)

lemma same_frame_removeFromIdMap [frame]: "same_frame ob (snd (removeFromIdMap bs x ob))"
  by (cases bs) (auto simp: same_frame_def removeFromIdMap_def split: option.split)

lemma ids_of_simps [simp]:
  "ids_of bs (push_event e ob) = ids_of bs ob"
  "ids_of bs (computeTick ob) = ids_of bs ob"
  "ids_of bs (computeTick_new p ob) = ids_of bs ob"
  "ids_of bs (set_book bs' b ob) = ids_of bs ob"
  "ids_of bs (set_ids bs m ob) = m"
  "ids_of (other bs) (set_ids bs m ob) = ids_of (other bs) ob"
  "ids_of bs (set_ids (other bs) m ob) = ids_of bs ob"
  by (cases bs; simp add: push_event_def computeTick_def computeTick_new_def;
      cases bs'; simp)+

lemma ids_of_removeFromIdMap [simp]:
  "ids_of bs (snd (removeFromIdMap bs x ob)) = (ids_of bs ob)(x := None)"
  "ids_of (other bs) (snd (removeFromIdMap bs x ob)) = ids_of (other bs) ob"
  by (auto simp: removeFromIdMap_def split: option.split)

lemma m_event_output_simps [simp]:
  "m_event_output (push_event e ob) = m_event_output ob @ [e]"
  "m_event_output (computeTick ob) = m_event_output ob"
  "m_event_output (computeTick_new p ob) = m_event_output ob"
  "m_event_output (snd (removeFromIdMap bs x ob)) = m_event_output ob"
  "m_event_output (set_book bs b ob) = m_event_output ob"
  "m_event_output (set_ids bs m ob) = m_event_output ob"
  by (cases bs; simp add: push_event_def computeTick_def computeTick_new_def removeFromIdMap_def
      split: option.split)+

text \<open>One round of the inner loop, as a case distinction for the inductions below.\<close>

lemma fill_level_cons:
  assumes fill: "fill_level dg bs p ob me ((a, rest) # ns) = (l', ob', me', done)"
    and rest: "rest_ok rest" and main: "qty_ok (o_remainQty (ev_order me))"
    and dg: "reads_stale dg"
  obtains (skip) ns' where "o_userId rest = o_userId (ev_order me)"
      "fill_level dg bs p ob me ns = (ns', ob', me', done)" "l' = (a, rest) # ns'"
  | (trade) st me1 rest1 e ob1 kept ns' where "o_userId rest \<noteq> o_userId (ev_order me)"
      "fillOrder me p rest = (st, me1, rest1, Some e)"
      "ids_of bs ob1 = (if st = FS_Filled then (ids_of bs ob)(o_orderId rest := None) else ids_of bs ob)"
      "ids_of (other bs) ob1 = ids_of (other bs) ob" "same_frame ob ob1"
      "m_event_output ob1 = m_event_output ob @ [e]"
      "kept = (if st = FS_Filled then [] else [(a, rest1)])" "l' = kept @ ns'"
      "if fval (o_remainQty (ev_order me1)) = 0
       then ns' = ns \<and> me' = me1\<lparr>ev_execStatus := OS_Filled\<rparr> \<and> ob' = push_event me' ob1 \<and> done
       else fill_level dg bs p ob1 me1 ns = (ns', ob', me', done)"
proof (cases "o_userId rest = o_userId (ev_order me)")
  case True
  obtain ns' r where "fill_level dg bs p ob me ns = (ns', r)" by (cases "fill_level dg bs p ob me ns")
  with True fill show thesis
    by (intro skip[of ns']) (auto simp: fillOrder_same_user)
next
  case False
  obtain st me1 rest1 ev where f: "fillOrder me p rest = (st, me1, rest1, ev)"
    by (metis prod_cases4)
  note o' = fillOrder_other[OF False rest main f]
  obtain e where e: "ev = Some e" using o'(8) by blast
  have st: "st \<noteq> FS_Skipped" using o'(7) by (auto split: if_splits)
  define ob1 where "ob1 = computeTick_new p (if st = FS_Filled
    then snd (removeFromIdMap bs (dg_orderId dg rest1) (push_event e ob)) else push_event e ob)"
  have oid: "dg_orderId dg rest1 = o_orderId rest"
    using dg o'(1) by (simp add: reads_stale_def same_order_def)
  have fr: "same_frame ob ob1"
    unfolding ob1_def if_distrib[of "same_frame ob"] if_distrib[of "computeTick_new p"]
    by (metis same_frame_computeTick_new same_frame_push_event same_frame_removeFromIdMap same_frame_trans)
  have z: "feq (o_remainQty (ev_order me1)) fzero \<longleftrightarrow> fval (o_remainQty (ev_order me1)) = 0"
    by (rule feq_zero) (rule o'(4))
  let ?kept = "if st = FS_Filled then [] else [(a, rest1)]"
  define m where "m = me1\<lparr>ev_execStatus := OS_Filled\<rparr>"
  have unf: "fill_level dg bs p ob me ((a, rest) # ns) =
      (if fval (o_remainQty (ev_order me1)) = 0 then (?kept @ ns, push_event m ob1, m, True)
       else (case fill_level dg bs p ob1 me1 ns of (ns', r) \<Rightarrow> (?kept @ ns', r)))"
    using st by (cases st) (simp_all add: f e ob1_def Let_def z m_def)
  show thesis
  proof (cases "fval (o_remainQty (ev_order me1)) = 0")
    case True
    with fill unf have "l' = ?kept @ ns" "ob' = push_event m ob1" "me' = m" "done" by auto
    with True show thesis
      by (intro trade[OF False f[unfolded e], of ob1 ?kept ns])
        (auto simp: fr, auto simp: ob1_def oid m_def)
  next
    case nz: False
    obtain ns' r where r: "fill_level dg bs p ob1 me1 ns = (ns', r)" by (cases "fill_level dg bs p ob1 me1 ns")
    with fill unf nz have "l' = ?kept @ ns'" "r = (ob', me', done)" by auto
    with nz r show thesis
      by (intro trade[OF False f[unfolded e], of ob1 ?kept ns'])
        (auto simp: fr, auto simp: ob1_def oid)
  qed
qed

text \<open>What is left of the incoming order.\<close>

definition left_ok :: "Event \<Rightarrow> bool" where
  "left_ok me \<longleftrightarrow> wf_f32 (o_remainQty (ev_order me)) \<and> is_fin (o_remainQty (ev_order me))
     \<and> 0 \<le> fval (o_remainQty (ev_order me))"

lemma qty_ok_left: "qty_ok (o_remainQty (ev_order me)) \<longleftrightarrow> left_ok me \<and> fval (o_remainQty (ev_order me)) \<noteq> 0"
  by (auto simp: qty_ok_def left_ok_def)

definition level_ok :: "OrderList \<Rightarrow> bool" where
  "level_ok l \<longleftrightarrow> (\<forall>n \<in> set l. rest_ok (snd n)) \<and> distinct (map (\<lambda>n. o_orderId (snd n)) l)"

lemma level_ok_Cons: "level_ok ((a, r) # l) \<longleftrightarrow> rest_ok r \<and> o_orderId r \<notin> oids l \<and> level_ok l"
  by (auto simp: level_ok_def oids_def)

lemma oids_Cons [simp]: "oids ((a, r) # l) = insert (o_orderId r) (oids l)"
  by (simp add: oids_def)

lemma oids_Nil [simp]: "oids [] = {}"
  by (simp add: oids_def)

lemma oids_append [simp]: "oids (l @ l') = oids l \<union> oids l'"
  by (simp add: oids_def image_Un)

lemma oids_nkey: "oids l = (\<lambda>(a, u, x, q, s). x) ` set (map nkey l)"
  by (force simp: oids_def nkey_def)

lemma oids_subseq: "subseq (map nkey l') (map nkey l) \<Longrightarrow> oids l' \<subseteq> oids l"
  unfolding oids_nkey by (intro image_mono subsetI) (blast elim: list_emb_set)

lemma nkey_same: "same_order r r' \<Longrightarrow> nkey (a, r') = nkey (a, r)"
  by (simp add: nkey_def same_order_def)

text \<open>
  One level after the loop: the nodes left keep their place and identity, each still holds a
  sound order, and the id map has lost exactly the identifiers that left the list.
\<close>

lemma fill_level_inv:
  assumes dg: "reads_stale dg"
    and "level_ok l" "qty_ok (o_remainQty (ev_order me))"
    and "fill_level dg bs p ob me l = (l', ob', me', done)"
  shows "subseq (map nkey l') (map nkey l) \<and> (\<forall>n \<in> set l'. rest_ok (snd n))
    \<and> (\<forall>x. ids_of bs ob' x = (if x \<in> oids l \<and> x \<notin> oids l' then None else ids_of bs ob x))
    \<and> ids_of (other bs) ob' = ids_of (other bs) ob \<and> same_frame ob ob'
    \<and> left_ok me' \<and> (done \<longleftrightarrow> fval (o_remainQty (ev_order me')) = 0)
    \<and> o_userId (ev_order me') = o_userId (ev_order me)
    \<and> fval (o_remainQty (ev_order me')) \<le> fval (o_remainQty (ev_order me))"
  using assms(2-)
proof (induction l arbitrary: ob me l' ob' me')
  case Nil
  then show ?case by (auto simp: qty_ok_left)
next
  case (Cons n ns)
  obtain a rest where n: "n = (a, rest)" by (cases n)
  from Cons.prems(1) n have r: "rest_ok rest" "o_orderId rest \<notin> oids ns" "level_ok ns"
    by (auto simp: level_ok_Cons)
  from Cons.prems(3)[unfolded n] r(1) Cons.prems(2) dg show ?case
  proof (cases rule: fill_level_cons)
    case (skip ns')
    with Cons.IH[OF r(3) Cons.prems(2) skip(2)] show ?thesis
      using r(1,2) by (auto simp: n dest: oids_subseq)
  next
    case (trade st me1 rest1 e ob1 kept ns')
    note o' = fillOrder_other[OF trade(1) r(1) Cons.prems(2) trade(2)]
    have l1: "left_ok me1" using o' by (simp add: left_ok_def)
    have kept: "subseq (map nkey kept) [nkey n]" "\<forall>n \<in> set kept. rest_ok (snd n)"
      "oids kept = (if st = FS_Filled then {} else {o_orderId rest})"
      using o'(1,7) trade(7) nkey_same[OF o'(1)] by (auto simp: n same_order_def split: if_splits)
    show ?thesis
    proof (cases "fval (o_remainQty (ev_order me1)) = 0")
      case True
      with trade have e: "l' = kept @ ns" "me' = me1\<lparr>ev_execStatus := OS_Filled\<rparr>"
        "ob' = push_event me' ob1" "done" by auto
      have "subseq (map nkey l') (map nkey (n # ns))"
        using list_emb_append_mono[OF kept(1) subseq_order.order_refl[of "map nkey ns"]] by (simp add: e(1))
      moreover have "same_frame ob ob'" unfolding e(3) by (blast intro: same_frame_trans frame trade(5))
      ultimately show ?thesis
        using r l1 o'(2,5) kept True by (auto simp: e n trade(3,4) left_ok_def level_ok_def)
    next
      case False
      with trade(9) have f: "fill_level dg bs p ob1 me1 ns = (ns', ob', me', done)" by simp
      note IH = Cons.IH[OF r(3) _ f, unfolded qty_ok_left] 
      have "subseq (map nkey l') (map nkey (n # ns))"
        using list_emb_append_mono[OF kept(1)] IH l1 False by (simp add: trade(8))
      moreover have "same_frame ob ob'" using IH l1 False by (blast intro: same_frame_trans trade(5))
      ultimately show ?thesis
        using r(2) IH l1 False o'(2,5) kept
        by (auto simp: trade(3,4,8) n dest: oids_subseq)
    qed
  qed
qed

section \<open>The levels of a book\<close>

definition book_sub :: "book \<Rightarrow> book \<Rightarrow> bool" where
  "book_sub b' b \<longleftrightarrow>
     list_all2 (\<lambda>x y. fst x = fst y \<and> subseq (map nkey (snd x)) (map nkey (snd y))) b' b"

lemma book_sub_simps [simp]:
  "book_sub [] b \<longleftrightarrow> b = []"
  "book_sub b' [] \<longleftrightarrow> b' = []"
  "book_sub ((p, l') # b') ((q, l) # b) \<longleftrightarrow> p = q \<and> subseq (map nkey l') (map nkey l) \<and> book_sub b' b"
  by (auto simp: book_sub_def)

lemma book_sub_refl [simp]: "book_sub b b"
  by (simp add: book_sub_def list_all2_refl)

lemma book_sub_keys: "book_sub b' b \<Longrightarrow> map fst b' = map fst b"
  unfolding book_sub_def by (induction rule: list_all2_induct) auto

lemma book_nodes_simps [simp]:
  "book_nodes [] = []" "book_nodes ((p, l) # b) = l @ book_nodes b"
  by (simp_all add: book_nodes_def)

lemma book_sub_nodes: "book_sub b' b \<Longrightarrow> subseq (map nkey (book_nodes b')) (map nkey (book_nodes b))"
  unfolding book_sub_def
proof (induction rule: list_all2_induct)
  case (Cons x xs y ys)
  then show ?case by (cases x; cases y) (auto intro: list_emb_append_mono)
qed simp

lemma level_ok_append:
  "level_ok (l @ l') \<longleftrightarrow> level_ok l \<and> level_ok l' \<and> oids l \<inter> oids l' = {}"
  unfolding level_ok_def oids_def by auto

lemma same_frame_allowTick [frame]: "allowTick s ob = (ok, ob') \<Longrightarrow> same_frame ob ob'"
  by (auto simp: allowTick_def Let_def frame)

lemma ids_of_allowTick: "allowTick s ob = (ok, ob') \<Longrightarrow> ids_of bs ob' = ids_of bs ob"
  by (auto simp: allowTick_def Let_def)

lemma fill_end_frame:
  "fill_end oi ob me = (ob', r) \<Longrightarrow> same_frame ob ob' \<and> (\<forall>bs. ids_of bs ob' = ids_of bs ob)
     \<and> fst r = o_remainQty (ev_order me)"
  by (auto simp: fill_end_def Let_def frame)

definition rem_ok :: "Quantity \<Rightarrow> bool" where
  "rem_ok q \<longleftrightarrow> wf_f32 q \<and> is_fin q \<and> 0 \<le> fval q"

lemma fill_levels_inv:
  assumes dg: "reads_stale dg"
    and "level_ok (book_nodes b)" "qty_ok (o_remainQty (ev_order me))"
    and "fill_levels dg bs cmp oi ob me b = (b', ob', r)"
  shows "book_sub b' b \<and> (\<forall>n \<in> set (book_nodes b'). rest_ok (snd n))
    \<and> (\<forall>x. ids_of bs ob' x = (if x \<in> oids (book_nodes b) \<and> x \<notin> oids (book_nodes b') then None
             else ids_of bs ob x))
    \<and> ids_of (other bs) ob' = ids_of (other bs) ob \<and> same_frame ob ob' \<and> rem_ok (fst r)
    \<and> fval (fst r) \<le> fval (o_remainQty (ev_order me))"
  using assms(2-)
proof (induction b arbitrary: ob me b' ob' r)
  case Nil
  then show ?case
    by (auto dest: fill_end_frame simp: rem_ok_def qty_ok_def)
next
  case (Cons x b)
  obtain p l where x: "x = (p, l)" by (cases x)
  from Cons.prems(1) x have l: "level_ok l" "level_ok (book_nodes b)" "oids l \<inter> oids (book_nodes b) = {}"
    by (auto simp: level_ok_append)
  have all: "\<forall>n \<in> set (book_nodes (x # b)). rest_ok (snd n)"
    using Cons.prems(1) by (simp add: level_ok_def)
  have rem: "rem_ok (o_remainQty (ev_order me))"
    using Cons.prems(2) by (simp add: rem_ok_def qty_ok_def)
  obtain ok ob1 where tick: "allowTick (o_side (oi_order oi)) ob = (ok, ob1)"
    by (cases "allowTick (o_side (oi_order oi)) ob")
  have fr: "same_frame ob ob1" "ids_of s ob1 = ids_of s ob" for s
    using tick by (blast intro: frame ids_of_allowTick)+
  obtain l' ob2 me' don where f: "fill_level dg bs p ob1 me l = (l', ob2, me', don)"
    by (metis prod_cases4)
  note L = fill_level_inv[OF dg l(1) Cons.prems(2) f]
  have sub: "oids l' \<subseteq> oids l" by (rule oids_subseq[OF conjunct1[OF L]])
  show ?case
  proof (cases "\<not> cmp p (oi_price oi) \<or> \<not> ok")
    case True
    with Cons.prems(3) fr all rem show ?thesis
      by (auto simp: x tick dest: fill_end_frame split: if_splits)
  next
    case go: False
    show ?thesis
    proof (cases don)
    case True
    with go Cons.prems(3) have e: "b' = (p, l') # b" "ob' = ob2" "fst r = fzero"
      by (auto simp: x tick f)
    have "same_frame ob ob2" using L fr by (blast intro: same_frame_trans)
    moreover have "\<forall>n \<in> set (book_nodes b'). rest_ok (snd n)" using L all by (simp add: e x ball_Un)
    ultimately show ?thesis using L fr sub l(3) rem by (auto simp: x e rem_ok_def)
  next
    case False
    obtain b1 r1 where g: "fill_levels dg bs cmp oi ob2 me' b = (b1, r1)"
      by (cases "fill_levels dg bs cmp oi ob2 me' b")
    with go False Cons.prems(3) have e: "b' = (p, l') # b1" "r1 = (ob', r)"
      by (auto simp: x tick f)
    have q: "qty_ok (o_remainQty (ev_order me'))" using L False by (simp add: qty_ok_left)
    note IH = Cons.IH[OF l(2) q g[unfolded e(2)]]
    have "oids (book_nodes b1) \<subseteq> oids (book_nodes b)"
      by (rule oids_subseq[OF book_sub_nodes[OF conjunct1[OF IH]]])
    moreover have "same_frame ob ob'" using L fr IH by (blast intro: same_frame_trans)
    moreover have "\<forall>n \<in> set (book_nodes b'). rest_ok (snd n)" using L IH by (simp add: e ball_Un)
    ultimately show ?thesis using IH L fr sub l(3) by (auto simp: e x)
    qed
  qed
qed

end
