(* ===== verification/BookInv.thy ===== *)
theory BookInv
  imports BookFill
begin

text \<open>
  The invariant of \<^verbatim>\<open>OrderBook\<close>: on each side the levels are sorted by price, every order has
  something left and sits on the right side, and the id map holds exactly the orders of the
  book, each with the address and the price of its node. Every operation keeps it.
\<close>

section \<open>The invariant\<close>

definition entry_ok :: "book_side \<Rightarrow> node \<Rightarrow> OrderIdMap \<Rightarrow> Price \<Rightarrow> node \<times> Order \<Rightarrow> bool" where
  "entry_ok bs nx ids p n \<longleftrightarrow> fst n < nx \<and> side_of (o_side (snd n)) = Some bs
     \<and> (\<exists>i. ids (o_orderId (snd n)) = Some i \<and> ii_Order i = fst n
           \<and> is_fin (ii_price i) \<and> fval (ii_price i) = fval p)"

definition side_inv :: "book_side \<Rightarrow> node \<Rightarrow> book \<Rightarrow> OrderIdMap \<Rightarrow> bool" where
  "side_inv bs nx b ids \<longleftrightarrow> ladder_sorted (book_lt bs) b \<and> (\<forall>k \<in> fst ` set b. is_fin k)
     \<and> distinct (map fst (book_nodes b)) \<and> level_ok (book_nodes b)
     \<and> (\<forall>(p, l) \<in> set b. \<forall>n \<in> set l. entry_ok bs nx ids p n)
     \<and> dom ids = oids (book_nodes b)"

definition ob_inv :: "order_book \<Rightarrow> bool" where
  "ob_inv ob \<longleftrightarrow> side_inv BidSide (m_next_node ob) (m_bid_book ob) (m_bid_id ob)
     \<and> side_inv AskSide (m_next_node ob) (m_ask_book ob) (m_ask_id ob)
     \<and> dom (m_bid_id ob) \<inter> dom (m_ask_id ob) = {}"

lemma other_other [simp]: "other (other bs) = bs"
  by (cases bs) auto

lemma other_neq [simp]: "other bs \<noteq> bs" "bs \<noteq> other bs"
  by (cases bs; simp)+

lemma ob_inv_two: "ob_inv ob \<longleftrightarrow>
    side_inv bs (m_next_node ob) (book_of bs ob) (ids_of bs ob)
  \<and> side_inv (other bs) (m_next_node ob) (book_of (other bs) ob) (ids_of (other bs) ob)
  \<and> dom (ids_of bs ob) \<inter> dom (ids_of (other bs) ob) = {}"
  by (cases bs) (auto simp: ob_inv_def)

text \<open>An order a client may submit: a positive finite quantity, none of it executed.\<close>

definition order_ok :: "OrderInfo \<Rightarrow> bool" where
  "order_ok oi \<longleftrightarrow> rest_ok (oi_order oi) \<and> is_fin (oi_price oi)"

lemma book_lt_sides: "book_lt bs = flt \<or> book_lt bs = fgt"
  by (cases bs) auto

text \<open>The laws of the two ladders, for either side.\<close>

lemma ladder_sorted_upd:
  "ladder_sorted (book_lt bs) b \<Longrightarrow> ladder_sorted (book_lt bs) (ladder_upd (book_lt bs) p f d b)"
  by (cases bs) (simp_all add: ask.sorted_upd bid.sorted_upd)

lemma book_lt_fin: "is_fin p \<Longrightarrow> is_fin q \<Longrightarrow>
    book_lt bs p q \<longleftrightarrow> (case bs of AskSide \<Rightarrow> fval p < fval q | BidSide \<Rightarrow> fval q < fval p)"
  by (cases bs) (auto simp: flt_fin fgt_def)

section \<open>Updating one level\<close>

text \<open>With finite keys, \<open>ladder_upd\<close> splits the book at the level it touches.\<close>

lemma ladder_upd_split:
  assumes "ladder_sorted (book_lt bs) b" "\<forall>k \<in> fst ` set b. is_fin k" "is_fin p"
  shows "(\<exists>b1 k v b2. b = b1 @ (k, v) # b2 \<and> fval k = fval p \<and> is_fin k
            \<and> ladder_upd (book_lt bs) p f d b = b1 @ (k, f v) # b2
            \<and> ladder_find (book_lt bs) p b = Some v)
       \<or> (\<exists>b1 b2. b = b1 @ b2 \<and> ladder_upd (book_lt bs) p f d b = b1 @ (p, f d) # b2
            \<and> ladder_find (book_lt bs) p b = None)"
  using assms(1,2)
proof (induction b)
  case Nil
  then show ?case by auto
next
  case (Cons x b)
  obtain k v where x: "x = (k, v)" by (cases x)
  have fin: "is_fin k" "is_fin p" using Cons.prems(2) assms(3) by (auto simp: x)
  consider "book_lt bs k p" | "book_lt bs p k" "\<not> book_lt bs k p" | "fval k = fval p"
    "\<not> book_lt bs k p" "\<not> book_lt bs p k"
    using fin book_lt_fin[OF fin, of bs] book_lt_fin[OF fin(2,1), of bs] by (cases bs) force+
  then show ?case
  proof cases
    case 1
    from Cons.prems have "ladder_sorted (book_lt bs) b" "\<forall>k \<in> fst ` set b. is_fin k" by (auto simp: x)
    from Cons.IH[OF this] show ?thesis
    proof (elim disjE exE conjE, goal_cases)
      case (1 b1 k' v' b2)
      then show ?case
        using \<open>book_lt bs k p\<close> by (intro disjI1 exI[of _ "x # b1"] exI[of _ k'] exI[of _ v'] exI[of _ b2]) (simp add: x)
    next
      case (2 b1 b2)
      then show ?case
        using \<open>book_lt bs k p\<close> by (intro disjI2 exI[of _ "x # b1"] exI[of _ b2]) (simp add: x)
    qed
  next
    case 2
    show ?thesis by (rule disjI2, rule exI[of _ "[]"]) (use 2 in \<open>auto simp: x\<close>)
  next
    case 3
    show ?thesis by (rule disjI1, rule exI[of _ "[]"]) (use 3 fin in \<open>auto simp: x\<close>)
  qed
qed

section \<open>Filling keeps a side sound\<close>

lemma book_sub_entry:
  "book_sub b' b \<Longrightarrow> (p, l') \<in> set b' \<Longrightarrow> n' \<in> set l' \<Longrightarrow>
     \<exists>l n. (p, l) \<in> set b \<and> n \<in> set l \<and> nkey n' = nkey n"
  unfolding book_sub_def
proof (induction rule: list_all2_induct)
  case (Cons x xs y ys)
  show ?case
  proof (cases "(p, l') = x")
    case True
    with Cons have "nkey n' \<in> nkey ` set (snd y)" "fst y = p"
      by (auto elim!: list_emb_set[of _ _ _ "nkey n'"])
    then show ?thesis by (cases y) auto
  qed (use Cons in auto)
qed simp

lemma subseq_distinct: "subseq xs ys \<Longrightarrow> distinct ys \<Longrightarrow> distinct xs"
  by (induction rule: list_emb.induct) (auto elim: list_emb_set)

lemma subseq_distinct_map: "subseq (map f xs) (map f ys) \<Longrightarrow> distinct (map (g \<circ> f) ys) \<Longrightarrow> distinct (map (g \<circ> f) xs)"
  unfolding map_map[symmetric] by (meson subseq_map subseq_distinct)

lemma nkey_projections:
  "fst = fst \<circ> nkey" "(\<lambda>n. o_orderId (snd n)) = (\<lambda>(a, u, x, r). x) \<circ> nkey"
  by (auto simp: nkey_def)

lemma entry_ok_nkey: "nkey n' = nkey n \<Longrightarrow> entry_ok bs nx ids p n' = entry_ok bs nx ids p n"
  by (simp add: entry_ok_def nkey_def)

lemma entry_ok_ids: "ids' (o_orderId (snd n)) = ids (o_orderId (snd n)) \<Longrightarrow>
    entry_ok bs nx ids' p n = entry_ok bs nx ids p n"
  by (simp add: entry_ok_def)

lemma oids_entry: "(p, l) \<in> set b \<Longrightarrow> n \<in> set l \<Longrightarrow> o_orderId (snd n) \<in> oids (book_nodes b)"
  by (force simp: oids_def book_nodes_def)

lemma side_inv_filled:
  assumes inv: "side_inv bs nx b ids" and sub: "book_sub b' b"
    and rest: "\<forall>n \<in> set (book_nodes b'). rest_ok (snd n)"
    and ids': "\<forall>x. ids' x = (if x \<in> oids (book_nodes b) \<and> x \<notin> oids (book_nodes b') then None else ids x)"
  shows "side_inv bs nx b' ids'"
  unfolding side_inv_def
proof (intro conjI)
  note nodes = book_sub_nodes[OF sub]
  have keys: "map fst b' = map fst b" by (rule book_sub_keys[OF sub])
  from inv keys show "ladder_sorted (book_lt bs) b'"
    by (simp add: side_inv_def ladder_sorted_keys[OF keys])
  have "fst ` set b' = fst ` set b" using arg_cong[OF keys, of set] by simp
  moreover from inv have "\<forall>k \<in> fst ` set b. is_fin k" unfolding side_inv_def by blast
  ultimately show "\<forall>k \<in> fst ` set b'. is_fin k" by simp
  show "distinct (map fst (book_nodes b'))"
    using subseq_distinct_map[OF nodes, of fst] inv by (simp add: side_inv_def flip: nkey_projections(1))
  show "level_ok (book_nodes b')"
    using subseq_distinct_map[OF nodes, of "\<lambda>(a, u, x, r). x"] inv rest
    by (simp add: side_inv_def level_ok_def flip: nkey_projections(2))
  show "\<forall>(p, l) \<in> set b'. \<forall>n \<in> set l. entry_ok bs nx ids' p n"
  proof (safe, rename_tac p l' a r)
    fix p l' a r
    assume i: "(p, l') \<in> set b'" "(a, r) \<in> set l'"
    then obtain l n where n: "(p, l) \<in> set b" "n \<in> set l" "nkey (a, r) = nkey n"
      using book_sub_entry[OF sub] by blast
    have "\<forall>(p, l) \<in> set b. \<forall>n \<in> set l. entry_ok bs nx ids p n"
      using inv unfolding side_inv_def by blast
    with n(1,2) have "entry_ok bs nx ids p n" by fast
    then have "entry_ok bs nx ids p (a, r)" by (simp only: entry_ok_nkey[OF n(3)])
    moreover have "o_orderId r \<in> oids (book_nodes b')" using oids_entry[OF i] by simp
    ultimately show "entry_ok bs nx ids' p (a, r)" using ids' entry_ok_ids[of ids' "(a, r)" ids] by simp
  qed
  have "dom ids = oids (book_nodes b)" using inv by (simp add: side_inv_def)
  moreover have "oids (book_nodes b') \<subseteq> oids (book_nodes b)" by (rule oids_subseq[OF nodes])
  ultimately show "dom ids' = oids (book_nodes b')"
    using ids' by (auto simp: dom_def set_eq_iff split: if_splits)
qed

section \<open>Inserting and erasing\<close>

lemma book_nodes_append [simp]: "book_nodes (b1 @ b2) = book_nodes b1 @ book_nodes b2"
  by (simp add: book_nodes_def)

lemma level_ok_perm: "set l' = set l \<Longrightarrow> length l' = length l \<Longrightarrow> level_ok l \<Longrightarrow> level_ok l'"
  unfolding level_ok_def
  by (metis (no_types, lifting) card_distinct distinct_card length_map list.set_map)

text \<open>Where \<open>ladder_upd\<close> appends a node: the other nodes stay, in the same order.\<close>

lemma ladder_upd_append:
  assumes "ladder_sorted (book_lt bs) b" "\<forall>k \<in> fst ` set b. is_fin k" "is_fin p"
  shows "\<exists>xs ys. book_nodes b = xs @ ys
    \<and> book_nodes (ladder_upd (book_lt bs) p (\<lambda>l. l @ [n]) [] b) = xs @ n # ys"
    and "(q, l) \<in> set (ladder_upd (book_lt bs) p (\<lambda>l. l @ [n]) [] b) \<Longrightarrow> m \<in> set l
      \<Longrightarrow> (m = n \<and> fval q = fval p) \<or> (\<exists>l0. (q, l0) \<in> set b \<and> m \<in> set l0)"
  using ladder_upd_split[OF assms, of "\<lambda>l. l @ [n]" "[]"]
  by (elim disjE exE conjE; simp; metis append_assoc)
    (use ladder_upd_split[OF assms, of "\<lambda>l. l @ [n]" "[]"] in \<open>elim disjE exE conjE; auto\<close>)

lemma side_inv_insert:
  assumes inv: "side_inv bs nx b ids" and r: "rest_ok r" "side_of (o_side r) = Some bs"
    and p: "is_fin p" and new: "ids (o_orderId r) = None"
  shows "side_inv bs (Suc nx) (ladder_upd (book_lt bs) p (\<lambda>l. l @ [(nx, r)]) [] b)
           (ids(o_orderId r \<mapsto> \<lparr>ii_Order = nx, ii_price = p\<rparr>))"
    (is "side_inv bs _ ?b ?ids")
proof -
  have I: "ladder_sorted (book_lt bs) b" "\<forall>k \<in> fst ` set b. is_fin k"
    "distinct (map fst (book_nodes b))" "level_ok (book_nodes b)"
    "\<forall>(p, l) \<in> set b. \<forall>n \<in> set l. entry_ok bs nx ids p n" "dom ids = oids (book_nodes b)"
    using inv unfolding side_inv_def by blast+
  note A = ladder_upd_append[OF I(1,2) p, where n = "(nx, r)"]
  obtain xs ys where xy: "book_nodes b = xs @ ys" "book_nodes ?b = xs @ (nx, r) # ys" using A(1) by blast
  have fresh: "o_orderId r \<notin> oids (book_nodes b)" using new I(6) by auto
  have old: "fst n < nx" if "n \<in> set (book_nodes b)" for n
    using that I(5) by (fastforce simp: book_nodes_def entry_ok_def)
  show ?thesis unfolding side_inv_def
  proof (intro conjI)
    show "ladder_sorted (book_lt bs) ?b" by (rule ladder_sorted_upd[OF I(1)])
    show "\<forall>k \<in> fst ` set ?b. is_fin k"
      using ladder_keys_upd[of "book_lt bs" p "\<lambda>l. l @ [(nx, r)]" "[]" b] I(2) p by blast
    show "distinct (map fst (book_nodes ?b))" using I(3) old by (force simp: xy)
    show "level_ok (book_nodes ?b)"
      using I(4) fresh r(1) by (auto simp: xy level_ok_append level_ok_Cons)
    show "dom ?ids = oids (book_nodes ?b)" using I(6) by (simp add: xy)
    show "\<forall>(q, l) \<in> set ?b. \<forall>n \<in> set l. entry_ok bs (Suc nx) ?ids q n"
    proof (safe, rename_tac q l a s)
      fix q l a s assume "(q, l) \<in> set ?b" "(a, s) \<in> set l"
      from A(2)[OF this] show "entry_ok bs (Suc nx) ?ids q (a, s)"
      proof
        assume "(a, s) = (nx, r) \<and> fval q = fval p"
        with r(2) p show ?thesis by (auto simp: entry_ok_def)
      next
        assume "\<exists>l0. (q, l0) \<in> set b \<and> (a, s) \<in> set l0"
        then obtain l0 where l0: "(q, l0) \<in> set b" "(a, s) \<in> set l0" by blast
        then have "o_orderId s \<noteq> o_orderId r" using fresh oids_entry by fastforce
        moreover have "entry_ok bs nx ids q (a, s)" using I(5) l0 by blast
        ultimately show ?thesis by (auto simp: entry_ok_def)
      qed
    qed
  qed
qed

text \<open>The entry of the id map leads to the node: the level is found and the node is in it.\<close>

lemma ladder_find_fin:
  assumes "ladder_sorted (book_lt bs) b" "\<forall>k \<in> fst ` set b. is_fin k" "is_fin p"
    and "(k, l) \<in> set b" "fval k = fval p"
  shows "ladder_find (book_lt bs) p b = Some l"
  using assms(1,2,4)
proof (induction b)
  case (Cons x b)
  obtain q v where x: "x = (q, v)" by (cases x)
  have fin: "is_fin q" "is_fin k" using Cons.prems by (auto simp: x)
  show ?case
  proof (cases "(k, l) = x")
    case True
    then show ?thesis using assms(3,5) fin by (auto simp: x book_lt_fin split: book_side.splits)
  next
    case False
    then have kl: "(k, l) \<in> set b" using Cons.prems by simp
    then have "book_lt bs q k" using Cons.prems(1) by (force simp: x)
    then have "book_lt bs q p" using assms(3,5) fin by (simp add: book_lt_fin split: book_side.splits)
    moreover have "ladder_find (book_lt bs) p b = Some l" using Cons kl by (auto simp: x)
    ultimately show ?thesis by (simp add: x)
  qed
qed simp

lemma side_inv_locate:
  assumes inv: "side_inv bs nx b ids" and i: "ids x = Some i"
  obtains k l r where "(k, l) \<in> set b" "(ii_Order i, r) \<in> set l" "o_orderId r = x"
    "side_of (o_side r) = Some bs" "is_fin (ii_price i)" "fval (ii_price i) = fval k"
    "ladder_find (book_lt bs) (ii_price i) b = Some l"
proof -
  have I: "ladder_sorted (book_lt bs) b" "\<forall>k \<in> fst ` set b. is_fin k"
    "\<forall>(p, l) \<in> set b. \<forall>n \<in> set l. entry_ok bs nx ids p n" "dom ids = oids (book_nodes b)"
    using inv unfolding side_inv_def by blast+
  have "x \<in> oids (book_nodes b)" using i I(4) by auto
  then obtain k l a r where kl: "(k, l) \<in> set b" "(a, r) \<in> set l" "o_orderId r = x"
    by (auto simp: oids_def book_nodes_def)
  then have "entry_ok bs nx ids k (a, r)" using I(3) by fast
  with i kl(3) have e: "ii_Order i = a" "side_of (o_side r) = Some bs" "is_fin (ii_price i)" "fval (ii_price i) = fval k"
    by (auto simp: entry_ok_def)
  show thesis
    by (rule that[of k l r]) (use kl e ladder_find_fin[OF I(1,2) e(3) kl(1)] in auto)
qed

lemma side_inv_erase:
  assumes inv: "side_inv bs nx b ids" and i: "ids x = Some i"
  shows "side_inv bs nx (ladder_upd (book_lt bs) (ii_price i) (erase_first (\<lambda>n. fst n = ii_Order i)) [] b)
           (ids(x := None))" (is "side_inv _ _ ?b _")
    and "ladder_upd (book_lt bs) (ii_price i) (erase_first (\<lambda>n. fst n = ii_Order i)) [] b
      = map (\<lambda>(p, l). (p, filter (\<lambda>n. o_orderId (snd n) \<noteq> x) l)) b" (is "_ = map ?g b")
proof -
  have I: "ladder_sorted (book_lt bs) b" "\<forall>k \<in> fst ` set b. is_fin k"
    "distinct (map fst (book_nodes b))" "level_ok (book_nodes b)"
    "\<forall>(p, l) \<in> set b. \<forall>n \<in> set l. entry_ok bs nx ids p n" "dom ids = oids (book_nodes b)"
    using inv unfolding side_inv_def by blast+
  obtain k l r where L: "(k, l) \<in> set b" "(ii_Order i, r) \<in> set l" "o_orderId r = x"
    "is_fin (ii_price i)" "ladder_find (book_lt bs) (ii_price i) b = Some l"
    using side_inv_locate[OF inv i] by metis
  let ?f = "erase_first (\<lambda>n. fst n = ii_Order i)"
  obtain b1 k' b2 where b: "b = b1 @ (k', l) # b2" "?b = b1 @ (k', ?f l) # b2"
    using ladder_upd_split[OF I(1,2) L(4), of ?f "[]"] L(5) by auto
  have sub: "subseq (?f xs) xs" for xs :: OrderList
    by (induction xs) auto
  have bsub: "book_sub ?b b"
    unfolding b(2) by (simp add: b(1) book_sub_def list_all2_append list_all2_refl subseq_map[OF sub])
  have "(ii_Order i, r) \<in> set (book_nodes b)" using L(1,2) by (force simp: book_nodes_def)
  then have iff: "(fst n = ii_Order i) = (n = (ii_Order i, r))" if "n \<in> set (book_nodes b)" for n
    using that I(3) by (auto simp: distinct_map inj_on_def)
  have only: "fst n = ii_Order i \<longleftrightarrow> o_orderId (snd n) = x" if "n \<in> set (book_nodes b)" for n
  proof -
    from that obtain p l where "(p, l) \<in> set b" "n \<in> set l" by (auto simp: book_nodes_def)
    with I(5) have "entry_ok bs nx ids p n" by fast
    then show ?thesis using i L(3) iff[OF that] by (auto simp: entry_ok_def)
  qed
  have dist: "distinct (map fst l)" "distinct (map fst (book_nodes b1))" using I(3) b(1) by auto
  have notin: "(ii_Order i, r) \<notin> set (book_nodes b1)" "(ii_Order i, r) \<notin> set (book_nodes b2)"
    using I(3) L(2) by (force simp: b(1))+
  have same: "map ?g c = c" if "set (book_nodes c) \<subseteq> set (book_nodes b)" "(ii_Order i, r) \<notin> set (book_nodes c)" for c
  proof (rule map_idI)
    fix e assume "e \<in> set c"
    then have "set (snd e) \<subseteq> set (book_nodes c)" by (auto simp: book_nodes_def)
    then have "\<forall>n \<in> set (snd e). o_orderId (snd n) \<noteq> x" using that iff only by (metis subsetD)
    then show "?g e = e" by (cases e) simp
  qed
  have "?f l = filter (\<lambda>n. o_orderId (snd n) \<noteq> x) l"
    unfolding erase_first_filter[OF dist(1)] using only by (intro filter_cong) (auto simp: b(1))
  moreover have "map ?g b1 = b1" by (rule same[OF _ notin(1)]) (simp add: b(1))
  moreover have "map ?g b2 = b2" by (rule same[OF _ notin(2)]) (auto simp: b(1))
  ultimately show g: "?b = map ?g b"
    unfolding b(2) by (simp add: b(1))
  then have nodes: "book_nodes ?b = filter (\<lambda>n. o_orderId (snd n) \<noteq> x) (book_nodes b)"
    by (simp add: book_nodes_def filter_concat comp_def case_prod_beta)
  show "side_inv bs nx ?b (ids(x := None))"
  proof (rule side_inv_filled[OF inv bsub])
    show "\<forall>n \<in> set (book_nodes ?b). rest_ok (snd n)" using I(4) by (simp add: nodes level_ok_def)
    show "\<forall>y. (ids(x := None)) y =
      (if y \<in> oids (book_nodes b) \<and> y \<notin> oids (book_nodes ?b) then None else ids y)"
      using I(6) i by (auto simp: nodes oids_def)
  qed
qed

section \<open>The operations keep the invariant\<close>

lemma book_of_simps [simp]:
  "book_of bs (set_book bs b ob) = b"
  "book_of (other bs) (set_book bs b ob) = book_of (other bs) ob"
  "book_of bs (set_book (other bs) b ob) = book_of bs ob"
  "book_of bs (set_ids bs' m ob) = book_of bs ob"
  "m_next_node (set_book bs b ob) = m_next_node ob"
  "m_next_node (set_ids bs m ob) = m_next_node ob"
  by (cases bs; simp; cases bs'; simp)+

lemma has_ids: "has x ob \<longleftrightarrow> x \<in> dom (ids_of bs ob) \<or> x \<in> dom (ids_of (other bs) ob)"
  by (cases bs) (auto simp: has_def)

lemma same_frame_books: "same_frame ob ob' \<Longrightarrow> book_of bs ob' = book_of bs ob \<and> m_next_node ob' = m_next_node ob"
  by (cases bs) (auto simp: same_frame_def)

lemma ob_inv_init: "ob_inv (OrderBook_init name)"
  by (simp add: ob_inv_def OrderBook_init_def side_inv_def level_ok_def)

text \<open>Filling the opposite book.\<close>

lemma fillOnBook_inv:
  assumes "reads_stale dg" "ob_inv ob" "rest_ok (oi_order oi)"
    and fill: "fillOnBook dg bs cmp oi ob = (ob', r)"
  shows "ob_inv ob'" "rem_ok (fst r)" "fval (fst r) \<le> fval (o_remainQty (oi_order oi))"
    and "book_of (other bs) ob' = book_of (other bs) ob" "ids_of (other bs) ob' = ids_of (other bs) ob"
    and "m_next_node ob' = m_next_node ob" "dom (ids_of bs ob') \<subseteq> dom (ids_of bs ob)"
proof -
  obtain b' ob1 where f: "fill_levels dg bs cmp oi ob (main_event oi) (book_of bs ob) = (b', ob1, r)"
    and ob': "ob' = set_book bs b' ob1"
    using fill unfolding fillOnBook_def by (auto split: prod.splits)
  have inv: "side_inv bs (m_next_node ob) (book_of bs ob) (ids_of bs ob)"
    "side_inv (other bs) (m_next_node ob) (book_of (other bs) ob) (ids_of (other bs) ob)"
    "dom (ids_of bs ob) \<inter> dom (ids_of (other bs) ob) = {}"
    using assms(2) ob_inv_two by blast+
  have l: "level_ok (book_nodes (book_of bs ob))" using inv(1) unfolding side_inv_def by blast
  have q: "qty_ok (o_remainQty (ev_order (main_event oi)))" using assms(3) by (simp add: main_event_def rest_ok_def)
  note F = fill_levels_inv[OF assms(1) l q f]
  have fr: "book_of s ob1 = book_of s ob" "m_next_node ob1 = m_next_node ob" for s
    using F same_frame_books by blast+
  have inv': "side_inv bs (m_next_node ob) b' (ids_of bs ob1)"
    by (rule side_inv_filled[OF inv(1)]) (use F in blast)+
  have sub: "dom (ids_of bs ob1) \<subseteq> dom (ids_of bs ob)" using F by (auto simp: dom_def split: if_splits)
  have oth: "ids_of (other bs) ob1 = ids_of (other bs) ob" using F by blast
  have "dom (ids_of bs ob1) \<inter> dom (ids_of (other bs) ob) = {}" using sub inv(3) by blast
  then show "ob_inv ob'"
    using inv(2) inv' fr oth by (simp add: ob_inv_two[of _ bs] ob')
  show "rem_ok (fst r)" "fval (fst r) \<le> fval (o_remainQty (oi_order oi))"
    "book_of (other bs) ob' = book_of (other bs) ob" "ids_of (other bs) ob' = ids_of (other bs) ob"
    "m_next_node ob' = m_next_node ob" "dom (ids_of bs ob') \<subseteq> dom (ids_of bs ob)"
    using F fr sub by (auto simp: ob' main_event_def)
qed

lemma addToBook_inv:
  assumes "ob_inv ob" "rest_ok r" "side_of (o_side r) = Some bs" "is_fin p" "\<not> has (o_orderId r) ob"
  shows "ob_inv (addToBook bs p r ob)"
proof -
  have inv: "side_inv bs (m_next_node ob) (book_of bs ob) (ids_of bs ob)"
    "side_inv (other bs) (m_next_node ob) (book_of (other bs) ob) (ids_of (other bs) ob)"
    "dom (ids_of bs ob) \<inter> dom (ids_of (other bs) ob) = {}"
    using assms(1) ob_inv_two by blast+
  have new: "ids_of bs ob (o_orderId r) = None" "o_orderId r \<notin> dom (ids_of (other bs) ob)"
    using assms(5) has_ids[of _ _ bs] by auto
  have "side_inv (other bs) (Suc (m_next_node ob)) (book_of (other bs) ob) (ids_of (other bs) ob)"
    using inv(2) unfolding side_inv_def entry_ok_def by fastforce
  moreover note side_inv_insert[OF inv(1) assms(2,3,4) new(1)]
  ultimately show ?thesis
    using inv(3) new by (cases bs) (auto simp: addToBook_def Let_def ob_inv_def)
qed

lemma resting_order_ok:
  assumes "rest_ok r" "rem_ok (fst q)" "fval (fst q) \<le> fval (o_remainQty r)" "\<not> feq (fst q) fzero"
  shows "rest_ok (resting_order r q)"
  using assms by (auto simp: rest_ok_def resting_order_def rem_ok_def qty_ok_def feq_zero)

lemma add_cases:
  assumes "add dg oi ob = Inr ob'"
  obtains bs ob1 r where "side_of (o_side (oi_order oi)) = Some bs"
    "fillOnBook dg (other bs) (book_cmp bs) oi ob = (ob1, r)"
    "ob' = (if feq (fst r) fzero then ob1
       else addToBook bs (oi_price oi) (resting_order (oi_order oi) r) ob1)"
  using assms by (auto simp: add_def split: option.splits prod.splits)

lemma resting_order_simps [simp]:
  "o_orderId (resting_order r q) = o_orderId r" "o_side (resting_order r q) = o_side r"
  "o_userId (resting_order r q) = o_userId r" "o_remainQty (resting_order r q) = fst q"
  by (simp_all add: resting_order_def)

lemma add_inv:
  assumes "reads_stale dg" "ob_inv ob" "order_ok oi" "\<not> has (o_orderId (oi_order oi)) ob"
    and "add dg oi ob = Inr ob'"
  shows "ob_inv ob'"
  using assms(5)
proof (cases rule: add_cases)
  case (1 bs ob1 r)
  have ok: "rest_ok (oi_order oi)" "is_fin (oi_price oi)" using assms(3) by (auto simp: order_ok_def)
  note F = fillOnBook_inv[OF assms(1,2) ok(1) 1(2)]
  have "\<not> has (o_orderId (oi_order oi)) ob1"
    using assms(4) F(5,7) has_ids[of _ _ bs] by auto
  with F ok 1 show ?thesis
    by (auto intro!: addToBook_inv resting_order_ok)
qed

text \<open>The id maps after an addition: opposite orders may be gone, the new one may be there.\<close>

lemma add_has:
  assumes "reads_stale dg" "ob_inv ob" "order_ok oi"
    and "add dg oi ob = Inr ob'" and "has x ob'"
  shows "x = o_orderId (oi_order oi) \<or> has x ob"
  using assms(4)
proof (cases rule: add_cases)
  case (1 bs ob1 r)
  have ok: "rest_ok (oi_order oi)" using assms(3) by (auto simp: order_ok_def)
  note F = fillOnBook_inv[OF assms(1,2) ok 1(2)]
  have "has x ob1 \<Longrightarrow> has x ob" using F(5,7) has_ids[of _ _ bs] by auto
  moreover have added: "has x (addToBook bs p r' ob1) \<Longrightarrow> x = o_orderId r' \<or> has x ob1" for p r'
    by (cases bs) (auto simp: addToBook_def Let_def has_def split: if_splits)
  ultimately show ?thesis
    using 1 assms(5) added[of "oi_price oi" "resting_order (oi_order oi) r"] by (auto split: if_splits)
qed

section \<open>Cancelling\<close>

text \<open>With the invariant, a cancel of a known order on its side succeeds.\<close>

lemma cancel_ok:
  assumes "reads_stale dg" "ob_inv ob" "side_of s = Some bs" "ids_of bs ob x = Some i"
  shows "cancel dg x s ob = Inr (set_book bs
      (ladder_upd (book_lt bs) (ii_price i) (erase_first (\<lambda>n. fst n = ii_Order i)) [] (book_of bs ob))
      (set_ids bs ((ids_of bs ob)(x := None)) ob))"
proof -
  have "side_inv bs (m_next_node ob) (book_of bs ob) (ids_of bs ob)"
    using assms(2) ob_inv_two by blast
  from side_inv_locate[OF this assms(4)] obtain l r where
    "ladder_find (book_lt bs) (ii_price i) (book_of bs ob) = Some l" "(ii_Order i, r) \<in> set l" by metis
  then show ?thesis using assms(1,3,4)
    by (force simp: cancel_def getOrderIdInfo_def removeFromIdMap_def cancelOrder_def reads_stale_def)
qed

lemma cancel_inv:
  assumes "reads_stale dg" "ob_inv ob" "has_side x s ob"
  obtains bs ob' where "side_of s = Some bs" "cancel dg x s ob = Inr ob'" "ob_inv ob'"
    "book_of bs ob' = map (\<lambda>(p, l). (p, filter (\<lambda>n. o_orderId (snd n) \<noteq> x) l)) (book_of bs ob)"
    "book_of (other bs) ob' = book_of (other bs) ob" "ids_of bs ob' = (ids_of bs ob)(x := None)"
    "ids_of (other bs) ob' = ids_of (other bs) ob" "m_event_output ob' = m_event_output ob"
proof -
  obtain bs i where bs: "side_of s = Some bs" "ids_of bs ob x = Some i"
    using assms(3) by (auto simp: has_side_def split: option.splits)
  have inv: "side_inv bs (m_next_node ob) (book_of bs ob) (ids_of bs ob)"
    "side_inv (other bs) (m_next_node ob) (book_of (other bs) ob) (ids_of (other bs) ob)"
    "dom (ids_of bs ob) \<inter> dom (ids_of (other bs) ob) = {}"
    using assms(2) ob_inv_two by blast+
  note E = side_inv_erase[OF inv(1) bs(2)]
  show thesis
    by (rule that[OF bs(1) cancel_ok[OF assms(1,2) bs]])
      (use inv E in \<open>auto simp: ob_inv_two[of _ bs]\<close>)
qed

end
