(* ===== verification/BookSpec.thy ===== *)
theory BookSpec
  imports BookInv
begin

text \<open>
  What the order book promises, as a matching on plain queues: each side is one queue of
  entries in price-time order with whole-number quantities; an incoming order takes from
  the front of the opposite queue while the price is acceptable, skipping its own user.
  The laws of the specification (no self trade, conservation of quantity, priority) are
  proved here; theory \<open>BookRefine\<close> proves that \<open>add\<close> and \<open>cancel\<close> implement it.
\<close>

record entry =
  e_price :: int
  e_node :: node
  e_user :: UserId
  e_oid :: OrderId
  e_qty :: int

text \<open>A trade: the resting order, its price and the executed quantity.\<close>

type_synonym trade = "OrderId \<times> int \<times> int"

fun spec_match :: "(int \<Rightarrow> bool) \<Rightarrow> UserId \<Rightarrow> int \<Rightarrow> entry list \<Rightarrow> entry list \<times> int \<times> trade list" where
  "spec_match ok u q [] = ([], q, [])"
| "spec_match ok u q (e # es) =
     (if q = 0 \<or> \<not> ok (e_price e) then (e # es, q, [])
      else if e_user e = u then (case spec_match ok u q es of (es', q', ts) \<Rightarrow> (e # es', q', ts))
      else if e_qty e \<le> q
        then (case spec_match ok u (q - e_qty e) es of
            (es', q', ts) \<Rightarrow> (es', q', (e_oid e, e_price e, e_qty e) # ts))
      else (e\<lparr>e_qty := e_qty e - q\<rparr> # es, 0, [(e_oid e, e_price e, q)]))"

text \<open>Is the first price served before the second on that side?\<close>

fun better :: "book_side \<Rightarrow> int \<Rightarrow> int \<Rightarrow> bool" where
  "better BidSide p q \<longleftrightarrow> q < p"
| "better AskSide p q \<longleftrightarrow> p < q"

text \<open>A new entry goes behind every entry of the same or a better price.\<close>

definition spec_insert :: "book_side \<Rightarrow> entry \<Rightarrow> entry list \<Rightarrow> entry list" where
  "spec_insert bs e es =
     takeWhile (\<lambda>x. \<not> better bs (e_price e) (e_price x)) es @ [e]
     @ dropWhile (\<lambda>x. \<not> better bs (e_price e) (e_price x)) es"

definition acceptable :: "book_side \<Rightarrow> int \<Rightarrow> int \<Rightarrow> bool" where
  "acceptable bs limit p \<longleftrightarrow> (case bs of BidSide \<Rightarrow> p \<le> limit | AskSide \<Rightarrow> limit \<le> p)"

text \<open>Adding an entry: match it against the other side, keep what is left on its own.\<close>

type_synonym spec_state = "book_side \<Rightarrow> entry list"

definition spec_add :: "book_side \<Rightarrow> entry \<Rightarrow> spec_state \<Rightarrow> spec_state \<times> int \<times> trade list" where
  "spec_add bs e S =
     (case spec_match (acceptable bs (e_price e)) (e_user e) (e_qty e) (S (other bs)) of
        (es', q, ts) \<Rightarrow>
          (if q = 0 then S(other bs := es')
           else S(other bs := es', bs := spec_insert bs (e\<lparr>e_qty := q\<rparr>) (S bs)), q, ts))"

definition spec_cancel :: "book_side \<Rightarrow> OrderId \<Rightarrow> spec_state \<Rightarrow> spec_state" where
  "spec_cancel bs x S = S(bs := filter (\<lambda>e. e_oid e \<noteq> x) (S bs))"

section \<open>Laws of the specification\<close>

definition total :: "trade list \<Rightarrow> int" where
  "total ts = (\<Sum>(x, p, q) \<leftarrow> ts. q)"

definition wf_entries :: "entry list \<Rightarrow> bool" where
  "wf_entries es \<longleftrightarrow> (\<forall>e \<in> set es. 0 < e_qty e) \<and> distinct (map e_oid es)"

lemma wf_entries_Cons [simp]:
  "wf_entries (e # es) \<longleftrightarrow> 0 < e_qty e \<and> e_oid e \<notin> e_oid ` set es \<and> wf_entries es"
  by (auto simp: wf_entries_def)

lemma total_simps [simp]: "total [] = 0" "total ((x, p, q) # ts) = q + total ts"
  by (simp_all add: total_def)

text \<open>Conservation: what left the incoming order went to the trades, and came from the queue.\<close>

lemma spec_match_conserves:
  assumes "spec_match ok u q es = (es', q', ts)"
  shows "q = q' + total ts" "sum_list (map e_qty es) = sum_list (map e_qty es') + total ts"
  using assms by (induction es arbitrary: q es' q' ts) (fastforce split: if_splits prod.splits)+

lemma spec_match_bounds:
  assumes "spec_match ok u q es = (es', q', ts)" "0 \<le> q" "wf_entries es"
  shows "0 \<le> q' \<and> q' \<le> q \<and> wf_entries es' \<and> e_oid ` set es' \<subseteq> e_oid ` set es"
  using assms
  by (induction es arbitrary: q es' q' ts) (auto split: if_splits prod.splits simp: image_subset_iff; force)+

text \<open>A trade is with another user, at an acceptable price, for a part of what rested there.\<close>

lemma spec_match_trades:
  assumes "spec_match ok u q es = (es', q', ts)" "0 \<le> q" "wf_entries es" "(x, p, k) \<in> set ts"
  shows "\<exists>e \<in> set es. e_oid e = x \<and> e_price e = p \<and> e_user e \<noteq> u \<and> ok p \<and> 0 < k \<and> k \<le> e_qty e"
  using assms
proof (induction es arbitrary: q es' q' ts)
  case (Cons e es)
  then show ?case by (fastforce split: if_splits prod.splits)
qed simp

text \<open>
  Priority: when an entry trades, every entry ahead of it (of another user) is used up
  completely.
\<close>

lemma spec_match_priority:
  assumes "spec_match ok u q (es1 @ e # es2) = (es', q', ts)" "0 \<le> q" "wf_entries (es1 @ e # es2)"
    and "e_oid e \<in> fst ` set ts" "e1 \<in> set es1" "e_user e1 \<noteq> u"
  shows "(e_oid e1, e_price e1, e_qty e1) \<in> set ts"
  using assms
proof (induction es1 arbitrary: q es' q' ts)
  case (Cons x es1)
  show ?case
  proof (cases "q = 0 \<or> \<not> ok (e_price x) \<or> (e_user x \<noteq> u \<and> \<not> e_qty x \<le> q)")
    case True
    with Cons.prems show ?thesis by (auto split: if_splits)
  next
    case False
    then show ?thesis
    proof (cases "e_user x = u")
      case True
      obtain a b c where r: "spec_match ok u q (es1 @ e # es2) = (a, b, c)" by (metis prod_cases3)
      with False True Cons.prems have ts: "ts = c" by auto
      have "e1 \<in> set es1" using True Cons.prems(5,6) by auto
      with Cons.IH[OF r] Cons.prems ts show ?thesis by auto
    next
      case other: False
      obtain a b c where r: "spec_match ok u (q - e_qty x) (es1 @ e # es2) = (a, b, c)" by (metis prod_cases3)
      with False other Cons.prems have ts: "ts = (e_oid x, e_price x, e_qty x) # c" by auto
      have "e_oid e \<noteq> e_oid x" using Cons.prems(3) by auto
      with ts Cons.prems have "e_oid e \<in> fst ` set c" by auto
      with Cons.IH[OF r] Cons.prems False other ts show ?thesis by auto
    qed
  qed
qed simp

text \<open>What is left was not available: any remaining acceptable entry is the submitter's own.\<close>

lemma spec_match_exhausts:
  assumes "spec_match ok u q es = (es', q', ts)" "0 \<le> q" "wf_entries es" "q' \<noteq> 0"
    and "sorted_wrt (\<lambda>a b. ok (e_price b) \<longrightarrow> ok (e_price a)) es"
    and "e \<in> set es'" "ok (e_price e)"
  shows "e_user e = u"
  using assms
proof (induction es arbitrary: q es' q' ts)
  case (Cons x es)
  then show ?case by (fastforce split: if_splits prod.splits)
qed simp

end
