(* ===== verification/BookRefine.thy ===== *)
theory BookRefine
  imports BookSpec
begin

text \<open>
  The order book implements the matching of \<open>BookSpec\<close>: for whole quantities (up to $2^{24}$,
  where binary32 subtraction is exact) \<open>add\<close> is \<open>spec_match\<close> followed by \<open>spec_insert\<close>, and
  the events it queues are the trades in order, then one event for the incoming order.
\<close>

section \<open>The abstraction\<close>

definition entry_of :: "Price \<Rightarrow> node \<times> Order \<Rightarrow> entry" where
  "entry_of p n = \<lparr>e_price = fval p, e_node = fst n, e_user = o_userId (snd n),
     e_oid = o_orderId (snd n), e_qty = fval (o_remainQty (snd n))\<rparr>"

definition abs_book :: "book \<Rightarrow> entry list" where
  "abs_book b = concat (map (\<lambda>(p, l). map (entry_of p) l) b)"

definition trade_of :: "Event \<Rightarrow> trade" where
  "trade_of e = (o_orderId (ev_order e), fval (ev_lastPrice e), fval (ev_lastQty e))"

definition whole_nodes :: "OrderList \<Rightarrow> bool" where
  "whole_nodes l \<longleftrightarrow> (\<forall>n \<in> set l. whole (o_remainQty (snd n)))"

lemma abs_book_simps [simp]:
  "abs_book [] = []" "abs_book ((p, l) # b) = map (entry_of p) l @ abs_book b"
  "abs_book (b1 @ b2) = abs_book b1 @ abs_book b2"
  by (simp_all add: abs_book_def)

lemma whole_nodes_simps [simp]:
  "whole_nodes []" "whole_nodes (n # l) \<longleftrightarrow> whole (o_remainQty (snd n)) \<and> whole_nodes l"
  "whole_nodes (l @ l') \<longleftrightarrow> whole_nodes l \<and> whole_nodes l'"
  by (auto simp: whole_nodes_def)

lemma spec_match_zero [simp]: "spec_match ok u 0 es = (es, 0, [])"
  by (cases es) auto

lemma spec_match_refused: "\<forall>e \<in> set es. \<not> ok (e_price e) \<Longrightarrow> spec_match ok u q es = (es, q, [])"
  by (cases es) auto

section \<open>One level\<close>

text \<open>What filling keeps of the incoming order.\<close>

definition same_incoming :: "Event \<Rightarrow> Event \<Rightarrow> bool" where
  "same_incoming me me' \<longleftrightarrow> o_userId (ev_order me') = o_userId (ev_order me)
     \<and> o_orderId (ev_order me') = o_orderId (ev_order me)
     \<and> o_originalQty (ev_order me') = o_originalQty (ev_order me)"

lemma same_incoming_refl [simp]: "same_incoming me me"
  by (simp add: same_incoming_def)

lemma same_incoming_trans: "same_incoming a b \<Longrightarrow> same_incoming b c \<Longrightarrow> same_incoming a c"
  by (simp add: same_incoming_def)

lemma fillOrder_incoming: "fillOrder me p rest = (st, me', rest', ev) \<Longrightarrow> same_incoming me me'"
  by (auto simp: fillOrder_def Let_def same_incoming_def split: if_splits)

abbreviation remaining :: "Event \<Rightarrow> int" where
  "remaining me \<equiv> fval (o_remainQty (ev_order me))"

lemma fill_level_refines:
  assumes dg: "reads_stale dg" and ok: "ok (fval p)"
    and "level_ok l" "qty_ok (o_remainQty (ev_order me))"
    and "whole (o_remainQty (ev_order me))" "whole_nodes l"
    and "fill_level dg bs p ob me l = (l', ob', me', done)"
  shows "\<exists>evs. m_event_output ob' = m_event_output ob @ evs @ (if done then [me'] else [])
      \<and> whole_nodes l' \<and> whole (o_remainQty (ev_order me')) \<and> same_incoming me me'
      \<and> (done \<longrightarrow> ev_execStatus me' = OS_Filled)
      \<and> (\<forall>es. spec_match ok (o_userId (ev_order me)) (remaining me) (map (entry_of p) l @ es)
           = (case spec_match ok (o_userId (ev_order me)) (remaining me') es of
                (es', q, ts) \<Rightarrow> (map (entry_of p) l' @ es', q, map trade_of evs @ ts)))"
  using assms(3-)
proof (induction l arbitrary: ob me l' ob' me')
  case Nil
  then show ?case by (auto split: prod.split)
next
  case (Cons n ns)
  let ?u = "o_userId (ev_order me)"
  obtain a rest where n: "n = (a, rest)" by (cases n)
  from Cons.prems n have r: "rest_ok rest" "level_ok ns" "whole (o_remainQty rest)" "whole_nodes ns"
    by (auto simp: level_ok_Cons)
  have q: "remaining me \<noteq> 0" "0 < fval (o_remainQty rest)"
    using Cons.prems(2) r(1) by (auto simp: qty_ok_def rest_ok_def)
  have ent: "e_price (entry_of p n) = fval p" "e_user (entry_of p n) = o_userId rest"
    "e_oid (entry_of p n) = o_orderId rest" "e_qty (entry_of p n) = fval (o_remainQty rest)"
    by (simp_all add: entry_of_def n)
  from Cons.prems(5)[unfolded n] r(1) Cons.prems(2) dg show ?case
  proof (cases rule: fill_level_cons)
    case (skip ns')
    from Cons.IH[OF r(2) Cons.prems(2,3) r(4) skip(2)] obtain evs where
      "m_event_output ob' = m_event_output ob @ evs @ (if done then [me'] else [])"
      "whole_nodes ns'" "whole (o_remainQty (ev_order me'))" "same_incoming me me'"
      "done \<longrightarrow> ev_execStatus me' = OS_Filled"
      "\<forall>es. spec_match ok ?u (remaining me) (map (entry_of p) ns @ es)
           = (case spec_match ok ?u (remaining me') es of
                (es', q, ts) \<Rightarrow> (map (entry_of p) ns' @ es', q, map trade_of evs @ ts))"
      by blast
    with skip q ok ent r(3) show ?thesis
      by (intro exI[of _ evs]) (auto simp: n split: prod.split)
  next
    case (trade st me1 rest1 e ob1 kept ns')
    note o' = fillOrder_other[OF trade(1) r(1) Cons.prems(2) trade(2)]
    note w = fillOrder_whole[OF trade(1) r(1) Cons.prems(2) r(3) Cons.prems(3) trade(2)]
    have inc: "same_incoming me me1" by (rule fillOrder_incoming[OF trade(2)])
    let ?k = "min (fval (o_remainQty rest)) (remaining me)"
    have te: "trade_of e = (o_orderId rest, fval p, ?k)" using w(5) by (auto simp: trade_of_def)
    have wk: "whole_nodes kept" using w(1) trade(7) by auto
    have kept: "map (entry_of p) kept = (if fval (o_remainQty rest) \<le> remaining me then []
        else [(entry_of p n)\<lparr>e_qty := fval (o_remainQty rest) - remaining me\<rparr>])"
      using o'(1,7) w(3) by (auto simp: trade(7) entry_of_def n same_order_def split: if_splits)
    have step: "spec_match ok ?u (remaining me) (map (entry_of p) (n # ns) @ es)
        = (case spec_match ok ?u (remaining me1) (map (entry_of p) ns @ es) of
            (es', q, ts) \<Rightarrow> (map (entry_of p) kept @ es', q, trade_of e # ts))" for es
      using q ok ent trade(1) w(4) by (auto simp: kept te split: prod.split)
    show ?thesis
    proof (cases "remaining me1 = 0")
      case True
      with trade have e: "l' = kept @ ns" "me' = me1\<lparr>ev_execStatus := OS_Filled\<rparr>"
        "ob' = push_event me' ob1" "done" by auto
      have "same_incoming me me'" using inc by (simp add: e(2) same_incoming_def)
      with e wk r(4) w(2) True step show ?thesis
        by (intro exI[of _ "[e]"]) (simp add: trade(6))
    next
      case False
      with trade(9) have f: "fill_level dg bs p ob1 me1 ns = (ns', ob', me', done)" by simp
      have q1: "qty_ok (o_remainQty (ev_order me1))" using o' False by (simp add: qty_ok_left left_ok_def)
      from Cons.IH[OF r(2) q1 w(2) r(4) f] obtain evs where E:
        "m_event_output ob' = m_event_output ob1 @ evs @ (if done then [me'] else [])"
        "whole_nodes ns'" "whole (o_remainQty (ev_order me'))" "same_incoming me1 me'"
        "done \<longrightarrow> ev_execStatus me' = OS_Filled"
        "\<forall>es. spec_match ok (o_userId (ev_order me1)) (remaining me1) (map (entry_of p) ns @ es)
           = (case spec_match ok (o_userId (ev_order me1)) (remaining me') es of
                (es', q, ts) \<Rightarrow> (map (entry_of p) ns' @ es', q, map trade_of evs @ ts))"
        by blast
      have "o_userId (ev_order me1) = ?u" using inc by (simp add: same_incoming_def)
      with E(6) step have "\<forall>es. spec_match ok ?u (remaining me) (map (entry_of p) (n # ns) @ es)
           = (case spec_match ok ?u (remaining me') es of
                (es', q, ts) \<Rightarrow> (map (entry_of p) l' @ es', q, map trade_of (e # evs) @ ts))"
        by (auto simp: trade(8) split: prod.split)
      with E(1-5) wk inc show ?thesis
        by (intro exI[of _ "e # evs"]) (auto simp: trade(6,8) intro: same_incoming_trans)
    qed
  qed
qed

section \<open>The whole book\<close>

definition plain_side :: "Side \<Rightarrow> bool" where
  "plain_side s \<longleftrightarrow> s = Side_Buy \<or> s = Side_Sell"

lemma plain_side_tick: "plain_side s \<Longrightarrow> allowTick s ob = (True, computeTick ob)"
  by (auto simp: plain_side_def allowTick_def tick_allows_def Let_def)

text \<open>The event the code queues for the incoming order, when anything was executed.\<close>

definition closing_events :: "OrderInfo \<Rightarrow> int \<Rightarrow> int \<Rightarrow> Event list \<Rightarrow> bool" where
  "closing_events oi q0 q evs \<longleftrightarrow>
     (if q = q0 then evs = []
      else \<exists>m. evs = [m] \<and> o_orderId (ev_order m) = o_orderId (oi_order oi)
        \<and> fval (o_remainQty (ev_order m)) = q
        \<and> ev_execStatus m = (if q = 0 then OS_Filled else OS_PartiallyFilled))"

lemma fill_end_closing:
  assumes "fill_end oi ob me = (ob', r)" "same_incoming (main_event oi) me"
    and "is_fin (o_remainQty (ev_order me))" "is_fin (o_originalQty (oi_order oi))"
    and "0 < remaining me"
  shows "\<exists>ms. m_event_output ob' = m_event_output ob @ ms
    \<and> closing_events oi (fval (o_originalQty (oi_order oi))) (remaining me) ms
    \<and> fst r = o_remainQty (ev_order me)"
  using assms
  by (cases "remaining me = fval (o_originalQty (oi_order oi))")
    (auto simp: fill_end_def Let_def closing_events_def feq_fin same_incoming_def main_event_def)

lemma fill_levels_refines:
  assumes dg: "reads_stale dg" and side: "plain_side (o_side (oi_order oi))"
    and cmp: "\<And>k. is_fin k \<Longrightarrow> cmp k (oi_price oi) \<longleftrightarrow> ok (fval k)"
    and orig: "is_fin (o_originalQty (oi_order oi))"
    and "level_ok (book_nodes b)" "qty_ok (o_remainQty (ev_order me))"
    and "whole (o_remainQty (ev_order me))" "whole_nodes (book_nodes b)"
    and "\<forall>k \<in> fst ` set b. is_fin k"
    and "sorted_wrt (\<lambda>k k'. ok (fval k') \<longrightarrow> ok (fval k)) (map fst b)"
    and "same_incoming (main_event oi) me"
    and "remaining me \<le> fval (o_originalQty (oi_order oi))"
    and "fill_levels dg bs cmp oi ob me b = (b', ob', r)"
  shows "\<exists>evs ms. m_event_output ob' = m_event_output ob @ evs @ ms
      \<and> closing_events oi (fval (o_originalQty (oi_order oi))) (fval (fst r)) ms
      \<and> whole_nodes (book_nodes b') \<and> whole (fst r)
      \<and> spec_match ok (o_userId (oi_order oi)) (remaining me) (abs_book b)
           = (abs_book b', fval (fst r), map trade_of evs)"
  using assms(5-)
proof (induction b arbitrary: ob me b' ob' r)
  case Nil
  then have "fill_end oi ob me = (ob', r)" "b' = []" by auto
  with fill_end_closing[OF this(1) Nil.prems(7) _ orig] Nil.prems(2,3) show ?case
    by (auto simp: qty_ok_def)
next
  case (Cons x b)
  obtain p l where x: "x = (p, l)" by (cases x)
  from Cons.prems x have l: "level_ok l" "level_ok (book_nodes b)" "is_fin p"
    "whole_nodes l" "whole_nodes (book_nodes b)" "\<forall>k \<in> fst ` set b. is_fin k"
    "sorted_wrt (\<lambda>k k'. ok (fval k') \<longrightarrow> ok (fval k)) (map fst b)"
    "\<forall>k \<in> fst ` set b. ok (fval k) \<longrightarrow> ok (fval p)"
    by (auto simp: level_ok_append)
  have pos: "0 < remaining me" "is_fin (o_remainQty (ev_order me))"
    using Cons.prems(2) by (auto simp: qty_ok_def)
  have user: "o_userId (ev_order me) = o_userId (oi_order oi)"
    using Cons.prems(7) by (simp add: same_incoming_def main_event_def)
  show ?case
  proof (cases "cmp p (oi_price oi)")
    case False
    then have nok: "\<not> ok (fval p)" using cmp l(3) by simp
    from False Cons.prems(9) have e: "fill_end oi ob me = (ob', r)" "b' = x # b" by (auto simp: x)
    have "\<forall>e \<in> set (abs_book (x # b)). \<not> ok (e_price e)"
      using nok l(8) by (fastforce simp: x abs_book_def entry_of_def)
    note ref = spec_match_refused[OF this]
    from fill_end_closing[OF e(1) Cons.prems(7) pos(2) orig pos(1)] obtain ms where
      "m_event_output ob' = m_event_output ob @ ms"
      "closing_events oi (fval (o_originalQty (oi_order oi))) (remaining me) ms"
      "fst r = o_remainQty (ev_order me)" by blast
    with ref e(2) Cons.prems(3,4) show ?thesis by (intro exI[of _ "[]"] exI[of _ ms]) simp
  next
    case True
    then have okp: "ok (fval p)" using cmp l(3) by simp
    obtain l' ob2 me' don where f: "fill_level dg bs p (computeTick ob) me l = (l', ob2, me', don)"
      by (metis prod_cases4)
    from fill_level_refines[where ok = ok, OF dg okp l(1) Cons.prems(2,3) l(4) f] obtain evs where E:
      "m_event_output ob2 = m_event_output ob @ evs @ (if don then [me'] else [])"
      "whole_nodes l'" "whole (o_remainQty (ev_order me'))" "same_incoming me me'"
      "don \<longrightarrow> ev_execStatus me' = OS_Filled"
      "\<forall>es. spec_match ok (o_userId (oi_order oi)) (remaining me) (map (entry_of p) l @ es)
         = (case spec_match ok (o_userId (oi_order oi)) (remaining me') es of
              (es', q, ts) \<Rightarrow> (map (entry_of p) l' @ es', q, map trade_of evs @ ts))"
      by (auto simp: user)
    note L = fill_level_inv[OF dg l(1) Cons.prems(2) f]
    have inc: "same_incoming (main_event oi) me'" using Cons.prems(7) E(4) by (rule same_incoming_trans)
    show ?thesis
    proof (cases don)
      case d: True
      with True Cons.prems(9) plain_side_tick[OF side] f
      have e: "b' = (p, l') # b" "ob' = ob2" "r = (fzero, fzero)" by (auto simp: x)
      have z: "remaining me' = 0" using L d by blast
      have "closing_events oi (fval (o_originalQty (oi_order oi))) 0 [me']"
        using E(5) d inc z pos(1) Cons.prems(8)
        by (auto simp: closing_events_def same_incoming_def main_event_def)
      with E d z e l(5) whole_f32_of_int[of 0] show ?thesis
        by (intro exI[of _ evs] exI[of _ "[me']"]) (simp add: x whole_def)
    next
      case nd: False
      obtain b1 r1 where g: "fill_levels dg bs cmp oi ob2 me' b = (b1, r1)"
        by (cases "fill_levels dg bs cmp oi ob2 me' b")
      with True nd Cons.prems(9) plain_side_tick[OF side] f
      have e: "b' = (p, l') # b1" "r1 = (ob', r)" by (auto simp: x)
      have q: "qty_ok (o_remainQty (ev_order me'))" using L nd by (simp add: qty_ok_left)
      have le: "remaining me' \<le> fval (o_originalQty (oi_order oi))" using L Cons.prems(8) by simp
      from Cons.IH[OF l(2) q E(3) l(5-7) inc le g[unfolded e(2)]] obtain evs2 ms where
        "m_event_output ob' = m_event_output ob2 @ evs2 @ ms"
        "closing_events oi (fval (o_originalQty (oi_order oi))) (fval (fst r)) ms"
        "whole_nodes (book_nodes b1)" "whole (fst r)"
        "spec_match ok (o_userId (oi_order oi)) (remaining me') (abs_book b)
           = (abs_book b1, fval (fst r), map trade_of evs2)" by blast
      with E nd show ?thesis
        by (intro exI[of _ "evs @ evs2"] exI[of _ ms]) (simp add: x e)
    qed
  qed
qed

section \<open>The operations\<close>

definition abs_ob :: "order_book \<Rightarrow> spec_state" where
  "abs_ob ob bs = abs_book (book_of bs ob)"

definition ob_whole :: "order_book \<Rightarrow> bool" where
  "ob_whole ob \<longleftrightarrow> whole_nodes (book_nodes (m_bid_book ob)) \<and> whole_nodes (book_nodes (m_ask_book ob))"

lemma ob_whole_two: "ob_whole ob \<longleftrightarrow>
    whole_nodes (book_nodes (book_of bs ob)) \<and> whole_nodes (book_nodes (book_of (other bs) ob))"
  by (cases bs) (auto simp: ob_whole_def)

lemma takeWhile_split:
  assumes "\<forall>x \<in> set xs. P x" "\<forall>y \<in> set ys. \<not> P y"
  shows "takeWhile P (xs @ ys) = xs" "dropWhile P (xs @ ys) = ys"
proof -
  have "takeWhile P ys = []" "dropWhile P ys = ys" using assms(2) by (cases ys; simp)+
  with assms(1) show "takeWhile P (xs @ ys) = xs" "dropWhile P (xs @ ys) = ys" by simp_all
qed

lemma spec_insert_front:
  "\<forall>x \<in> set xs. \<not> better bs (e_price e) (e_price x) \<Longrightarrow> spec_insert bs e (xs @ ys) = xs @ spec_insert bs e ys"
  by (simp add: spec_insert_def)

lemma spec_insert_here:
  "\<forall>y \<in> set ys. better bs (e_price e) (e_price y) \<Longrightarrow> spec_insert bs e ys = e # ys"
  by (cases ys) (auto simp: spec_insert_def)

lemma better_lt: "is_fin p \<Longrightarrow> is_fin q \<Longrightarrow> book_lt bs p q \<longleftrightarrow> better bs (fval p) (fval q)"
  using book_lt_fin[of p q bs] by (cases bs) auto

lemma better_trans: "better bs p q \<Longrightarrow> better bs q r \<Longrightarrow> better bs p r"
  by (cases bs) auto

lemma better_antisym: "better bs p q \<Longrightarrow> \<not> better bs q p"
  by (cases bs) auto

lemma better_linear: "p \<noteq> q \<Longrightarrow> better bs p q \<or> better bs q p"
  by (cases bs) auto

lemma e_price_entry_of [simp]: "e_price (entry_of p n) = fval p"
  by (simp add: entry_of_def)

lemma abs_book_insert:
  assumes "ladder_sorted (book_lt bs) b" "\<forall>k \<in> fst ` set b. is_fin k" "is_fin p"
  shows "abs_book (ladder_upd (book_lt bs) p (\<lambda>l. l @ [n]) [] b) = spec_insert bs (entry_of p n) (abs_book b)"
  using assms(1,2)
proof (induction b)
  case Nil
  then show ?case by (simp add: spec_insert_def)
next
  case (Cons x b)
  obtain k v where x: "x = (k, v)" by (cases x)
  have fin: "is_fin k" "\<forall>k' \<in> fst ` set b. is_fin k'" using Cons.prems by (auto simp: x)
  have later: "\<forall>e \<in> set (abs_book b). better bs (fval k) (e_price e)"
    using Cons.prems by (fastforce simp: x abs_book_def better_lt)
  show ?case
  proof (cases "better bs (fval k) (fval p)")
    case True
    then have "spec_insert bs (entry_of p n) (map (entry_of k) v @ abs_book b)
        = map (entry_of k) v @ spec_insert bs (entry_of p n) (abs_book b)"
      by (intro spec_insert_front) (auto dest: better_antisym)
    with True Cons fin assms(3) show ?thesis by (simp add: x better_lt)
  next
    case nlt: False
    show ?thesis
    proof (cases "better bs (fval p) (fval k)")
      case True
      then have "spec_insert bs (entry_of p n) (map (entry_of k) v @ abs_book b)
          = entry_of p n # map (entry_of k) v @ abs_book b"
        using later by (intro spec_insert_here) (auto intro: better_trans)
      with True nlt fin assms(3) show ?thesis by (simp add: x better_lt)
    next
      case False
      then have eq: "fval k = fval p" using nlt better_linear by blast
      then have "spec_insert bs (entry_of p n) (map (entry_of k) v @ abs_book b)
          = map (entry_of k) v @ entry_of p n # abs_book b"
        using later False spec_insert_here[of "abs_book b" bs "entry_of p n"]
        by (subst spec_insert_front) auto
      moreover have "entry_of k n = entry_of p n" by (simp add: entry_of_def eq)
      ultimately show ?thesis using False nlt fin assms(3) by (simp add: x better_lt)
    qed
  qed
qed

lemma book_cmp_acceptable:
  "is_fin k \<Longrightarrow> is_fin p \<Longrightarrow> book_cmp bs k p \<longleftrightarrow> acceptable bs (fval p) (fval k)"
  by (cases bs) (auto simp: acceptable_def fge_def fle_fin)

lemma acceptable_sorted:
  assumes "ladder_sorted (book_lt (other bs)) b" "\<forall>k \<in> fst ` set b. is_fin k"
  shows "sorted_wrt (\<lambda>k k'. acceptable bs p (fval k') \<longrightarrow> acceptable bs p (fval k)) (map fst b)"
proof -
  have "\<forall>x \<in> set (map fst b). \<forall>y \<in> set (map fst b). book_lt (other bs) x y \<longrightarrow>
      acceptable bs p (fval y) \<longrightarrow> acceptable bs p (fval x)"
    using assms(2) by (cases bs) (auto simp: acceptable_def flt_fin fgt_def)
  then show ?thesis using assms(1) unfolding ladder_sorted_def
    by (rule_tac sorted_wrt_mono_rel[rotated]) blast+
qed

text \<open>What a successful addition of a fresh order on a plain side amounts to.\<close>

definition add_agrees :: "OrderInfo \<Rightarrow> book_side \<Rightarrow> order_book \<Rightarrow> order_book \<Rightarrow> bool" where
  "add_agrees oi bs ob ob' \<longleftrightarrow>
     (case spec_add bs (entry_of (oi_price oi) (m_next_node ob, oi_order oi)) (abs_ob ob) of
        (S', q, ts) \<Rightarrow> abs_ob ob' = S' \<and> ob_whole ob'
          \<and> (\<exists>evs ms. m_event_output ob' = m_event_output ob @ evs @ ms \<and> map trade_of evs = ts
               \<and> closing_events oi (fval (o_originalQty (oi_order oi))) q ms))"

text \<open>A new order in whole units: nothing of it is executed yet.\<close>

definition fresh_whole :: "OrderInfo \<Rightarrow> bool" where
  "fresh_whole oi \<longleftrightarrow> order_ok oi \<and> o_remainQty (oi_order oi) = o_originalQty (oi_order oi)
     \<and> whole (o_originalQty (oi_order oi)) \<and> plain_side (o_side (oi_order oi))"

lemma fresh_whole_side: "fresh_whole oi \<Longrightarrow> side_of (o_side (oi_order oi)) = Some bs \<Longrightarrow>
    qty_ok (o_remainQty (oi_order oi)) \<and> rest_ok (oi_order oi) \<and> is_fin (oi_price oi)"
  by (auto simp: fresh_whole_def order_ok_def rest_ok_def)

lemma fillOnBook_refines:
  assumes dg: "reads_stale dg" and inv: "ob_inv ob" "ob_whole ob" and oi: "fresh_whole oi"
    and fill: "fillOnBook dg (other bs) (book_cmp bs) oi ob = (ob', r)"
  shows "\<exists>evs ms. m_event_output ob' = m_event_output ob @ evs @ ms
      \<and> closing_events oi (fval (o_originalQty (oi_order oi))) (fval (fst r)) ms
      \<and> ob_whole ob' \<and> whole (fst r)
      \<and> spec_match (acceptable bs (fval (oi_price oi))) (o_userId (oi_order oi))
            (fval (o_remainQty (oi_order oi))) (abs_ob ob (other bs))
          = (abs_ob ob' (other bs), fval (fst r), map trade_of evs)
      \<and> abs_ob ob' bs = abs_ob ob bs"
proof -
  have o': "rest_ok (oi_order oi)" "is_fin (oi_price oi)" "plain_side (o_side (oi_order oi))"
    "whole (o_remainQty (oi_order oi))" "o_remainQty (oi_order oi) = o_originalQty (oi_order oi)"
    using oi by (auto simp: fresh_whole_def order_ok_def)
  obtain b' ob1 where f: "fill_levels dg (other bs) (book_cmp bs) oi ob (main_event oi) (book_of (other bs) ob) = (b', ob1, r)"
    and ob': "ob' = set_book (other bs) b' ob1"
    using fill unfolding fillOnBook_def by (auto split: prod.splits)
  let ?b = "book_of (other bs) ob"
  have sinv: "side_inv (other bs) (m_next_node ob) ?b (ids_of (other bs) ob)"
    using inv(1) ob_inv_two[of ob bs] by blast
  then have I: "ladder_sorted (book_lt (other bs)) ?b" "\<forall>k \<in> fst ` set ?b. is_fin k" "level_ok (book_nodes ?b)"
    unfolding side_inv_def by blast+
  have q: "qty_ok (o_remainQty (ev_order (main_event oi)))" "is_fin (o_originalQty (oi_order oi))"
    "whole (o_remainQty (ev_order (main_event oi)))" "whole_nodes (book_nodes ?b)"
    using o' inv(2) by (auto simp: main_event_def rest_ok_def qty_ok_def ob_whole_two[of _ bs])
  have le: "remaining (main_event oi) \<le> fval (o_originalQty (oi_order oi))"
    using o'(5) by (simp add: main_event_def)
  have cmp: "book_cmp bs k (oi_price oi) \<longleftrightarrow> acceptable bs (fval (oi_price oi)) (fval k)" if "is_fin k" for k
    using that o'(2) by (rule book_cmp_acceptable)
  from fill_levels_refines[OF dg o'(3) cmp q(2) I(3) q(1,3,4) I(2) acceptable_sorted[OF I(1,2)] same_incoming_refl le f]
  obtain evs ms where R: "m_event_output ob1 = m_event_output ob @ evs @ ms"
    "closing_events oi (fval (o_originalQty (oi_order oi))) (fval (fst r)) ms"
    "whole_nodes (book_nodes b')" "whole (fst r)"
    "spec_match (acceptable bs (fval (oi_price oi))) (o_userId (oi_order oi)) (remaining (main_event oi)) (abs_book ?b)
       = (abs_book b', fval (fst r), map trade_of evs)"
    by blast
  have same: "book_of bs ob1 = book_of bs ob"
    using fill_levels_inv[OF dg I(3) q(1) f] same_frame_books by blast
  from R(1,2,4) show ?thesis
    using R(3,5) inv(2) same
    by (intro exI[of _ evs] exI[of _ ms])
      (simp add: ob' abs_ob_def main_event_def ob_whole_two[of _ bs])
qed

end
