(* ===== verification/BookClaims.thy ===== *)
theory BookClaims
  imports BookRefine
begin

text \<open>
  The properties of the matching engine, stated on the operations of \<^verbatim>\<open>OrderBook\<close>: the
  refinement of the price-time matching of \<open>BookSpec\<close>, the invariant, and what follows for
  trades, events, look-ups and errors; each with a concrete run.
\<close>

section \<open>Addition and cancellation against the specification\<close>

lemma addToBook_refines:
  assumes "side_inv bs (m_next_node ob) (book_of bs ob) (ids_of bs ob)" "is_fin p"
  shows "abs_ob (addToBook bs p r ob) =
      (abs_ob ob)(bs := spec_insert bs (entry_of p (m_next_node ob, r)) (abs_ob ob bs))"
    and "whole (o_remainQty r) \<Longrightarrow> ob_whole ob \<Longrightarrow> ob_whole (addToBook bs p r ob)"
    and "m_event_output (addToBook bs p r ob) = m_event_output ob"
proof -
  have I: "ladder_sorted (book_lt bs) (book_of bs ob)" "\<forall>k \<in> fst ` set (book_of bs ob). is_fin k"
    using assms(1) unfolding side_inv_def by blast+
  let ?n = "(m_next_node ob, r)"
  let ?b = "ladder_upd (book_lt bs) p (\<lambda>l. l @ [?n]) [] (book_of bs ob)"
  have b: "book_of bs (addToBook bs p r ob) = ?b"
    "book_of (other bs) (addToBook bs p r ob) = book_of (other bs) ob"
    by (cases bs; simp add: addToBook_def Let_def)+
  show "m_event_output (addToBook bs p r ob) = m_event_output ob"
    by (simp add: addToBook_def Let_def)
  show "abs_ob (addToBook bs p r ob) =
      (abs_ob ob)(bs := spec_insert bs (entry_of p ?n) (abs_ob ob bs))"
  proof
    fix s
    show "abs_ob (addToBook bs p r ob) s = ((abs_ob ob)(bs := spec_insert bs (entry_of p ?n) (abs_ob ob bs))) s"
      using b abs_book_insert[OF I assms(2)] by (cases "s = bs"; cases s; cases bs) (auto simp: abs_ob_def)
  qed
  assume w: "whole (o_remainQty r)" "ob_whole ob"
  obtain xs ys where "book_nodes (book_of bs ob) = xs @ ys" "book_nodes ?b = xs @ ?n # ys"
    using ladder_upd_append(1)[OF I assms(2)] by blast
  with w show "ob_whole (addToBook bs p r ob)" by (simp add: ob_whole_two[of _ bs] b)
qed

lemma add_refines_spec:
  assumes dg: "reads_stale dg" and inv: "ob_inv ob" "ob_whole ob" and oi: "fresh_whole oi"
    and bs: "side_of (o_side (oi_order oi)) = Some bs"
  shows "\<exists>ob'. add dg oi ob = Inr ob' \<and> add_agrees oi bs ob ob'"
proof -
  obtain ob1 r where f: "fillOnBook dg (other bs) (book_cmp bs) oi ob = (ob1, r)"
    by (cases "fillOnBook dg (other bs) (book_cmp bs) oi ob")
  define r' where "r' = resting_order (oi_order oi) r"
  define ob' where "ob' = (if feq (fst r) fzero then ob1 else addToBook bs (oi_price oi) r' ob1)"
  note ok = fresh_whole_side[OF oi bs]
  note F = fillOnBook_inv[OF dg inv(1) conjunct1[OF conjunct2[OF ok]] f]
  from fillOnBook_refines[OF dg inv oi f] obtain evs ms where R:
    "m_event_output ob1 = m_event_output ob @ evs @ ms"
    "closing_events oi (fval (o_originalQty (oi_order oi))) (fval (fst r)) ms"
    "ob_whole ob1" "whole (fst r)"
    "spec_match (acceptable bs (fval (oi_price oi))) (o_userId (oi_order oi))
        (fval (o_remainQty (oi_order oi))) (abs_ob ob (other bs))
      = (abs_ob ob1 (other bs), fval (fst r), map trade_of evs)"
    "abs_ob ob1 bs = abs_ob ob bs" by blast
  have z: "feq (fst r) fzero \<longleftrightarrow> fval (fst r) = 0"
    using R(4) by (intro feq_zero) (simp add: whole_def)
  have sinv: "side_inv bs (m_next_node ob1) (book_of bs ob1) (ids_of bs ob1)"
    using F(1) ob_inv_two by blast
  note A = addToBook_refines[OF sinv conjunct2[OF conjunct2[OF ok]], of r']
  have state: "(abs_ob ob)(other bs := abs_ob ob1 (other bs)) = abs_ob ob1"
  proof
    fix s
    show "((abs_ob ob)(other bs := abs_ob ob1 (other bs))) s = abs_ob ob1 s"
      using R(6) by (cases bs; cases s) auto
  qed
  have ent: "entry_of (oi_price oi) (m_next_node ob1, r')
      = (entry_of (oi_price oi) (m_next_node ob, oi_order oi))\<lparr>e_qty := fval (fst r)\<rparr>"
    by (simp add: entry_of_def F(6) r'_def)
  have abs: "abs_ob ob' = (if fval (fst r) = 0 then abs_ob ob1 else (abs_ob ob1)(bs := spec_insert bs
      ((entry_of (oi_price oi) (m_next_node ob, oi_order oi))\<lparr>e_qty := fval (fst r)\<rparr>) (abs_ob ob1 bs)))"
    using A(1) by (simp add: ob'_def z ent)
  have "whole (o_remainQty r')" using R(4) by (simp add: r'_def)
  with A(2) R(3) have w: "ob_whole ob'" by (simp add: ob'_def)
  have ev: "m_event_output ob' = m_event_output ob @ evs @ ms" using A(3) R(1) by (simp add: ob'_def)
  have "add dg oi ob = Inr ob'" by (simp add: add_def bs f ob'_def r'_def)
  moreover have "add_agrees oi bs ob ob'"
  proof -
    have e: "e_price (entry_of (oi_price oi) (m_next_node ob, oi_order oi)) = fval (oi_price oi)"
      "e_user (entry_of (oi_price oi) (m_next_node ob, oi_order oi)) = o_userId (oi_order oi)"
      "e_qty (entry_of (oi_price oi) (m_next_node ob, oi_order oi)) = fval (o_remainQty (oi_order oi))"
      by (simp_all add: entry_of_def)
    have "spec_add bs (entry_of (oi_price oi) (m_next_node ob, oi_order oi)) (abs_ob ob)
        = (abs_ob ob', fval (fst r), map trade_of evs)"
      unfolding spec_add_def e R(5) by (simp only: prod.case state abs R(6) entry.simps)
    with w ev R(2) show ?thesis by (auto simp: add_agrees_def)
  qed
  ultimately show ?thesis by blast
qed

section \<open>Events and quantities of one addition\<close>

definition new_events :: "order_book \<Rightarrow> order_book \<Rightarrow> Event list" where
  "new_events ob ob' = drop (length (m_event_output ob)) (m_event_output ob')"

text \<open>The events of resting orders: all but the one of the incoming order.\<close>

definition trade_events :: "OrderInfo \<Rightarrow> order_book \<Rightarrow> order_book \<Rightarrow> Event list" where
  "trade_events oi ob ob' =
     filter (\<lambda>e. o_orderId (ev_order e) \<noteq> o_orderId (oi_order oi)) (new_events ob ob')"

definition executed :: "OrderInfo \<Rightarrow> order_book \<Rightarrow> order_book \<Rightarrow> int" where
  "executed oi ob ob' = (\<Sum>e \<leftarrow> trade_events oi ob ob'. fval (ev_lastQty e))"

definition side_qty :: "book_side \<Rightarrow> order_book \<Rightarrow> int" where
  "side_qty bs ob = (\<Sum>n \<leftarrow> book_nodes (book_of bs ob). fval (o_remainQty (snd n)))"

lemma ob_inv_dom: "ob_inv ob \<Longrightarrow> dom (ids_of bs ob) = oids (book_nodes (book_of bs ob))"
  by (cases bs) (simp_all add: ob_inv_def side_inv_def)

lemma ob_inv_level: "ob_inv ob \<Longrightarrow> level_ok (book_nodes (book_of bs ob))"
  by (cases bs) (simp_all add: ob_inv_def side_inv_def)

lemma map_abs_book:
  "map e_oid (abs_book b) = map (\<lambda>n. o_orderId (snd n)) (book_nodes b)"
  "map e_qty (abs_book b) = map (\<lambda>n. fval (o_remainQty (snd n))) (book_nodes b)"
  by (induction b) (auto simp: entry_of_def)

lemma side_qty_abs: "side_qty bs ob = (\<Sum>e \<leftarrow> abs_ob ob bs. e_qty e)"
  by (simp add: side_qty_def abs_ob_def map_abs_book)

lemma abs_ob_member: "x \<in> set (abs_ob ob bs) \<longleftrightarrow>
    (\<exists>(p, l) \<in> set (book_of bs ob). \<exists>n \<in> set l. x = entry_of p n)"
  by (auto simp: abs_ob_def abs_book_def)

lemma abs_ob_oids: "e_oid ` set (abs_ob ob bs) = oids (book_nodes (book_of bs ob))"
  using arg_cong[OF map_abs_book(1), of set] by (simp add: abs_ob_def oids_def)

lemma wf_entries_abs:
  assumes "ob_inv ob"
  shows "wf_entries (abs_ob ob bs)"
proof -
  have l: "level_ok (book_nodes (book_of bs ob))" by (rule ob_inv_level[OF assms])
  then have "\<forall>q \<in> set (map e_qty (abs_ob ob bs)). 0 < q"
    unfolding abs_ob_def map_abs_book by (auto simp: level_ok_def rest_ok_def qty_ok_def)
  moreover have "distinct (map e_oid (abs_ob ob bs))"
    using l unfolding abs_ob_def map_abs_book by (simp add: level_ok_def)
  ultimately show ?thesis by (simp add: wf_entries_def)
qed

lemma abs_ob_sorted:
  assumes "ob_inv ob"
  shows "sorted_wrt (\<lambda>a b. acceptable bs p (e_price b) \<longrightarrow> acceptable bs p (e_price a)) (abs_ob ob (other bs))"
proof -
  have I: "ladder_sorted (book_lt (other bs)) (book_of (other bs) ob)"
    "\<forall>k \<in> fst ` set (book_of (other bs) ob). is_fin k"
    using assms unfolding ob_inv_two[of _ bs] side_inv_def by blast+
  have "sorted_wrt (\<lambda>k k'. acceptable bs p (fval k') \<longrightarrow> acceptable bs p (fval k)) (map fst b) \<Longrightarrow>
      sorted_wrt (\<lambda>a b. acceptable bs p (e_price b) \<longrightarrow> acceptable bs p (e_price a)) (abs_book b)" for b
  proof (induction b)
    case (Cons x b)
    obtain k v where x: "x = (k, v)" by (cases x)
    have "\<forall>e \<in> set (abs_book b). acceptable bs p (e_price e) \<longrightarrow> acceptable bs p (fval k)"
      using Cons.prems by (fastforce simp: x abs_book_def)
    with Cons show ?case by (auto simp: x sorted_wrt_append sorted_wrt_map sorted_wrt_true)
  qed simp
  from this[OF acceptable_sorted[OF I]] show ?thesis by (simp add: abs_ob_def)
qed

text \<open>One addition, seen from outside: what the specification did and what was queued.\<close>

lemma add_outcome:
  assumes "reads_stale dg" "ob_inv ob" "ob_whole ob" "fresh_whole oi"
    and "side_of (o_side (oi_order oi)) = Some bs" "\<not> has (o_orderId (oi_order oi)) ob"
    and "add dg oi ob = Inr ob'"
  obtains es' q where
    "spec_match (acceptable bs (fval (oi_price oi))) (o_userId (oi_order oi))
       (fval (o_originalQty (oi_order oi))) (abs_ob ob (other bs))
       = (es', q, map trade_of (trade_events oi ob ob'))"
    "abs_ob ob' (other bs) = es'"
    "abs_ob ob' bs = (if q = 0 then abs_ob ob bs else spec_insert bs
       \<lparr>e_price = fval (oi_price oi), e_node = m_next_node ob, e_user = o_userId (oi_order oi),
        e_oid = o_orderId (oi_order oi), e_qty = q\<rparr> (abs_ob ob bs))"
proof -
  let ?e = "entry_of (oi_price oi) (m_next_node ob, oi_order oi)"
  have e: "e_price ?e = fval (oi_price oi)" "e_user ?e = o_userId (oi_order oi)"
    "e_qty ?e = fval (o_originalQty (oi_order oi))"
    "?e\<lparr>e_qty := q\<rparr> = \<lparr>e_price = fval (oi_price oi), e_node = m_next_node ob, e_user = o_userId (oi_order oi),
        e_oid = o_orderId (oi_order oi), e_qty = q\<rparr>" for q
    using assms(4) by (simp_all add: entry_of_def fresh_whole_def)
  from add_refines_spec[OF assms(1-5)] assms(7) have "add_agrees oi bs ob ob'" by auto
  then obtain S' q evs ms where
    A: "spec_add bs ?e (abs_ob ob) = (S', q, map trade_of evs)" "abs_ob ob' = S'"
    "m_event_output ob' = m_event_output ob @ evs @ ms"
    "closing_events oi (fval (o_originalQty (oi_order oi))) q ms"
    unfolding add_agrees_def by (auto split: prod.splits)
  obtain es' where M: "spec_match (acceptable bs (fval (oi_price oi))) (o_userId (oi_order oi))
       (fval (o_originalQty (oi_order oi))) (abs_ob ob (other bs)) = (es', q, map trade_of evs)"
    using A(1) unfolding spec_add_def e by (auto split: prod.splits)
  then have S': "S' = (if q = 0 then (abs_ob ob)(other bs := es')
      else (abs_ob ob)(other bs := es', bs := spec_insert bs (?e\<lparr>e_qty := q\<rparr>) (abs_ob ob bs)))"
    using A(1) unfolding spec_add_def e by (auto split: if_splits)
  have new: "o_orderId (oi_order oi) \<notin> e_oid ` set (abs_ob ob (other bs))"
  proof -
    note ob_inv_dom[OF assms(2), of "other bs"]
    then show ?thesis using assms(6) has_ids[of _ _ bs] by (simp add: abs_ob_oids)
  qed
  have pos: "0 \<le> fval (o_originalQty (oi_order oi))"
    using assms(4) by (auto simp: fresh_whole_def order_ok_def rest_ok_def qty_ok_def)
  have "o_orderId (ev_order ev) \<noteq> o_orderId (oi_order oi)" if "ev \<in> set evs" for ev
  proof -
    have "trade_of ev \<in> set (map trade_of evs)" using that by simp
    then obtain x where "x \<in> set (abs_ob ob (other bs))" "e_oid x = o_orderId (ev_order ev)"
      using spec_match_trades[OF M pos wf_entries_abs[OF assms(2)]] unfolding trade_of_def by blast
    with new show ?thesis by force
  qed
  then have "filter (\<lambda>e. o_orderId (ev_order e) \<noteq> o_orderId (oi_order oi)) evs = evs" by simp
  moreover have "filter (\<lambda>e. o_orderId (ev_order e) \<noteq> o_orderId (oi_order oi)) ms = []"
    using A(4) by (auto simp: closing_events_def split: if_splits)
  ultimately have "trade_events oi ob ob' = evs"
    by (simp add: trade_events_def new_events_def A(3))
  with M S' A(2) e(4) show thesis by (intro that[of es' q]) auto
qed

section \<open>A concrete market\<close>

text \<open>Amounts in whole units, and two resting sell orders: 10 units at 5, 20 units at 6.\<close>

definition units :: "nat \<Rightarrow> f32" where
  "units k = FFin False (k * f32_unit)"

lemma units_props:
  assumes "k \<le> 2 ^ 24"
  shows "is_fin (units k)" "fval (units k) = int (k * f32_unit)" "whole (units k)" "wf_f32 (units k)"
    and "0 < k \<Longrightarrow> qty_ok (units k)"
  using f32_of_int_eval[OF assms] whole_f32_of_int[OF assms] wf_f32_whole[OF assms]
  by (auto simp: units_def qty_ok_def)

lemma is_fin_units [simp]: "is_fin (units k)"
  by (simp add: units_def)

lemma fval_units [simp]: "fval (units k) = int (k * f32_unit)"
  by (simp add: units_def)

definition ex_order :: "UserId \<Rightarrow> OrderId \<Rightarrow> nat \<Rightarrow> Side \<Rightarrow> Order" where
  "ex_order u x k s = \<lparr>o_userId = u, o_orderId = x, o_originalQty = units k, o_remainQty = units k,
     o_avgPrice = fzero, o_side = s, o_status = OS_NewOrder\<rparr>"

lemma ex_order_simps [simp]:
  "o_userId (ex_order u x k s) = u" "o_orderId (ex_order u x k s) = x" "o_side (ex_order u x k s) = s"
  "o_originalQty (ex_order u x k s) = units k" "o_remainQty (ex_order u x k s) = units k"
  by (simp_all add: ex_order_def)

lemma ex_order_ok: "0 < k \<Longrightarrow> k \<le> 2 ^ 24 \<Longrightarrow> rest_ok (ex_order u x k s)"
  by (simp add: rest_ok_def units_props)

definition ex_info :: "UserId \<Rightarrow> OrderId \<Rightarrow> nat \<Rightarrow> nat \<Rightarrow> Side \<Rightarrow> OrderInfo" where
  "ex_info u x k p s = \<lparr>oi_execid = ''e'', oi_price = units p, oi_order = ex_order u x k s\<rparr>"

definition ex_book :: order_book where
  "ex_book = (OrderBook_init ''ACME'')\<lparr>
     m_ask_id := [''a1'' \<mapsto> \<lparr>ii_Order = 0, ii_price = units 5\<rparr>, ''a2'' \<mapsto> \<lparr>ii_Order = 1, ii_price = units 6\<rparr>],
     m_ask_book := [(units 5, [(0, ex_order ''u1'' ''a1'' 10 Side_Sell)]),
                    (units 6, [(1, ex_order ''u2'' ''a2'' 20 Side_Sell)])],
     m_next_node := 2\<rparr>"

definition stale :: dangling where
  "stale = \<lparr>dg_orderId = o_orderId, dg_info = (\<lambda>i. i)\<rparr>"

lemma ex_reads_stale [simp]: "reads_stale stale"
  by (simp add: reads_stale_def stale_def)

lemma ex_book_inv: "ob_inv ex_book"
proof -
  have "rest_ok (ex_order u x 10 s)" "rest_ok (ex_order u x 20 s)" for u x s
    by (auto intro!: ex_order_ok)
  then show ?thesis
    by (auto simp: ob_inv_def side_inv_def ex_book_def OrderBook_init_def flt_fin level_ok_def
        entry_ok_def dom_def)
qed

lemma ex_book_whole: "ob_whole ex_book"
  by (simp add: ob_whole_def ex_book_def OrderBook_init_def units_props)

lemma ex_fresh:
  assumes "s = Side_Buy \<or> s = Side_Sell" "0 < k" "k \<le> 2 ^ 24"
  shows "fresh_whole (ex_info u x k p s)"
  using assms ex_order_ok[OF assms(2,3)]
  by (auto simp: fresh_whole_def order_ok_def plain_side_def ex_info_def units_props)

lemma ex_has [simp]: "has x ex_book \<longleftrightarrow> x = ''a1'' \<or> x = ''a2''"
  by (auto simp: has_def ex_book_def OrderBook_init_def)

lemma ex_info_simps [simp]: "oi_price (ex_info u x k p s) = units p"
  "oi_order (ex_info u x k p s) = ex_order u x k s"
  by (simp_all add: ex_info_def)

text \<open>A buy of 15 units at 6 takes all of the first order and 5 units of the second.\<close>

lemma ex_run:
  obtains ob' where "add stale (ex_info ''u3'' ''b1'' 15 6 Side_Buy) ex_book = Inr ob'"
    "map trade_of (trade_events (ex_info ''u3'' ''b1'' 15 6 Side_Buy) ex_book ob')
      = [(''a1'', int (5 * f32_unit), int (10 * f32_unit)), (''a2'', int (6 * f32_unit), int (5 * f32_unit))]"
    "abs_ob ob' AskSide = [\<lparr>e_price = int (6 * f32_unit), e_node = 1, e_user = ''u2'',
      e_oid = ''a2'', e_qty = int (15 * f32_unit)\<rparr>]"
proof -
  let ?oi = "ex_info ''u3'' ''b1'' 15 6 Side_Buy"
  have fresh: "fresh_whole ?oi" by (rule ex_fresh) simp_all
  obtain ob' where ob': "add stale ?oi ex_book = Inr ob'"
    using add_refines_spec[OF ex_reads_stale ex_book_inv ex_book_whole fresh] by (auto simp: ex_order_def)
  obtain es' q where "spec_match (acceptable BidSide (fval (oi_price ?oi))) (o_userId (oi_order ?oi))
      (fval (o_originalQty (oi_order ?oi))) (abs_ob ex_book (other BidSide))
      = (es', q, map trade_of (trade_events ?oi ex_book ob'))" "abs_ob ob' (other BidSide) = es'"
    by (rule add_outcome[OF ex_reads_stale ex_book_inv ex_book_whole fresh _ _ ob', of BidSide])
      (simp, simp, rule that, assumption+)
  then have r: "spec_match (acceptable BidSide (int (6 * f32_unit))) ''u3'' (int (15 * f32_unit)) (abs_ob ex_book AskSide)
      = (es', q, map trade_of (trade_events ?oi ex_book ob'))" "abs_ob ob' AskSide = es'"
    by simp_all
  have "spec_match (acceptable BidSide (int (6 * f32_unit))) ''u3'' (int (15 * f32_unit)) (abs_ob ex_book AskSide)
      = ([\<lparr>e_price = int (6 * f32_unit), e_node = 1, e_user = ''u2'', e_oid = ''a2'', e_qty = int (15 * f32_unit)\<rparr>],
        0, [(''a1'', int (5 * f32_unit), int (10 * f32_unit)), (''a2'', int (6 * f32_unit), int (5 * f32_unit))])"
    using f32_unit_pos by (simp add: abs_ob_def ex_book_def entry_of_def acceptable_def)
  with r ob' that show thesis by simp
qed

section \<open>The properties\<close>

text \<open>
  C1: adding a new whole-unit order always succeeds and is the price-time matching of the
  specification: the two queues afterwards are those of \<open>spec_add\<close>, and the events queued are
  the specification's trades in order, then one closing event when anything was executed.
\<close>

theorem add_implements_spec:
  assumes "reads_stale dg" "ob_inv ob" "ob_whole ob" "fresh_whole oi"
    and "side_of (o_side (oi_order oi)) = Some bs"
  shows "\<exists>ob'. add dg oi ob = Inr ob' \<and> add_agrees oi bs ob ob'"
  using assms by (rule add_refines_spec)

theorem add_implements_spec_witness:
  "\<exists>ob'. add stale (ex_info ''u3'' ''b1'' 15 6 Side_Buy) ex_book = Inr ob'
     \<and> add_agrees (ex_info ''u3'' ''b1'' 15 6 Side_Buy) BidSide ex_book ob'"
  by (rule add_implements_spec) (simp_all add: ex_book_inv ex_book_whole ex_fresh)

text \<open>
  C2: cancelling an order its side holds always succeeds, removes exactly that order from its
  queue and its entry from the id map, touches nothing else, queues no event and keeps the
  invariant.
\<close>

theorem cancel_implements_spec:
  assumes "reads_stale dg" "ob_inv ob" "has_side x s ob" "side_of s = Some bs"
  shows "\<exists>ob'. cancel dg x s ob = Inr ob' \<and> ob_inv ob' \<and> abs_ob ob' = spec_cancel bs x (abs_ob ob)
    \<and> ids_of bs ob' = (ids_of bs ob)(x := None) \<and> ids_of (other bs) ob' = ids_of (other bs) ob
    \<and> m_event_output ob' = m_event_output ob"
proof (rule cancel_inv[OF assms(1-3)])
  fix bs' ob'
  assume "side_of s = Some bs'" and c': "cancel dg x s ob = Inr ob'" "ob_inv ob'"
    "book_of bs' ob' = map (\<lambda>(p, l). (p, filter (\<lambda>n. o_orderId (snd n) \<noteq> x) l)) (book_of bs' ob)"
    "book_of (other bs') ob' = book_of (other bs') ob" "ids_of bs' ob' = (ids_of bs' ob)(x := None)"
    "ids_of (other bs') ob' = ids_of (other bs') ob" "m_event_output ob' = m_event_output ob"
  then have "bs' = bs" using assms(4) by simp
  note c = c'[unfolded this]
  have "abs_book (map (\<lambda>(p, l). (p, filter (\<lambda>n. o_orderId (snd n) \<noteq> x) l)) b)
      = filter (\<lambda>e. e_oid e \<noteq> x) (abs_book b)" for b
    by (induction b) (auto simp: filter_map comp_def entry_of_def)
  then have "abs_ob ob' t = spec_cancel bs x (abs_ob ob) t" for t
    using c(3,4) by (cases t; cases bs) (simp_all add: abs_ob_def spec_cancel_def)
  with c show ?thesis by auto
qed

theorem cancel_implements_spec_witness:
  "\<exists>ob'. cancel stale ''a1'' Side_Sell ex_book = Inr ob' \<and> ob_inv ob'
     \<and> abs_ob ob' = spec_cancel AskSide ''a1'' (abs_ob ex_book)
     \<and> ids_of AskSide ob' = (ids_of AskSide ex_book)(''a1'' := None)
     \<and> ids_of (other AskSide) ob' = ids_of (other AskSide) ex_book
     \<and> m_event_output ob' = m_event_output ex_book"
  by (rule cancel_implements_spec)
    (simp_all add: ex_book_inv has_side_def, simp add: ex_book_def)

text \<open>
  C3: every trade of an addition is with a resting order of another user on the opposite side,
  at that order's price, which the submitter's limit accepts, and for at most what rested.
\<close>

theorem add_trades_fair:
  assumes "reads_stale dg" "ob_inv ob" "ob_whole ob" "fresh_whole oi"
    and "side_of (o_side (oi_order oi)) = Some bs" "\<not> has (o_orderId (oi_order oi)) ob"
    and "add dg oi ob = Inr ob'" and ev: "ev \<in> set (trade_events oi ob ob')"
  shows "\<exists>(p, l) \<in> set (book_of (other bs) ob). \<exists>n \<in> set l.
      o_orderId (snd n) = o_orderId (ev_order ev) \<and> o_userId (snd n) \<noteq> o_userId (oi_order oi)
    \<and> fval (ev_lastPrice ev) = fval p \<and> acceptable bs (fval (oi_price oi)) (fval p)
    \<and> 0 < fval (ev_lastQty ev) \<and> fval (ev_lastQty ev) \<le> fval (o_remainQty (snd n))"
proof -
  obtain es' q where M: "spec_match (acceptable bs (fval (oi_price oi))) (o_userId (oi_order oi))
       (fval (o_originalQty (oi_order oi))) (abs_ob ob (other bs))
       = (es', q, map trade_of (trade_events oi ob ob'))"
    using add_outcome[OF assms(1-7)] by metis
  have pos: "0 \<le> fval (o_originalQty (oi_order oi))"
    using assms(4) by (auto simp: fresh_whole_def order_ok_def rest_ok_def qty_ok_def)
  have "(o_orderId (ev_order ev), fval (ev_lastPrice ev), fval (ev_lastQty ev))
      \<in> set (map trade_of (trade_events oi ob ob'))"
    using ev by (auto simp: trade_of_def)
  from spec_match_trades[OF M pos wf_entries_abs[OF assms(2)] this] obtain x where
    x: "x \<in> set (abs_ob ob (other bs))" "e_oid x = o_orderId (ev_order ev)"
    "e_price x = fval (ev_lastPrice ev)" "e_user x \<noteq> o_userId (oi_order oi)"
    "acceptable bs (fval (oi_price oi)) (fval (ev_lastPrice ev))"
    "0 < fval (ev_lastQty ev)" "fval (ev_lastQty ev) \<le> e_qty x" by blast
  then obtain p l n where "(p, l) \<in> set (book_of (other bs) ob)" "n \<in> set l" "x = entry_of p n"
    unfolding abs_ob_member by blast
  with x show ?thesis
    by (intro bexI[of _ "(p, l)"]) (auto simp: entry_of_def intro!: bexI[of _ n])
qed

text \<open>
  C4: priority: when a resting order trades, every order of another user ahead of it in the
  queue (at a better price, or earlier at the same price) has been executed in full.
\<close>

theorem add_price_time_priority:
  assumes "reads_stale dg" "ob_inv ob" "ob_whole ob" "fresh_whole oi"
    and "side_of (o_side (oi_order oi)) = Some bs" "\<not> has (o_orderId (oi_order oi)) ob"
    and "add dg oi ob = Inr ob'"
    and queue: "abs_ob ob (other bs) = es1 @ x # es2" and ahead: "y \<in> set es1"
    and user: "e_user y \<noteq> o_userId (oi_order oi)"
    and ev: "ev \<in> set (trade_events oi ob ob')" "o_orderId (ev_order ev) = e_oid x"
  shows "\<exists>ev' \<in> set (trade_events oi ob ob'). o_orderId (ev_order ev') = e_oid y
    \<and> fval (ev_lastPrice ev') = e_price y \<and> fval (ev_lastQty ev') = e_qty y"
proof -
  obtain es' q where M: "spec_match (acceptable bs (fval (oi_price oi))) (o_userId (oi_order oi))
       (fval (o_originalQty (oi_order oi))) (abs_ob ob (other bs))
       = (es', q, map trade_of (trade_events oi ob ob'))"
    using add_outcome[OF assms(1-7)] by metis
  have pos: "0 \<le> fval (o_originalQty (oi_order oi))"
    using assms(4) by (auto simp: fresh_whole_def order_ok_def rest_ok_def qty_ok_def)
  have "e_oid x \<in> fst ` set (map trade_of (trade_events oi ob ob'))"
    using ev by (force simp: trade_of_def)
  from spec_match_priority[OF M[unfolded queue] pos _ this ahead user] wf_entries_abs[OF assms(2), of "other bs"]
  show ?thesis by (auto simp: queue trade_of_def)
qed

theorem add_trades_fair_witness:
  "\<exists>ob' ev. add stale (ex_info ''u3'' ''b1'' 15 6 Side_Buy) ex_book = Inr ob'
    \<and> ev \<in> set (trade_events (ex_info ''u3'' ''b1'' 15 6 Side_Buy) ex_book ob')
    \<and> (\<exists>(p, l) \<in> set (book_of (other BidSide) ex_book). \<exists>n \<in> set l.
        o_orderId (snd n) = o_orderId (ev_order ev)
      \<and> o_userId (snd n) \<noteq> o_userId (oi_order (ex_info ''u3'' ''b1'' 15 6 Side_Buy))
      \<and> fval (ev_lastPrice ev) = fval p
      \<and> acceptable BidSide (fval (oi_price (ex_info ''u3'' ''b1'' 15 6 Side_Buy))) (fval p)
      \<and> 0 < fval (ev_lastQty ev) \<and> fval (ev_lastQty ev) \<le> fval (o_remainQty (snd n)))"
proof (rule ex_run)
  fix ob'
  let ?oi = "ex_info ''u3'' ''b1'' 15 6 Side_Buy"
  assume a: "add stale ?oi ex_book = Inr ob'" and "map trade_of (trade_events ?oi ex_book ob')
      = [(''a1'', int (5 * f32_unit), int (10 * f32_unit)), (''a2'', int (6 * f32_unit), int (5 * f32_unit))]"
  then obtain ev where ev: "ev \<in> set (trade_events ?oi ex_book ob')"
    by (metis list.map_disc_iff list.set_intros(1) neq_Nil_conv not_Cons_self2)
  have "fresh_whole ?oi" by (rule ex_fresh) simp_all
  from add_trades_fair[OF ex_reads_stale ex_book_inv ex_book_whole this _ _ a ev, of BidSide] a ev
  show ?thesis by (intro exI[of _ ob'] exI[of _ ev] conjI) simp_all
qed

theorem add_price_time_priority_witness:
  "\<exists>ob' ev'. add stale (ex_info ''u3'' ''b1'' 15 6 Side_Buy) ex_book = Inr ob'
    \<and> ev' \<in> set (trade_events (ex_info ''u3'' ''b1'' 15 6 Side_Buy) ex_book ob')
    \<and> o_orderId (ev_order ev') = ''a1'' \<and> fval (ev_lastQty ev') = int (10 * f32_unit)"
proof (rule ex_run)
  fix ob'
  let ?oi = "ex_info ''u3'' ''b1'' 15 6 Side_Buy"
  let ?a1 = "entry_of (units 5) (0, ex_order ''u1'' ''a1'' 10 Side_Sell)"
  let ?a2 = "entry_of (units 6) (1, ex_order ''u2'' ''a2'' 20 Side_Sell)"
  assume a: "add stale ?oi ex_book = Inr ob'" and t: "map trade_of (trade_events ?oi ex_book ob')
      = [(''a1'', int (5 * f32_unit), int (10 * f32_unit)), (''a2'', int (6 * f32_unit), int (5 * f32_unit))]"
  from t have "(''a2'', int (6 * f32_unit), int (5 * f32_unit)) \<in> set (map trade_of (trade_events ?oi ex_book ob'))"
    by simp
  then obtain ev where ev: "ev \<in> set (trade_events ?oi ex_book ob')" "o_orderId (ev_order ev) = e_oid ?a2"
    by (auto simp: trade_of_def entry_of_def)
  have fresh: "fresh_whole ?oi" by (rule ex_fresh) simp_all
  have q: "abs_ob ex_book (other BidSide) = [?a1] @ ?a2 # []"
    by (simp add: abs_ob_def ex_book_def)
  from add_price_time_priority[OF ex_reads_stale ex_book_inv ex_book_whole fresh _ _ a q _ _ ev, of ?a1]
  obtain ev' where "ev' \<in> set (trade_events ?oi ex_book ob')" "o_orderId (ev_order ev') = e_oid ?a1"
    "fval (ev_lastQty ev') = e_qty ?a1" by (auto simp: entry_of_def)
  with a show ?thesis by (intro exI[of _ ob'] exI[of _ ev']) (simp add: entry_of_def)
qed

text \<open>
  C5: conservation of quantity: what an addition executes leaves the opposite side, and the
  submitter's own side grows by exactly what was not executed.
\<close>

theorem add_conserves_quantity:
  assumes "reads_stale dg" "ob_inv ob" "ob_whole ob" "fresh_whole oi"
    and "side_of (o_side (oi_order oi)) = Some bs" "\<not> has (o_orderId (oi_order oi)) ob"
    and "add dg oi ob = Inr ob'"
  shows "side_qty (other bs) ob' = side_qty (other bs) ob - executed oi ob ob'
    \<and> side_qty bs ob' = side_qty bs ob + fval (o_originalQty (oi_order oi)) - executed oi ob ob'"
proof (rule add_outcome[OF assms(1-7)])
  fix es' q
  assume M: "spec_match (acceptable bs (fval (oi_price oi))) (o_userId (oi_order oi))
      (fval (o_originalQty (oi_order oi))) (abs_ob ob (other bs))
      = (es', q, map trade_of (trade_events oi ob ob'))"
    and a: "abs_ob ob' (other bs) = es'"
    "abs_ob ob' bs = (if q = 0 then abs_ob ob bs else spec_insert bs
       \<lparr>e_price = fval (oi_price oi), e_node = m_next_node ob, e_user = o_userId (oi_order oi),
        e_oid = o_orderId (oi_order oi), e_qty = q\<rparr> (abs_ob ob bs))"
  have t: "total (map trade_of evs) = (\<Sum>e \<leftarrow> evs. fval (ev_lastQty e))" for evs
    by (induction evs) (auto simp: trade_of_def)
  have "sum_list (map e_qty (spec_insert bs e es)) = sum_list (map e_qty es) + e_qty e" for e es
  proof -
    let ?P = "\<lambda>x. \<not> better bs (e_price e) (e_price x)"
    have "sum_list (map e_qty es) = sum_list (map e_qty (takeWhile ?P es @ dropWhile ?P es))" by simp
    then show ?thesis unfolding map_append sum_list_append by (simp add: spec_insert_def)
  qed
  with spec_match_conserves[OF M] a show ?thesis
    by (auto simp: side_qty_abs executed_def t)
qed

theorem add_conserves_quantity_witness:
  "\<exists>ob'. add stale (ex_info ''u3'' ''b1'' 15 6 Side_Buy) ex_book = Inr ob'
    \<and> side_qty AskSide ob' = side_qty AskSide ex_book
        - executed (ex_info ''u3'' ''b1'' 15 6 Side_Buy) ex_book ob'"
proof (rule ex_run)
  fix ob'
  let ?oi = "ex_info ''u3'' ''b1'' 15 6 Side_Buy"
  assume a: "add stale ?oi ex_book = Inr ob'"
  have fresh: "fresh_whole ?oi" by (rule ex_fresh) simp_all
  from add_conserves_quantity[OF ex_reads_stale ex_book_inv ex_book_whole fresh _ _ a, of BidSide] a
  show ?thesis by simp
qed



section \<open>Every run\<close>

text \<open>
  What the market's threads do to the book: the matching worker adds and cancels orders it has
  checked, the event loop takes the oldest event, readers come and go.
\<close>

inductive ob_step :: "dangling \<Rightarrow> order_book \<Rightarrow> order_book \<Rightarrow> bool" for dg where
  step_add: "order_ok oi \<Longrightarrow> \<not> has (o_orderId (oi_order oi)) ob \<Longrightarrow> add dg oi ob = Inr ob'
     \<Longrightarrow> ob_step dg ob ob'"
| step_cancel: "has_side x s ob \<Longrightarrow> cancel dg x s ob = Inr ob' \<Longrightarrow> ob_step dg ob ob'"
| step_event: "m_event_output ob = e # es \<Longrightarrow> ob_step dg ob (ob\<lparr>m_event_output := es\<rparr>)"
| step_lock: "lockReadOrder s ob = Inr ob' \<Longrightarrow> ob_step dg ob ob'"
| step_unlock: "unlockReadOrder s ob = Inr ob' \<Longrightarrow> ob_step dg ob ob'"

inductive ob_reach :: "dangling \<Rightarrow> string \<Rightarrow> order_book \<Rightarrow> bool" for dg name where
  reach_init: "ob_reach dg name (OrderBook_init name)"
| reach_step: "ob_reach dg name ob \<Longrightarrow> ob_step dg ob ob' \<Longrightarrow> ob_reach dg name ob'"

lemma ob_inv_only_books:
  assumes "m_bid_book ob' = m_bid_book ob" "m_ask_book ob' = m_ask_book ob" "m_bid_id ob' = m_bid_id ob"
    and "m_ask_id ob' = m_ask_id ob" "m_next_node ob' = m_next_node ob"
  shows "ob_inv ob' = ob_inv ob"
  using assms by (simp add: ob_inv_def)

lemma ob_step_inv: "ob_step dg ob ob' \<Longrightarrow> reads_stale dg \<Longrightarrow> ob_inv ob \<Longrightarrow> ob_inv ob'"
proof (induction rule: ob_step.induct)
  case (step_cancel x s ob ob')
  then show ?case using cancel_inv[of dg ob x s] by (metis sum.inject(2))
next
  case (step_lock s ob ob')
  then show ?case
    by (subst ob_inv_only_books[of _ ob])
      (auto simp: lockReadOrder_def split: option.splits book_side.splits)
next
  case (step_unlock s ob ob')
  then show ?case
    by (subst ob_inv_only_books[of _ ob])
      (auto simp: unlockReadOrder_def split: option.splits book_side.splits)
next
  case (step_event ob e es)
  then show ?case by (subst ob_inv_only_books[of _ ob]) simp_all
qed (rule add_inv)

lemma ob_reach_inv: "ob_reach dg name ob \<Longrightarrow> reads_stale dg \<Longrightarrow> ob_inv ob"
  by (induction rule: ob_reach.induct) (auto simp: ob_inv_init intro: ob_step_inv)

lemma deref_member:
  assumes "distinct (map fst (book_nodes b))" "(a, r) \<in> set (book_nodes b)"
  shows "deref b a = Inr r"
proof -
  have "find (\<lambda>n. fst n = a) (book_nodes b) = Some (a, r)"
    by (rule find_unique[OF assms(2)]) (use assms in \<open>auto simp: distinct_map inj_on_def\<close>)
  then show ?thesis by (simp add: deref_def)
qed

lemma getOrder_ok:
  assumes "ob_inv ob" "has x ob"
  shows "\<exists>r. getOrder x ob = Inr r \<and> o_orderId r = x \<and> rest_ok r"
proof -
  have side: "\<exists>r. deref (book_of bs ob) (ii_Order i) = Inr r \<and> o_orderId r = x \<and> rest_ok r"
    if i: "ids_of bs ob x = Some i" for bs i
  proof -
    have inv: "side_inv bs (m_next_node ob) (book_of bs ob) (ids_of bs ob)"
      using assms(1) ob_inv_two by blast
    obtain k l r where L: "(k, l) \<in> set (book_of bs ob)" "(ii_Order i, r) \<in> set l" "o_orderId r = x"
      using side_inv_locate[OF inv i] by metis
    then have m: "(ii_Order i, r) \<in> set (book_nodes (book_of bs ob))" by (force simp: book_nodes_def)
    have d: "distinct (map fst (book_nodes (book_of bs ob)))" using inv by (simp add: side_inv_def)
    have "rest_ok r" using ob_inv_level[OF assms(1)] m by (force simp: level_ok_def)
    with deref_member[OF d m] L(3) show ?thesis by simp
  qed
  from assms(2) show ?thesis
    using side[of BidSide] side[of AskSide] by (auto simp: getOrder_def has_def split: option.splits)
qed

text \<open>
  C7: in every state a market can reach, the book is sound (sorted levels, id maps and lists in
  agreement, $0 < remain \le original$ for every order), every order it knows can be read, and
  every cancel of an order on its side succeeds: neither \<^verbatim>\<open>at\<close> nor an iterator ever fails.
\<close>

theorem reachable_book_sound:
  assumes "ob_reach dg name ob" "reads_stale dg"
  shows "ob_inv ob \<and> (has x ob \<longrightarrow> (\<exists>r. getOrder x ob = Inr r \<and> o_orderId r = x \<and> rest_ok r))
    \<and> (has_side x s ob \<longrightarrow> (\<exists>ob'. cancel dg x s ob = Inr ob' \<and> \<not> has_side x s ob'))"
proof -
  have inv: "ob_inv ob" using assms by (rule ob_reach_inv)
  have "\<exists>ob'. cancel dg x s ob = Inr ob' \<and> \<not> has_side x s ob'" if h: "has_side x s ob"
    by (rule cancel_inv[OF assms(2) inv h]) (auto simp: has_side_def)
  with inv getOrder_ok[OF inv] show ?thesis by blast
qed

theorem reachable_book_sound_witness:
  "\<exists>ob. ob_reach stale ''ACME'' ob \<and> ob_inv ob \<and> has ''s'' ob
    \<and> (\<exists>ob'. cancel stale ''s'' Side_Sell ob = Inr ob' \<and> \<not> has_side ''s'' Side_Sell ob')"
proof -
  let ?oi = "ex_info ''u'' ''s'' 10 5 Side_Sell"
  let ?ob = "addToBook AskSide (units 5) (resting_order (oi_order ?oi) (units 10, fzero)) (OrderBook_init ''ACME'')"
  have "add stale ?oi (OrderBook_init ''ACME'') = Inr ?ob"
    by (simp add: add_def fillOnBook_def OrderBook_init_def fill_end_def main_event_def feq_fin feq_zero
        f32_unit_def ex_order_def)
  then have "ob_step stale (OrderBook_init ''ACME'') ?ob"
    by (rule step_add[rotated 2]) (auto simp: order_ok_def has_def OrderBook_init_def intro!: ex_order_ok)
  then have r: "ob_reach stale ''ACME'' ?ob" by (blast intro: reach_init reach_step)
  have "has ''s'' ?ob" "has_side ''s'' Side_Sell ?ob" by (simp_all add: has_def has_side_def addToBook_def Let_def)
  with r reachable_book_sound[OF r ex_reads_stale, of "''s''" Side_Sell] show ?thesis by blast
qed

section \<open>The tick rule\<close>

text \<open>The direction in which an order of that side may not trade.\<close>

definition tick_blocked :: "Side \<Rightarrow> order_book \<Rightarrow> bool" where
  "tick_blocked s ob \<longleftrightarrow> \<not> fst (allowTick s ob)"

lemma fill_levels_blocked:
  assumes "tick_blocked (o_side (oi_order oi)) ob" "feq (o_remainQty (ev_order me)) (o_originalQty (oi_order oi))"
  shows "\<exists>ob'. fill_levels dg bs cmp oi ob me b = (b, ob', (o_remainQty (ev_order me), o_avgPrice (ev_order me)))
    \<and> m_event_output ob' = m_event_output ob \<and> (\<forall>s. ids_of s ob' = ids_of s ob) \<and> same_frame ob ob'"
proof (cases b)
  case Nil
  with assms(2) show ?thesis by (simp add: fill_end_def)
next
  case (Cons x b')
  obtain p l where x: "x = (p, l)" by (cases x)
  show ?thesis
    using assms by (auto simp: Cons x fill_end_def tick_blocked_def allowTick_def Let_def frame)
qed



lemma fsub_units:
  assumes "l \<le> k" "k \<le> 2 ^ 24"
  shows "fsub (units k) (units l) = units (k - l)"
proof -
  have d: "int (k * f32_unit) - int (l * f32_unit) = int ((k - l) * f32_unit)"
    using assms(1) by (simp add: left_diff_distrib of_nat_diff)
  have e: "f32_of False ((k - l) * f32_unit) 1 = units (k - l)"
    using f32_of_int_eval[of "k - l"] assms(2) by (simp add: f32_of_int_def units_def)
  have "fsub (units k) (units l) = (if int ((k - l) * f32_unit) = 0 then FFin False 0
      else f32_of (int ((k - l) * f32_unit) < 0) (nat \<bar>int ((k - l) * f32_unit)\<bar>) 1)"
    by (simp only: units_def fsub_def fneg_def f32.case fadd.simps Let_def sgnval_False sgnval_True
        not_False_eq_True minus_int_def[symmetric] d[unfolded diff_conv_add_uminus]) (simp add: f32_unit_def)
  also have "\<dots> = units (k - l)"
    using e unfolding units_def by (cases "(k - l) * f32_unit = 0") (simp_all del: of_nat_mult)
  finally show ?thesis .
qed

text \<open>
  An early return hides an execution: a buy-minus order for 15 units takes the 10 units at 5,
  which moves the tick down and blocks the next level. The resting order's event is queued, but
  \<^verbatim>\<open>fillOnBook\<close> returns without the incoming order's partial-fill event, so its owner is never
  told, while the book holds the order with 5 units left.
\<close>

theorem blocked_after_partial_fill_is_silent:
  "\<exists>ob'. add stale (ex_info ''u3'' ''b1'' 15 6 Side_BuyMinus) (ex_book\<lparr>m_lastprice := units 9\<rparr>) = Inr ob'
    \<and> map (\<lambda>e. (o_orderId (ev_order e), ev_lastQty e)) (m_event_output ob') = [(''a1'', units 10)]
    \<and> map (\<lambda>n. (o_orderId (snd n), o_remainQty (snd n))) (book_nodes (m_bid_book ob')) = [(''b1'', units 5)]"
  by (simp add: add_def fillOnBook_def ex_book_def OrderBook_init_def main_event_def allowTick_def
      tick_allows_def computeTick_def computeTick_new_def fillOrder_def Let_def std_min_def flt_fin feq_fin
      feq_zero fle_fin fsub_units push_event_def removeFromIdMap_def addToBook_def stale_def ex_order_def
      resting_order_def fzero_def [symmetric])

end
