(* ===== verification/Market.thy ===== *)
theory Market
  imports MarketUnits BookClaims
begin

text \<open>
  One market as a transition system: messages arrive with their tickets, the input handlers and
  the workers of \<^verbatim>\<open>NewOrder\<close> and \<^verbatim>\<open>Cancel\<close> take their steps in any order, the event unit drains the
  book's events. A section under the market's lock is one step, which theory ThreadsClaims
  justifies.
\<close>

section \<open>Steps\<close>

abbreviation tickets :: "market \<Rightarrow> ExecId list" where
  "tickets mk \<equiv> qm_queue (mk_mutex mk)"

definition now_list :: "'m ParsedMessage option \<Rightarrow> 'm ParsedMessage list" where
  "now_list x = (case x of None \<Rightarrow> [] | Some i \<Rightarrow> [i])"

text \<open>The messages in the hands of each side, oldest first.\<close>

definition order_pipe :: "market \<Rightarrow> NewOrderSingle ParsedMessage list" where
  "order_pipe mk = now_list (mk_order_now mk) @ mk_order_queue mk @ mk_orders mk"

definition cancel_pipe :: "market \<Rightarrow> OrderCancelRequest ParsedMessage list" where
  "cancel_pipe mk = now_list (mk_cancel_now mk) @ mk_cancel_queue mk @ mk_cancels mk"

definition ids :: "'m ParsedMessage list \<Rightarrow> ExecId list" where
  "ids = map pm_ExecutionId"

definition known_ids :: "market \<Rightarrow> ExecId set" where
  "known_ids mk = set (ids (order_pipe mk)) \<union> set (ids (cancel_pipe mk)) \<union> set (tickets mk)"

text \<open>Numbers the parser hands over: a finite price, a positive finite quantity.\<close>

definition sane_order :: "NewOrderSingle ParsedMessage \<Rightarrow> bool" where
  "sane_order p \<longleftrightarrow> (\<forall>x. no_Price (pm_Message p) = Some x \<longrightarrow> is_fin x)
     \<and> (\<forall>q. no_OrderQty (pm_Message p) = Some q \<longrightarrow> qty_ok q)"

text \<open>With \<open>tame\<close>, only limit orders and only cancels on a supported side arrive.\<close>

inductive market_step :: "dangling \<Rightarrow> bool \<Rightarrow> market \<Rightarrow> market \<Rightarrow> bool" for dg tame where
  mk_arrive_order: "pm_ExecutionId p \<notin> known_ids mk \<Longrightarrow> sane_order p
     \<Longrightarrow> tame \<longrightarrow> no_OrdType (pm_Message p) = OT_Limit
     \<Longrightarrow> market_step dg tame mk (enqueue_order p (set_mutex (qm_allow (pm_ExecutionId p)) mk))"
| mk_arrive_cancel: "pm_ExecutionId p \<notin> known_ids mk
     \<Longrightarrow> tame \<longrightarrow> side_of (oc_Side (pm_Message p)) \<noteq> None
     \<Longrightarrow> market_step dg tame mk (enqueue_cancel p (set_mutex (qm_allow (pm_ExecutionId p)) mk))"
| mk_order_input: "ts_pop_front (mk_orders mk) = Some (i, q)
     \<Longrightarrow> neworder_onInput i (mk\<lparr>mk_orders := q\<rparr>) (s :: server) = (mk', s')
     \<Longrightarrow> market_step dg tame mk mk'"
| mk_cancel_input: "ts_pop_front (mk_cancels mk) = Some (i, q)
     \<Longrightarrow> cancel_onInput i (mk\<lparr>mk_cancels := q\<rparr>) (s :: server) = Inr (mk', s')
     \<Longrightarrow> market_step dg tame mk mk'"
| mk_order_take: "market_step dg tame mk (order_take mk)"
| mk_cancel_take: "market_step dg tame mk (cancel_take mk)"
| mk_order_locked: "order_locked dg user mk (s :: server) = Inr (mk', s') \<Longrightarrow> market_step dg tame mk mk'"
| mk_cancel_locked: "cancel_locked dg mk (s :: server) = Inr (mk', s') \<Longrightarrow> market_step dg tame mk mk'"
| mk_event: "event_step exec now mk (s :: server) = (mk', s') \<Longrightarrow> market_step dg tame mk mk'"

inductive market_reach :: "dangling \<Rightarrow> bool \<Rightarrow> string \<Rightarrow> market \<Rightarrow> bool" for dg tame symbol where
  mr_init: "market_reach dg tame symbol (MarketContainer_init symbol)"
| mr_step: "market_reach dg tame symbol mk \<Longrightarrow> market_step dg tame mk mk' \<Longrightarrow> market_reach dg tame symbol mk'"

section \<open>Tickets and pipelines\<close>

text \<open>The tickets are exactly the pending messages, and each pipeline is in ticket order.\<close>

definition pipes_ok :: "'i list \<Rightarrow> 'i list \<Rightarrow> 'i list \<Rightarrow> bool" where
  "pipes_ok ts op cp \<longleftrightarrow> distinct ts \<and> set op \<inter> set cp = {} \<and> set ts = set op \<union> set cp
     \<and> filter (\<lambda>x. x \<in> set op) ts = op \<and> filter (\<lambda>x. x \<in> set cp) ts = cp"

lemma pipes_swap: "pipes_ok ts op cp \<longleftrightarrow> pipes_ok ts cp op"
  by (auto simp: pipes_ok_def)

lemma pipes_add: "pipes_ok ts op cp \<Longrightarrow> t \<notin> set ts \<Longrightarrow> pipes_ok (ts @ [t]) (op @ [t]) cp"
proof -
  assume p: "pipes_ok ts op cp" and t: "t \<notin> set ts"
  have "filter (\<lambda>x. x \<in> set (op @ [t])) ts = filter (\<lambda>x. x \<in> set op) ts"
    using t by (intro filter_cong) auto
  moreover have "filter (\<lambda>x. x \<in> set cp) [t] = []" using p t by (auto simp: pipes_ok_def)
  ultimately show ?thesis using p t by (auto simp: pipes_ok_def)
qed

lemma filter_neq_mem: "filter (\<lambda>y. y \<in> set (filter (\<lambda>y. y \<noteq> x) op)) (filter (\<lambda>y. y \<noteq> x) ts)
    = filter (\<lambda>y. y \<noteq> x) (filter (\<lambda>y. y \<in> set op) ts)"
  by (auto intro: filter_cong)

lemma pipes_drop: "pipes_ok ts op cp \<Longrightarrow>
    pipes_ok (filter (\<lambda>y. y \<noteq> x) ts) (filter (\<lambda>y. y \<noteq> x) op) (filter (\<lambda>y. y \<noteq> x) cp)"
  unfolding pipes_ok_def filter_neq_mem by auto

lemma pipes_front: "pipes_ok (x # ts) op cp \<Longrightarrow> x \<in> set op \<Longrightarrow> \<exists>op'. op = x # op'"
  by (auto simp: pipes_ok_def split: if_splits intro: sym)

lemma pipes_distinct: "pipes_ok ts op cp \<Longrightarrow> distinct op \<and> distinct cp"
  by (metis pipes_ok_def distinct_filter)

lemma pipes_notin: "pipes_ok ts op cp \<Longrightarrow> x \<in> set op \<Longrightarrow> filter (\<lambda>y. y \<noteq> x) cp = cp"
  by (rule filter_True) (auto simp: pipes_ok_def)

text \<open>Serving the message \<open>x\<close> of the first pipe takes its ticket and its place.\<close>

lemma pipes_serve:
  assumes "pipes_ok ts (pre @ x # post) cp"
  shows "pipes_ok (filter (\<lambda>y. y \<noteq> x) ts) (pre @ post) cp"
proof -
  have d: "distinct (pre @ x # post)" using pipes_distinct[OF assms] by simp
  then have "filter (\<lambda>y. y \<noteq> x) pre = pre" "filter (\<lambda>y. y \<noteq> x) post = post" by (auto intro!: filter_True)
  then have "filter (\<lambda>y. y \<noteq> x) (pre @ x # post) = pre @ post" by simp
  with pipes_drop[OF assms, of x] pipes_notin[OF assms, of x] show ?thesis by simp
qed

lemma qm_withdraw_tickets:
  "distinct (tickets mk) \<Longrightarrow> tickets (qm_withdraw x mk) = filter (\<lambda>y. y \<noteq> x) (tickets mk)"
  by (auto simp: qm_withdraw_def qm_finish_def rev_erase_distinct intro!: filter_True[symmetric])

lemma qm_withdraw_frame [simp]:
  "mk_ob (qm_withdraw x mk) = mk_ob mk" "qm_lock (mk_mutex (qm_withdraw x mk)) = qm_lock (mk_mutex mk)"
  "order_pipe (qm_withdraw x mk) = order_pipe mk" "cancel_pipe (qm_withdraw x mk) = cancel_pipe mk"
  "mk_order_queue (qm_withdraw x mk) = mk_order_queue mk" "mk_order_now (qm_withdraw x mk) = mk_order_now mk"
  "mk_cancel_queue (qm_withdraw x mk) = mk_cancel_queue mk" "mk_cancel_now (qm_withdraw x mk) = mk_cancel_now mk"
  "mk_orders (qm_withdraw x mk) = mk_orders mk" "mk_cancels (qm_withdraw x mk) = mk_cancels mk"
  by (simp_all add: qm_withdraw_def qm_finish_def order_pipe_def cancel_pipe_def)

section \<open>What each step does\<close>

text \<open>A message the new-order handler lets through to its worker.\<close>

definition admitted :: "NewOrderSingle ParsedMessage \<Rightarrow> bool" where
  "admitted i \<longleftrightarrow> no_Price (pm_Message i) \<noteq> None \<and> no_OrderQty (pm_Message i) \<noteq> None
     \<and> side_of (no_Side (pm_Message i)) \<noteq> None"

lemma supported_side: "s \<in> {Side_Buy, Side_BuyMinus, Side_Sell, Side_SellPlus} \<longleftrightarrow> side_of s \<noteq> None"
  by (cases s) auto

lemma neworder_onInput_cases:
  assumes "neworder_onInput i mk s = (mk', s')" "no_OrdType (pm_Message i) = OT_Limit"
  obtains "admitted i" "mk' = mk\<lparr>mk_order_queue := mk_order_queue mk @ [i]\<rparr>"
  | "\<not> admitted i" "mk' = qm_withdraw (pm_ExecutionId i) mk"
  | "\<not> admitted i" "mk' = qm_withdraw (pm_ExecutionId i) (qm_withdraw (pm_ExecutionId i) mk)"
  using assms unfolding neworder_onInput_def admitted_def supported_side
  by (auto simp: Let_def notSupportedSide_def ts_push_def split: if_splits)

lemma lock_unlock:
  assumes "lockReadOrder side ob = Inr ob1"
  shows "unlockReadOrder side ob1 = Inr ob" "has_side x side' ob1 = has_side x side' ob" "getOrder x ob1 = getOrder x ob"
proof -
  from assms obtain bs where bs: "side_of side = Some bs" by (auto simp: lockReadOrder_def split: option.splits)
  show "unlockReadOrder side ob1 = Inr ob"
    using assms bs by (cases bs; cases ob) (auto simp: lockReadOrder_def unlockReadOrder_def)
  have "m_bid_id ob1 = m_bid_id ob" "m_ask_id ob1 = m_ask_id ob" "m_bid_book ob1 = m_bid_book ob" "m_ask_book ob1 = m_ask_book ob"
    using assms bs by (cases bs; auto simp: lockReadOrder_def)+
  then show "has_side x side' ob1 = has_side x side' ob" "getOrder x ob1 = getOrder x ob"
    by (auto simp: has_side_def getOrder_def split: option.splits) (metis (no_types) ids_of.simps book_side.exhaust)+
qed

lemma verifyOrderState_market: "verifyOrderState i mk s = Inr (r, mk', s') \<Longrightarrow> mk' = mk"
  by (cases "lockReadOrder (oc_Side (pm_Message i)) (mk_ob mk)")
    (auto simp: verifyOrderState_def Let_def lock_unlock split: sum.splits if_splits)

lemma cancel_onInput_cases:
  assumes "cancel_onInput i mk s = Inr (mk', s')"
  obtains "mk' = qm_withdraw (pm_ExecutionId i) mk"
  | "oc_OrderQty (pm_Message i) \<noteq> None" "mk' = mk\<lparr>mk_cancel_queue := mk_cancel_queue mk @ [i]\<rparr>"
  using assms by (auto simp: cancel_onInput_def Let_def ts_push_def dest!: verifyOrderState_market
      split: if_splits sum.splits option.splits prod.splits)

lemma take_pipes [simp]:
  "order_pipe (order_take mk) = order_pipe mk" "cancel_pipe (order_take mk) = cancel_pipe mk"
  "order_pipe (cancel_take mk) = order_pipe mk" "cancel_pipe (cancel_take mk) = cancel_pipe mk"
  by (auto simp: order_take_def cancel_take_def order_pipe_def cancel_pipe_def now_list_def ts_pop_front_def
      split: option.splits list.splits)

lemma take_frame [simp]:
  "mk_ob (order_take mk) = mk_ob mk" "mk_mutex (order_take mk) = mk_mutex mk"
  "mk_ob (cancel_take mk) = mk_ob mk" "mk_mutex (cancel_take mk) = mk_mutex mk"
  "now_list (mk_order_now (order_take mk)) @ mk_order_queue (order_take mk) = now_list (mk_order_now mk) @ mk_order_queue mk"
  "now_list (mk_cancel_now (cancel_take mk)) @ mk_cancel_queue (cancel_take mk) = now_list (mk_cancel_now mk) @ mk_cancel_queue mk"
  "mk_order_now (cancel_take mk) = mk_order_now mk" "mk_order_queue (cancel_take mk) = mk_order_queue mk"
  "mk_cancel_now (order_take mk) = mk_cancel_now mk" "mk_cancel_queue (order_take mk) = mk_cancel_queue mk"
  by (auto simp: order_take_def cancel_take_def now_list_def ts_pop_front_def split: option.splits list.splits)

lemma not_spins: "\<not> qm_spins x m \<longleftrightarrow> (\<exists>xs. qm_queue m = x # xs) \<and> \<not> qm_lock m"
  by (auto simp: qm_spins_def qm_empty_def qm_front_Cons)

lemma qm_unlock_simps [simp]:
  "qm_unlock (m\<lparr>qm_lock := b\<rparr>) = qm_unlock m" "qm_queue (qm_unlock m) = tl (qm_queue m)" "\<not> qm_lock (qm_unlock m)"
  by (simp_all add: qm_unlock_def)

text \<open>A served section: the front ticket is gone, the worker is free, the book is \<open>ob'\<close>.\<close>

definition served_order :: "market \<Rightarrow> order_book \<Rightarrow> market" where
  "served_order mk ob' = mk\<lparr>mk_order_now := None, mk_ob := ob',
     mk_mutex := qm_unlock (mk_mutex mk)\<rparr>"

definition served_cancel :: "market \<Rightarrow> order_book \<Rightarrow> market" where
  "served_cancel mk ob' = mk\<lparr>mk_cancel_now := None, mk_ob := ob',
     mk_mutex := qm_unlock (mk_mutex mk)\<rparr>"

lemma order_locked_cases:
  assumes "order_locked dg user mk s = Inr (mk', s')"
  obtains i price qty xs ob ob' where "mk_order_now mk = Some i" "tickets mk = pm_ExecutionId i # xs"
    "no_Price (pm_Message i) = Some price" "no_OrderQty (pm_Message i) = Some qty"
    "mk' = served_order mk ob'" "ob = snd (allowTick (no_Side (pm_Message i)) (mk_ob mk))"
    "ob' = ob \<or> (\<not> has (no_ClOrdID (pm_Message i)) ob \<and> add dg (order_info user i price qty) ob = Inr ob')"
proof -
  from assms obtain i price qty where i: "mk_order_now mk = Some i"
    "no_Price (pm_Message i) = Some price" "no_OrderQty (pm_Message i) = Some qty"
    "\<not> qm_spins (pm_ExecutionId i) (mk_mutex mk)"
    by (auto simp: order_locked_def split: option.splits if_splits)
  then obtain xs where xs: "tickets mk = pm_ExecutionId i # xs" by (auto simp: not_spins)
  obtain b ob where t: "allowTick (no_Side (pm_Message i)) (mk_ob mk) = (b, ob)" by fastforce
  have "\<exists>ob'. mk' = served_order mk ob' \<and>
      (ob' = ob \<or> (\<not> has (no_ClOrdID (pm_Message i)) ob \<and> add dg (order_info user i price qty) ob = Inr ob'))"
    using assms i xs t
    by (cases b) (auto simp: order_locked_def Let_def order_info_def served_order_def split: if_splits sum.splits)
  with that[OF i(1) xs i(2,3)] t show thesis by auto
qed

lemma cancel_locked_cases:
  assumes "cancel_locked dg mk s = Inr (mk', s')"
  obtains i xs ob' where "mk_cancel_now mk = Some i" "tickets mk = pm_ExecutionId i # xs"
    "mk' = served_cancel mk ob'"
    "ob' = mk_ob mk \<or> (has_side (oc_OrigClOrdID (pm_Message i)) (oc_Side (pm_Message i)) (mk_ob mk)
       \<and> cancel dg (oc_OrigClOrdID (pm_Message i)) (oc_Side (pm_Message i)) (mk_ob mk) = Inr ob')"
proof -
  from assms obtain i where i: "mk_cancel_now mk = Some i" "\<not> qm_spins (pm_ExecutionId i) (mk_mutex mk)"
    by (auto simp: cancel_locked_def split: option.splits if_splits)
  then obtain xs where xs: "tickets mk = pm_ExecutionId i # xs" by (auto simp: not_spins)
  let ?mk = "(locked mk)\<lparr>mk_cancel_now := None\<rparr>"
  obtain r mk2 s2 where v: "verifyOrderStateWithLock i ?mk s = Inr (r, mk2, s2)"
    using assms i by (auto simp: cancel_locked_def Let_def split: sum.splits option.splits)
  show thesis
  proof (cases r)
    case None
    with v have "mk2 = served_cancel mk (mk_ob mk)"
      by (auto simp: verifyOrderStateWithLock_def Let_def served_cancel_def split: option.splits if_splits sum.splits)
    with that[OF i(1) xs, of "mk_ob mk"] None assms i v show thesis by (simp add: cancel_locked_def Let_def)
  next
    case (Some order)
    with v have m2: "mk2 = ?mk" "has_side (oc_OrigClOrdID (pm_Message i)) (oc_Side (pm_Message i)) (mk_ob mk)"
      by (auto simp: verifyOrderStateWithLock_def Let_def split: option.splits if_splits sum.splits)
    with Some assms i v obtain ob where
      "cancel dg (oc_OrigClOrdID (pm_Message i)) (oc_Side (pm_Message i)) (mk_ob mk) = Inr ob"
      "mk' = served_cancel mk ob"
      by (auto simp: cancel_locked_def Let_def served_cancel_def split: sum.splits)
    with that[OF i(1) xs, of ob] m2(2) show thesis by blast
  qed
qed

section \<open>The invariant\<close>

definition market_inv :: "bool \<Rightarrow> market \<Rightarrow> bool" where
  "market_inv tame mk \<longleftrightarrow> ob_inv (mk_ob mk) \<and> \<not> qm_lock (mk_mutex mk)
     \<and> pipes_ok (tickets mk) (ids (order_pipe mk)) (ids (cancel_pipe mk))
     \<and> (\<forall>i \<in> set (order_pipe mk). sane_order i \<and> no_OrdType (pm_Message i) = OT_Limit)
     \<and> (\<forall>i \<in> set (now_list (mk_order_now mk) @ mk_order_queue mk). admitted i)
     \<and> (\<forall>i \<in> set (cancel_pipe mk). side_of (oc_Side (pm_Message i)) \<noteq> None)
     \<and> (\<forall>i \<in> set (now_list (mk_cancel_now mk) @ mk_cancel_queue mk). oc_OrderQty (pm_Message i) \<noteq> None)"

lemmas pipe_defs = order_pipe_def cancel_pipe_def now_list_def ids_def

lemma market_inv_init: "market_inv tame (MarketContainer_init symbol)"
  by (simp add: market_inv_def MarketContainer_init_def ob_inv_init qm_init_def pipe_defs pipes_ok_def)

lemma market_invD:
  assumes "market_inv tame mk"
  shows "ob_inv (mk_ob mk)" "\<not> qm_lock (mk_mutex mk)" "distinct (tickets mk)"
    "pipes_ok (tickets mk) (ids (order_pipe mk)) (ids (cancel_pipe mk))"
    "known_ids mk = set (tickets mk)"
    "i \<in> set (order_pipe mk) \<Longrightarrow> sane_order i" "i \<in> set (order_pipe mk) \<Longrightarrow> no_OrdType (pm_Message i) = OT_Limit"
  using assms by (auto simp: market_inv_def pipes_ok_def known_ids_def)

text \<open>A withdrawn or served message leaves its pipe together with its ticket.\<close>

lemma market_inv_leave_order:
  assumes inv: "market_inv tame mk" and o: "order_pipe mk = pre @ i # post" "order_pipe mk' = pre @ post"
    and t: "tickets mk' = filter (\<lambda>y. y \<noteq> pm_ExecutionId i) (tickets mk)" "\<not> qm_lock (mk_mutex mk')"
    and ob: "ob_inv (mk_ob mk')"
    and now: "set (now_list (mk_order_now mk') @ mk_order_queue mk') \<subseteq> set (now_list (mk_order_now mk) @ mk_order_queue mk)"
    and c: "mk_cancel_now mk' = mk_cancel_now mk" "mk_cancel_queue mk' = mk_cancel_queue mk" "mk_cancels mk' = mk_cancels mk"
  shows "market_inv tame mk'"
proof -
  have "pipes_ok (tickets mk) (ids pre @ pm_ExecutionId i # ids post) (ids (cancel_pipe mk))"
    using market_invD(4)[OF inv] o by (simp add: ids_def)
  then have "pipes_ok (tickets mk') (ids (order_pipe mk')) (ids (cancel_pipe mk'))"
    using pipes_serve[of "tickets mk" "ids pre" "pm_ExecutionId i" "ids post" "ids (cancel_pipe mk)"] o t c
    by (simp add: ids_def cancel_pipe_def)
  moreover have "cancel_pipe mk' = cancel_pipe mk" using c by (simp add: cancel_pipe_def)
  ultimately show ?thesis using inv o t ob now c unfolding market_inv_def by auto
qed

lemma market_inv_leave_cancel:
  assumes inv: "market_inv tame mk" and o: "cancel_pipe mk = pre @ i # post" "cancel_pipe mk' = pre @ post"
    and t: "tickets mk' = filter (\<lambda>y. y \<noteq> pm_ExecutionId i) (tickets mk)" "\<not> qm_lock (mk_mutex mk')"
    and ob: "ob_inv (mk_ob mk')"
    and now: "set (now_list (mk_cancel_now mk') @ mk_cancel_queue mk') \<subseteq> set (now_list (mk_cancel_now mk) @ mk_cancel_queue mk)"
    and c: "mk_order_now mk' = mk_order_now mk" "mk_order_queue mk' = mk_order_queue mk" "mk_orders mk' = mk_orders mk"
  shows "market_inv tame mk'"
proof -
  have "pipes_ok (tickets mk) (ids pre @ pm_ExecutionId i # ids post) (ids (order_pipe mk))"
    using market_invD(4)[OF inv] o by (simp add: ids_def pipes_swap)
  then have "pipes_ok (tickets mk') (ids (order_pipe mk')) (ids (cancel_pipe mk'))"
    using pipes_serve[of "tickets mk" "ids pre" "pm_ExecutionId i" "ids post" "ids (order_pipe mk)"] o t c
    by (simp add: ids_def order_pipe_def pipes_swap)
  moreover have "order_pipe mk' = order_pipe mk" using c by (simp add: order_pipe_def)
  ultimately show ?thesis using inv o t ob now c unfolding market_inv_def by auto
qed

lemma ob_inv_allowTick: "ob_inv ob \<Longrightarrow> ob_inv (snd (allowTick side ob))"
  by (subst ob_inv_only_books[of _ ob]) (simp_all add: allowTick_def Let_def computeTick_def)

lemma ob_inv_order:
  assumes "reads_stale dg" "ob_inv ob" "sane_order i" "no_Price (pm_Message i) = Some p" "no_OrderQty (pm_Message i) = Some q"
    and "\<not> has (no_ClOrdID (pm_Message i)) ob" "add dg (order_info user i p q) ob = Inr ob'"
  shows "ob_inv ob'"
  using assms by (intro add_inv[OF assms(1,2) _ _ assms(7)])
    (auto simp: order_info_def order_ok_def sane_order_def rest_ok_def)

lemma filter_tl: "distinct (x # xs) \<Longrightarrow> filter (\<lambda>y. y \<noteq> x) (x # xs) = xs"
  by (auto intro: filter_True)

lemma market_inv_served_order:
  assumes inv: "market_inv tame mk" and i: "mk_order_now mk = Some i" "tickets mk = pm_ExecutionId i # xs"
    and ob: "ob_inv ob'"
  shows "market_inv tame (served_order mk ob')"
proof (rule market_inv_leave_order[OF inv, of "[]" i "mk_order_queue mk @ mk_orders mk"])
  show "tickets (served_order mk ob') = filter (\<lambda>y. y \<noteq> pm_ExecutionId i) (tickets mk)"
    using market_invD(3)[OF inv] filter_tl[of "pm_ExecutionId i" xs] i(2) by (simp add: served_order_def)
qed (use i ob in \<open>auto simp: served_order_def pipe_defs\<close>)

lemma market_inv_served_cancel:
  assumes inv: "market_inv tame mk" and i: "mk_cancel_now mk = Some i" "tickets mk = pm_ExecutionId i # xs"
    and ob: "ob_inv ob'"
  shows "market_inv tame (served_cancel mk ob')"
proof (rule market_inv_leave_cancel[OF inv, of "[]" i "mk_cancel_queue mk @ mk_cancels mk"])
  show "tickets (served_cancel mk ob') = filter (\<lambda>y. y \<noteq> pm_ExecutionId i) (tickets mk)"
    using market_invD(3)[OF inv] filter_tl[of "pm_ExecutionId i" xs] i(2) by (simp add: served_cancel_def)
qed (use i ob in \<open>auto simp: served_cancel_def pipe_defs\<close>)

lemma pop_front_Some: "ts_pop_front q = Some (i, q') \<longleftrightarrow> q = i # q'"
  by (auto simp: ts_pop_front_def split: list.splits)

lemma market_inv_order_input:
  assumes inv: "market_inv tame mk" and q: "mk_orders mk = i # q"
    and h: "neworder_onInput i (mk\<lparr>mk_orders := q\<rparr>) s = (mk', s')"
  shows "market_inv tame mk'"
proof -
  have lim: "no_OrdType (pm_Message i) = OT_Limit" using market_invD(7)[OF inv, of i] q by (simp add: pipe_defs)
  let ?m = "mk\<lparr>mk_orders := q\<rparr>" and ?id = "pm_ExecutionId i"
  have d: "distinct (tickets ?m)" using market_invD(3)[OF inv] by simp
  have gone: "market_inv tame mk'" if "tickets mk' = filter (\<lambda>y. y \<noteq> ?id) (tickets mk)"
    "mk_ob mk' = mk_ob mk" "qm_lock (mk_mutex mk') = qm_lock (mk_mutex mk)" "order_pipe mk' = order_pipe ?m"
    "mk_order_now mk' = mk_order_now mk" "mk_order_queue mk' = mk_order_queue mk"
    "mk_cancel_now mk' = mk_cancel_now mk" "mk_cancel_queue mk' = mk_cancel_queue mk" "mk_cancels mk' = mk_cancels mk"
    by (rule market_inv_leave_order[OF inv, of "now_list (mk_order_now mk) @ mk_order_queue mk" i q])
      (use that q market_invD(1,2)[OF inv] in \<open>auto simp: order_pipe_def\<close>)
  from h lim show ?thesis
  proof (cases rule: neworder_onInput_cases)
    case 1
    then have "order_pipe mk' = order_pipe mk" "cancel_pipe mk' = cancel_pipe mk" using q by (simp_all add: pipe_defs)
    with 1 inv show ?thesis by (auto simp: market_inv_def)
  next
    case 2
    then show ?thesis by (intro gone) (simp_all add: qm_withdraw_tickets[OF d])
  next
    case 3
    have "tickets mk' = filter (\<lambda>y. y \<noteq> ?id) (tickets (qm_withdraw ?id ?m))"
      unfolding 3 by (rule qm_withdraw_tickets) (simp add: qm_withdraw_tickets[OF d] d[simplified])
    with 3 show ?thesis by (intro gone) (simp_all add: qm_withdraw_tickets[OF d])
  qed
qed

lemma market_inv_cancel_input:
  assumes inv: "market_inv tame mk" and q: "mk_cancels mk = i # q"
    and h: "cancel_onInput i (mk\<lparr>mk_cancels := q\<rparr>) s = Inr (mk', s')"
  shows "market_inv tame mk'"
proof -
  let ?m = "mk\<lparr>mk_cancels := q\<rparr>"
  have d: "distinct (tickets ?m)" using market_invD(3)[OF inv] by simp
  from h show ?thesis
  proof (cases rule: cancel_onInput_cases)
    case 1
    show ?thesis
      by (rule market_inv_leave_cancel[OF inv, of "now_list (mk_cancel_now mk) @ mk_cancel_queue mk" i q])
        (use 1 q market_invD(1,2)[OF inv] in \<open>auto simp: cancel_pipe_def qm_withdraw_tickets[OF d]\<close>)
  next
    case 2
    then have "order_pipe mk' = order_pipe mk" "cancel_pipe mk' = cancel_pipe mk" using q by (simp_all add: pipe_defs)
    with 2 inv show ?thesis by (auto simp: market_inv_def)
  qed
qed

lemma market_inv_arrive:
  assumes inv: "market_inv tame mk" and new: "pm_ExecutionId p \<notin> known_ids mk" and s: "sane_order p"
    and t: "no_OrdType (pm_Message p) = OT_Limit"
  shows "market_inv tame (enqueue_order p (set_mutex (qm_allow (pm_ExecutionId p)) mk))"
  using pipes_add[OF market_invD(4)[OF inv], of "pm_ExecutionId p"] new inv s t
  by (auto simp: market_inv_def enqueue_order_def qm_allow_def pipe_defs ts_push_def known_ids_def)

lemma market_inv_arrive_cancel:
  assumes inv: "market_inv tame mk" and new: "pm_ExecutionId p \<notin> known_ids mk"
    and t: "side_of (oc_Side (pm_Message p)) \<noteq> None"
  shows "market_inv tame (enqueue_cancel p (set_mutex (qm_allow (pm_ExecutionId p)) mk))"
proof -
  have "pipes_ok (tickets mk) (ids (cancel_pipe mk)) (ids (order_pipe mk))"
    using market_invD(4)[OF inv] by (simp add: pipes_swap)
  from pipes_add[OF this, of "pm_ExecutionId p"] new inv t show ?thesis
    by (auto simp: market_inv_def enqueue_cancel_def qm_allow_def pipe_defs ts_push_def known_ids_def pipes_swap)
qed

lemma market_step_inv:
  assumes "market_step dg True mk mk'" "market_inv True mk" "reads_stale dg"
  shows "market_inv True mk'"
  using assms
proof (induction rule: market_step.induct)
  case (mk_arrive_order p mk)
  then show ?case by (intro market_inv_arrive) simp_all
next
  case (mk_arrive_cancel p mk)
  then show ?case by (intro market_inv_arrive_cancel) simp_all
next
  case (mk_order_input mk i q s mk' s')
  show ?case
    by (rule market_inv_order_input[OF mk_order_input(3) mk_order_input(1)[unfolded pop_front_Some] mk_order_input(2)])
next
  case (mk_cancel_input mk i q s mk' s')
  show ?case
    by (rule market_inv_cancel_input[OF mk_cancel_input(3) mk_cancel_input(1)[unfolded pop_front_Some] mk_cancel_input(2)])
next
  case (mk_order_locked user mk s mk' s')
  from mk_order_locked(1) show ?case
  proof (cases rule: order_locked_cases)
    case (1 i price qty xs ob ob')
    have "i \<in> set (order_pipe mk)" using 1(1) by (simp add: pipe_defs)
    then have "ob_inv ob'"
      using 1 market_invD(1,6)[OF mk_order_locked(2)] ob_inv_order[OF mk_order_locked(3)] ob_inv_allowTick by metis
    with 1 show ?thesis using market_inv_served_order[OF mk_order_locked(2)] by simp
  qed
next
  case (mk_cancel_locked mk s mk' s')
  from mk_cancel_locked(1) show ?case
  proof (cases rule: cancel_locked_cases)
    case (1 i xs ob')
    have "ob_inv ob'"
      using 1(4) market_invD(1)[OF mk_cancel_locked(2)] cancel_inv[OF mk_cancel_locked(3)] by (metis sum.inject(2))
    with 1 show ?thesis using market_inv_served_cancel[OF mk_cancel_locked(2)] by simp
  qed
next
  case (mk_event exec now mk s mk' s')
  then obtain q where "mk' = mk \<or> mk' = mk\<lparr>mk_ob := (mk_ob mk)\<lparr>m_event_output := q\<rparr>\<rparr>"
    by (auto simp: event_step_def split: option.splits)
  moreover have "ob_inv (ob\<lparr>m_event_output := q\<rparr>) = ob_inv ob" for ob :: order_book by (simp add: ob_inv_def)
  ultimately show ?case using mk_event(2)
    by (elim disjE) (simp_all add: market_inv_def order_pipe_def cancel_pipe_def)
next
  case (mk_order_take mk)
  then show ?case unfolding market_inv_def take_frame take_pipes by simp
next
  case (mk_cancel_take mk)
  then show ?case unfolding market_inv_def take_frame take_pipes by simp
qed

lemma market_reach_inv: "market_reach dg True symbol mk \<Longrightarrow> reads_stale dg \<Longrightarrow> market_inv True mk"
  by (induction rule: market_reach.induct) (auto intro: market_inv_init market_step_inv)

section \<open>Progress\<close>

text \<open>The message whose ticket is at the front heads its pipe; its own side can always serve it.\<close>

definition serves :: "dangling \<Rightarrow> ExecId list \<Rightarrow> market \<Rightarrow> bool" where
  "serves dg xs mk \<longleftrightarrow> (\<exists>mk'. (market_step dg True)\<^sup>*\<^sup>* mk mk' \<and> tickets mk' = xs)"

lemma serves_step: "market_step dg True mk mk' \<Longrightarrow> serves dg xs mk' \<Longrightarrow> serves dg xs mk"
  unfolding serves_def by (elim exE conjE, rule exI, rule conjI, rule converse_rtranclp_into_rtranclp)

lemma serves_now: "tickets mk = xs \<Longrightarrow> serves dg xs mk"
  unfolding serves_def by blast

lemma filter_front: "x \<notin> set xs \<and> distinct xs \<Longrightarrow> filter (\<lambda>y. y \<noteq> x) xs = xs"
  by (auto intro!: filter_True)

lemma add_succeeds: "side_of (o_side (oi_order oi)) \<noteq> None \<Longrightarrow> \<exists>ob'. add dg oi ob = Inr ob'"
  by (auto simp: add_def split: prod.splits)

lemma order_locked_enabled:
  assumes "mk_order_now mk = Some i" "tickets mk = pm_ExecutionId i # xs" "\<not> qm_lock (mk_mutex mk)" "admitted i"
  shows "\<exists>mk' s'. order_locked dg user mk s = Inr (mk', s')"
proof -
  have spin: "\<not> qm_spins (pm_ExecutionId i) (mk_mutex mk)" using assms(2,3) by (simp add: not_spins)
  obtain p q where pq: "no_Price (pm_Message i) = Some p" "no_OrderQty (pm_Message i) = Some q"
    using assms(4) by (auto simp: admitted_def)
  obtain b ob where t: "allowTick (no_Side (pm_Message i)) (mk_ob mk) = (b, ob)" by fastforce
  obtain ob' where "add dg (order_info user i p q) ob = Inr ob'"
    using add_succeeds[of "order_info user i p q"] assms(4) by (auto simp: order_info_def admitted_def)
  with assms(1) spin pq t show ?thesis
    by (cases b) (auto simp: order_locked_def Let_def order_info_def)
qed

lemma has_side_has: "has_side x side ob \<Longrightarrow> has x ob"
proof -
  assume "has_side x side ob"
  then obtain bs where "ids_of bs ob x \<noteq> None" by (auto simp: has_side_def split: option.splits)
  then show "has x ob" using has_ids[of x ob bs] by auto
qed

lemma cancel_locked_enabled:
  assumes "mk_cancel_now mk = Some i" "tickets mk = pm_ExecutionId i # xs" "\<not> qm_lock (mk_mutex mk)"
    and "oc_OrderQty (pm_Message i) \<noteq> None" "ob_inv (mk_ob mk)" "reads_stale dg"
  shows "\<exists>mk' s'. cancel_locked dg mk s = Inr (mk', s')"
proof -
  let ?o = "oc_OrigClOrdID (pm_Message i)" and ?s = "oc_Side (pm_Message i)"
  have spin: "\<not> qm_spins (pm_ExecutionId i) (mk_mutex mk)" using assms(2,3) by (simp add: not_spins)
  obtain q where q: "oc_OrderQty (pm_Message i) = Some q" using assms(4) by auto
  show ?thesis
  proof (cases "has_side ?o ?s (mk_ob mk)")
    case True
    then have "has ?o (mk_ob mk)" by (rule has_side_has)
    then obtain r where "getOrder ?o (mk_ob mk) = Inr r" using getOrder_ok[OF assms(5)] by blast
    moreover obtain ob' where "cancel dg ?o ?s (mk_ob mk) = Inr ob'" using cancel_inv[OF assms(6,5) True] by blast
    ultimately show ?thesis using assms(1) spin q True
      by (auto simp: cancel_locked_def verifyOrderStateWithLock_def Let_def)
  qed (use assms(1) spin q in \<open>simp add: cancel_locked_def verifyOrderStateWithLock_def Let_def\<close>)
qed

lemma serves_order_now:
  assumes inv: "market_inv True mk" and f: "tickets mk = x # xs"
    and now: "mk_order_now mk = Some i" "pm_ExecutionId i = x"
  shows "serves dg xs mk"
proof -
  have "admitted i" using inv now by (simp add: market_inv_def now_list_def)
  with order_locked_enabled[of mk i xs dg "[]" "undefined :: server"] f now market_invD(2)[OF inv]
  obtain mk' s' where st: "order_locked dg [] mk (undefined :: server) = Inr (mk', s')" by auto
  from st have "tickets mk' = xs"
    by (cases rule: order_locked_cases) (use f in \<open>auto simp: served_order_def\<close>)
  then show ?thesis by (intro serves_step[OF mk_order_locked[OF st]] serves_now)
qed

lemma serves_cancel_now:
  assumes inv: "market_inv True mk" and dg: "reads_stale dg" and f: "tickets mk = x # xs"
    and now: "mk_cancel_now mk = Some i" "pm_ExecutionId i = x"
  shows "serves dg xs mk"
proof -
  have "oc_OrderQty (pm_Message i) \<noteq> None" using inv now by (simp add: market_inv_def now_list_def)
  with cancel_locked_enabled[of mk i xs dg "undefined :: server"] f now market_invD(1,2)[OF inv] dg
  obtain mk' s' where st: "cancel_locked dg mk (undefined :: server) = Inr (mk', s')" by auto
  from st have "tickets mk' = xs"
    by (cases rule: cancel_locked_cases) (use f in \<open>auto simp: served_cancel_def\<close>)
  then show ?thesis by (intro serves_step[OF mk_cancel_locked[OF st]] serves_now)
qed

lemma serves_order_queued:
  assumes inv: "market_inv True mk" and dg: "reads_stale dg" and f: "tickets mk = x # xs"
    and p: "now_list (mk_order_now mk) @ mk_order_queue mk = i # q" "pm_ExecutionId i = x"
  shows "serves dg xs mk"
proof -
  have "market_inv True (order_take mk)" by (rule market_step_inv[OF mk_order_take inv dg])
  moreover have "mk_order_now (order_take mk) = Some i"
    using p(1) by (auto simp: order_take_def ts_pop_front_def now_list_def split: option.splits)
  ultimately have "serves dg xs (order_take mk)" using serves_order_now[of "order_take mk" x xs i] f p(2) by simp
  then show ?thesis by (rule serves_step[OF mk_order_take])
qed

lemma serves_cancel_queued:
  assumes inv: "market_inv True mk" and dg: "reads_stale dg" and f: "tickets mk = x # xs"
    and p: "now_list (mk_cancel_now mk) @ mk_cancel_queue mk = i # q" "pm_ExecutionId i = x"
  shows "serves dg xs mk"
proof -
  have "market_inv True (cancel_take mk)" by (rule market_step_inv[OF mk_cancel_take inv dg])
  moreover have "mk_cancel_now (cancel_take mk) = Some i"
    using p(1) by (auto simp: cancel_take_def ts_pop_front_def now_list_def split: option.splits)
  ultimately have "serves dg xs (cancel_take mk)" using serves_cancel_now[of "cancel_take mk" dg x xs i] f p(2) dg by simp
  then show ?thesis by (rule serves_step[OF mk_cancel_take])
qed

lemma serves_order:
  assumes inv: "market_inv True mk" and dg: "reads_stale dg" and f: "tickets mk = x # xs"
    and p: "order_pipe mk = i # q" "pm_ExecutionId i = x"
  shows "serves dg xs mk"
proof (cases "now_list (mk_order_now mk) @ mk_order_queue mk")
  case Nil
  then have q: "mk_orders mk = i # q" "mk_order_queue mk = []" "mk_order_now mk = None"
    using p(1) by (auto simp: order_pipe_def now_list_def split: option.splits)
  obtain mk' s' where h: "neworder_onInput i (mk\<lparr>mk_orders := q\<rparr>) (undefined :: server) = (mk', s')" by fastforce
  have st: "market_step dg True mk mk'" by (rule mk_order_input[OF _ h]) (simp add: pop_front_Some q)
  have d: "distinct (tickets (mk\<lparr>mk_orders := q\<rparr>))" using market_invD(3)[OF inv] by simp
  have lim: "no_OrdType (pm_Message i) = OT_Limit" using market_invD(7)[OF inv, of i] p by simp
  from h lim have "serves dg xs mk'"
  proof (cases rule: neworder_onInput_cases)
    case 1
    with serves_order_queued[OF market_step_inv[OF st inv dg] dg, of x xs i "[]"] f p(2) q show ?thesis
      by (simp add: now_list_def)
  next
    case 2
    with d p(2) f show ?thesis by (intro serves_now) (simp add: qm_withdraw_tickets filter_front)
  next
    case 3
    with d p(2) f show ?thesis by (intro serves_now) (simp add: qm_withdraw_tickets filter_front)
  qed
  then show ?thesis by (rule serves_step[OF st])
next
  case (Cons j q')
  have "j = i" using p(1) Cons by (auto simp: order_pipe_def simp flip: append_assoc)
  with p(2) show ?thesis using serves_order_queued[OF inv dg f Cons] by simp
qed

lemma verifyOrderState_total:
  assumes "ob_inv (mk_ob mk)" "side_of (oc_Side (pm_Message i)) \<noteq> None"
  shows "\<exists>r s'. verifyOrderState i mk s = Inr (r, mk, s')"
proof -
  let ?s = "oc_Side (pm_Message i)" and ?o = "oc_OrigClOrdID (pm_Message i)"
  obtain sd where "side_of ?s = Some sd" using assms(2) by auto
  then obtain ob1 where l: "lockReadOrder ?s (mk_ob mk) = Inr ob1"
    by (cases sd) (auto simp: lockReadOrder_def)
  have "\<exists>r. getOrder ?o (mk_ob mk) = Inr r" if "has_side ?o ?s (mk_ob mk)"
    using getOrder_ok[OF assms(1) has_side_has[OF that]] by blast
  with l lock_unlock[OF l] show ?thesis by (auto simp: verifyOrderState_def Let_def)
qed

lemma serves_cancel:
  assumes inv: "market_inv True mk" and dg: "reads_stale dg" and f: "tickets mk = x # xs"
    and p: "cancel_pipe mk = i # q" "pm_ExecutionId i = x"
  shows "serves dg xs mk"
proof (cases "now_list (mk_cancel_now mk) @ mk_cancel_queue mk")
  case Nil
  then have q: "mk_cancels mk = i # q" "mk_cancel_queue mk = []" "mk_cancel_now mk = None"
    using p(1) by (auto simp: cancel_pipe_def now_list_def split: option.splits)
  have "side_of (oc_Side (pm_Message i)) \<noteq> None" using inv p by (simp add: market_inv_def)
  then have "\<exists>r s1. verifyOrderState i (mk\<lparr>mk_cancels := q\<rparr>) (undefined :: server) = Inr (r, mk\<lparr>mk_cancels := q\<rparr>, s1)"
    using verifyOrderState_total[of "mk\<lparr>mk_cancels := q\<rparr>" i] market_invD(1)[OF inv] by simp
  then obtain r s1 where "verifyOrderState i (mk\<lparr>mk_cancels := q\<rparr>) (undefined :: server) = Inr (r, mk\<lparr>mk_cancels := q\<rparr>, s1)"
    by blast
  then have "\<exists>mk' s'. cancel_onInput i (mk\<lparr>mk_cancels := q\<rparr>) (undefined :: server) = Inr (mk', s')"
    by (cases r) (simp_all add: cancel_onInput_def Let_def)
  then obtain mk' s' where h: "cancel_onInput i (mk\<lparr>mk_cancels := q\<rparr>) (undefined :: server) = Inr (mk', s')" by blast
  have st: "market_step dg True mk mk'" by (rule mk_cancel_input[OF _ h]) (simp add: pop_front_Some q)
  have d: "distinct (tickets (mk\<lparr>mk_cancels := q\<rparr>))" using market_invD(3)[OF inv] by simp
  from h have "serves dg xs mk'"
  proof (cases rule: cancel_onInput_cases)
    case 1
    with d p(2) f show ?thesis by (intro serves_now) (simp add: qm_withdraw_tickets filter_front)
  next
    case 2
    with serves_cancel_queued[OF market_step_inv[OF st inv dg] dg, of x xs i "[]"] f p(2) q show ?thesis
      by (simp add: now_list_def)
  qed
  then show ?thesis by (rule serves_step[OF st])
next
  case (Cons j q')
  have "j = i" using p(1) Cons by (auto simp: cancel_pipe_def simp flip: append_assoc)
  with p(2) show ?thesis using serves_cancel_queued[OF inv dg f Cons] by simp
qed

lemma front_is_served:
  assumes inv: "market_inv True mk" and dg: "reads_stale dg" and f: "tickets mk = x # xs"
  shows "serves dg xs mk"
proof -
  note P = market_invD(4)[OF inv, unfolded f]
  have "x \<in> set (ids (order_pipe mk)) \<or> x \<in> set (ids (cancel_pipe mk))" using P by (auto simp: pipes_ok_def)
  then show ?thesis
  proof
    assume x: "x \<in> set (ids (order_pipe mk))"
    from pipes_front[OF P x] obtain i q where "order_pipe mk = i # q" "pm_ExecutionId i = x"
      by (auto simp: ids_def)
    then show ?thesis by (rule serves_order[OF inv dg f])
  next
    assume x: "x \<in> set (ids (cancel_pipe mk))"
    have "pipes_ok (x # xs) (ids (cancel_pipe mk)) (ids (order_pipe mk))" using P by (subst pipes_swap)
    from pipes_front[OF this x] obtain i q where "cancel_pipe mk = i # q" "pm_ExecutionId i = x"
      by (auto simp: ids_def)
    then show ?thesis by (rule serves_cancel[OF inv dg f])
  qed
qed

lemma market_steps_inv: "(market_step dg True)\<^sup>*\<^sup>* mk mk' \<Longrightarrow> market_inv True mk \<Longrightarrow> reads_stale dg \<Longrightarrow> market_inv True mk'"
  by (induction rule: rtranclp_induct) (auto intro: market_step_inv)

lemma all_served:
  assumes "market_inv True mk" "reads_stale dg" "tickets mk = xs @ ys"
  shows "serves dg ys mk"
  using assms
proof (induction xs arbitrary: mk)
  case Nil
  then show ?case by (simp add: serves_now)
next
  case (Cons x xs)
  from front_is_served[OF Cons.prems(1,2), of x "xs @ ys"] Cons.prems(3)
  obtain mk1 where st: "(market_step dg True)\<^sup>*\<^sup>* mk mk1" "tickets mk1 = xs @ ys" by (auto simp: serves_def)
  from Cons.IH[OF market_steps_inv[OF st(1) Cons.prems(1,2)] Cons.prems(2) st(2)]
  obtain mk2 where "(market_step dg True)\<^sup>*\<^sup>* mk1 mk2" "tickets mk2 = ys" by (auto simp: serves_def)
  with rtranclp_trans[OF st(1)] show ?case unfolding serves_def by blast
qed

section \<open>A worker without a ticket\<close>

text \<open>
  The order the worker holds has lost its ticket: from then on the worker holds that order for
  ever, and no new order is ever processed.
\<close>

definition stuck :: "NewOrderSingle ParsedMessage \<Rightarrow> market \<Rightarrow> bool" where
  "stuck i mk \<longleftrightarrow> mk_order_now mk = Some i \<and> pm_ExecutionId i \<notin> set (tickets mk)"

lemma set_qm_finish: "set (qm_queue (snd (qm_finish x m))) \<subseteq> set (qm_queue m)"
  using set_erase_first_subset[of "\<lambda>y. y = x" "rev (qm_queue m)"] by (auto simp: qm_finish_def)

lemma set_withdraw: "y \<in> set (tickets (qm_withdraw x mk)) \<Longrightarrow> y \<in> set (tickets mk)"
  using set_qm_finish[of x "mk_mutex mk"] by (auto simp: qm_withdraw_def)

lemma neworder_onInput_frame:
  "neworder_onInput i mk s = (mk', s') \<Longrightarrow> mk_order_now mk' = mk_order_now mk \<and> set (tickets mk') \<subseteq> set (tickets mk)
     \<and> mk_ob mk' = mk_ob mk"
  unfolding neworder_onInput_def
  by (auto simp: Let_def notSupportedSide_def dest!: set_withdraw split: if_splits)

lemma stuck_stays:
  assumes "market_step dg tame mk mk'" "stuck i mk"
  shows "stuck i mk'"
  using assms
proof (induction rule: market_step.induct)
  case (mk_arrive_order p mk)
  then have "pm_ExecutionId p \<noteq> pm_ExecutionId i" by (auto simp: stuck_def known_ids_def pipe_defs)
  with mk_arrive_order show ?case by (simp add: stuck_def enqueue_order_def qm_allow_def)
next
  case (mk_arrive_cancel p mk)
  then have "pm_ExecutionId p \<noteq> pm_ExecutionId i" by (auto simp: stuck_def known_ids_def pipe_defs)
  with mk_arrive_cancel show ?case by (simp add: stuck_def enqueue_cancel_def qm_allow_def)
next
  case (mk_order_input mk j q s mk' s')
  then show ?case using neworder_onInput_frame[OF mk_order_input(2)] by (auto simp: stuck_def)
next
  case (mk_cancel_input mk j q s mk' s')
  from mk_cancel_input(2) show ?case
    by (cases rule: cancel_onInput_cases) (use mk_cancel_input in \<open>auto simp: stuck_def dest!: set_withdraw\<close>)
next
  case (mk_order_take mk)
  then show ?case by (simp add: stuck_def order_take_def)
next
  case (mk_cancel_take mk)
  then show ?case by (simp add: stuck_def)
next
  case (mk_order_locked user mk s mk' s')
  from mk_order_locked(1) show ?case
    by (cases rule: order_locked_cases) (use mk_order_locked in \<open>auto simp: stuck_def\<close>)
next
  case (mk_cancel_locked mk s mk' s')
  from mk_cancel_locked(1) show ?case
    by (cases rule: cancel_locked_cases) (use mk_cancel_locked in \<open>auto simp: stuck_def served_cancel_def\<close>)
next
  case (mk_event exec now mk s mk' s')
  then show ?case by (auto simp: event_step_def stuck_def split: option.splits)
qed

lemma stuck_for_ever: "(market_step dg tame)\<^sup>*\<^sup>* mk mk' \<Longrightarrow> stuck i mk \<Longrightarrow> stuck i mk'"
  by (induction rule: rtranclp_induct) (auto intro: stuck_stays)

end
