(* ===== verification/Server.thy ===== *)
theory Server
  imports Market
begin

text \<open>
  The server as one transition system: its units share the connection table and hand messages on
  through queues; a step is one message handled by one unit, one round of the input unit, one
  task of a pool, one scan of the monitor, or one step of a unit of one market.
\<close>

section \<open>The steps of a market on the server's state\<close>

inductive unit_step :: "dangling \<Rightarrow> market \<times> server \<Rightarrow> market \<times> server \<Rightarrow> bool" for dg where
  un_order_input: "ts_pop_front (mk_orders mk) = Some (i, q)
     \<Longrightarrow> neworder_onInput i (mk\<lparr>mk_orders := q\<rparr>) s = (mk', s') \<Longrightarrow> unit_step dg (mk, s) (mk', s')"
| un_cancel_input: "ts_pop_front (mk_cancels mk) = Some (i, q)
     \<Longrightarrow> cancel_onInput i (mk\<lparr>mk_cancels := q\<rparr>) s = Inr (mk', s') \<Longrightarrow> unit_step dg (mk, s) (mk', s')"
| un_order_take: "unit_step dg (mk, s) (order_take mk, s)"
| un_cancel_take: "unit_step dg (mk, s) (cancel_take mk, s)"
| un_order_locked: "order_locked dg user mk s = Inr (mk', s') \<Longrightarrow> unit_step dg (mk, s) (mk', s')"
| un_cancel_locked: "cancel_locked dg mk s = Inr (mk', s') \<Longrightarrow> unit_step dg (mk, s) (mk', s')"
| un_event: "event_step exec now mk s = (mk', s') \<Longrightarrow> unit_step dg (mk, s) (mk', s')"

lemma unit_step_market: "unit_step dg a b \<Longrightarrow> market_step dg tame (fst a) (fst b)"
  by (induction rule: unit_step.induct) (auto intro: market_step.intros)

section \<open>The server\<close>

definition market_init :: "string list \<Rightarrow> markets" where
  "market_init names = fold (\<lambda>n ms. registerMarket n (MarketContainer_init n) ms) names Map.empty"

definition server_init :: server where
  "server_init = \<lparr>sk_fd = (\<lambda>_. -1), sk_next = 0, sk_open = (\<lambda>_. False), sk_epoll = [], sl_clients = [],
     cs_heap = (\<lambda>_. InternalClient_new None), cs_next = 0, cs_clients = [], cs_onnew = [], cs_onremove = [],
     cs_sent = [], q_header = [], q_router = [], q_logon = [], q_logout = [], q_heartbeat = [], q_market = [],
     q_output = []\<rparr>"

text \<open>What an order message may carry: with \<open>tame\<close> only limit orders and supported cancels.\<close>

definition traffic_ok :: "bool \<Rightarrow> fixlib \<Rightarrow> UnparsedMessage \<Rightarrow> bool" where
  "traffic_ok tame lib i \<longleftrightarrow>
     (\<forall>m. fl_NewOrderSingle lib (um_Message i) = Inr m \<longrightarrow>
        (\<forall>x. no_Price m = Some x \<longrightarrow> is_fin x) \<and> (\<forall>x. no_OrderQty m = Some x \<longrightarrow> qty_ok x)
        \<and> (tame \<longrightarrow> no_OrdType m = OT_Limit))
     \<and> (tame \<longrightarrow> (\<forall>m. fl_OrderCancelRequest lib (um_Message i) = Inr m \<longrightarrow> side_of (oc_Side m) \<noteq> None))"

inductive server_step :: "fixlib \<Rightarrow> config \<Rightarrow> dangling \<Rightarrow> bool \<Rightarrow> server \<times> markets \<Rightarrow> server \<times> markets \<Rightarrow> bool"
  for lib cf dg tame where
  sv_input: "input_round lib now fd ready s = Some s' \<Longrightarrow> server_step lib cf dg tame (s, ms) (s', ms)"
| sv_header: "ts_pop_front (q_header s) = Some (i, q)
     \<Longrightarrow> server_step lib cf dg tame (s, ms) (header_onInput cf i (s\<lparr>q_header := q\<rparr>), ms)"
| sv_router: "ts_pop_front (q_router s) = Some (i, q)
     \<Longrightarrow> server_step lib cf dg tame (s, ms) (router_onInput i (s\<lparr>q_router := q\<rparr>), ms)"
| sv_logon: "ts_pop_front (q_logon s) = Some (i, q) \<Longrightarrow> logon_onInput lib cf now i (s\<lparr>q_logon := q\<rparr>) = Some s'
     \<Longrightarrow> server_step lib cf dg tame (s, ms) (s', ms)"
| sv_logout: "ts_pop_front (q_logout s) = Some (i, q)
     \<Longrightarrow> server_step lib cf dg tame (s, ms) (logout_onInput lib i (s\<lparr>q_logout := q\<rparr>), ms)"
| sv_heartbeat: "ts_pop_front (q_heartbeat s) = Some (i, q)
     \<Longrightarrow> server_step lib cf dg tame (s, ms) (heartbeat_onInput lib i (s\<lparr>q_heartbeat := q\<rparr>), ms)"
| sv_market_router: "ts_pop_front (q_market s) = Some (i, q) \<Longrightarrow> traffic_ok tame lib i
     \<Longrightarrow> \<forall>x mk. ms x = Some mk \<longrightarrow> ticket \<notin> known_ids mk
     \<Longrightarrow> market_router_onInput lib ticket i ms (s\<lparr>q_market := q\<rparr>) = (ms', s')
     \<Longrightarrow> server_step lib cf dg tame (s, ms) (s', ms')"
| sv_output: "ts_pop_front (q_output s) = Some (j, q) \<Longrightarrow> output_task cf lib now ok j (s\<lparr>q_output := q\<rparr>) = Some s'
     \<Longrightarrow> server_step lib cf dg tame (s, ms) (s', ms)"
| sv_onnew: "server_step lib cf dg tame (s, ms) (run_onnew now s, ms)"
| sv_onremove: "run_onremove s = Some s' \<Longrightarrow> server_step lib cf dg tame (s, ms) (s', ms)"
| sv_monitor: "server_step lib cf dg tame (s, ms) (monitor_scan fmt now s, ms)"
| sv_market: "ms x = Some mk \<Longrightarrow> unit_step dg (mk, s) (mk', s')
     \<Longrightarrow> server_step lib cf dg tame (s, ms) (s', ms(x \<mapsto> mk'))"

inductive server_reach :: "fixlib \<Rightarrow> config \<Rightarrow> dangling \<Rightarrow> bool \<Rightarrow> server \<times> markets \<Rightarrow> bool"
  for lib cf dg tame where
  sr_init: "server_reach lib cf dg tame (server_init, market_init (cf_Market cf))"
| sr_step: "server_reach lib cf dg tame e \<Longrightarrow> server_step lib cf dg tame e e' \<Longrightarrow> server_reach lib cf dg tame e'"

section \<open>Each market of the server\<close>

definition fresh_markets :: "markets \<Rightarrow> bool" where
  "fresh_markets ms \<longleftrightarrow> (\<forall>y k. ms y = Some k \<longrightarrow> k = MarketContainer_init y)"

lemma fresh_markets_register: "fresh_markets ms \<Longrightarrow> fresh_markets (registerMarket n (MarketContainer_init n) ms)"
  by (auto simp: fresh_markets_def registerMarket_def split: if_splits)

lemma fresh_markets_fold:
  "fresh_markets ms \<Longrightarrow> fresh_markets (fold (\<lambda>n ms. registerMarket n (MarketContainer_init n) ms) names ms)"
  by (induction names arbitrary: ms) (simp_all only: fold_simps fresh_markets_register)

lemma market_init_Some: "market_init names x = Some mk \<Longrightarrow> mk = MarketContainer_init x"
proof -
  have "fresh_markets (market_init names)"
    unfolding market_init_def by (rule fresh_markets_fold) (simp add: fresh_markets_def)
  then show "market_init names x = Some mk \<Longrightarrow> ?thesis" unfolding fresh_markets_def by blast
qed

lemma parseMessage_Inr: "parseMessage lib ty f m h = Inr x \<Longrightarrow> f m = Inr x"
  by (auto simp: parseMessage_def split: sum.splits)

lemma market_router_markets:
  assumes "market_router_onInput lib ticket i ms s = (ms', s')" "traffic_ok tame lib i"
    and "\<forall>x mk. ms x = Some mk \<longrightarrow> ticket \<notin> known_ids mk" and "ms' x = Some mk'"
  shows "\<exists>mk. ms x = Some mk \<and> (mk' = mk \<or> market_step dg tame mk mk')"
proof -
  have arr: "market_step dg tame mk (enqueue_order p (set_mutex (qm_allow ticket) mk))"
    if "ms y = Some mk" "pm_ExecutionId p = ticket" "fl_NewOrderSingle lib (um_Message i) = Inr (pm_Message p)" for y mk p
    using mk_arrive_order[of p mk tame dg] assms(2) assms(3)[rule_format, OF that(1)] that(2,3)
    by (simp add: traffic_ok_def sane_order_def)
  have arrc: "market_step dg tame mk (enqueue_cancel p (set_mutex (qm_allow ticket) mk))"
    if "ms y = Some mk" "pm_ExecutionId p = ticket" "fl_OrderCancelRequest lib (um_Message i) = Inr (pm_Message p)" for y mk p
    using mk_arrive_cancel[of p mk tame dg] assms(2) assms(3)[rule_format, OF that(1)] that(2,3)
    by (simp add: traffic_ok_def)
  from assms(1,4) show ?thesis
    by (auto simp: market_router_onInput_def redirectToMarket_def Let_def split: if_splits sum.splits option.splits
        dest!: parseMessage_Inr intro!: arr arrc)
qed

lemma server_markets:
  assumes "server_reach lib cf dg tame e" "snd e x = Some mk"
  shows "market_reach dg tame x mk"
  using assms
proof (induction arbitrary: x mk rule: server_reach.induct)
  case sr_init
  then show ?case using market_init_Some mr_init by fastforce
next
  case (sr_step e e')
  from sr_step.hyps(2) show ?case
  proof (cases rule: server_step.cases)
    case (sv_market_router s i q ms ticket ms' s')
    from sr_step.prems sv_market_router(2) have "ms' x = Some mk" by simp
    from market_router_markets[OF sv_market_router(6,4,5) this, where dg = dg]
    obtain mk0 where "ms x = Some mk0" "mk = mk0 \<or> market_step dg tame mk0 mk" by blast
    with sr_step.IH[of x mk0] sv_market_router(1) show ?thesis by (auto intro: mr_step)
  next
    case (sv_market ms y mk0 s mk' s')
    have "market_step dg tame mk0 mk'" using unit_step_market[OF sv_market(4)] by simp
    with sr_step sv_market show ?thesis by (auto intro: mr_step split: if_splits)
  qed (use sr_step in auto)
qed

end
