(* ===== verification/ServerInv.thy ===== *)
theory ServerInv
  imports Server
begin

text \<open>
  What every reachable server state keeps: each reference to a connection is to an allocated one
  with a socket, and each queue behind the header validation holds only messages that passed it,
  of the types its unit handles.
\<close>

section \<open>The invariant\<close>

definition header_ok :: "config \<Rightarrow> Header \<Rightarrow> bool" where
  "header_ok cf h \<longleftrightarrow> h_BeginString h = ''FIX.4.2'' \<and> h_MsgType h \<in> set supported_types
     \<and> h_TargetCompId h = cf_ProviderName cf"

definition store_ok :: "'a client_store_scheme \<Rightarrow> bool" where
  "store_ok s \<longleftrightarrow> store_inv s
     \<and> (\<forall>c < cs_next s. \<exists>k < sk_next s. ic_socket (cs_heap s c) = Some k)
     \<and> (\<forall>c \<in> set (cs_onnew s) \<union> set (cs_onremove s). c < cs_next s)"

definition from_known :: "nat \<Rightarrow> (Header \<Rightarrow> bool) \<Rightarrow> UnparsedMessage list \<Rightarrow> bool" where
  "from_known n ok q \<longleftrightarrow> (\<forall>i \<in> set q. um_Client i < n \<and> ok (um_Header i))"

definition of_types :: "config \<Rightarrow> char set \<Rightarrow> Header \<Rightarrow> bool" where
  "of_types cf ts h \<longleftrightarrow> header_ok cf h \<and> h_MsgType h \<in> ts"

definition outputs_ok :: "nat \<Rightarrow> StringOutput list \<Rightarrow> bool" where
  "outputs_ok n q \<longleftrightarrow> (\<forall>j \<in> set q. so_Client j < n \<and> so_MessageType j = Msg_type (so_Message j))"

definition queues_ok :: "config \<Rightarrow> server \<Rightarrow> bool" where
  "queues_ok cf s \<longleftrightarrow> from_known (cs_next s) (\<lambda>_. True) (q_header s)
     \<and> from_known (cs_next s) (header_ok cf) (q_router s)
     \<and> from_known (cs_next s) (of_types cf {MT_Logon}) (q_logon s)
     \<and> from_known (cs_next s) (of_types cf {MT_Logout}) (q_logout s)
     \<and> from_known (cs_next s) (of_types cf {MT_HeartBeat, MT_TestRequest}) (q_heartbeat s)
     \<and> from_known (cs_next s) (of_types cf {MT_NewOrderSingle, MT_OrderCancelRequest}) (q_market s)
     \<and> outputs_ok (cs_next s) (q_output s)"

definition pipe_ok :: "config \<Rightarrow> nat \<Rightarrow> char \<Rightarrow> ('m \<Rightarrow> string) \<Rightarrow> string \<Rightarrow> 'm ParsedMessage list \<Rightarrow> bool" where
  "pipe_ok cf n ty name x ps \<longleftrightarrow> (\<forall>p \<in> set ps. pm_Client p < n \<and> of_types cf {ty} (pm_Header p) \<and> name (pm_Message p) = x)"

definition market_ok :: "config \<Rightarrow> nat \<Rightarrow> string \<Rightarrow> market \<Rightarrow> bool" where
  "market_ok cf n x mk \<longleftrightarrow> pipe_ok cf n MT_NewOrderSingle no_Symbol x (order_pipe mk)
     \<and> pipe_ok cf n MT_OrderCancelRequest oc_Symbol x (cancel_pipe mk)"

definition server_inv :: "config \<Rightarrow> server \<times> markets \<Rightarrow> bool" where
  "server_inv cf e \<longleftrightarrow> store_ok (fst e) \<and> queues_ok cf (fst e)
     \<and> (\<forall>x mk. snd e x = Some mk \<longrightarrow> market_ok cf (cs_next (fst e)) x mk)"

lemmas queue_defs = from_known_def outputs_ok_def

section \<open>The primitives\<close>

text \<open>
  What a handler may do to the server besides its own queue: outputs to known clients, updates of
  known clients that keep the socket and the naming rule, removals.
\<close>

definition keeps :: "(InternalClient \<Rightarrow> InternalClient) \<Rightarrow> bool" where
  "keeps f \<longleftrightarrow> (\<forall>c. ic_socket (f c) = ic_socket c
     \<and> (\<not> isLoggedin (f c) \<longrightarrow> getUserId (f c) = [] \<or> (\<not> isLoggedin c \<and> getUserId (f c) = getUserId c)))"

lemma keeps_ops [simp]: "keeps nextSeqNumber" "keeps (setSince t)" "keeps (set_shouldDisconnect b)"
    "keeps (do_login now i e)" "keeps clear_test" "keeps (send_test fmt now)"
    "keeps (\<lambda>x. disconnect (set_shouldDisconnect True x))"
  by (auto simp: keeps_def nextSeqNumber_def setSince_def set_shouldDisconnect_def do_login_def Let_def login_def
      setSeqNumber_def clear_test_def send_test_def disconnect_def)

inductive benign :: "server \<Rightarrow> server \<Rightarrow> bool" where
  b_refl: "benign s s"
| b_output: "benign s s' \<Longrightarrow> c < cs_next s \<Longrightarrow> benign s (append_output c t m s')"
| b_client: "benign s s' \<Longrightarrow> keeps f \<Longrightarrow> benign s (upd_client c f s')"
| b_remove: "benign s s' \<Longrightarrow> c < cs_next s \<Longrightarrow> benign s (removeClient c s')"
| b_close: "benign s s' \<Longrightarrow> benign s (snd (client_close c s'))"
| b_sent: "benign s s' \<Longrightarrow> benign s (s'\<lparr>cs_sent := d\<rparr>)"

lemma client_close_simps [simp]:
  "cs_next (snd (client_close c s)) = cs_next s" "cs_heap (snd (client_close c s)) = cs_heap s"
  "cs_clients (snd (client_close c s)) = cs_clients s" "cs_onnew (snd (client_close c s)) = cs_onnew s"
  "cs_onremove (snd (client_close c s)) = cs_onremove s" "sk_next (snd (client_close c s)) = sk_next s"
  by (auto simp: client_close_def BaseSocket_close_def split: option.splits)

lemma client_close_queues [simp]: "queues_ok cf (snd (client_close c s)) = queues_ok cf s"
  by (auto simp: queues_ok_def client_close_def BaseSocket_close_def split: option.splits)

lemma store_ok_keeps: "store_ok s \<Longrightarrow> keeps f \<Longrightarrow> store_ok (upd_client c f s)"
  by (auto simp: store_ok_def upd_client_def keeps_def store_inv_def)

lemma benign_ok:
  "benign s s' \<Longrightarrow> cs_next s' = cs_next s \<and> (store_ok s \<longrightarrow> store_ok s') \<and> (queues_ok cf s \<longrightarrow> queues_ok cf s')"
proof (induction rule: benign.induct)
  case (b_output s s' c t m)
  then show ?case by (auto simp: append_output_def store_ok_def store_inv_def queues_ok_def outputs_ok_def ts_push_def)
next
  case (b_client s s' f c)
  then show ?case by (auto simp: store_ok_keeps) (auto simp: upd_client_def queues_ok_def)
next
  case (b_remove s s' c)
  have "store_ok (upd_client c (\<lambda>x. disconnect (set_shouldDisconnect True x)) s')" if "store_ok s'"
    using that by (rule store_ok_keeps) simp
  with b_remove show ?case
    by (auto simp: removeClient_def Let_def) (auto simp: store_ok_def store_inv_def upd_client_def queues_ok_def)
next
  case (b_close s s' c)
  then show ?case by (auto simp: store_ok_def store_inv_def)
next
  case (b_sent s s' d)
  then show ?case by (auto simp: store_ok_def store_inv_def queues_ok_def)
qed auto

section \<open>The handlers\<close>

lemma from_known_pop: "ts_pop_front q = Some (i, q') \<Longrightarrow> from_known n ok q \<Longrightarrow> um_Client i < n \<and> ok (um_Header i) \<and> from_known n ok q'"
  by (auto simp: pop_front_Some from_known_def)

lemma outputs_pop: "ts_pop_front q = Some (j, q') \<Longrightarrow> outputs_ok n q \<Longrightarrow> so_Client j < n \<and> outputs_ok n q'"
  by (auto simp: pop_front_Some outputs_ok_def)

lemma from_known_push: "from_known n ok q \<Longrightarrow> um_Client i < n \<Longrightarrow> ok (um_Header i) \<Longrightarrow> from_known n ok (ts_push i q)"
  by (auto simp: from_known_def ts_push_def)

text \<open>The handlers that only touch connections and outputs.\<close>

lemma logon_benign:
  "logon_onInput lib cf now i s = Some s' \<Longrightarrow> um_Client i < cs_next s \<Longrightarrow> benign s s'"
  by (auto simp: logon_onInput_def logon_verify_def Let_def split: sum.splits if_splits option.splits
      intro!: b_refl b_output b_client)

lemma logout_benign: "um_Client i < cs_next s \<Longrightarrow> benign s (logout_onInput lib i s)"
  by (auto simp: logout_onInput_def Let_def split: sum.splits intro!: b_refl b_output b_client)

lemma heartbeat_benign: "um_Client i < cs_next s \<Longrightarrow> benign s (heartbeat_onInput lib i s)"
  by (auto simp: heartbeat_onInput_def processHeartBeat_def processTestRequest_def heartbeat_reply_def Let_def
      split: sum.splits option.splits intro!: b_refl b_output b_client)

lemma output_task_benign:
  assumes "output_task cf lib now ok j s = Some s'" "so_Client j < cs_next s"
  shows "benign s s'"
  using assms
  by (auto simp: output_task_def client_send_def Let_def split: if_splits option.splits
      intro!: b_refl b_client b_remove b_close b_sent)

lemma monitor_client_benign: "benign s s' \<Longrightarrow> c < cs_next s \<Longrightarrow> benign s (monitor_client fmt now c s')"
  by (auto simp: monitor_client_def Let_def intro!: b_output b_client b_remove)

lemma monitor_benign: "store_ok s \<Longrightarrow> benign s (monitor_scan fmt now s)"
proof -
  have "benign s (fold (monitor_client fmt now) cs s')" if "benign s s'" "\<forall>c \<in> set cs. c < cs_next s" for cs s'
    using that by (induction cs arbitrary: s') (auto intro: monitor_client_benign)
  then show "store_ok s \<Longrightarrow> ?thesis"
    by (simp add: monitor_scan_def Apply_def store_ok_def store_inv_def b_refl)
qed

section \<open>The units of a market\<close>

lemma pipe_ok_subset: "pipe_ok cf n ty f x ps \<Longrightarrow> set qs \<subseteq> set ps \<Longrightarrow> pipe_ok cf n ty f x qs"
  by (auto simp: pipe_ok_def)

lemma neworder_onInput_pipes:
  "neworder_onInput i mk s = (mk', s') \<Longrightarrow> pm_Client i < cs_next s \<Longrightarrow>
    set (order_pipe mk') \<subseteq> insert i (set (order_pipe mk)) \<and> cancel_pipe mk' = cancel_pipe mk \<and> benign s s'"
  by (auto simp: neworder_onInput_def notSupportedSide_def notSupportedOrderType_def reply_def Let_def ts_push_def
      order_pipe_def cancel_pipe_def split: if_splits intro!: b_refl b_output)

lemma verifyOrderState_benign:
  "verifyOrderState i mk s = Inr (r, mk', s') \<Longrightarrow> pm_Client i < cs_next s \<Longrightarrow> benign s s'"
  by (auto simp: verifyOrderState_def reply_def Let_def split: sum.splits if_splits intro!: b_refl b_output)

lemma cancel_onInput_pipes:
  assumes "cancel_onInput i mk s = Inr (mk', s')" "pm_Client i < cs_next s"
  shows "set (cancel_pipe mk') \<subseteq> insert i (set (cancel_pipe mk)) \<and> order_pipe mk' = order_pipe mk \<and> benign s s'"
proof -
  have "benign s s'"
    using assms by (auto simp: cancel_onInput_def reply_def Let_def split: if_splits sum.splits option.splits
        intro!: b_refl b_output dest: verifyOrderState_benign)
  moreover from assms(1) have "set (cancel_pipe mk') \<subseteq> insert i (set (cancel_pipe mk)) \<and> order_pipe mk' = order_pipe mk"
    by (cases rule: cancel_onInput_cases) (auto simp: cancel_pipe_def order_pipe_def)
  ultimately show ?thesis by blast
qed

lemma order_locked_benign:
  assumes "order_locked dg user mk s = Inr (mk', s')" "\<forall>i \<in> set (order_pipe mk). pm_Client i < cs_next s"
  shows "benign s s'"
  using assms by (auto simp: order_locked_def reply_def Let_def pipe_defs split: option.splits if_splits prod.splits bool.splits sum.splits
      intro!: b_refl b_output)

lemma cancel_locked_benign:
  assumes "cancel_locked dg mk s = Inr (mk', s')" "\<forall>i \<in> set (cancel_pipe mk). pm_Client i < cs_next s"
  shows "benign s s'"
  using assms by (auto simp: cancel_locked_def verifyOrderStateWithLock_def reply_def Let_def pipe_defs
      split: option.splits if_splits prod.splits sum.splits intro!: b_refl b_output)

lemma event_step_benign:
  assumes "event_step exec now mk s = (mk', s')" "store_ok s"
  shows "benign s s' \<and> order_pipe mk' = order_pipe mk \<and> cancel_pipe mk' = cancel_pipe mk"
proof -
  have "c < cs_next s" if "findClient u s = Some c" for u c
    using findClient_listed[OF that] assms(2) by (auto simp: store_ok_def store_inv_def)
  with assms(1) show ?thesis
    by (auto simp: event_step_def createEvent_def order_pipe_def cancel_pipe_def split: option.splits
        intro!: b_refl b_output)
qed

lemma market_ok_mono: "market_ok cf n x mk \<Longrightarrow> set (order_pipe mk') \<subseteq> set (order_pipe mk)
    \<Longrightarrow> set (cancel_pipe mk') \<subseteq> set (cancel_pipe mk) \<Longrightarrow> market_ok cf n x mk'"
  by (auto simp: market_ok_def intro: pipe_ok_subset)

lemma market_ok_clients:
  "market_ok cf n x mk \<Longrightarrow> (\<forall>i \<in> set (order_pipe mk). pm_Client i < n) \<and> (\<forall>i \<in> set (cancel_pipe mk). pm_Client i < n)"
  by (auto simp: market_ok_def pipe_ok_def)

lemma served_pipes:
  "set (order_pipe (served_order mk ob)) \<subseteq> set (order_pipe mk)" "cancel_pipe (served_order mk ob) = cancel_pipe mk"
  "set (cancel_pipe (served_cancel mk ob)) \<subseteq> set (cancel_pipe mk)" "order_pipe (served_cancel mk ob) = order_pipe mk"
  by (auto simp: served_order_def served_cancel_def pipe_defs split: option.splits)

lemma unit_step_ok:
  assumes "unit_step dg (mk, s) (mk', s')" "market_ok cf (cs_next s) x mk" "store_ok s"
  shows "benign s s' \<and> market_ok cf (cs_next s) x mk'"
  using assms(1)
proof (cases rule: unit_step.cases)
  case (un_order_input i q)
  then have m: "set (order_pipe (mk\<lparr>mk_orders := q\<rparr>)) \<subseteq> set (order_pipe mk)" "i \<in> set (order_pipe mk)"
    "cancel_pipe (mk\<lparr>mk_orders := q\<rparr>) = cancel_pipe mk" by (auto simp: pop_front_Some order_pipe_def cancel_pipe_def)
  from neworder_onInput_pipes[OF un_order_input(2)] m market_ok_clients[OF assms(2)]
  show ?thesis using market_ok_mono[OF assms(2), of mk'] by auto
next
  case (un_cancel_input i q)
  then have m: "set (cancel_pipe (mk\<lparr>mk_cancels := q\<rparr>)) \<subseteq> set (cancel_pipe mk)" "i \<in> set (cancel_pipe mk)"
    "order_pipe (mk\<lparr>mk_cancels := q\<rparr>) = order_pipe mk" by (auto simp: pop_front_Some order_pipe_def cancel_pipe_def)
  from cancel_onInput_pipes[OF un_cancel_input(2)] m market_ok_clients[OF assms(2)]
  show ?thesis using market_ok_mono[OF assms(2), of mk'] by auto
next
  case un_order_take
  then show ?thesis using market_ok_mono[OF assms(2), of mk'] by (simp add: b_refl)
next
  case un_cancel_take
  then show ?thesis using market_ok_mono[OF assms(2), of mk'] by (simp add: b_refl)
next
  case (un_order_locked user)
  from un_order_locked obtain ob where "mk' = served_order mk ob" by (cases rule: order_locked_cases) auto
  with order_locked_benign[OF un_order_locked] market_ok_clients[OF assms(2)] served_pipes
  show ?thesis using market_ok_mono[OF assms(2), of mk'] by auto
next
  case un_cancel_locked
  from un_cancel_locked obtain ob where "mk' = served_cancel mk ob" by (cases rule: cancel_locked_cases) auto
  with cancel_locked_benign[OF un_cancel_locked] market_ok_clients[OF assms(2)] served_pipes
  show ?thesis using market_ok_mono[OF assms(2), of mk'] by auto
next
  case (un_event exec now)
  from event_step_benign[OF un_event assms(3)] show ?thesis using market_ok_mono[OF assms(2), of mk'] by auto
qed

section \<open>The input unit\<close>

definition session_ok :: "config \<Rightarrow> server \<Rightarrow> bool" where
  "session_ok cf s \<longleftrightarrow> store_ok s \<and> queues_ok cf s"

lemma session_ok_benign: "session_ok cf s \<Longrightarrow> benign s s' \<Longrightarrow> session_ok cf s' \<and> cs_next s' = cs_next s"
  using benign_ok by (auto simp: session_ok_def)

lemma session_ok_header:
  "session_ok cf s \<Longrightarrow> um_Client i < cs_next s \<Longrightarrow> session_ok cf (s\<lparr>q_header := ts_push i (q_header s)\<rparr>)"
  by (auto simp: session_ok_def store_ok_def store_inv_def queues_ok_def from_known_push)

lemma session_ok_selector:
  "session_ok cf (Selector_erase k s) = session_ok cf s" "session_ok cf (snd (Selector_client k s)) = session_ok cf s"
  "session_ok cf (snd (BaseSocket_close k s)) = session_ok cf s"
  "cs_next (Selector_erase k s) = cs_next s" "cs_next (snd (Selector_client k s)) = cs_next s"
  "cs_next (snd (BaseSocket_close k s)) = cs_next s"
  by (auto simp: Selector_erase_def Selector_client_def BaseSocket_close_def session_ok_def store_ok_def
      store_inv_def queues_ok_def Let_def)

lemma from_known_mono: "from_known n ok q \<Longrightarrow> n \<le> n' \<Longrightarrow> from_known n' ok q"
  by (fastforce simp: from_known_def)

lemma outputs_ok_mono: "outputs_ok n q \<Longrightarrow> n \<le> n' \<Longrightarrow> outputs_ok n' q"
  by (fastforce simp: outputs_ok_def)

lemma market_ok_next: "market_ok cf n x mk \<Longrightarrow> n \<le> n' \<Longrightarrow> market_ok cf n' x mk"
  by (fastforce simp: market_ok_def pipe_ok_def)

lemma accept_ok:
  assumes "session_ok cf s"
  shows "session_ok cf (input_accept fd s) \<and> cs_next s \<le> cs_next (input_accept fd s)"
proof (cases "fd = -1")
  case True
  with assms show ?thesis by (simp add: input_accept_def Acceptor_accept_def)
next
  case False
  let ?s1 = "s\<lparr>sk_fd := (sk_fd s)(sk_next s := fd), sk_next := sk_next s + 1, sk_open := (sk_open s)(fd := True)\<rparr>"
  let ?s2 = "newClientSocket (sk_next s) ?s1"
  have n: "cs_next ?s2 = cs_next s + 1" by (simp add: newClientSocket_def)
  have "store_inv ?s1" using assms by (simp add: session_ok_def store_ok_def store_inv_def)
  moreover have "\<exists>k < sk_next s + 1. ic_socket (cs_heap s c) = Some k" if "c < cs_next s" for c
    using assms that by (fastforce simp: session_ok_def store_ok_def)
  ultimately have "store_ok ?s2"
    using assms by (auto simp: store_ok_def session_ok_def store_inv_new InternalClient_new_def)
      (auto simp: newClientSocket_def InternalClient_new_def intro: less_SucI)
  moreover have "queues_ok cf ?s2"
    using assms unfolding queues_ok_def session_ok_def n
    by (auto simp: newClientSocket_def elim: from_known_mono outputs_ok_mono)
  ultimately have "session_ok cf ?s2" by (simp add: session_ok_def)
  with n False show ?thesis
    by (simp add: input_accept_def Acceptor_accept_def session_ok_selector)
qed

lemma process_ok:
  assumes "session_ok cf s" "c < cs_next s" "process lib now recv c s = Some (b, s')"
  shows "session_ok cf s' \<and> cs_next s' = cs_next s"
proof -
  let ?s1 = "if isLoggedin (cs_heap s c) then upd_client c nextSeqNumber s else s"
  have s1: "session_ok cf ?s1" "cs_next ?s1 = cs_next s"
    using session_ok_benign[OF assms(1) b_client[OF b_refl keeps_ops(1)], of c] assms(1) by auto
  have "session_ok cf s2 \<and> cs_next s2 = cs_next s" if "buildHeader lib now c d ?s1 = Some s2" for d s2
    using that session_ok_header[OF s1(1)] session_ok_benign[OF s1(1) b_output[OF b_refl]] s1(2) assms(2)
    by (auto simp: buildHeader_def split: parse_result.splits)
  with assms show ?thesis
    by (auto simp: process_def Let_def split: if_splits prod.splits)
qed

lemma input_event_ok:
  assumes "session_ok cf s" "input_event lib now ev s = Some s'"
  shows "session_ok cf s' \<and> cs_next s' = cs_next s"
proof -
  obtain k recv where ev: "ev = (k, recv)" by (cases ev) auto
  show ?thesis
  proof (cases "findClient_socket k s")
    case None
    with assms ev show ?thesis by (auto simp: input_event_def session_ok_selector)
  next
    case (Some c)
    have c: "c < cs_next s"
      using findClient_socket_listed[OF Some] assms(1) by (auto simp: session_ok_def store_ok_def store_inv_def)
    from assms(2) ev Some obtain b s1 where p: "process lib now recv c s = Some (b, s1)"
      "s' = (if b then removeClient c s1 else s1)"
      by (auto simp: input_event_def split: option.splits bool.splits)
    from process_ok[OF assms(1) c p(1)] c p(2) show ?thesis
      using session_ok_benign[OF _ b_remove[OF b_refl], of cf s1 c] by auto
  qed
qed

lemma input_events_ok:
  "session_ok cf s \<Longrightarrow> input_events lib now es s = Some s' \<Longrightarrow> session_ok cf s' \<and> cs_next s' = cs_next s"
proof (induction es arbitrary: s)
  case (Cons e es)
  from Cons.prems(2) obtain s1 where "input_event lib now e s = Some s1" "input_events lib now es s1 = Some s'"
    by (auto split: option.splits)
  with Cons.IH input_event_ok[OF Cons.prems(1)] show ?case by fastforce
qed simp

lemma input_round_ok:
  assumes "session_ok cf s" "input_round lib now fd ready s = Some s'"
  shows "session_ok cf s' \<and> cs_next s \<le> cs_next s'"
  using assms accept_ok[OF assms(1), of fd] input_events_ok[of cf "input_accept fd s" lib now]
  by (fastforce simp: input_round_def Let_def split: option.splits)

section \<open>Preservation\<close>

lemma session_ok_queues:
  "session_ok cf s \<Longrightarrow> from_known (cs_next s) (\<lambda>_. True) q \<Longrightarrow> session_ok cf (s\<lparr>q_header := q\<rparr>)"
  "session_ok cf s \<Longrightarrow> from_known (cs_next s) (header_ok cf) q \<Longrightarrow> session_ok cf (s\<lparr>q_router := q\<rparr>)"
  "session_ok cf s \<Longrightarrow> from_known (cs_next s) (of_types cf {MT_Logon}) q \<Longrightarrow> session_ok cf (s\<lparr>q_logon := q\<rparr>)"
  "session_ok cf s \<Longrightarrow> from_known (cs_next s) (of_types cf {MT_Logout}) q \<Longrightarrow> session_ok cf (s\<lparr>q_logout := q\<rparr>)"
  "session_ok cf s \<Longrightarrow> from_known (cs_next s) (of_types cf {MT_HeartBeat, MT_TestRequest}) q \<Longrightarrow> session_ok cf (s\<lparr>q_heartbeat := q\<rparr>)"
  "session_ok cf s \<Longrightarrow> from_known (cs_next s) (of_types cf {MT_NewOrderSingle, MT_OrderCancelRequest}) q \<Longrightarrow> session_ok cf (s\<lparr>q_market := q\<rparr>)"
  "session_ok cf s \<Longrightarrow> outputs_ok (cs_next s) os \<Longrightarrow> session_ok cf (s\<lparr>q_output := os\<rparr>)"
  by (auto simp: session_ok_def store_ok_def store_inv_def queues_ok_def)

lemma session_ok_in:
  assumes "session_ok cf s"
  shows "from_known (cs_next s) (\<lambda>_. True) (q_header s)" "from_known (cs_next s) (header_ok cf) (q_router s)"
    "from_known (cs_next s) (of_types cf {MT_Logon}) (q_logon s)" "from_known (cs_next s) (of_types cf {MT_Logout}) (q_logout s)"
    "from_known (cs_next s) (of_types cf {MT_HeartBeat, MT_TestRequest}) (q_heartbeat s)"
    "from_known (cs_next s) (of_types cf {MT_NewOrderSingle, MT_OrderCancelRequest}) (q_market s)"
    "outputs_ok (cs_next s) (q_output s)"
  using assms by (auto simp: session_ok_def queues_ok_def)

lemma header_step_ok:
  assumes "session_ok cf s" "um_Client i < cs_next s"
  shows "session_ok cf (header_onInput cf i s) \<and> cs_next (header_onInput cf i s) = cs_next s"
proof (cases "verifyPositionValue (um_Header i) = None \<and> verifyUserSpecific cf (um_Header i) (cs_heap s (um_Client i)) = None")
  case True
  then have "header_ok cf (um_Header i)"
    by (auto simp: header_ok_def verifyPositionValue_def verifyUserSpecific_def Let_def split: if_splits)
  with True show ?thesis
    using session_ok_queues(2)[OF assms(1) from_known_push[OF session_ok_in(2)[OF assms(1)] assms(2)]]
    by (simp add: header_onInput_def)
next
  case False
  have "session_ok cf (append_output (um_Client i) t m s) \<and> cs_next (append_output (um_Client i) t m s) = cs_next s" for t m
    by (rule session_ok_benign[OF assms(1) b_output[OF b_refl assms(2)]])
  with False show ?thesis by (auto simp: header_onInput_def split: option.splits)
qed

lemma router_step_ok:
  assumes ok: "session_ok cf s" and i: "um_Client i < cs_next s" "header_ok cf (um_Header i)"
  shows "session_ok cf (router_onInput i s) \<and> cs_next (router_onInput i s) = cs_next s"
proof -
  let ?ty = "h_MsgType (um_Header i)"
  have push: "from_known (cs_next s) (of_types cf ts) (ts_push i q)" if "?ty \<in> ts" "from_known (cs_next s) (of_types cf ts) q" for ts q
    using that i by (intro from_known_push) (auto simp: of_types_def)
  have out: "session_ok cf (append_output (um_Client i) t m s) \<and> cs_next (append_output (um_Client i) t m s) = cs_next s" for t m
    by (rule session_ok_benign[OF ok b_output[OF b_refl i(1)]])
  show ?thesis
    using ok session_ok_queues(3-6)[OF ok push] session_ok_in(3-6)[OF ok] out
    by (simp add: router_onInput_def treatUnknown_def treatRequireLogin_def Let_def)
qed

lemma server_invI:
  assumes "server_inv cf (s, ms)" "session_ok cf s' \<and> cs_next s \<le> cs_next s'"
  shows "server_inv cf (s', ms)"
  using assms market_ok_next by (fastforce simp: server_inv_def session_ok_def)

lemma server_invD: "server_inv cf (s, ms) \<Longrightarrow> session_ok cf s"
    "server_inv cf (s, ms) \<Longrightarrow> ms x = Some mk \<Longrightarrow> market_ok cf (cs_next s) x mk"
  by (auto simp: server_inv_def session_ok_def)

lemma market_router_ok:
  assumes h: "market_router_onInput lib ticket i ms s = (ms', s')" and ok: "session_ok cf s"
    and i: "um_Client i < cs_next s" "header_ok cf (um_Header i)"
    and m: "\<And>x mk. ms x = Some mk \<Longrightarrow> market_ok cf (cs_next s) x mk"
  shows "benign s s' \<and> (\<forall>x mk. ms' x = Some mk \<longrightarrow> market_ok cf (cs_next s) x mk)"
proof -
  have b: "benign s s'"
    using h i by (auto simp: market_router_onInput_def redirectToMarket_def Let_def
        split: if_splits sum.splits option.splits intro!: b_refl b_output)
  have o: "market_ok cf (cs_next s) x (enqueue_order p (set_mutex f mk))"
    if "ms x = Some mk" "pm_Client p = um_Client i" "pm_Header p = um_Header i" "no_Symbol (pm_Message p) = x"
      "h_MsgType (um_Header i) = MT_NewOrderSingle" for x mk p f
    using m[OF that(1)] i that
    by (auto simp: market_ok_def pipe_ok_def enqueue_order_def order_pipe_def cancel_pipe_def ts_push_def of_types_def)
  have c: "market_ok cf (cs_next s) x (enqueue_cancel p (set_mutex f mk))"
    if "ms x = Some mk" "pm_Client p = um_Client i" "pm_Header p = um_Header i" "oc_Symbol (pm_Message p) = x"
      "h_MsgType (um_Header i) = MT_OrderCancelRequest" for x mk p f
    using m[OF that(1)] i that
    by (auto simp: market_ok_def pipe_ok_def enqueue_cancel_def order_pipe_def cancel_pipe_def ts_push_def of_types_def)
  have "\<forall>x mk. ms' x = Some mk \<longrightarrow> market_ok cf (cs_next s) x mk"
    using h m o c by (auto simp: market_router_onInput_def redirectToMarket_def Let_def
        split: if_splits sum.splits option.splits)
  with b show ?thesis by blast
qed

lemma tcp_onremove_ok: "session_ok cf s \<Longrightarrow> session_ok cf (tcp_onremove c s) \<and> cs_next (tcp_onremove c s) = cs_next s"
  using session_ok_benign[OF _ b_close[OF b_refl], of cf s c]
  by (auto simp: tcp_onremove_def Let_def session_ok_selector split: option.splits)

lemma onremove_ok:
  assumes "session_ok cf s" "run_onremove s = Some s'"
  shows "session_ok cf s' \<and> cs_next s' = cs_next s"
proof -
  have "session_ok cf (s\<lparr>cs_onremove := rest\<rparr>\<lparr>cs_clients := remove1 c (cs_clients s)\<rparr>)"
    if "cs_onremove s = c # rest" for c rest
    using assms(1) that set_remove1_subset[of c "cs_clients s"]
    by (auto simp: session_ok_def store_ok_def store_inv_def queues_ok_def)
  with assms show ?thesis
    using tcp_onremove_ok by (fastforce simp: run_onremove_def remove_task_def split: list.splits if_splits)
qed

lemma onnew_ok: "session_ok cf s \<Longrightarrow> session_ok cf (run_onnew now s) \<and> cs_next (run_onnew now s) = cs_next s"
proof (cases "cs_onnew s")
  case (Cons c rest)
  assume ok: "session_ok cf s"
  then have ok': "session_ok cf (s\<lparr>cs_onnew := rest\<rparr>)"
    using Cons by (auto simp: session_ok_def store_ok_def store_inv_def queues_ok_def)
  from Cons session_ok_benign[OF ok' b_client[OF b_refl], of "setSince now" c] show ?thesis
    by (simp add: run_onnew_def new_task_def hb_onnew_def)
qed (simp add: run_onnew_def)

lemma server_inv_init: "server_inv cf (server_init, market_init names)"
proof -
  have "market_ok cf n x (MarketContainer_init x)" for n x
    by (simp add: market_ok_def pipe_ok_def pipe_defs MarketContainer_init_def)
  then show ?thesis
    using market_init_Some[of names]
    by (auto simp: server_inv_def server_init_def store_ok_def store_inv_def InternalClient_new_def queues_ok_def queue_defs)
qed

lemma server_step_inv:
  assumes "server_step lib cf dg tame e e'" "server_inv cf e"
  shows "server_inv cf e'"
  using assms
proof (induction rule: server_step.induct)
  case (sv_input now fd ready s s' ms)
  then show ?case using input_round_ok server_invD(1) server_invI by blast
next
  case (sv_header s i q ms)
  note ok = server_invD(1)[OF sv_header(2)]
  from from_known_pop[OF sv_header(1) session_ok_in(1)[OF ok]] session_ok_queues(1)[OF ok]
    header_step_ok[of cf "s\<lparr>q_header := q\<rparr>" i]
  show ?case by (intro server_invI[OF sv_header(2)]) simp
next
  case (sv_router s i q ms)
  note ok = server_invD(1)[OF sv_router(2)]
  from from_known_pop[OF sv_router(1) session_ok_in(2)[OF ok]] session_ok_queues(2)[OF ok]
    router_step_ok[of cf "s\<lparr>q_router := q\<rparr>" i]
  show ?case by (intro server_invI[OF sv_router(2)]) simp
next
  case (sv_logon s i q now s' ms)
  note ok = server_invD(1)[OF sv_logon(3)]
  from from_known_pop[OF sv_logon(1) session_ok_in(3)[OF ok]] session_ok_queues(3)[OF ok]
    session_ok_benign[OF _ logon_benign[OF sv_logon(2)], of cf]
  show ?case by (intro server_invI[OF sv_logon(3)]) simp
next
  case (sv_logout s i q ms)
  note ok = server_invD(1)[OF sv_logout(2)]
  from from_known_pop[OF sv_logout(1) session_ok_in(4)[OF ok]] session_ok_queues(4)[OF ok]
    session_ok_benign[OF _ logout_benign, of cf "s\<lparr>q_logout := q\<rparr>" i lib]
  show ?case by (intro server_invI[OF sv_logout(2)]) simp
next
  case (sv_heartbeat s i q ms)
  note ok = server_invD(1)[OF sv_heartbeat(2)]
  from from_known_pop[OF sv_heartbeat(1) session_ok_in(5)[OF ok]] session_ok_queues(5)[OF ok]
    session_ok_benign[OF _ heartbeat_benign, of cf "s\<lparr>q_heartbeat := q\<rparr>" i lib]
  show ?case by (intro server_invI[OF sv_heartbeat(2)]) simp
next
  case (sv_market_router s i q ms ticket ms' s')
  note ok = server_invD(1)[OF sv_market_router(5)]
  from from_known_pop[OF sv_market_router(1) session_ok_in(6)[OF ok]] session_ok_queues(6)[OF ok]
    market_router_ok[OF sv_market_router(4), of cf] server_invD(2)[OF sv_market_router(5)]
  have "session_ok cf (s\<lparr>q_market := q\<rparr>)" "benign (s\<lparr>q_market := q\<rparr>) s'"
    "\<forall>x mk. ms' x = Some mk \<longrightarrow> market_ok cf (cs_next s) x mk" by (auto simp: of_types_def)
  with session_ok_benign[of cf "s\<lparr>q_market := q\<rparr>" s'] show ?case by (auto simp: server_inv_def session_ok_def)
next
  case (sv_output s j q now ok' s' ms)
  note ok = server_invD(1)[OF sv_output(3)]
  from outputs_pop[OF sv_output(1) session_ok_in(7)[OF ok]] session_ok_queues(7)[OF ok]
    session_ok_benign[OF _ output_task_benign[OF sv_output(2)], of cf]
  show ?case by (intro server_invI[OF sv_output(3)]) simp
next
  case (sv_onnew s ms now)
  then show ?case using onnew_ok server_invD(1) server_invI by fastforce
next
  case (sv_onremove s s' ms)
  then show ?case using onremove_ok server_invD(1) server_invI by fastforce
next
  case (sv_monitor s ms fmt now)
  note ok = server_invD(1)[OF sv_monitor]
  from session_ok_benign[OF ok monitor_benign] ok show ?case
    by (intro server_invI[OF sv_monitor]) (simp add: session_ok_def)
next
  case (sv_market ms x mk s mk' s')
  note ok = server_invD(1)[OF sv_market(3)]
  have u: "benign s s'" "market_ok cf (cs_next s) x mk'"
    using unit_step_ok[OF sv_market(2) server_invD(2)[OF sv_market(3) sv_market(1)]] ok by (auto simp: session_ok_def)
  with session_ok_benign[OF ok u(1)] server_invD(2)[OF sv_market(3)] show ?case
    by (auto simp: server_inv_def session_ok_def)
qed

lemma server_reach_inv: "server_reach lib cf dg tame e \<Longrightarrow> server_inv cf e"
  by (induction rule: server_reach.induct) (auto intro: server_inv_init server_step_inv)

end
