(* ===== verification/ServerCore.thy ===== *)
theory ServerCore
  imports ServerInv
begin

text \<open>
  The life of the server process: \<^verbatim>\<open>Core\<close>, which starts the units, polls their status until the
  signal handler or a crash ends the loop, and stops them, \<^verbatim>\<open>MarketContainer\<close>, which does the same
  for the three units of a market, and \<^verbatim>\<open>main\<close>. A status is what the unit's future gives: the
  state of the future and whether the unit's thread ended with an exception.
\<close>

section \<open>The market container\<close>

datatype market_unit = MU_NewOrder | MU_Cancel | MU_Event

definition container_units :: "market_unit list" where
  "container_units = [MU_NewOrder, MU_Cancel, MU_Event]"

type_synonym 'u statuses = "'u \<Rightarrow> future_status \<times> bool"

definition polls_ok :: "'u statuses \<Rightarrow> 'u list \<Rightarrow> bool" where
  "polls_ok st us \<longleftrightarrow> list_all (\<lambda>u. pu_status (fst (st u)) (snd (st u)) \<noteq> None) us"

text \<open>
  \<^verbatim>\<open>runtime\<close>: each round gives whether a stop is requested and the statuses. The result is the
  units stopped, or that the loop threw and stopped none; \<open>None\<close>: it is still running.
\<close>

datatype container_end = CE_stopped "market_unit list" | CE_crashed

fun container_runtime :: "(bool \<times> market_unit statuses) list \<Rightarrow> container_end option" where
  "container_runtime [] = None"
| "container_runtime ((stop, st) # rounds) =
     (if stop then Some (CE_stopped container_units)
      else if polls_ok st container_units then container_runtime rounds
      else Some CE_crashed)"

section \<open>The core\<close>

datatype unit_name = U_TcpOutput | U_Logon | U_Logout | U_HeartBeat | U_MarketRouter | U_Market string
  | U_Router | U_HeaderValidation | U_TcpInput

record core =
  co_running :: bool
  co_started :: "unit_name list"
  co_stopped :: "unit_name list"

text \<open>\<open>names\<close>: the markets, in the order of the map.\<close>

definition internal_start :: "string list \<Rightarrow> core \<Rightarrow> bool \<times> core" where
  "internal_start names co = (False, co\<lparr>co_started := co_started co @
     [U_TcpOutput, U_Logon, U_Logout, U_HeartBeat, U_MarketRouter] @ map U_Market names @
     [U_Router, U_HeaderValidation, U_TcpInput]\<rparr>)"

definition core_polled :: "string list \<Rightarrow> unit_name list" where
  "core_polled names = [U_Logon, U_Logout, U_HeartBeat, U_MarketRouter] @ map U_Market names @ [U_Router, U_TcpInput]"

definition core_stop :: "string list \<Rightarrow> core \<Rightarrow> core" where
  "core_stop names co = (if co_running co
     then co\<lparr>co_running := False, co_stopped := co_stopped co @
       [U_TcpInput, U_HeaderValidation, U_Router, U_MarketRouter, U_Logon, U_Logout, U_HeartBeat] @
       map U_Market names @ [U_TcpOutput]\<rparr>
     else co)"

text \<open>The loop of \<^verbatim>\<open>start\<close>; each round gives \<^verbatim>\<open>signal_run\<close> and the statuses.\<close>

fun core_loop :: "string list \<Rightarrow> (bool \<times> unit_name statuses) list \<Rightarrow> core \<Rightarrow> (bool \<times> core) option" where
  "core_loop names [] co = None"
| "core_loop names ((signal_run, st) # rounds) co =
     (if co_running co \<and> signal_run then
        (if polls_ok st (core_polled names) then core_loop names rounds co else Some (False, co))
      else Some (True, core_stop names co))"

definition core_start :: "string list \<Rightarrow> (bool \<times> unit_name statuses) list \<Rightarrow> core \<Rightarrow> (bool \<times> core) option" where
  "core_start names rounds co = (case internal_start names (co\<lparr>co_running := True\<rparr>) of
       (True, co1) \<Rightarrow> Some (False, co1\<lparr>co_running := False\<rparr>)
     | (False, co1) \<Rightarrow> core_loop names rounds co1)"

definition core_new :: core where
  "core_new = \<lparr>co_running = False, co_started = [], co_stopped = []\<rparr>"

text \<open>\<^verbatim>\<open>main\<close> returns what \<^verbatim>\<open>start\<close> returned, as the exit code, after the destructor's \<^verbatim>\<open>stop\<close>.\<close>

definition server_main :: "string list \<Rightarrow> (bool \<times> unit_name statuses) list \<Rightarrow> (int \<times> core) option" where
  "server_main names rounds = map_option (\<lambda>(r, co). (of_bool r, core_stop names co)) (core_start names rounds core_new)"

lemma core_loop_ends:
  assumes "co_running co" "core_loop names rounds co = Some (r, co')"
  shows "(r \<longrightarrow> co' = core_stop names co) \<and> (\<not> r \<longrightarrow> co' = co)"
  using assms by (induction names rounds co rule: core_loop.induct) (auto split: if_splits)

lemma core_loop_crash:
  "co_running co \<Longrightarrow> core_loop names rounds co = Some (False, co') \<Longrightarrow>
    \<exists>st u. (True, st) \<in> set rounds \<and> u \<in> set (core_polled names) \<and> pu_status (fst (st u)) (snd (st u)) = None"
  by (induction names rounds co rule: core_loop.induct)
    (auto simp: polls_ok_def list_all_iff split: if_splits)

text \<open>Only the polled units matter to the loop.\<close>

lemma core_loop_cong:
  assumes "map fst rounds = map fst rounds'"
    and "\<forall>p \<in> set (zip rounds rounds'). \<forall>u \<in> set (core_polled names). snd (fst p) u = snd (snd p) u"
  shows "core_loop names rounds co = core_loop names rounds' co"
  using assms
proof (induction rounds arbitrary: rounds')
  case (Cons a rounds)
  then obtain b rest where r: "rounds' = b # rest" by (cases rounds') auto
  obtain x st y st' where ab: "a = (x, st)" "b = (y, st')" by (cases a, cases b) auto
  have "polls_ok st (core_polled names) = polls_ok st' (core_polled names)"
    using Cons.prems(2) by (simp add: polls_ok_def r ab list_all_iff)
  with Cons r ab show ?case by simp
qed simp

end
