(* ===== verification/BackFront.thy ===== *)
theory BackFront
  imports BackEnd ServerCore
begin

text \<open>
  The back end towards the rest of the client: execution reports become frames to the front end,
  frames of the front end become FIX messages, the front end is authenticated by the token of the
  initiator, and \<^verbatim>\<open>Core\<close> runs the units.
\<close>

section \<open>Execution reports\<close>

text \<open>\<^verbatim>\<open>Price.value()\<close> and \<^verbatim>\<open>OrderQty.value()\<close> throw when the field is absent: \<open>None\<close>.\<close>

definition sendNotificationNew :: "IpcType \<Rightarrow> ExecutionReport \<Rightarrow> backend \<Rightarrow> backend option" where
  "sendNotificationNew ty r b = (case (er_Price r, er_OrderQty r) of
       (Some price, Some qty) \<Rightarrow> Some (front_send (Helper_ExecutionEvent ty
          \<lparr>ie_symbol = er_Symbol r, ie_orderId = er_OrderID r, ie_execId = er_ExecId r, ie_avgPrice = er_AvgPx r,
           ie_price = price, ie_side = er_Side r, ie_quantity = qty, ie_remainQty = er_LeavesQty r\<rparr>) b)
     | _ \<Rightarrow> None)"

definition treatNewOrder :: "ExecutionReport \<Rightarrow> backend \<Rightarrow> backend option" where
  "treatNewOrder r b = (case er_ExecType r of
       OS_NewOrder \<Rightarrow> sendNotificationNew IT_ExecNew r b
     | OS_PartiallyFilled \<Rightarrow> sendNotificationNew IT_ExecEvent r b
     | OS_Filled \<Rightarrow> sendNotificationNew IT_ExecEvent r b
     | _ \<Rightarrow> Some b)"

definition execution_onInput :: "fixlib \<Rightarrow> ServerMessage \<Rightarrow> backend \<Rightarrow> backend option" where
  "execution_onInput lib i b =
     (case parseMessage lib MT_ExecutionReport (fl_ExecutionReport lib) (sm_Message i) (sm_Header i) of
        Inl r \<Rightarrow> Some (back_output (sm_ReceiveTime i) (M_SessionReject r) b)
      | Inr r \<Rightarrow> (case er_ExecTransType r of TT_New \<Rightarrow> treatNewOrder r b | _ \<Rightarrow> Some b))"

section \<open>Frames of the front end\<close>

text \<open>\<open>d\<close>, \<open>junk\<close>: the contents of the uninitialised locals.\<close>

definition buildLogon :: "IpcLogon \<Rightarrow> net_buffer \<Rightarrow> backend \<Rightarrow> FixMsg \<times> backend" where
  "buildLogon d buf b = (case get_IpcLogon d buf of (l, _) \<Rightarrow>
     (M_Logon (Logon_init\<lparr>lg_EncryptMethod := EM_None, lg_HeartBtInt := il_HeartBeat l + 1\<rparr>),
      upd_user (us_setSeqNumber (ucast (il_SeqNum l)) \<circ> us_setUserId (il_UserId l)) b))"

definition buildOrderSingle :: "u8 \<Rightarrow> IpcOrderSingle \<Rightarrow> net_buffer \<Rightarrow> FixMsg" where
  "buildOrderSingle junk d buf = (case get_IpcOrderSingle junk d buf of (x, _) \<Rightarrow>
     M_NewOrderSingle (NewOrderSingle_init\<lparr>no_ClOrdID := io_orderId x, no_HandlInst := HI_Manual,
       no_OrderQty := Some (io_quantity x), no_OrdType := OT_Limit, no_Price := Some (io_price x),
       no_Side := io_type x, no_Symbol := io_symbol x\<rparr>))"

definition builder_step :: "u8 \<Rightarrow> IpcLogon \<Rightarrow> IpcOrderSingle \<Rightarrow> time_point \<Rightarrow> net_buffer \<Rightarrow> backend \<Rightarrow> backend" where
  "builder_step junk dl do now buf b = (case get_IpcHeader junk (bk_ipc_header b) buf of (h, buf1) \<Rightarrow>
     let b1 = b\<lparr>bk_ipc_header := h\<rparr> in
     case ih_MsgType h of
       IT_Logon \<Rightarrow> (case buildLogon dl buf1 b1 of (m, b2) \<Rightarrow> back_output now m b2)
     | IT_OrderSingle \<Rightarrow> back_output now (buildOrderSingle junk do buf1) b1
     | _ \<Rightarrow> b1)"

section \<open>The front end's connection\<close>

definition fm_reject :: "string \<Rightarrow> backend \<Rightarrow> backend" where
  "fm_reject text b = front_send (Helper_Reject \<lparr>ir_message = text\<rparr>) b"

text \<open>The result tells whether the frame was about the authentication, and the buffer as it is left.\<close>

definition authValidation :: "u8 \<Rightarrow> IpcHeader \<Rightarrow> net_buffer \<Rightarrow> backend \<Rightarrow> bool \<times> net_buffer \<times> backend" where
  "authValidation junk d buf b = (case get_IpcHeader junk d buf of (h, buf1) \<Rightarrow>
     let fm = bk_fm b in
     if \<not> fm_auth fm then
       (if ih_MsgType h = IT_FrontToBackValidToken then
          (case fm_token fm of
             Some token \<Rightarrow> (case get_FrontToBackValidToken \<lparr>fbv_token = []\<rparr> buf1 of (f, buf2) \<Rightarrow>
                if fbv_token f = token
                then (True, buf2, (front_send (Helper_BackToFrontToken \<lparr>fbv_token = fbv_token f\<rparr>) b)\<lparr>bk_fm := fm\<lparr>fm_auth := True\<rparr>\<rparr>)
                else (True, buf2, fm_reject ''Invalid token provided, shuting down connection and process'' b))
           | None \<Rightarrow> (True, buf1, fm_reject ''Client is didn't set token before front to back validation'' b))
        else (True, buf1, fm_reject ''Client is missing token authentication to processed'' b))
     else if \<not> fm_handshake fm then
       (if ih_MsgType h = IT_HandShakeAuth then (True, buf1, b\<lparr>bk_fm := fm\<lparr>fm_handshake := True\<rparr>\<rparr>)
        else (True, buf1, fm_reject ''Client is missing handshake to processed'' b))
     else (False, buf_reset buf1, b))"

definition front_onReceive :: "u8 \<Rightarrow> IpcHeader \<Rightarrow> net_buffer \<Rightarrow> backend \<Rightarrow> backend" where
  "front_onReceive junk d buf b = (case authValidation junk d buf b of
       (True, _, b1) \<Rightarrow> b1
     | (False, buf1, b1) \<Rightarrow> b1\<lparr>bq_builder := ts_push buf1 (bq_builder b1)\<rparr>)"

definition setupToken :: "string \<Rightarrow> backend \<Rightarrow> backend" where
  "setupToken token b = b\<lparr>bk_fm := (bk_fm b)\<lparr>fm_token := Some token\<rparr>\<rparr>"

text \<open>\<open>port\<close>: the port of the listening acceptor, 0 when it cannot listen.\<close>

definition initiator_connect :: "string \<Rightarrow> u32 \<Rightarrow> backend \<Rightarrow> backend" where
  "initiator_connect apikey port b =
     b\<lparr>bk_initiator := bk_initiator b @ [Helper_BackToInitiator \<lparr>abi_apikey = apikey, abi_port = port\<rparr>]\<rparr>"

definition initiator_onReceive :: "u8 \<Rightarrow> IpcHeader \<Rightarrow> net_buffer \<Rightarrow> backend \<Rightarrow> backend" where
  "initiator_onReceive junk d buf b = (case get_IpcHeader junk d buf of (h, buf1) \<Rightarrow>
     case ih_MsgType h of
       IT_InitiatorToBackAuth \<Rightarrow> (case get_AuthInitiatorToBack \<lparr>aib_token = [], aib_apikey = []\<rparr> buf1 of
          (auth, _) \<Rightarrow> setupToken (aib_token auth) b)
     | _ \<Rightarrow> b)"

section \<open>The core\<close>

datatype back_unit = B_TcpOutput | B_Builder | B_Execution | B_HeartBeat | B_Auth | B_Router
  | B_HeaderValidation | B_TcpInput

definition back_started :: "back_unit list" where
  "back_started = [B_TcpOutput, B_Builder, B_Execution, B_HeartBeat, B_Auth, B_Router, B_HeaderValidation, B_TcpInput]"

definition back_polled :: "back_unit list" where
  "back_polled = [B_TcpOutput, B_Builder, B_HeartBeat, B_Auth, B_Execution, B_Router, B_HeaderValidation, B_TcpInput]"

definition back_stopped :: "back_unit list" where
  "back_stopped = [B_TcpInput, B_HeaderValidation, B_Builder, B_Router, B_Execution, B_Auth, B_HeartBeat, B_TcpOutput]"

text \<open>
  \<^verbatim>\<open>start\<close> from its loop on: the rounds give \<^verbatim>\<open>signal_run\<close> and the statuses. The result: what
  \<^verbatim>\<open>start\<close> returns, the units stopped by the time the process ends (the destructor stops them
  after a crash), and the state with the status frames sent.
\<close>

fun back_loop :: "(bool \<times> back_unit statuses) list \<Rightarrow> backend \<Rightarrow> (bool \<times> back_unit list \<times> backend) option" where
  "back_loop [] b = None"
| "back_loop ((signal_run, st) # rounds) b =
     (if signal_run then
        (if polls_ok st back_polled then back_loop rounds b else Some (False, back_stopped, b))
      else Some (True, back_stopped, front_send (Helper_Status (PUStatus_code PU_Stop)) b))"

definition back_start :: "(bool \<times> back_unit statuses) list \<Rightarrow> backend \<Rightarrow> (bool \<times> back_unit list \<times> backend) option" where
  "back_start rounds b = back_loop rounds
     (front_send (Helper_Status (PUStatus_code PU_Running))
       (front_send (Helper_Status (PUStatus_code PU_Initialize)) b))"

end
