(* ===== verification/PlainLib.thy ===== *)
theory PlainLib
  imports Framing
begin

text \<open>
  One concrete message library, on which the statements about an arbitrary one are evaluated:
  it reads the seven header tags, writes \<^verbatim>\<open>tag=value\<close> fields and knows the session messages.
  Times are written as numbers.
\<close>

definition plain_try_insert :: "string \<Rightarrow> string \<Rightarrow> Header \<Rightarrow> (RejectError + bool) \<times> Header" where
  "plain_try_insert k v h =
     (let num = (\<lambda>upd. case from_FIX_u32 v of Inl e \<Rightarrow> (Inl e, h) | Inr n \<Rightarrow> (Inr True, upd n)) in
      if k = ''8'' then (Inr True, h\<lparr>h_BeginString := v\<rparr>)
      else if k = ''9'' then num (\<lambda>n. h\<lparr>h_BodyLength := n\<rparr>)
      else if k = ''35'' then
        (case from_FIX_char v of Inl e \<Rightarrow> (Inl e, h) | Inr c \<Rightarrow> (Inr True, h\<lparr>h_MsgType := c\<rparr>))
      else if k = ''49'' then (Inr True, h\<lparr>h_SenderCompId := v\<rparr>)
      else if k = ''56'' then (Inr True, h\<lparr>h_TargetCompId := v\<rparr>)
      else if k = ''34'' then num (\<lambda>n. h\<lparr>h_MsgSeqNum := n\<rparr>)
      else if k = ''52'' then num (\<lambda>n. h\<lparr>h_SendingTime := uint n\<rparr>)
      else (Inr False, h))"

definition field :: "string \<Rightarrow> string \<Rightarrow> string" where
  "field k v = k @ ''='' @ v"

definition join_fields :: "string list \<Rightarrow> string" where
  "join_fields fs = concat (map (\<lambda>f. f @ [SOH]) fs)"

definition plain_header_fields :: "Header \<Rightarrow> string list" where
  "plain_header_fields h = [field ''8'' (h_BeginString h), field ''9'' (to_FIX_u32 (h_BodyLength h)),
     field ''35'' [h_MsgType h], field ''49'' (h_SenderCompId h), field ''56'' (h_TargetCompId h),
     field ''34'' (to_FIX_u32 (h_MsgSeqNum h)), field ''52'' (dec_string (nat (h_SendingTime h)))]"

definition opt_field :: "string \<Rightarrow> string option \<Rightarrow> string list" where
  "opt_field k v = (case v of None \<Rightarrow> [] | Some x \<Rightarrow> [field k x])"

fun plain_body_fields :: "FixMsg \<Rightarrow> string list" where
  "plain_body_fields (M_HeartBeat m) = opt_field ''112'' (hb_TestReqId m)"
| "plain_body_fields (M_TestRequest m) = [field ''112'' (tr_TestReqId m)]"
| "plain_body_fields (M_SessionReject m) = field ''45'' (to_FIX_u32 (sr_RefSeqNum m)) # opt_field ''58'' (sr_Text m)"
| "plain_body_fields (M_Logon m) = [field ''98'' (to_FIX_EncryptionMethod (lg_EncryptMethod m)),
     field ''108'' (to_FIX_u32 (lg_HeartBtInt m))]"
| "plain_body_fields _ = []"

definition missing :: "TagName \<Rightarrow> RejectError" where
  "missing t = reject3 ReqTagMissing ''Required tag missing'' t"

definition plain_lib :: fixlib where
  "plain_lib = \<lparr>fl_try_insert = plain_try_insert, fl_verify = (\<lambda>_. None),
     fl_header_string = (\<lambda>h. join_fields (plain_header_fields h)),
     fl_to_string = (\<lambda>m. join_fields (plain_body_fields m)),
     fl_reason_code = (\<lambda>r. case r of ReqTagMissing \<Rightarrow> 2 | ValueOORange \<Rightarrow> 6 | IncorrectFormat \<Rightarrow> 7 | OtherReason n \<Rightarrow> int n),
     fl_HeartBeat = (\<lambda>m. Inr \<lparr>hb_TestReqId = map_of m ''112''\<rparr>),
     fl_TestRequest = (\<lambda>m. case map_of m ''112'' of None \<Rightarrow> Inl (missing 112) | Some v \<Rightarrow> Inr \<lparr>tr_TestReqId = v\<rparr>),
     fl_Logon = (\<lambda>m. case (map_of m ''98'', map_of m ''108'') of
         (Some e, Some h) \<Rightarrow> (case (from_FIX_EncryptionMethod e, from_FIX_u32 h) of
             (Inr e', Inr h') \<Rightarrow> Inr \<lparr>lg_EncryptMethod = e', lg_HeartBtInt = h'\<rparr>
           | (Inl x, _) \<Rightarrow> Inl x | (_, Inl x) \<Rightarrow> Inl x)
       | _ \<Rightarrow> Inl (missing 98)),
     fl_Logout = (\<lambda>_. Inr ()),
     fl_ExecutionReport = (\<lambda>_. Inl (missing 37)),
     fl_NewOrderSingle = (\<lambda>_. Inl (missing 11)),
     fl_OrderCancelRequest = (\<lambda>_. Inl (missing 41))\<rparr>"

lemma plain_lib_sel [simp]:
  "fl_try_insert plain_lib = plain_try_insert" "fl_verify plain_lib h = None"
  "fl_header_string plain_lib h = join_fields (plain_header_fields h)"
  "fl_to_string plain_lib m = join_fields (plain_body_fields m)"
  "fl_Logout plain_lib kvs = Inr ()"
  "fl_HeartBeat plain_lib kvs = Inr \<lparr>hb_TestReqId = map_of kvs ''112''\<rparr>"
  by (simp_all add: plain_lib_def)

text \<open>It reads back the headers it writes.\<close>

definition clean :: "string \<Rightarrow> bool" where
  "clean s \<longleftrightarrow> s \<noteq> [] \<and> CHR ''='' \<notin> set s"

lemma split_field: "CHR ''='' \<notin> set k \<Longrightarrow> clean v \<Longrightarrow> split_on (CHR ''='') (field k v) = [k, v]"
  unfolding field_def clean_def append_Cons append_Nil by (subst split_on_field) (simp_all add: split_on_last)

lemma clean_dec_string: "clean (dec_string n)"
  using dec_string_digits[of "CHR ''=''" n] by (auto simp: clean_def is_digit_def)

lemma stoi_header_tags:
  "stoi ''8'' = Some 8" "stoi ''9'' = Some 9" "stoi ''35'' = Some 35" "stoi ''49'' = Some 49"
  "stoi ''56'' = Some 56" "stoi ''34'' = Some 34" "stoi ''52'' = Some 52"
  by code_simp+

lemma plain_header_inserted:
  assumes "clean (h_BeginString h)" "h_MsgType h \<noteq> CHR ''=''" "clean (h_SenderCompId h)"
    "clean (h_TargetCompId h)" "0 \<le> h_SendingTime h" "h_SendingTime h < 2 ^ 32"
  shows "insert_all plain_lib (plain_header_fields h) Header_init {} = Some (h, {8, 9, 35, 49, 56, 34, 52})"
proof -
  have t: "from_FIX_u32 (dec_string (nat (h_SendingTime h))) = Inr (word_of_int (h_SendingTime h))"
    using assms(5,6) by (simp add: from_FIX_u32_def from_FIX_uint_dec)
  have u: "uint (word_of_int (h_SendingTime h) :: u32) = h_SendingTime h"
    using assms(5,6) by (simp add: uint_word_of_int)
  have c: "from_FIX_char [h_MsgType h] = Inr (h_MsgType h)"
    by (simp add: from_FIX_char_def first_char_def)
  have cl: "clean [h_MsgType h]" using assms(2) by (simp add: clean_def)
  have s: "insert 52 (insert 34 (insert 56 (insert 49 (insert 35 (insert 9 (insert 8 {})))))) = {8, 9, 35, 49, 56, 34, 52::nat}"
    by auto
  show ?thesis
    using assms(1,3,4) cl
    by (simp add: plain_header_fields_def split_field clean_dec_string to_FIX_u32_def stoi_header_tags
        plain_try_insert_def roundtrip_u32[unfolded to_FIX_u32_def] t u c cast_u16_def s Header_init_def)
qed

definition sample_header :: Header where
  "sample_header = \<lparr>h_BeginString = ''FIX.4.2'', h_BodyLength = 12, h_MsgType = CHR ''A'',
     h_SenderCompId = ''alice'', h_TargetCompId = ''srv'', h_MsgSeqNum = 7, h_SendingTime = 99\<rparr>"

end
