(* ===== verification/MarketClaims.thy ===== *)
theory MarketClaims
  imports Market PlainLib
begin

text \<open>The properties of a market: its invariant, its progress, and how it can be stopped.\<close>

section \<open>An order on its way\<close>

definition ex_message :: "ExecId \<Rightarrow> 'm \<Rightarrow> 'm ParsedMessage" where
  "ex_message x m = \<lparr>pm_Client = 0, pm_ReceiveTime = 0, pm_ExecutionId = x, pm_Header = sample_header, pm_Message = m\<rparr>"

definition ex_single :: "OrderType \<Rightarrow> Side \<Rightarrow> NewOrderSingle" where
  "ex_single t side = NewOrderSingle_init\<lparr>no_ClOrdID := ''c'', no_OrdType := t, no_Side := side,
     no_Price := Some (units 10), no_OrderQty := Some (units 5)\<rparr>"

definition arrived :: "NewOrderSingle ParsedMessage \<Rightarrow> market \<Rightarrow> market" where
  "arrived p mk = enqueue_order p (set_mutex (qm_allow (pm_ExecutionId p)) mk)"

lemma ex_message_simps [simp]: "pm_ExecutionId (ex_message x m) = x" "pm_Message (ex_message x m) = m"
  by (simp_all add: ex_message_def)

lemma ex_single_simps [simp]:
  "no_OrdType (ex_single t s) = t" "no_Side (ex_single t s) = s" "no_Price (ex_single t s) = Some (units 10)"
  "no_OrderQty (ex_single t s) = Some (units 5)" "no_ClOrdID (ex_single t s) = ''c''"
  by (simp_all add: ex_single_def)

lemma ex_single_sane: "sane_order (ex_message x (ex_single t s))"
  using units_props[of 5] is_fin_units[of 10] by (auto simp: sane_order_def)

lemma market_reach_arrived:
  assumes "t = OT_Limit"
  shows "market_reach dg True name (arrived (ex_message ''x'' (ex_single t s)) (MarketContainer_init name))"
  unfolding arrived_def
  by (rule mr_step[OF mr_init mk_arrive_order])
    (use assms in \<open>simp_all add: ex_single_sane known_ids_def pipe_defs MarketContainer_init_def qm_init_def\<close>)

lemma arrived_init_simps [simp]:
  "tickets (arrived p (MarketContainer_init name)) = [pm_ExecutionId p]"
  "mk_orders (arrived p (MarketContainer_init name)) = [p]"
  "mk_order_queue (arrived p (MarketContainer_init name)) = []" "mk_order_now (arrived p (MarketContainer_init name)) = None"
  by (simp_all add: arrived_def enqueue_order_def MarketContainer_init_def qm_init_def qm_allow_def ts_push_def)

section \<open>The invariant and progress\<close>





section \<open>The order type that stops a market\<close>

text \<open>
  C21: a complete order of any type but limit is answered with a reject and loses its ticket, but
  is queued all the same; when the worker takes it, it waits for a ticket that never comes: in
  every later state of the market, whatever arrives, the worker still holds that order and its
  next section is blocked.
\<close>

theorem unsupported_order_type_stops_market:
  assumes "neworder_onInput i mk s = (mk', s')" "distinct (tickets mk)"
    and "no_OrdType (pm_Message i) \<noteq> OT_Limit" "no_Price (pm_Message i) \<noteq> None" "no_OrderQty (pm_Message i) \<noteq> None"
    and "side_of (no_Side (pm_Message i)) \<noteq> None" "mk_order_now mk = None" "mk_order_queue mk = []"
    and "(market_step dg tame)\<^sup>*\<^sup>* (order_take mk') mk''"
  shows "s' = notSupportedOrderType i s \<and> mk_order_now mk'' = Some i
    \<and> order_locked dg user mk'' s'' = Inl UE_blocked"
proof -
  from assms(1,3-8) have m: "mk' = (qm_withdraw (pm_ExecutionId i) mk)\<lparr>mk_order_queue := [i]\<rparr>"
      "s' = notSupportedOrderType i s"
    unfolding neworder_onInput_def supported_side by (auto simp: Let_def ts_push_def)
  have "stuck i (order_take mk')"
    using assms(2,7) by (simp add: m stuck_def order_take_def ts_pop_front_def qm_withdraw_tickets)
  from stuck_for_ever[OF assms(9) this] have st: "stuck i mk''" .
  moreover have "qm_spins (pm_ExecutionId i) (mk_mutex mk'')"
    using st not_spins[of "pm_ExecutionId i" "mk_mutex mk''"] by (auto simp: stuck_def)
  ultimately show ?thesis using m(2) assms(4,5) by (auto simp: order_locked_def stuck_def)
qed

theorem unsupported_order_type_stops_market_witness:
  "\<exists>mk' s'. neworder_onInput (ex_message ''x'' (ex_single OT_Market Side_Buy))
       ((arrived (ex_message ''x'' (ex_single OT_Market Side_Buy)) (MarketContainer_init ''ACME''))\<lparr>mk_orders := []\<rparr>)
       (undefined :: server) = (mk', s')
     \<and> mk_order_now (order_take mk') = Some (ex_message ''x'' (ex_single OT_Market Side_Buy))
     \<and> order_locked stale ''u'' (order_take mk') (undefined :: server) = Inl UE_blocked"
proof -
  let ?i = "ex_message ''x'' (ex_single OT_Market Side_Buy)"
  let ?mk = "(arrived ?i (MarketContainer_init ''ACME''))\<lparr>mk_orders := []\<rparr>"
  obtain mk' s' where h: "neworder_onInput ?i ?mk (undefined :: server) = (mk', s')" by fastforce
  from unsupported_order_type_stops_market[OF h _ _ _ _ _ _ _ rtranclp.rtrancl_refl[of "market_step stale True"],
      where user = "''u''" and s'' = "undefined :: server"] h
  show ?thesis by simp
qed

section \<open>The section of an order\<close>

lemma order_locked_eq:
  assumes "mk_order_now mk = Some i" "tickets mk = pm_ExecutionId i # xs" "\<not> qm_lock (mk_mutex mk)"
    and "no_Price (pm_Message i) = Some p" "no_OrderQty (pm_Message i) = Some q"
    and "allowTick (no_Side (pm_Message i)) (mk_ob mk) = (b, ob)"
  shows "order_locked dg user mk s =
    (if \<not> b then Inr (served_order mk ob, reply i (M_ExecutionReport (tick_report (getSymbol (mk_ob mk)) (order_info user i p q))) s)
     else if has (no_ClOrdID (pm_Message i)) ob then Inr (served_order mk ob,
       reply i (M_ExecutionReport (duplicate_report (getSymbol (mk_ob mk)) (order_info user i p q))) s)
     else (case add dg (order_info user i p q) ob of Inl e \<Rightarrow> Inl (UE_book e)
       | Inr ob' \<Rightarrow> Inr (served_order mk ob', reply i (M_ExecutionReport (ack_report (getSymbol (mk_ob mk)) (order_info user i p q))) s)))"
proof -
  have spin: "\<not> qm_spins (pm_ExecutionId i) (mk_mutex mk)" using assms(2,3) by (simp add: not_spins)
  show ?thesis using assms spin
    by (auto simp: order_locked_def Let_def order_info_def served_order_def split: sum.splits)
qed

lemma served_order_simps:
  "tickets (served_order mk ob) = tl (tickets mk)" "\<not> qm_lock (mk_mutex (served_order mk ob))"
  "mk_order_now (served_order mk ob) = None" "mk_ob (served_order mk ob) = ob"
  by (simp_all add: served_order_def)

lemma order_info_simps:
  "o_orderId (oi_order (order_info u i p q)) = no_ClOrdID (pm_Message i)" "oi_execid (order_info u i p q) = pm_ExecutionId i"
  "o_side (oi_order (order_info u i p q)) = no_Side (pm_Message i)" "oi_price (order_info u i p q) = p"
  "o_originalQty (oi_order (order_info u i p q)) = q" "o_remainQty (oi_order (order_info u i p q)) = q"
  by (simp_all add: order_info_def)

lemmas report_defs = tick_report_def duplicate_report_def ack_report_def order_report_def

lemma report_simps:
  "er_OrderID (tick_report name info) = o_orderId (oi_order info)" "er_ExecId (tick_report name info) = oi_execid info"
  "er_OrderID (duplicate_report name info) = o_orderId (oi_order info)" "er_ExecId (duplicate_report name info) = oi_execid info"
  "er_OrderID (ack_report name info) = o_orderId (oi_order info)" "er_ExecId (ack_report name info) = oi_execid info"
  "er_Side (tick_report name info) = o_side (oi_order info)" "er_Side (duplicate_report name info) = o_side (oi_order info)"
  "er_Side (ack_report name info) = o_side (oi_order info)"
  "er_Price (tick_report name info) = Some (oi_price info)" "er_Price (duplicate_report name info) = Some (oi_price info)"
  "er_Price (ack_report name info) = Some (oi_price info)"
  "er_OrderQty (tick_report name info) = Some (o_originalQty (oi_order info))"
  "er_OrderQty (duplicate_report name info) = Some (o_originalQty (oi_order info))"
  "er_OrderQty (ack_report name info) = Some (o_originalQty (oi_order info))"
  "er_OrdStatus (tick_report name info) = OS_Rejected" "er_LeavesQty (tick_report name info) = fzero"
  "er_OrdStatus (duplicate_report name info) = OS_Rejected" "er_LeavesQty (duplicate_report name info) = fzero"
  "er_OrdStatus (ack_report name info) = OS_NewOrder" "er_LeavesQty (ack_report name info) = o_remainQty (oi_order info)"
  by (simp_all add: report_defs)

text \<open>
  C22: the section of an order whose ticket heads the queue always completes: it releases the lock
  and sends exactly one report, for that order. The report is an acknowledgement with the full
  quantity exactly when the order's tick allows it and its identifier is new, and then the book is
  the result of \<^verbatim>\<open>OrderBook::add\<close>; otherwise it is a reject without quantity and both sides of
  the book are untouched.
\<close>

theorem order_section_reports_once:
  assumes "mk_order_now mk = Some i" "tickets mk = pm_ExecutionId i # xs" "\<not> qm_lock (mk_mutex mk)" "admitted i"
  shows "\<exists>r mk' ob1 p q. order_locked dg user mk s = Inr (mk', reply i (M_ExecutionReport r) s)
    \<and> tickets mk' = xs \<and> \<not> qm_lock (mk_mutex mk') \<and> mk_order_now mk' = None
    \<and> er_OrderID r = no_ClOrdID (pm_Message i) \<and> er_ExecId r = pm_ExecutionId i \<and> er_Side r = no_Side (pm_Message i)
    \<and> no_Price (pm_Message i) = Some p \<and> er_Price r = Some p \<and> no_OrderQty (pm_Message i) = Some q \<and> er_OrderQty r = Some q
    \<and> (if fst (allowTick (no_Side (pm_Message i)) (mk_ob mk)) \<and> \<not> has (no_ClOrdID (pm_Message i)) (mk_ob mk)
       then er_OrdStatus r = OS_NewOrder \<and> er_LeavesQty r = q
         \<and> allowTick (no_Side (pm_Message i)) (mk_ob mk) = (True, ob1)
         \<and> add dg (order_info user i p q) ob1 = Inr (mk_ob mk')
       else er_OrdStatus r = OS_Rejected \<and> er_LeavesQty r = fzero
         \<and> (\<forall>bs. book_of bs (mk_ob mk') = book_of bs (mk_ob mk) \<and> ids_of bs (mk_ob mk') = ids_of bs (mk_ob mk)))"
proof -
  obtain p q where pq: "no_Price (pm_Message i) = Some p" "no_OrderQty (pm_Message i) = Some q"
    using assms(4) by (auto simp: admitted_def)
  obtain b ob where t: "allowTick (no_Side (pm_Message i)) (mk_ob mk) = (b, ob)" by fastforce
  have same: "book_of bs ob = book_of bs (mk_ob mk)" "ids_of bs ob = ids_of bs (mk_ob mk)" for bs
    using t by (cases bs; auto simp: allowTick_def Let_def computeTick_def)+
  obtain ob' where a: "add dg (order_info user i p q) ob = Inr ob'"
    using add_succeeds[of "order_info user i p q"] assms(4) by (auto simp: order_info_def admitted_def)
  have h: "has x ob = has x (mk_ob mk)" for x
    using same[of BidSide] same[of AskSide] by (simp add: has_def)
  note R = order_locked_eq[OF assms(1-3) pq t, of dg user s]
  note F = served_order_simps[of mk] assms(2) report_simps order_info_simps pq
  let ?info = "order_info user i p q" and ?name = "getSymbol (mk_ob mk)"
  consider "\<not> b" | "b" "has (no_ClOrdID (pm_Message i)) ob" | "b" "\<not> has (no_ClOrdID (pm_Message i)) ob" by blast
  then show ?thesis
  proof cases
    case 1
    with F t same R show ?thesis
      by (intro exI[of _ "tick_report ?name ?info"] exI[of _ "served_order mk ob"] exI[of _ ob] exI[of _ p] exI[of _ q]) simp
  next
    case 2
    with F t same R h show ?thesis
      by (intro exI[of _ "duplicate_report ?name ?info"] exI[of _ "served_order mk ob"] exI[of _ ob] exI[of _ p] exI[of _ q]) simp
  next
    case 3
    with F t a R h show ?thesis
      by (intro exI[of _ "ack_report ?name ?info"] exI[of _ "served_order mk ob'"] exI[of _ ob] exI[of _ p] exI[of _ q]) simp
  qed
qed

theorem order_section_reports_once_witness:
  "\<exists>r mk'. order_locked stale ''u'' ((arrived (ex_message ''x'' (ex_single OT_Limit Side_Buy)) (MarketContainer_init ''ACME''))
        \<lparr>mk_orders := [], mk_order_now := Some (ex_message ''x'' (ex_single OT_Limit Side_Buy))\<rparr>) (undefined :: server)
      = Inr (mk', reply (ex_message ''x'' (ex_single OT_Limit Side_Buy)) (M_ExecutionReport r) undefined)
    \<and> tickets mk' = [] \<and> er_OrdStatus r = OS_NewOrder \<and> er_LeavesQty r = units 5"
proof -
  let ?i = "ex_message ''x'' (ex_single OT_Limit Side_Buy)"
  let ?mk = "(arrived ?i (MarketContainer_init ''ACME''))\<lparr>mk_orders := [], mk_order_now := Some ?i\<rparr>"
  have l: "\<not> qm_lock (mk_mutex ?mk)" and b: "mk_ob ?mk = OrderBook_init ''ACME''"
    by (simp_all add: arrived_def enqueue_order_def MarketContainer_init_def qm_init_def qm_allow_def)
  have a: "fst (allowTick Side_Buy (OrderBook_init ''ACME''))" "\<not> has ''c'' (OrderBook_init ''ACME'')"
    by (simp_all add: allowTick_def Let_def tick_allows_def has_def OrderBook_init_def)
  have "admitted ?i" by (simp add: admitted_def)
  from order_section_reports_once[OF _ _ l this, of "[]" stale "''u''" "undefined :: server"] a b
  show ?thesis by auto
qed

section \<open>Cancels\<close>

lemma cancel_locked_eq:
  assumes "mk_cancel_now mk = Some i" "tickets mk = pm_ExecutionId i # xs" "\<not> qm_lock (mk_mutex mk)"
    and "oc_OrderQty (pm_Message i) = Some q"
    and "oc_OrigClOrdID (pm_Message i) = x" "oc_Side (pm_Message i) = side" "oc_ClOrdID (pm_Message i) = c"
  shows "cancel_locked dg mk s =
    (if \<not> has_side x side (mk_ob mk) then Inr (served_cancel mk (mk_ob mk),
       reply i (cancel_reject x c CRR_TooLateCancel ''Order already processed'') s)
     else (case getOrder x (mk_ob mk) of Inl e \<Rightarrow> Inl (UE_book e)
       | Inr order \<Rightarrow> if \<not> feq (o_remainQty order) q then Inr (served_cancel mk (mk_ob mk),
             reply i (cancel_reject x c CRR_TooLateCancel ''Order has invalid quantity'') s)
           else (case cancel dg x side (mk_ob mk) of Inl e \<Rightarrow> Inl (UE_book e)
             | Inr ob \<Rightarrow> Inr (served_cancel mk ob, reply i (M_ExecutionReport (canceled_report (getSymbol ob) i order)) s))))"
proof -
  have spin: "\<not> qm_spins (pm_ExecutionId i) (mk_mutex mk)" using assms(2,3) by (simp add: not_spins)
  show ?thesis using assms spin
    by (auto simp: cancel_locked_def verifyOrderStateWithLock_def Let_def served_cancel_def split: sum.splits)
qed

text \<open>
  C23: the section of a cancel whose ticket heads the queue always completes on a sound book: it
  releases the lock and sends exactly one message. When the named order rests on the named side
  with exactly the given remaining quantity, that order and no other leaves the book and the
  message is a cancel report without remaining quantity; otherwise the book is untouched and the
  message is a cancel reject, too late to cancel.
\<close>

theorem cancel_section_removes_exactly:
  assumes "mk_cancel_now mk = Some i" "tickets mk = pm_ExecutionId i # xs" "\<not> qm_lock (mk_mutex mk)"
    and "oc_OrderQty (pm_Message i) = Some q" "ob_inv (mk_ob mk)" "reads_stale dg"
  shows "\<exists>mk' m. cancel_locked dg mk s = Inr (mk', reply i m s)
    \<and> tickets mk' = xs \<and> \<not> qm_lock (mk_mutex mk') \<and> mk_cancel_now mk' = None
    \<and> (if has_side (oc_OrigClOrdID (pm_Message i)) (oc_Side (pm_Message i)) (mk_ob mk)
         \<and> (\<exists>r. getOrder (oc_OrigClOrdID (pm_Message i)) (mk_ob mk) = Inr r \<and> feq (o_remainQty r) q)
       then (\<exists>bs. side_of (oc_Side (pm_Message i)) = Some bs
           \<and> ids_of bs (mk_ob mk') = (ids_of bs (mk_ob mk))(oc_OrigClOrdID (pm_Message i) := None)
           \<and> ids_of (other bs) (mk_ob mk') = ids_of (other bs) (mk_ob mk)
           \<and> book_of (other bs) (mk_ob mk') = book_of (other bs) (mk_ob mk)
           \<and> book_of bs (mk_ob mk') = map (\<lambda>(p, l). (p, filter (\<lambda>n. o_orderId (snd n) \<noteq> oc_OrigClOrdID (pm_Message i)) l)) (book_of bs (mk_ob mk)))
         \<and> (\<exists>r. m = M_ExecutionReport r \<and> er_ExecType r = OS_Canceled \<and> er_LeavesQty r = fzero)
       else mk_ob mk' = mk_ob mk \<and> (\<exists>r. m = M_OrderCancelReject r \<and> cr_CxlRejReason r = Some CRR_TooLateCancel))"
proof -
  let ?x = "oc_OrigClOrdID (pm_Message i)" and ?side = "oc_Side (pm_Message i)"
  note R = cancel_locked_eq[OF assms(1-4) refl refl refl, of dg s]
  have m: "\<exists>r. cancel_reject x c CRR_TooLateCancel t = M_OrderCancelReject r \<and> cr_CxlRejReason r = Some CRR_TooLateCancel" for x c t
    by (simp add: cancel_reject_def)
  show ?thesis
  proof (cases "has_side ?x ?side (mk_ob mk)")
    case False
    with R m assms(2) show ?thesis
      by (intro exI[of _ "served_cancel mk (mk_ob mk)"] exI) (auto simp: served_cancel_def)
  next
    case True
    obtain order where o: "getOrder ?x (mk_ob mk) = Inr order" using getOrder_ok[OF assms(5) has_side_has[OF True]] by blast
    from cancel_inv[OF assms(6,5) True] obtain bs ob' where c: "side_of ?side = Some bs" "cancel dg ?x ?side (mk_ob mk) = Inr ob'"
      "book_of bs ob' = map (\<lambda>(p, l). (p, filter (\<lambda>n. o_orderId (snd n) \<noteq> ?x) l)) (book_of bs (mk_ob mk))"
      "book_of (other bs) ob' = book_of (other bs) (mk_ob mk)" "ids_of bs ob' = (ids_of bs (mk_ob mk))(?x := None)"
      "ids_of (other bs) ob' = ids_of (other bs) (mk_ob mk)" by blast
    show ?thesis
    proof (cases "feq (o_remainQty order) q")
      case False
      with True R o m assms(2) show ?thesis
        by (intro exI[of _ "served_cancel mk (mk_ob mk)"] exI) (auto simp: served_cancel_def)
    next
      case eq: True
      with True R o c assms(2) show ?thesis
        by (intro exI[of _ "served_cancel mk ob'"] exI[of _ "M_ExecutionReport (canceled_report (getSymbol ob') i order)"])
          (simp add: served_cancel_def canceled_report_def)
    qed
  qed
qed

definition ex_cancel :: "OrderId \<Rightarrow> Side \<Rightarrow> OrderCancelRequest" where
  "ex_cancel x side = \<lparr>oc_OrigClOrdID = x, oc_OrderID = None, oc_ClOrdID = ''k'', oc_Symbol = ''ACME'', oc_Side = side,
     oc_TransactTime = 0, oc_OrderQty = Some (units 10)\<rparr>"

lemma ex_cancel_simps [simp]: "oc_ClOrdID (ex_cancel x s) = ''k''" "oc_OrigClOrdID (ex_cancel x s) = x"
  "oc_Side (ex_cancel x s) = s" "oc_OrderQty (ex_cancel x s) = Some (units 10)"
  by (simp_all add: ex_cancel_def)

definition ex_cancelling :: market where
  "ex_cancelling = (MarketContainer_init ''ACME'')\<lparr>mk_ob := ex_book, mk_mutex := qm_allow ''x'' qm_init,
     mk_cancel_now := Some (ex_message ''x'' (ex_cancel ''a1'' Side_Sell))\<rparr>"

lemma ex_cancelling_simps [simp]:
  "mk_cancel_now ex_cancelling = Some (ex_message ''x'' (ex_cancel ''a1'' Side_Sell))"
  "tickets ex_cancelling = [''x'']" "\<not> qm_lock (mk_mutex ex_cancelling)" "mk_ob ex_cancelling = ex_book"
  by (simp_all add: ex_cancelling_def qm_allow_def qm_init_def)

lemma ex_getOrder: "getOrder ''a1'' ex_book = Inr (ex_order ''u1'' ''a1'' 10 Side_Sell)"
  by (simp add: getOrder_def ex_book_def OrderBook_init_def deref_def book_nodes_def)

lemma ex_has_side: "has_side ''a1'' Side_Sell ex_book"
  by (simp add: has_side_def ex_book_def)

theorem cancel_section_removes_exactly_witness:
  "\<exists>mk' r. cancel_locked stale ex_cancelling (undefined :: server)
      = Inr (mk', reply (ex_message ''x'' (ex_cancel ''a1'' Side_Sell)) (M_ExecutionReport r) undefined)
    \<and> tickets mk' = [] \<and> ids_of AskSide (mk_ob mk') ''a1'' = None \<and> er_ExecType r = OS_Canceled"
proof -
  have "\<exists>r. getOrder ''a1'' ex_book = Inr r \<and> feq (o_remainQty r) (units 10)"
    by (simp add: ex_getOrder feq_fin)
  with cancel_section_removes_exactly[of ex_cancelling "ex_message ''x'' (ex_cancel ''a1'' Side_Sell)" "[]" "units 10"
      stale "undefined :: server"] ex_has_side
  show ?thesis by (auto simp: ex_book_inv)
qed

text \<open>
  Nobody checks whose order is cancelled: whichever connection sent the request, the section
  has the same effect on the market, and the one difference is where the answer goes.
\<close>

theorem cancel_ignores_the_owner:
  "map_sum (\<lambda>e. e) fst (cancel_locked dg (mk\<lparr>mk_cancel_now := Some (i\<lparr>pm_Client := c\<rparr>)\<rparr>) s)
      = map_sum (\<lambda>e. e) fst (cancel_locked dg (mk\<lparr>mk_cancel_now := Some i\<rparr>) s)
    \<and> map_sum (\<lambda>e. e) fst (verifyOrderState (i\<lparr>pm_Client := c\<rparr>) mk s) = map_sum (\<lambda>e. e) fst (verifyOrderState i mk s)"
  by (simp add: cancel_locked_def verifyOrderState_def verifyOrderStateWithLock_def Let_def
      split: option.splits sum.splits prod.splits)

text \<open>
  The arrival of a cancel makes the unit throw in exactly one case on a sound book, a quantity
  together with a side that is neither of the two buys nor the two sells; every other cancel is
  queued for the worker or refused with its ticket withdrawn.
\<close>

theorem cancel_arrival_throws_iff:
  assumes "ob_inv (mk_ob mk)" "distinct (tickets mk)"
  shows "((\<exists>e. cancel_onInput i mk s = Inl e) \<longleftrightarrow> oc_OrderQty (pm_Message i) \<noteq> None \<and> side_of (oc_Side (pm_Message i)) = None)
    \<and> (\<forall>mk' s'. cancel_onInput i mk s = Inr (mk', s') \<longrightarrow>
         mk' = mk\<lparr>mk_cancel_queue := mk_cancel_queue mk @ [i]\<rparr>
         \<or> mk_ob mk' = mk_ob mk \<and> tickets mk' = filter (\<lambda>y. y \<noteq> pm_ExecutionId i) (tickets mk))"
proof (intro conjI allI impI)
  show "(\<exists>e. cancel_onInput i mk s = Inl e) \<longleftrightarrow> oc_OrderQty (pm_Message i) \<noteq> None \<and> side_of (oc_Side (pm_Message i)) = None"
  proof (cases "oc_OrderQty (pm_Message i) = None \<or> side_of (oc_Side (pm_Message i)) \<noteq> None")
    case False
    then show ?thesis by (auto simp: cancel_onInput_def Let_def verifyOrderState_def lockReadOrder_def)
  next
    case True
    show ?thesis
    proof (cases "oc_OrderQty (pm_Message i) = None")
      case q: False
      with True verifyOrderState_total[OF assms(1)] obtain r s1 where "verifyOrderState i mk s = Inr (r, mk, s1)" by blast
      with True q show ?thesis by (cases r) (auto simp: cancel_onInput_def Let_def)
    qed (simp add: cancel_onInput_def Let_def)
  qed
next
  fix mk' s' assume "cancel_onInput i mk s = Inr (mk', s')"
  then show "mk' = mk\<lparr>mk_cancel_queue := mk_cancel_queue mk @ [i]\<rparr>
      \<or> mk_ob mk' = mk_ob mk \<and> tickets mk' = filter (\<lambda>y. y \<noteq> pm_ExecutionId i) (tickets mk)"
    by (cases rule: cancel_onInput_cases) (simp_all add: qm_withdraw_tickets[OF assms(2)])
qed

theorem cancel_arrival_throws_iff_witness:
  "\<exists>e. cancel_onInput (ex_message ''x'' (ex_cancel ''a1'' Side_SellShort)) ex_cancelling (undefined :: server) = Inl e"
  using cancel_arrival_throws_iff[of ex_cancelling "ex_message ''x'' (ex_cancel ''a1'' Side_SellShort)" "undefined :: server"]
  by (simp add: ex_book_inv)

end
