(* ===== verification/FramingClaims.thy ===== *)
theory FramingClaims
  imports PlainLib
begin

text \<open>What the framing of messages guarantees between a sender and a receiver.\<close>

lemma checksum_field_pair: "is_pair (''10='' @ dec_string n)"
    "pair_of (''10='' @ dec_string n) = (''10'', dec_string n)"
proof -
  have d: "CHR ''='' \<notin> set (dec_string n)"
    using dec_string_digits[of "CHR ''=''" n] by (auto simp: is_digit_def)
  have "split_on (CHR ''='') (''10'' @ CHR ''='' # dec_string n) = [''10'', dec_string n]"
    using d dec_string_nonempty by (subst split_on_field) (simp_all add: split_on_last)
  then show "is_pair (''10='' @ dec_string n)" "pair_of (''10='' @ dec_string n) = (''10'', dec_string n)"
    by (simp_all add: is_pair_def pair_of_def)
qed

lemma soh_free_checksum: "SOH \<notin> set (''10='' @ dec_string n)"
  using dec_string_digits[of SOH n] by (auto simp: is_digit_def SOH_def)

lemma AddCheckSum_fields:
  "AddCheckSum (join_fields fs) = join_fields (fs @ [''10='' @ dec_string (unat (checksum8 (field_sum fs)))])"
  by (simp add: AddCheckSum_def join_fields_def field_sum_char_sum)

lemma frame_reads:
  assumes "insert_all lib hs Header_init {} = Some (h, tags)" "verifyHeader lib h tags = None"
    and "list_all is_pair bs" "\<forall>f \<in> set (hs @ bs). SOH \<notin> set f"
    and "\<And>k v. k \<in> insert ''10'' (fst ` pair_of ` set bs) \<Longrightarrow> fl_try_insert lib k v h = (Inr False, h)"
  shows "parse_data lib seq (AddCheckSum (join_fields (hs @ bs))) = PR_message h (map pair_of bs)"
proof -
  let ?ck = "''10='' @ dec_string (unat (checksum8 (field_sum (hs @ bs))))"
  let ?gs = "bs @ [?ck]"
  have split: "split_on SOH (AddCheckSum (join_fields (hs @ bs))) = hs @ ?gs"
    unfolding AddCheckSum_fields unfolding join_fields_def
    by (subst split_on_fields) (use assms(4) soh_free_checksum in auto)
  have g: "list_all is_pair ?gs" using assms(3) checksum_field_pair(1) by simp
  have "fst (pair_of (hd ?gs)) \<in> insert ''10'' (fst ` pair_of ` set bs)"
    using checksum_field_pair(2) by (cases bs) auto
  from assms(5)[OF this, of "snd (pair_of (hd ?gs))"]
  have "build_fields lib seq (hs @ ?gs) Header_init {} [] False 0 0 =
    (case verifyCheckSum (field_sum hs + field_sum (butlast ?gs)) (map pair_of ?gs) of
        (Some e, _) \<Rightarrow> PR_reject (BuildRejectFromError lib e tags h seq)
      | (None, m') \<Rightarrow> PR_message h m')"
    by (intro parse_fields[OF assms(1,2) g]) simp_all
  also have "\<dots> = PR_message h (map pair_of bs)"
    using verifyCheckSum_good[of "field_sum (hs @ bs)" "map pair_of bs"] checksum_field_pair(2)
    by (simp add: field_sum_append)
  finally show ?thesis by (simp add: parse_data_def split)
qed

lemma sample_header_inserted:
  "insert_all plain_lib (plain_header_fields sample_header) Header_init {}
     = Some (sample_header, {8, 9, 35, 49, 56, 34, 52})"
  by (subst plain_header_inserted) (simp_all add: sample_header_def clean_def)

lemma plain_try_insert_body:
  "k \<in> {''10'', ''98'', ''108'', ''112'', ''45'', ''58''} \<Longrightarrow> plain_try_insert k v h = (Inr False, h)"
  by (auto simp: plain_try_insert_def Let_def)

definition sample_frame :: string where
  "sample_frame = AddCheckSum (join_fields (plain_header_fields sample_header @ [''98=0'', ''108=30'']))"

lemma sample_body_pairs: "map pair_of [''98=0'', ''108=30''] = [(''98'', ''0''), (''108'', ''30'')]"
  by code_simp

lemma sample_frame_facts:
  "verifyHeader plain_lib sample_header {8, 9, 35, 49, 56, 34, 52} = None" "list_all is_pair [''98=0'', ''108=30'']"
  "\<forall>f \<in> set (plain_header_fields sample_header @ [''98=0'', ''108=30'']). SOH \<notin> set f"
  "k \<in> insert ''10'' (fst ` pair_of ` set [''98=0'', ''108=30'']) \<Longrightarrow> fl_try_insert plain_lib k v sample_header = (Inr False, sample_header)"
proof -
  show "verifyHeader plain_lib sample_header {8, 9, 35, 49, 56, 34, 52} = None" by (simp add: verifyHeader_def tag_defs)
  show "list_all is_pair [''98=0'', ''108=30'']" by code_simp
  show "\<forall>f \<in> set (plain_header_fields sample_header @ [''98=0'', ''108=30'']). SOH \<notin> set f" by code_simp
  assume "k \<in> insert ''10'' (fst ` pair_of ` set [''98=0'', ''108=30''])"
  then have "k \<in> {''10'', ''98'', ''108'', ''112'', ''45'', ''58''}" using sample_body_pairs by auto
  then show "fl_try_insert plain_lib k v sample_header = (Inr False, sample_header)" by (simp add: plain_try_insert_body)
qed

lemma sample_frame_reads: "parse_data plain_lib seq sample_frame = PR_message sample_header [(''98'', ''0''), (''108'', ''30'')]"
  unfolding sample_frame_def
  using frame_reads[OF sample_header_inserted sample_frame_facts] by (simp only: sample_body_pairs)

text \<open>C16: what one side sends, the other reads back: a frame made of header fields the library
  accepts and of body fields, closed by \<^verbatim>\<open>AddCheckSum\<close>, is split, counted, verified and queued
  with that header and exactly the body pairs, whatever the fields are, as long as none holds
  a delimiter.\<close>

theorem sent_frame_is_read_back:
  assumes "insert_all lib hs Header_init {} = Some (h, tags)" "verifyHeader lib h tags = None"
    and "list_all is_pair bs" "\<forall>f \<in> set (hs @ bs). SOH \<notin> set f"
    and "\<And>k v. k \<in> insert ''10'' (fst ` pair_of ` set bs) \<Longrightarrow> fl_try_insert lib k v h = (Inr False, h)"
  shows "parse_data lib seq (AddCheckSum (join_fields (hs @ bs))) = PR_message h (map pair_of bs)"
  using assms by (rule frame_reads)

theorem sent_frame_is_read_back_witness:
  "parse_data plain_lib 0 (AddCheckSum (join_fields (plain_header_fields sample_header @ [''98=0'', ''108=30''])))
     = PR_message sample_header [(''98'', ''0''), (''108'', ''30'')]"
  using sent_frame_is_read_back[OF sample_header_inserted sample_frame_facts] by (simp only: sample_body_pairs)

lemma uint_char_u32: "uint (char_u32 c) mod 256 = (of_char c :: int)"
proof -
  have b: "0 \<le> (of_char c :: int)" "(of_char c :: int) < 256"
    using pos_mod_bound[of 256 "of_char c :: int"] pos_mod_sign[of 256 "of_char c :: int"] by simp_all
  show ?thesis
  proof (cases "(of_char c :: int) < 128")
    case True
    with b show ?thesis by (simp add: char_u32_def uint_word_of_int)
  next
    case False
    then have "char_u32 c = word_of_int (of_char c - 256)" by (simp only: char_u32_def if_False)
    then have "uint (char_u32 c) = (of_char c - 256) mod 4294967296"
      by (simp only: uint_word_of_int) simp
    also have "\<dots> mod 256 = (of_char c - 256) mod 256" by (simp add: mod_mod_cancel)
    finally show ?thesis using b by simp
  qed
qed

lemma uint_checksum8: "uint (checksum8 w) = uint w mod 256"
proof -
  have "checksum8 w = word_of_int (uint (w mod 256))" by (simp add: checksum8_def)
  then have "uint (checksum8 w) = uint (w mod 256) mod 256" by (simp only: uint_word_of_int) simp
  also have "\<dots> = uint w mod 256" by (simp add: uint_mod)
  finally show ?thesis .
qed

lemma checksum8_add: "uint (checksum8 (a + b)) = (uint a + uint b) mod 256"
  by (simp add: uint_checksum8 uint_word_ariths mod_mod_cancel)

lemma checksum8_eq_iff: "checksum8 a = checksum8 b \<longleftrightarrow> uint a mod 256 = uint b mod 256"
  by (simp add: word_eq_iff_unsigned[where ?'a = int] uint_checksum8)

text \<open>C17: a frame in which one character was changed on the way is refused: the checksum written
  for the original text never verifies against the changed one, wherever the change is.\<close>

theorem changed_character_is_refused:
  assumes "c \<noteq> c'"
  shows "verifyCheckSum (char_sum (a @ c' # b))
      (m @ [(''10'', dec_string (unat (checksum8 (char_sum (a @ c # b)))))])
    = (Some (reject3 ValueOORange ''Miss match on checksum'' tag_CheckSum),
       m @ [(''10'', dec_string (unat (checksum8 (char_sum (a @ c # b)))))])"
proof -
  have "checksum8 (char_sum (a @ c # b)) \<noteq> checksum8 (char_sum (a @ c' # b))"
  proof
    assume "checksum8 (char_sum (a @ c # b)) = checksum8 (char_sum (a @ c' # b))"
    then have "checksum8 (char_u32 c + (char_sum a + char_sum b)) = checksum8 (char_u32 c' + (char_sum a + char_sum b))"
      by (simp add: char_sum_append ac_simps)
    then have "(uint (char_u32 c) + uint (char_sum a + char_sum b)) mod 256
      = (uint (char_u32 c') + uint (char_sum a + char_sum b)) mod 256"
      by (metis checksum8_add)
    from mod_diff_cong[OF this refl, of "uint (char_sum a + char_sum b)"]
    have "uint (char_u32 c) mod 256 = uint (char_u32 c') mod 256" by (simp only: add_diff_cancel)
    then have "(of_char c :: int) = of_char c'" by (simp add: uint_char_u32)
    with assms show False by simp
  qed
  then show ?thesis by (simp add: verifyCheckSum_def from_FIX_u8_dec)
qed

theorem changed_character_is_refused_witness:
  "fst (verifyCheckSum (char_sum ''98=1'') ([] @ [(''10'', dec_string (unat (checksum8 (char_sum ''98=0''))))]))
     = Some (reject3 ValueOORange ''Miss match on checksum'' tag_CheckSum)"
  using changed_character_is_refused[of "CHR ''0''" "CHR ''1''" "''98=''" "[]" "[]"] by simp

lemma mod_add_self_iff: "(x + y) mod 256 = y mod 256 \<longleftrightarrow> x mod 256 = (0::int)"
  by (simp add: mod_eq_dvd_iff dvd_eq_mod_eq_0)

lemma verifyCheckSum_last:
  "verifyCheckSum cs (m @ [(''10'', dec_string (unat v))]) = (if v \<noteq> checksum8 cs
     then (Some (reject3 ValueOORange ''Miss match on checksum'' tag_CheckSum), m @ [(''10'', dec_string (unat v))])
     else (None, m))"
  by (simp add: verifyCheckSum_def from_FIX_u8_dec)

text \<open>The receiver takes one read for one message. When TCP delivers two frames together, none
  of the two is handled: the fields of the second frame count as body fields of the first, and
  the whole read is refused for its checksum, unless the first frame happens to sum to a multiple
  of 256, when both frames become one message under the first header.\<close>

theorem coalesced_frames_refused:
  fixes hs bs gs :: "string list"
  defines "ck \<equiv> \<lambda>fs. ''10='' @ dec_string (unat (checksum8 (field_sum fs)))"
  assumes "insert_all lib hs Header_init {} = Some (h, tags)" "verifyHeader lib h tags = None"
    and "list_all is_pair (bs @ gs)" "\<forall>f \<in> set (hs @ bs @ gs). SOH \<notin> set f"
    and "\<And>k v. k \<in> insert ''10'' (fst ` pair_of ` set bs) \<Longrightarrow> fl_try_insert lib k v h = (Inr False, h)"
  shows "parse_data lib seq (AddCheckSum (join_fields (hs @ bs)) @ AddCheckSum (join_fields gs))
    = (if uint (field_sum (hs @ bs @ [ck (hs @ bs)])) mod 256 = 0
       then PR_message h (map pair_of (bs @ [ck (hs @ bs)] @ gs))
       else PR_reject (BuildRejectFromError lib (reject3 ValueOORange ''Miss match on checksum'' tag_CheckSum) tags h seq))"
proof -
  let ?ms = "bs @ [ck (hs @ bs)] @ gs"
  let ?gs = "?ms @ [ck gs]"
  have split: "split_on SOH (AddCheckSum (join_fields (hs @ bs)) @ AddCheckSum (join_fields gs)) = hs @ ?gs"
  proof -
    have "AddCheckSum (join_fields (hs @ bs)) @ AddCheckSum (join_fields gs) = join_fields (hs @ ?gs)"
      unfolding AddCheckSum_fields by (simp add: join_fields_def ck_def)
    then show ?thesis unfolding join_fields_def
      by (simp only:) (rule split_on_fields, use assms(5) soh_free_checksum in \<open>auto simp: ck_def\<close>)
  qed
  have pairs: "list_all is_pair ?gs" using assms(4) checksum_field_pair(1) by (simp add: ck_def)
  have "fst (pair_of (hd ?gs)) \<in> insert ''10'' (fst ` pair_of ` set bs)"
    using checksum_field_pair(2) by (cases bs) (auto simp: ck_def)
  from assms(6)[OF this, of "snd (pair_of (hd ?gs))"]
  have "build_fields lib seq (hs @ ?gs) Header_init {} [] False 0 0 =
    (case verifyCheckSum (field_sum hs + field_sum ?ms) (map pair_of ?ms @ [pair_of (ck gs)]) of
        (Some e, _) \<Rightarrow> PR_reject (BuildRejectFromError lib e tags h seq)
      | (None, m') \<Rightarrow> PR_message h m')"
    using parse_fields[OF assms(2,3) pairs, of seq] by (simp add: butlast_append)
  moreover have "checksum8 (field_sum hs + field_sum ?ms) = checksum8 (field_sum gs)
    \<longleftrightarrow> uint (field_sum (hs @ bs @ [ck (hs @ bs)])) mod 256 = 0"
  proof -
    let ?a = "field_sum (hs @ bs @ [ck (hs @ bs)])"
    have "field_sum hs + field_sum ?ms = ?a + field_sum gs" by (simp add: field_sum_append add.assoc)
    then have "checksum8 (field_sum hs + field_sum ?ms) = checksum8 (field_sum gs)
      \<longleftrightarrow> (uint ?a + uint (field_sum gs)) mod 256 = uint (field_sum gs) mod 256"
      by (metis checksum8_add checksum8_eq_iff uint_checksum8)
    also have "\<dots> \<longleftrightarrow> uint ?a mod 256 = 0"
      by (rule mod_add_self_iff)
    finally show ?thesis .
  qed
  moreover have "verifyCheckSum (field_sum hs + field_sum ?ms) (map pair_of ?ms @ [pair_of (ck gs)])
    = (if checksum8 (field_sum gs) \<noteq> checksum8 (field_sum hs + field_sum ?ms)
       then (Some (reject3 ValueOORange ''Miss match on checksum'' tag_CheckSum), map pair_of ?ms @ [pair_of (ck gs)])
       else (None, map pair_of ?ms))"
    unfolding ck_def checksum_field_pair(2) by (rule verifyCheckSum_last)
  ultimately show ?thesis unfolding parse_data_def split by (simp only:) (simp split: if_splits)
qed

definition two_frames :: string where
  "two_frames = AddCheckSum (join_fields (plain_header_fields sample_header)) @ AddCheckSum (join_fields (plain_header_fields sample_header))"

theorem coalesced_frames_refused_witness:
  "\<exists>r. parse_data plain_lib 0 two_frames = r
     \<and> (\<forall>h m. r \<noteq> PR_message h m \<or> length m > 1)"
proof -
  let ?hs = "plain_header_fields sample_header"
  have p: "list_all is_pair ([] @ ?hs)" "\<forall>f \<in> set (?hs @ [] @ ?hs). SOH \<notin> set f" by code_simp+
  have v: "verifyHeader plain_lib sample_header {8, 9, 35, 49, 56, 34, 52} = None"
    by (simp add: verifyHeader_def tag_defs)
  have i: "fl_try_insert plain_lib k v sample_header = (Inr False, sample_header)"
    if "k \<in> insert ''10'' (fst ` pair_of ` set [])" for k v
    using that by (simp add: plain_try_insert_body)
  have "length ?hs = 7" by (simp add: plain_header_fields_def)
  with coalesced_frames_refused[OF sample_header_inserted v p i, of 0]
  show ?thesis by (auto simp: two_frames_def)
qed

end
