(* ===== verification/ServerClaims.thy ===== *)
theory ServerClaims
  imports ServerCore MarketClaims FramingClaims "HOL-Library.Multiset"
begin

text \<open>The properties of the whole server.\<close>

section \<open>Composition\<close>

definition ex_config :: config where
  "ex_config = \<lparr>cf_ProviderName = ''srv'', cf_MaxTO = f32_of_int 30, cf_Market = [''ACME'']\<rparr>"

lemma ex_market_init: "market_init (cf_Market ex_config) ''ACME'' = Some (MarketContainer_init ''ACME'')"
  by (simp add: market_init_def ex_config_def registerMarket_def)



text \<open>
  C25: in every reachable state, a message waiting in a queue behind the header validation has
  passed it and is of a type its unit handles, an order or cancel waiting in a market names that
  market and came as a message of that type, and no output in the queue can hit a connection
  without a socket: the output unit's task always completes.
\<close>

theorem server_queues_hold_valid_messages:
  assumes "server_reach lib cf dg tame e" and e: "e = (s, ms)"
  shows "(i \<in> set (q_router s) \<longrightarrow> header_ok cf (um_Header i))
    \<and> (i \<in> set (q_logon s) \<longrightarrow> header_ok cf (um_Header i) \<and> h_MsgType (um_Header i) = MT_Logon)
    \<and> (i \<in> set (q_logout s) \<longrightarrow> header_ok cf (um_Header i) \<and> h_MsgType (um_Header i) = MT_Logout)
    \<and> (i \<in> set (q_heartbeat s) \<longrightarrow> header_ok cf (um_Header i) \<and> h_MsgType (um_Header i) \<in> {MT_HeartBeat, MT_TestRequest})
    \<and> (i \<in> set (q_market s) \<longrightarrow> header_ok cf (um_Header i) \<and> h_MsgType (um_Header i) \<in> {MT_NewOrderSingle, MT_OrderCancelRequest})
    \<and> (ms x = Some mk \<longrightarrow> p \<in> set (order_pipe mk) \<longrightarrow> no_Symbol (pm_Message p) = x \<and> h_MsgType (pm_Header p) = MT_NewOrderSingle)
    \<and> (j \<in> set (q_output s) \<longrightarrow> so_MessageType j = Msg_type (so_Message j) \<and> output_task cf lib now ok j s \<noteq> None)"
proof -
  have inv: "server_inv cf (s, ms)" using server_reach_inv assms by blast
  note ok = server_invD(1)[OF inv]
  have o: "output_task cf lib now ok j s \<noteq> None" if "j \<in> set (q_output s)"
  proof -
    have "so_Client j < cs_next s" using session_ok_in(7)[OF ok] that by (auto simp: outputs_ok_def)
    then obtain k where "ic_socket (cs_heap s (so_Client j)) = Some k" using ok by (auto simp: session_ok_def store_ok_def)
    then show ?thesis by (auto simp: output_task_def client_send_def upd_client_def nextSeqNumber_def Let_def)
  qed
  show ?thesis
    using session_ok_in[OF ok] server_invD(2)[OF inv] o
    by (auto simp: from_known_def of_types_def outputs_ok_def market_ok_def pipe_ok_def)
qed

text \<open>One connection whose logon has been read and validated.\<close>

definition sample_message :: UnparsedMessage where
  "sample_message = \<lparr>um_Client = 0, um_ReceiveTime = 0, um_Header = sample_header,
     um_Message = [(''98'', ''0''), (''108'', ''30'')]\<rparr>"

lemma sample_message_reached:
  "\<exists>s. server_reach plain_lib ex_config stale tame (s, market_init (cf_Market ex_config)) \<and> q_router s = [sample_message]"
proof -
  let ?ms = "market_init (cf_Market ex_config)"
  define s1 where "s1 = input_accept 5 server_init"
  define s2 where "s2 = s1\<lparr>q_header := [sample_message]\<rparr>"
  define s3 where "s3 = header_onInput ex_config sample_message (s2\<lparr>q_header := []\<rparr>)"
  note eval = s1_def input_accept_def Acceptor_accept_def server_init_def newClientSocket_def Selector_client_def InternalClient_new_def
  have a1: "input_round plain_lib 0 5 [] server_init = Some s1" by (simp add: input_round_def s1_def)
  have s1: "cs_heap s1 0 = InternalClient_new (Some 0)" "cs_clients s1 = [0]" "sk_fd s1 0 = 5" "sk_open s1 5"
    "sl_clients s1 = [(5, 0)]" "q_header s1 = []" "q_router s1 = []"
    by (simp_all add: eval Let_def)
  have a2: "input_round plain_lib 0 (-1) [(5, 99, sample_frame)] s1 = Some s2"
    using s1 by (simp add: input_round_def input_accept_def Acceptor_accept_def input_event_def findClient_socket_def process_def
        isConnected_def BaseSocket_isOpen_def InternalClient_new_def buildHeader_def sample_frame_reads ts_push_def s2_def sample_message_def)
  have "q_router s3 = [sample_message]"
    using s1 by (simp add: s3_def s2_def header_onInput_def verifyPositionValue_def verifyUserSpecific_def Let_def
        sample_message_def sample_header_def ex_config_def supported_types_def MT_Logon_def ts_push_def InternalClient_new_def)
  moreover have "server_reach plain_lib ex_config stale tame (s3, ?ms)"
    unfolding s3_def
    by (rule sr_step[OF sr_step[OF sr_step[OF sr_init sv_input[OF a1]] sv_input[OF a2]] sv_header])
      (simp add: s2_def ts_pop_front_def)
  ultimately show ?thesis by blast
qed

theorem server_queues_hold_valid_messages_witness:
  "\<exists>s ms. server_reach plain_lib ex_config stale False (s, ms) \<and> q_router s = [sample_message]
     \<and> header_ok ex_config (um_Header sample_message)"
proof -
  obtain s where r: "server_reach plain_lib ex_config stale False (s, market_init (cf_Market ex_config))"
    "q_router s = [sample_message]" using sample_message_reached by blast
  from server_queues_hold_valid_messages[OF r(1) refl, of sample_message] r show ?thesis by auto
qed

section \<open>Validation and routing\<close>

definition header_accepted :: "config \<Rightarrow> Header \<Rightarrow> InternalClient \<Rightarrow> bool" where
  "header_accepted cf h c \<longleftrightarrow> header_ok cf h
     \<and> (isLoggedin c \<longrightarrow> h_SenderCompId h = getUserId c \<and> h_MsgSeqNum h + 1 = getSeqNumber c)"

lemma word_pred_eq: "(n :: u32) = m - 1 \<longleftrightarrow> n + 1 = m"
  by (auto simp: algebra_simps)



section \<open>Logon\<close>

lemma f32_of_int_large:
  assumes "k \<le> 2 ^ 24" "2 ^ 24 \<le> n"
  shows "\<not> flt (f32_of_int (int n)) (f32_of_int (int k))"
proof (cases "f32_of_int (int n)")
  case (FFin t m)
  have "k * f32_unit \<le> rnd_mag (k * f32_unit) 1" using rnd_mag_exact[OF repr_whole[OF assms(1)]] by simp
  also have "\<dots> \<le> rnd_mag (n * f32_unit) 1"
    using assms by (simp add: rnd_mag_mono mult_le_mono1)
  finally have "k * f32_unit \<le> m \<and> \<not> t"
    using FFin by (auto simp: f32_of_int_def f32_of_def Let_def split: if_splits)
  then have "int k * int f32_unit \<le> int m" "\<not> t" by (metis of_nat_le_iff of_nat_mult, simp)
  with FFin show ?thesis using f32_of_int_eval[OF assms(1)] by simp
next
  case (FInf t)
  then show ?thesis using f32_of_int_eval[OF assms(1)] by (auto simp: f32_of_int_def f32_of_def Let_def split: if_splits)
qed (auto simp: f32_of_int_def f32_of_def Let_def)

lemma u32_of_f32_whole: "k \<le> 2 ^ 24 \<Longrightarrow> u32_of_f32 (f32_of_int (int k)) = Some (word_of_nat k)"
  by (simp add: u32_of_f32_def f32_of_int_eval Let_def)

lemma std_min_whole:
  assumes "k \<le> 2 ^ 24"
  shows "std_min (f32_of_int (int k)) (f32_of_int (int n)) = f32_of_int (int (min k n))"
proof (cases "n \<le> 2 ^ 24")
  case True
  then show ?thesis using assms by (auto simp: std_min_def f32_of_int_eval min_def)
next
  case False
  with f32_of_int_large[OF assms, of n] assms show ?thesis by (simp add: std_min_def min_def)
qed

lemma std_max_whole: "m \<le> 2 ^ 24 \<Longrightarrow> std_max (f32_of_int 1) (f32_of_int (int m)) = f32_of_int (int (max 1 m))"
  using f32_of_int_eval[of 1] f32_of_int_eval[of "max 1 m"] by (auto simp: std_max_def f32_of_int_eval max_def)

lemma heartbeat_interval_eq:
  assumes "k \<le> 2 ^ 24" "cf_MaxTO cf = f32_of_int (int k)"
  shows "heartbeat_interval cf n = Some (word_of_nat (max 1 (min k (unat n))))"
proof -
  have u: "uint n = int (unat n)" by simp
  have "min k (unat n) \<le> 2 ^ 24" using assms(1) by simp
  then show ?thesis
    unfolding heartbeat_interval_def u assms(2) std_min_whole[OF assms(1)]
    using std_max_whole[of "min k (unat n)"] u32_of_f32_whole[of "max 1 (min k (unat n))"] by simp
qed

lemma append_output_simps:
  "q_output (append_output c t m s) = q_output s @ [\<lparr>so_Client = c, so_ReceiveTime = t, so_MessageType = Msg_type m, so_Message = m\<rparr>]"
  "cs_heap (append_output c t m s) = cs_heap s"
  by (simp_all add: append_output_def ts_push_def)

text \<open>
  A logon that parses and asks for no encryption logs any connection in that is not logged in,
  under whatever name it gives and without any other check: the next number is the one after the
  logon's, the heartbeat interval is the requested one cut to between one second and the server's
  maximum, and the answer is a logon with that interval. A connection that is logged in gets a
  session reject and keeps its state.
\<close>

theorem logon_takes_any_name:
  assumes "parseMessage lib MT_Logon (fl_Logon lib) (um_Message i) (um_Header i) = Inr m" "lg_EncryptMethod m = EM_None"
    and "cf_MaxTO cf = f32_of_int (int k)" "k \<le> 2 ^ 24"
  defines "e \<equiv> word_of_nat (max 1 (min k (unat (lg_HeartBtInt m))))"
  shows "\<exists>s' r. logon_onInput lib cf now i s = Some s' \<and> q_output s' = q_output s @ [r] \<and> so_Client r = um_Client i
    \<and> (if isLoggedin (cs_heap s (um_Client i))
       then (\<exists>x. so_Message r = M_SessionReject x) \<and> cs_heap s' = cs_heap s
       else (\<exists>l. so_Message r = M_Logon l \<and> lg_HeartBtInt l = e)
         \<and> isLoggedin (cs_heap s' (um_Client i)) \<and> getUserId (cs_heap s' (um_Client i)) = h_SenderCompId (um_Header i)
         \<and> getSeqNumber (cs_heap s' (um_Client i)) = h_MsgSeqNum (um_Header i) + 1
         \<and> hi_Elapsing (ic_hb_info (cs_heap s' (um_Client i))) = e \<and> 1 \<le> unat e \<and> unat e \<le> max 1 k)"
proof -
  have "unat e = max 1 (min k (unat (lg_HeartBtInt m)))"
    unfolding e_def using assms(4) by (intro unat_of_nat_small) simp
  then have e: "1 \<le> unat e" "unat e \<le> max 1 k" by auto
  have "heartbeat_interval cf (lg_HeartBtInt m) = Some e" unfolding e_def by (rule heartbeat_interval_eq[OF assms(4,3)])
  note h = this
  let ?c = "um_Client i"
  show ?thesis
  proof (cases "isLoggedin (cs_heap s ?c)")
    case True
    then have "\<exists>x. logon_onInput lib cf now i s = Some (append_output ?c (um_ReceiveTime i) (M_SessionReject x) s)"
      using assms(1,2) by (simp add: logon_onInput_def logon_verify_def Let_def) blast
    with True show ?thesis by (auto simp: append_output_simps)
  next
    case False
    then have "logon_onInput lib cf now i s = Some (append_output ?c (um_ReceiveTime i)
        (M_Logon (Logon_init\<lparr>lg_EncryptMethod := EM_None, lg_HeartBtInt := e\<rparr>)) (upd_client ?c (do_login now i e) s))"
      using assms(1,2) h by (simp add: logon_onInput_def logon_verify_def Let_def)
    with False e show ?thesis
      by (simp add: append_output_simps upd_client_def do_login_def setSince_def setSeqNumber_def login_def Let_def)
  qed
qed

lemma sample_logon: "fl_Logon plain_lib [(''98'', ''0''), (''108'', ''30'')] = Inr \<lparr>lg_EncryptMethod = EM_None, lg_HeartBtInt = 30\<rparr>"
proof -
  have "dec_string 30 = ''30''" by code_simp
  then have "to_FIX_u32 30 = ''30''" by (simp add: to_FIX_u32_def)
  then have "from_FIX_u32 ''30'' = Inr 30" using roundtrip_u32[of 30] by simp
  moreover have "from_FIX_EncryptionMethod ''0'' = Inr EM_None" by code_simp
  ultimately show ?thesis by (simp add: plain_lib_def)
qed

theorem logon_takes_any_name_witness:
  "\<exists>s'. logon_onInput plain_lib ex_config 5 sample_message server_init = Some s'
     \<and> getUserId (cs_heap s' 0) = ''alice'' \<and> getSeqNumber (cs_heap s' 0) = 8"
proof -
  have p: "parseMessage plain_lib MT_Logon (fl_Logon plain_lib) (um_Message sample_message) (um_Header sample_message)
      = Inr \<lparr>lg_EncryptMethod = EM_None, lg_HeartBtInt = 30\<rparr>"
    by (simp add: parseMessage_def sample_message_def sample_logon)
  have k: "cf_MaxTO ex_config = f32_of_int (int 30)" by (simp add: ex_config_def)
  have c: "\<not> isLoggedin (cs_heap server_init (um_Client sample_message))"
    by (simp add: server_init_def InternalClient_new_def)
  have m: "um_Client sample_message = 0" "h_SenderCompId (um_Header sample_message) = ''alice''"
    "h_MsgSeqNum (um_Header sample_message) + 1 = 8" by (simp_all add: sample_message_def sample_header_def)
  have em: "lg_EncryptMethod \<lparr>lg_EncryptMethod = EM_None, lg_HeartBtInt = 30\<rparr> = EM_None" and l: "(30::nat) \<le> 2 ^ 24" by simp_all
  from logon_takes_any_name[OF p em k l, of 5 server_init, unfolded if_not_P[OF c]]
  obtain s' where "logon_onInput plain_lib ex_config 5 sample_message server_init = Some s'"
    "getUserId (cs_heap s' 0) = ''alice''" "getSeqNumber (cs_heap s' 0) = 8" unfolding m by blast
  then show ?thesis by blast
qed

section \<open>Numbers\<close>

lemma process_counts:
  assumes "process lib now recv c s = Some (False, s')" "isLoggedin (cs_heap s c)"
  shows "cs_heap s' c = nextSeqNumber (cs_heap s c)"
    and "q_header s = [] \<Longrightarrow> q_header s' = [i] \<Longrightarrow> um_Client i = c"
  using assms by (auto simp: process_def Let_def buildHeader_def append_output_def upd_client_def ts_push_def
      split: if_splits prod.splits parse_result.splits)

lemma output_task_counts:
  assumes "output_task cf lib now True j s = Some s'" "so_Client j = c" "isConnected c s"
    and "\<not> shouldDisconnect (cs_heap s c)" "isLoggedin (cs_heap s c)"
  shows "cs_heap s' c = nextSeqNumber (cs_heap s c)"
  using assms by (auto simp: output_task_def client_send_def isConnected_def BaseSocket_isOpen_def upd_client_def
      nextSeqNumber_def Let_def split: if_splits option.splits)

text \<open>
  C27: both directions of a connection share one counter, and a message is compared with it when
  it is validated, not when it is read. A message that carries the number that was due is accepted
  if it is validated at once; the same message is rejected for its number if in between another
  message of the connection is read, or one is sent to it.
\<close>

theorem message_races_with_traffic:
  fixes s :: server
  assumes read: "process lib now recv c s = Some (False, s1)" "q_header s = []" "q_header s1 = [i]"
    and due: "isLoggedin (cs_heap s c)" "header_ok cf (um_Header i)" "h_SenderCompId (um_Header i) = getUserId (cs_heap s c)"
      "h_MsgSeqNum (um_Header i) = getSeqNumber (cs_heap s c)"
    and between: "process lib now' recv' c s1 = Some (False, s2)
      \<or> (so_Client j = c \<and> isConnected c s1 \<and> \<not> shouldDisconnect (cs_heap s1 c) \<and> output_task cf lib now' True j s1 = Some s2)"
  shows "header_onInput cf i s1 = s1\<lparr>q_router := q_router s1 @ [i]\<rparr>
    \<and> (\<exists>r. header_onInput cf i s2 = append_output c (um_ReceiveTime i) (M_SessionReject r) s2
         \<and> sr_RefTagId r = Some tag_MsgSeqNum)"
proof -
  note c1 = process_counts[OF read(1) due(1)]
  have c: "um_Client i = c" by (rule c1(2)[OF read(2,3)])
  have l1: "isLoggedin (cs_heap s1 c)" using due(1) by (simp add: c1(1) nextSeqNumber_def)
  have c2: "cs_heap s2 c = nextSeqNumber (cs_heap s1 c)"
    using between process_counts(1)[OF _ l1] output_task_counts[OF _ _ _ _ l1] by blast
  have p: "verifyPositionValue (um_Header i) = None" using due(2) by (simp add: verifyPositionValue_def header_ok_def)
  have "verifyUserSpecific cf (um_Header i) (cs_heap s1 c) = None"
    using due by (simp add: verifyUserSpecific_def Let_def c1(1) nextSeqNumber_def header_ok_def)
  moreover obtain r where "verifyUserSpecific cf (um_Header i) (cs_heap s2 c) = Some r" "sr_RefTagId r = Some tag_MsgSeqNum"
    using due by (simp add: verifyUserSpecific_def Let_def c2 c1(1) nextSeqNumber_def header_ok_def)
  ultimately show ?thesis using p by (simp add: header_onInput_def c ts_push_def) blast
qed

text \<open>A logged in connection on which the sample frame is due.\<close>

definition sample_session :: server where
  "sample_session = (input_accept 5 server_init)\<lparr>cs_heap := (\<lambda>_. (InternalClient_new (Some 0))
     \<lparr>ic_logged_in := True, ic_user_id := ''alice'', ic_seq_num := 7\<rparr>)\<rparr>"

lemma sample_session_simps:
  "cs_heap sample_session c = (InternalClient_new (Some 0))\<lparr>ic_logged_in := True, ic_user_id := ''alice'', ic_seq_num := 7\<rparr>"
  "q_header sample_session = []" "isConnected 0 sample_session" "sk_fd sample_session 0 = 5" "sk_open sample_session 5"
  by (simp_all add: sample_session_def input_accept_def Acceptor_accept_def newClientSocket_def Selector_client_def server_init_def
      isConnected_def BaseSocket_isOpen_def InternalClient_new_def Let_def)

lemma process_sample:
  assumes "isConnected 0 s" "isLoggedin (cs_heap s 0)"
  shows "process plain_lib 0 (99, sample_frame) 0 s = Some (False,
     (upd_client 0 nextSeqNumber s)\<lparr>q_header := ts_push sample_message (q_header s)\<rparr>)"
  using assms by (simp add: process_def buildHeader_def sample_frame_reads sample_message_def upd_client_def)

theorem message_races_with_traffic_witness:
  "\<exists>s1 s2 r. process plain_lib 0 (99, sample_frame) 0 sample_session = Some (False, s1)
     \<and> process plain_lib 0 (99, sample_frame) 0 s1 = Some (False, s2)
     \<and> header_onInput ex_config sample_message s2 = append_output 0 0 (M_SessionReject r) s2 \<and> sr_RefTagId r = Some tag_MsgSeqNum"
proof -
  note S = sample_session_simps InternalClient_new_def
  define s1 where "s1 = (upd_client 0 nextSeqNumber sample_session)\<lparr>q_header := [sample_message]\<rparr>"
  have p1: "process plain_lib 0 (99, sample_frame) 0 sample_session = Some (False, s1)"
    using S by (subst process_sample) (simp_all add: s1_def ts_push_def)
  have "isConnected 0 s1" "isLoggedin (cs_heap s1 0)"
    using S by (simp_all add: s1_def upd_client_def isConnected_def BaseSocket_isOpen_def nextSeqNumber_def)
  from process_sample[OF this] obtain s2 where p2: "process plain_lib 0 (99, sample_frame) 0 s1 = Some (False, s2)" by blast
  have "header_ok ex_config (um_Header sample_message)"
    by (simp add: header_ok_def sample_message_def sample_header_def ex_config_def supported_types_def)
  from message_races_with_traffic[OF p1 _ _ _ this _ _ disjI1[OF p2]] p1 p2 show ?thesis
    using S by (auto simp: s1_def sample_message_def sample_header_def)
qed

section \<open>The monitor\<close>

text \<open>What a scan makes of one connection.\<close>

definition monitored :: "(time_point \<Rightarrow> string) \<Rightarrow> time_point \<Rightarrow> InternalClient \<Rightarrow> InternalClient" where
  "monitored fmt now x = (if shouldDisconnect x \<or> \<not> isLoggedin x \<or> \<not> overdue now x then x
     else if \<not> hi_TestRequest (ic_hb_info x) then send_test fmt now x
     else disconnect (set_shouldDisconnect True x))"

definition test_output :: "(time_point \<Rightarrow> string) \<Rightarrow> time_point \<Rightarrow> cref \<Rightarrow> StringOutput" where
  "test_output fmt now c = \<lparr>so_Client = c, so_ReceiveTime = now, so_MessageType = MT_TestRequest,
     so_Message = M_TestRequest (TestRequest_init\<lparr>tr_TestReqId := fmt now\<rparr>)\<rparr>"

lemma monitor_client_effect:
  "cs_heap (monitor_client fmt now c s) = (cs_heap s)(c := monitored fmt now (cs_heap s c))"
  "\<exists>os. q_output (monitor_client fmt now c s) = q_output s @ os"
  "\<exists>rs. cs_onremove (monitor_client fmt now c s) = cs_onremove s @ rs"
  by (auto simp: monitor_client_def monitored_def Let_def append_output_def upd_client_def removeClient_def ts_push_def)

lemma monitor_fold:
  assumes "distinct cs"
  shows "cs_heap (fold (monitor_client fmt now) cs s) c = (if c \<in> set cs then monitored fmt now (cs_heap s c) else cs_heap s c)
    \<and> set (q_output s) \<subseteq> set (q_output (fold (monitor_client fmt now) cs s))
    \<and> set (cs_onremove s) \<subseteq> set (cs_onremove (fold (monitor_client fmt now) cs s))"
  using assms
proof (induction cs arbitrary: s)
  case (Cons d cs)
  from monitor_client_effect(2,3)[of fmt now d s] obtain os rs
    where "q_output (monitor_client fmt now d s) = q_output s @ os" "cs_onremove (monitor_client fmt now d s) = cs_onremove s @ rs" by blast
  with Cons.IH[of "monitor_client fmt now d s"] Cons.prems show ?case by (auto simp: monitor_client_effect(1))
qed simp

lemma monitor_fold_at:
  assumes "distinct cs" "c \<in> set cs" "isLoggedin (cs_heap s c)" "\<not> shouldDisconnect (cs_heap s c)" "overdue now (cs_heap s c)"
  shows "if hi_TestRequest (ic_hb_info (cs_heap s c)) then c \<in> set (cs_onremove (fold (monitor_client fmt now) cs s))
    else test_output fmt now c \<in> set (q_output (fold (monitor_client fmt now) cs s))"
  using assms
proof (induction cs arbitrary: s)
  case (Cons d cs)
  show ?case
  proof (cases "d = c")
    case True
    with Cons.prems monitor_fold[of cs fmt now "monitor_client fmt now c s" c] show ?thesis
      by (auto simp: monitor_client_def Let_def append_output_def ts_push_def test_output_def removeClient_def)
  next
    case False
    with Cons.prems Cons.IH[of "monitor_client fmt now d s"] show ?thesis by (auto simp: monitor_client_effect(1))
  qed
qed simp

text \<open>
  C28: a logged in connection that stays silent for its heartbeat interval is sent a test request
  by the next scan of the monitor, and one that then stays silent for another interval is logged
  out and handed to the pool for removal by the scan after it; a connection that was heard within
  its interval is left as it is.
\<close>

theorem silent_connection_is_removed:
  assumes "store_inv s" "c \<in> set (cs_clients s)" "isLoggedin (cs_heap s c)" "\<not> shouldDisconnect (cs_heap s c)"
    and "\<not> hi_TestRequest (ic_hb_info (cs_heap s c))" "overdue t1 (cs_heap s c)"
    and "t2 - t1 > uint (hi_Elapsing (ic_hb_info (cs_heap s c))) * nanos"
  shows "test_output fmt t1 c \<in> set (q_output (monitor_scan fmt t1 s))
    \<and> c \<in> set (cs_onremove (monitor_scan fmt t2 (monitor_scan fmt t1 s)))
    \<and> \<not> isLoggedin (cs_heap (monitor_scan fmt t2 (monitor_scan fmt t1 s)) c)
    \<and> (\<not> overdue t0 (cs_heap s c) \<longrightarrow> cs_heap (monitor_scan fmt t0 s) c = cs_heap s c)"
proof -
  have d: "distinct (cs_clients s)" using assms(1) by (simp add: store_inv_def)
  let ?s1 = "monitor_scan fmt t1 s"
  have cl: "cs_clients (fold (monitor_client fmt now) cs s') = cs_clients s'" for now cs s'
    by (induction cs arbitrary: s')
      (auto simp: monitor_client_def Let_def append_output_def upd_client_def removeClient_def)
  have h1: "cs_heap ?s1 c = send_test fmt t1 (cs_heap s c)"
    using monitor_fold[OF d, of fmt t1 s c] assms(2-6) by (simp add: monitor_scan_def Apply_def monitored_def)
  have c1: "cs_clients ?s1 = cs_clients s" by (simp add: monitor_scan_def Apply_def cl)
  have x: "isLoggedin (cs_heap ?s1 c)" "\<not> shouldDisconnect (cs_heap ?s1 c)" "hi_TestRequest (ic_hb_info (cs_heap ?s1 c))"
    "overdue t2 (cs_heap ?s1 c)"
    using assms(3,4,7) by (simp_all add: h1 send_test_def setSince_def overdue_def getSince_def Let_def)
  have "test_output fmt t1 c \<in> set (q_output ?s1)"
    using monitor_fold_at[OF d assms(2-4,6), of fmt] assms(5) by (simp add: monitor_scan_def Apply_def)
  moreover have "c \<in> set (cs_onremove (monitor_scan fmt t2 ?s1))"
    using monitor_fold_at[OF d assms(2) x(1,2,4), of fmt] x(3) by (simp add: monitor_scan_def Apply_def c1[unfolded monitor_scan_def Apply_def])
  moreover have "\<not> isLoggedin (cs_heap (monitor_scan fmt t2 ?s1) c)"
    using monitor_fold[OF d, of fmt t2 ?s1 c] assms(2) x
    by (simp add: monitor_scan_def Apply_def c1[unfolded monitor_scan_def Apply_def] monitored_def disconnect_def)
  moreover have "cs_heap (monitor_scan fmt t0 s) c = cs_heap s c" if "\<not> overdue t0 (cs_heap s c)"
    using monitor_fold[OF d, of fmt t0 s c] that by (simp add: monitor_scan_def Apply_def monitored_def)
  ultimately show ?thesis by blast
qed

theorem silent_connection_is_removed_witness:
  "(0::nat) \<in> set (cs_onremove (monitor_scan format_time (5 * nanos) (monitor_scan format_time (2 * nanos) sample_session)))"
proof -
  have "store_inv sample_session" "0 \<in> set (cs_clients sample_session)"
    by (simp_all add: store_inv_def sample_session_def input_accept_def Acceptor_accept_def newClientSocket_def
        Selector_client_def server_init_def InternalClient_new_def Let_def)
  then show ?thesis
    using silent_connection_is_removed[of sample_session 0 "2 * nanos" "5 * nanos" format_time]
    by (simp add: sample_session_simps InternalClient_new_def HeartBeatInfo_init_def overdue_def getSince_def nanos_def)
qed

section \<open>Removal\<close>

lemma output_to_closed:
  assumes "\<not> isConnected (so_Client j) s"
  shows "\<exists>s'. output_task cf lib now ok j s = Some s' \<and> cs_onremove s' = cs_onremove s @ [so_Client j]
    \<and> cs_clients s' = cs_clients s \<and> (\<forall>c. isConnected c s' = isConnected c s)"
proof -
  let ?c = "so_Client j"
  define s2 where "s2 = upd_client ?c nextSeqNumber (if \<not> isLoggedin (cs_heap s ?c) then upd_client ?c nextSeqNumber s else s)"
  have k: "ic_socket (cs_heap s2 c) = ic_socket (cs_heap s c)" for c
    by (simp add: s2_def upd_client_def nextSeqNumber_def)
  have f: "sk_fd s2 = sk_fd s" "sk_open s2 = sk_open s" "cs_onremove s2 = cs_onremove s" "cs_clients s2 = cs_clients s"
    by (simp_all add: s2_def upd_client_def)
  have con: "isConnected c s2 = isConnected c s" for c
    by (auto simp: isConnected_def BaseSocket_isOpen_def k f split: option.splits)
  then have o: "output_task cf lib now ok j s = Some (removeClient ?c s2)"
    using assms by (simp add: output_task_def Let_def s2_def)
  have "isConnected c (removeClient ?c s2) = isConnected c s2" for c
    by (simp add: isConnected_def BaseSocket_isOpen_def removeClient_def upd_client_def disconnect_def set_shouldDisconnect_def
        Let_def split: option.splits)
  with o con f show ?thesis by (simp add: removeClient_def upd_client_def Let_def)
qed

lemma tcp_onremove_frame:
  "cs_clients (tcp_onremove c s) = cs_clients s" "cs_onremove (tcp_onremove c s) = cs_onremove s"
  by (auto simp: tcp_onremove_def Let_def Selector_erase_def split: option.splits)

text \<open>
  Two outputs waiting for one connection that has been closed remove it twice. The first
  removal takes it off the table; the second erases the end iterator, which is undefined.
\<close>

theorem closed_connection_removed_twice:
  assumes "\<not> isConnected c s" "distinct (cs_clients s)" "cs_onremove s = []" "so_Client j = c" "so_Client j' = c"
    and "output_task cf lib now ok j s = Some s1" "output_task cf lib now' ok' j' s1 = Some s2"
    and "run_onremove s2 = Some s3"
  shows "c \<notin> set (cs_clients s3) \<and> run_onremove s3 = None"
proof -
  have s1: "cs_onremove s1 = [c]" "cs_clients s1 = cs_clients s" "\<not> isConnected c s1"
    using output_to_closed[of j s cf lib now ok] assms(1,3,4,6) by auto
  have s2: "cs_onremove s2 = [c, c]" "cs_clients s2 = cs_clients s"
    using output_to_closed[of j' s1 cf lib now' ok'] s1 assms(5,7) by auto
  then have r: "s3 = tcp_onremove c (s2\<lparr>cs_onremove := [c], cs_clients := remove1 c (cs_clients s2)\<rparr>)"
    using assms(8) by (auto simp: run_onremove_def remove_task_def split: if_splits)
  then have "cs_onremove s3 = [c]" "c \<notin> set (cs_clients s3)" using s2 assms(2) by (simp_all add: tcp_onremove_frame)
  then show ?thesis by (simp add: run_onremove_def remove_task_def)
qed

definition ex_output :: "FixMsg \<Rightarrow> StringOutput" where
  "ex_output m = \<lparr>so_Client = 0, so_ReceiveTime = 0, so_MessageType = Msg_type m, so_Message = m\<rparr>"

theorem closed_connection_removed_twice_witness:
  "\<exists>s1 s2 s3. output_task ex_config plain_lib 0 True (ex_output M_Logout) (snd (client_close 0 sample_session)) = Some s1
     \<and> output_task ex_config plain_lib 0 True (ex_output M_Logout) s1 = Some s2
     \<and> run_onremove s2 = Some s3 \<and> run_onremove s3 = None"
proof -
  let ?s = "snd (client_close 0 sample_session)"
  note D = sample_session_def input_accept_def Acceptor_accept_def newClientSocket_def
        Selector_client_def server_init_def InternalClient_new_def Let_def client_close_def BaseSocket_close_def BaseSocket_isOpen_def
  have s: "\<not> isConnected 0 ?s" "cs_clients ?s = [0]" "cs_onremove ?s = []"
    by (simp_all add: D isConnected_def)
  obtain s1 where s1: "output_task ex_config plain_lib 0 True (ex_output M_Logout) ?s = Some s1" "cs_onremove s1 = [0]"
      "cs_clients s1 = [0]" "\<not> isConnected 0 s1"
    using output_to_closed[of "ex_output M_Logout" ?s ex_config plain_lib 0 True] s by (auto simp: ex_output_def)
  obtain s2 where s2: "output_task ex_config plain_lib 0 True (ex_output M_Logout) s1 = Some s2" "cs_onremove s2 = [0, 0]"
      "cs_clients s2 = [0]"
    using output_to_closed[of "ex_output M_Logout" s1 ex_config plain_lib 0 True] s1 by (auto simp: ex_output_def)
  then obtain s3 where s3: "run_onremove s2 = Some s3" by (auto simp: run_onremove_def remove_task_def)
  from closed_connection_removed_twice[OF s(1) _ s(3) _ _ s1(1) s2(1) s3] s s1(1) s2(1) s3 show ?thesis
    by (auto simp: ex_output_def)
qed

lemma output_to_open_leaving:
  assumes "isConnected c s" "ic_socket (cs_heap s c) = Some k" "sk_fd s k = fd" "so_Client j = c"
    and "shouldDisconnect (cs_heap s c)" "output_task cf lib now True j s = Some s'"
  shows "sk_fd s' = (sk_fd s)(k := -1) \<and> sk_open s' = (sk_open s)(fd := False)
    \<and> sk_epoll s' = filter (\<lambda>x. x \<noteq> fd) (sk_epoll s) \<and> sl_clients s' = sl_clients s \<and> cs_clients s' = cs_clients s
    \<and> cs_onremove s' = cs_onremove s @ [c] \<and> sk_next s' = sk_next s \<and> cs_next s' = cs_next s
    \<and> ic_socket (cs_heap s' c) = Some k"
  using assms
  by (cases "isLoggedin (cs_heap s c)")
    (simp_all add: output_task_def Let_def isConnected_def BaseSocket_isOpen_def upd_client_def nextSeqNumber_def client_send_def
      client_close_def BaseSocket_close_def removeClient_def disconnect_def set_shouldDisconnect_def, safe, simp_all)

text \<open>
  A descriptor that is used again before its old connection is removed brings the server
  down. The output unit answers a logout by closing the socket and leaving the removal to the
  pool; when the kernel gives the same descriptor to a connection accepted before the pool's
  task, the selector keeps the old entry, the task erases it, and the first data from the new
  connection makes the input unit throw.
\<close>

theorem reused_descriptor_stops_input:
  fixes s :: server
  assumes sock: "ic_socket (cs_heap s c) = Some k" "sk_fd s k = fd" "fd \<noteq> -1" "sk_open s fd" "\<not> sk_open s (-1)" "k < sk_next s"
    and sel: "sl_clients s = [(fd, k)]" and tab: "cs_clients s = [c]" "c < cs_next s" "cs_onremove s = []"
    and out: "so_Client j = c" "shouldDisconnect (cs_heap s c)" "output_task cf lib now True j s = Some s1"
    and new: "input_round lib now fd [] s1 = Some s2" and rem: "run_onremove s2 = Some s3"
  shows "fd \<in> set (sk_epoll s3) \<and> map_of (sl_clients s3) fd = None \<and> input_round lib now' (-1) [(fd, r)] s3 = None"
proof -
  have con: "isConnected c s" using sock by (simp add: isConnected_def BaseSocket_isOpen_def)
  from output_to_open_leaving[OF con sock(1,2) out(1,2,3)]
  have s1: "sk_fd s1 = (sk_fd s)(k := -1)" "\<not> sk_open s1 fd" "\<not> sk_open s1 (-1)" "fd \<notin> set (sk_epoll s1)" "sl_clients s1 = sl_clients s"
    "cs_clients s1 = cs_clients s" "cs_onremove s1 = cs_onremove s @ [c]" "sk_next s1 = sk_next s" "cs_next s1 = cs_next s"
    "ic_socket (cs_heap s1 c) = Some k"
    using sock by auto
  have e: "s2 = input_accept fd s1" using new by (simp add: input_round_def Let_def)
  have s2: "sk_fd s2 k = -1" "\<not> sk_open s2 (-1)" "fd \<in> set (sk_epoll s2)" "sl_clients s2 = [(fd, k)]"
    "cs_onremove s2 = [c]" "c \<in> set (cs_clients s2)" "ic_socket (cs_heap s2 c) = Some k"
    using s1 sock sel tab unfolding e
    by (simp_all add: input_accept_def Acceptor_accept_def newClientSocket_def Selector_client_def Let_def)
  let ?t = "s2\<lparr>cs_onremove := [], cs_clients := remove1 c (cs_clients s2)\<rparr>"
  have r3: "s3 = tcp_onremove c ?t"
    using rem s2(5,6) by (simp add: run_onremove_def remove_task_def)
  have "snd (client_close c ?t) = ?t"
    using s2 by (simp add: client_close_def BaseSocket_close_def BaseSocket_isOpen_def)
  then have "s3 = Selector_erase k ?t" using s2(7) by (simp add: r3 tcp_onremove_def Let_def)
  then have s3: "sl_clients s3 = []" "fd \<in> set (sk_epoll s3)" using s2 by (simp_all add: Selector_erase_def)
  then show ?thesis by (simp add: input_round_def input_accept_def Acceptor_accept_def Let_def)
qed

theorem reused_descriptor_stops_input_witness:
  "\<exists>s1 s2 s3. output_task ex_config plain_lib 0 True (ex_output M_Logout) (upd_client 0 (set_shouldDisconnect True) sample_session) = Some s1
     \<and> input_round plain_lib 0 5 [] s1 = Some s2 \<and> run_onremove s2 = Some s3
     \<and> input_round plain_lib 0 (-1) [(5, 99, sample_frame)] s3 = None"
proof -
  let ?s = "upd_client 0 (set_shouldDisconnect True) sample_session"
  note D = sample_session_def input_accept_def Acceptor_accept_def newClientSocket_def Selector_client_def server_init_def
    InternalClient_new_def Let_def upd_client_def set_shouldDisconnect_def
  have s: "ic_socket (cs_heap ?s 0) = Some 0" "sk_fd ?s 0 = 5" "sk_open ?s 5" "\<not> sk_open ?s (-1)" "sk_next ?s = 1"
    "sl_clients ?s = [(5, 0)]" "cs_clients ?s = [0]" "cs_next ?s = 1" "cs_onremove ?s = []" "shouldDisconnect (cs_heap ?s 0)"
    by (simp_all add: D)
  have con: "isConnected 0 ?s" using s by (simp add: isConnected_def BaseSocket_isOpen_def)
  have j: "so_Client (ex_output M_Logout) = 0" by (simp add: ex_output_def)
  from con obtain s1 where s1: "output_task ex_config plain_lib 0 True (ex_output M_Logout) ?s = Some s1"
    by (cases "output_task ex_config plain_lib 0 True (ex_output M_Logout) ?s")
      (auto simp: output_task_def Let_def client_send_def isConnected_def BaseSocket_isOpen_def upd_client_def nextSeqNumber_def j
        split: option.splits if_splits)
  note f = output_to_open_leaving[OF con s(1,2) j s(10) s1]
  define s2 where "s2 = input_accept 5 s1"
  have s2: "input_round plain_lib 0 5 [] s1 = Some s2" by (simp add: input_round_def Let_def s2_def)
  have "cs_onremove s2 = [0]" "0 \<in> set (cs_clients s2)"
    using f s by (simp_all add: s2_def input_accept_def Acceptor_accept_def newClientSocket_def Selector_client_def Let_def)
  then obtain s3 where s3: "run_onremove s2 = Some s3" by (auto simp: run_onremove_def remove_task_def)
  from reused_descriptor_stops_input[OF s(1,2) _ s(3,4) _ s(6,7) _ s(9) j s(10) s1 s2 s3] s s1 s2 s3
  show ?thesis by auto
qed

section \<open>The process\<close>

text \<open>
  C29: however the server ends, every unit it started is stopped exactly once; the exit code is 0
  exactly when a polled unit threw and 1 after a signal; and the loop never looks at the header
  validation and output units: whatever happens to them, the server goes on without them.
\<close>

theorem server_ends_on_crash_or_signal:
  assumes "server_main names rounds = Some (code, co)"
  shows "mset (co_stopped co) = mset (co_started co) \<and> \<not> co_running co \<and> code \<in> {0, 1}
    \<and> (code = 0 \<longrightarrow> (\<exists>st u. (True, st) \<in> set rounds \<and> u \<in> set (core_polled names) \<and> pu_status (fst (st u)) (snd (st u)) = None))
    \<and> server_main names (map (\<lambda>(r, st). (r, st(U_TcpOutput := x, U_HeaderValidation := y))) rounds) = Some (code, co)"
proof -
  define co1 where "co1 = snd (internal_start names (core_new\<lparr>co_running := True\<rparr>))"
  have run: "co_running co1" and st1: "co_stopped co1 = []" by (simp_all add: co1_def internal_start_def core_new_def)
  have m: "server_main names rs = map_option (\<lambda>(r, co). (of_bool r, core_stop names co)) (core_loop names rs co1)" for rs
    by (simp add: server_main_def core_start_def internal_start_def co1_def)
  obtain r co2 where l: "core_loop names rounds co1 = Some (r, co2)" "code = of_bool r" "co = core_stop names co2"
    using assms by (auto simp: m)
  have "co2 = (if r then core_stop names co1 else co1)" using core_loop_ends[OF run l(1)] by simp
  then have co: "co = core_stop names co1" using l(3) by (auto simp: core_stop_def)
  let ?rs = "map (\<lambda>(r, st). (r, st(U_TcpOutput := x, U_HeaderValidation := y))) rounds"
  have "core_loop names ?rs co1 = core_loop names rounds co1"
    by (rule core_loop_cong) (auto simp: core_polled_def zip_map1 zip_same_conv_map)
  then have "server_main names ?rs = server_main names rounds" by (simp add: m)
  moreover have "mset (co_stopped co) = mset (co_started co)"
    by (simp add: co core_stop_def run st1 co1_def internal_start_def core_new_def)
  ultimately show ?thesis
    using assms l co run core_loop_crash[OF run] by (auto simp: core_stop_def split: if_splits)
qed

theorem server_ends_on_crash_or_signal_witness:
  "\<exists>co. server_main [''ACME''] [(True, \<lambda>_. (F_timeout, False)), (True, \<lambda>u. (F_ready, u = U_Market ''ACME''))] = Some (0, co)
     \<and> mset (co_stopped co) = mset (co_started co)"
proof -
  let ?rs = "[(True, \<lambda>_. (F_timeout, False)), (True, \<lambda>u. (F_ready, u = U_Market ''ACME''))]"
  obtain co where h: "server_main [''ACME''] ?rs = Some (0, co)"
    by (auto simp: server_main_def core_start_def internal_start_def core_new_def polls_ok_def core_polled_def pu_status_def)
  from server_ends_on_crash_or_signal[OF h] h show ?thesis by blast
qed

end
