(* ===== verification/IpcClaims.thy ===== *)
theory IpcClaims
  imports Ipc
begin

text \<open>The properties of the byte buffer, the client's binary protocol and its receive loop.\<close>

section \<open>The buffer\<close>

text \<open>What every reader of numbers does with the buffer: the size test, then perhaps a move.\<close>

lemma checkSize_sound:
  assumes "checkSize n b = (True, b')" "length (m_data b) < 2 ^ 64"
  shows "m_valid b \<and> b' = b \<and> unat (m_read b) + unat n \<le> length (m_data b)"
proof -
  from assms(1) have c: "m_valid b" "m_read b + n \<le> of_nat (length (m_data b))"
    "\<not> m_read b + n < m_read b" "b' = b\<lparr>m_valid := True\<rparr>"
    by (auto simp: checkSize_def Let_def)
  have l: "unat (of_nat (length (m_data b)) :: u64) = length (m_data b)"
    by (rule unat_of_nat_small) (use assms(2) in simp)
  have "unat (m_read b + n) = unat (m_read b) + unat n"
    using c(3) by (metis linorder_not_less unat_plus_simple)
  with c(2) l have "unat (m_read b) + unat n \<le> length (m_data b)" by (simp add: word_le_nat_alt)
  with c show ?thesis by simp
qed

lemma checkSize_refused: "checkSize n b = (False, b') \<Longrightarrow> b' = b\<lparr>m_valid := False\<rparr>"
  by (auto simp: checkSize_def Let_def)

lemma checkSize_invalid: "\<not> m_valid b \<Longrightarrow> checkSize n b = (False, b\<lparr>m_valid := False\<rparr>)"
  by (simp add: checkSize_def)



section \<open>Frames\<close>

text \<open>A frame builder reads back: header type, body size and message.\<close>

definition frame_reads_back ::
    "('a \<Rightarrow> net_buffer) \<Rightarrow> ('a \<Rightarrow> net_buffer \<Rightarrow> 'a \<times> net_buffer) \<Rightarrow> IpcType \<Rightarrow> u8 \<Rightarrow> 'a \<Rightarrow> bool" where
  "frame_reads_back helper get ty junk m \<longleftrightarrow> (\<forall>d d'.
     case get_IpcHeader junk d (helper m) of (h, b) \<Rightarrow>
       ih_MsgType h = ty \<and> fst (get d' b) = m
       \<and> length (m_data (helper m)) = sizeof_IpcHeader + unat (ih_BodySize h))"

context frame
begin

lemma reads_back:
  assumes "ok m" "length (enc m) < 2 ^ 32"
  shows "frame_reads_back helper get ty junk m"
  unfolding frame_reads_back_def
  using frame_read[OF assms, of junk] frame_bytes[OF assms(1)]
  by (auto simp: sizeof_IpcHeader_def split: prod.split)

end

text \<open>Strings of a message that fits a frame: together below the 32-bit length.\<close>

definition short :: "string \<Rightarrow> bool" where
  "short s \<longleftrightarrow> length s < 2 ^ 28"

lemma short_ok: "short s \<Longrightarrow> string_ok s"
  by (simp add: short_def string_ok_def)

text \<open>
  C13: every frame \<^verbatim>\<open>ipc::Helper\<close> builds announces exactly the bytes that follow its five-byte
  header, and the receiver reads from it the same type and the same message, for all twelve
  builders with a body.
\<close>

theorem ipc_frames_read_back:
  shows "(short k \<and> short n \<longrightarrow> frame_reads_back Helper_FrontToInitiator get_AuthFrontToInitiator
           IT_FrontToInitiatorAuth junk \<lparr>afi_apikey = k, afi_name = n\<rparr>)
    \<and> (short n \<longrightarrow> frame_reads_back Helper_InitiatorToFront get_AuthInitiatorToFront
           IT_InitiatorToFrontAuth junk \<lparr>aif_name = n\<rparr>)
    \<and> (short k \<longrightarrow> frame_reads_back Helper_BackToInitiator get_AuthBackToInitiator
           IT_BackToInitiatorAuth junk \<lparr>abi_apikey = k, abi_port = p\<rparr>)
    \<and> (short k \<and> short n \<longrightarrow> frame_reads_back Helper_InitiatorToBack get_AuthInitiatorToBack
           IT_InitiatorToBackAuth junk \<lparr>aib_token = k, aib_apikey = n\<rparr>)
    \<and> (short k \<longrightarrow> frame_reads_back Helper_InitiatorToFrontToken get_InitiatorToFrontValidToken
           IT_InitiatorToFrontValidToken junk \<lparr>ifv_token = k, ifv_port = p\<rparr>)
    \<and> (short k \<longrightarrow> frame_reads_back Helper_FrontToBackToken get_FrontToBackValidToken
           IT_FrontToBackValidToken junk \<lparr>fbv_token = k\<rparr>)
    \<and> (short k \<longrightarrow> frame_reads_back Helper_BackToFrontToken get_FrontToBackValidToken
           IT_BackToFrontValidToken junk \<lparr>fbv_token = k\<rparr>)
    \<and> (short k \<longrightarrow> frame_reads_back Helper_Reject get_IpcReject IT_Reject junk \<lparr>ir_message = k\<rparr>)
    \<and> frame_reads_back Helper_Status get_u8 IT_Status junk w
    \<and> (short k \<longrightarrow> frame_reads_back Helper_Logon get_IpcLogon IT_Logon junk
           \<lparr>il_UserId = k, il_SeqNum = p, il_HeartBeat = q\<rparr>)
    \<and> (short k \<and> short n \<and> wf_f32 x \<and> wf_f32 y \<and> side_ok s \<longrightarrow>
         frame_reads_back Helper_OrderSingle (get_IpcOrderSingle junk) IT_OrderSingle junk
           \<lparr>io_symbol = k, io_orderId = n, io_price = x, io_quantity = y, io_type = s\<rparr>)
    \<and> (short k \<and> short n \<and> short t \<and> wf_f32 x \<and> wf_f32 y \<and> wf_f32 a \<and> wf_f32 r \<and> side_ok s \<longrightarrow>
         frame_reads_back (Helper_ExecutionEvent IT_ExecEvent) get_IpcExecution IT_ExecEvent junk
           \<lparr>ie_symbol = k, ie_orderId = n, ie_execId = t, ie_avgPrice = a, ie_price = x, ie_side = s,
            ie_quantity = y, ie_remainQty = r\<rparr>)"
  by (intro conjI impI)
    (auto simp: short_ok short_def ok_AuthFrontToInitiator_def ok_AuthInitiatorToFront_def
      ok_AuthBackToInitiator_def ok_AuthInitiatorToBack_def ok_InitiatorToFrontValidToken_def
      ok_FrontToBackValidToken_def ok_IpcReject_def ok_IpcLogon_def ok_IpcOrderSingle_def
      ok_IpcExecution_def string_ok_def enc_AuthFrontToInitiator_def enc_AuthInitiatorToFront_def
      enc_AuthBackToInitiator_def enc_AuthInitiatorToBack_def enc_InitiatorToFrontValidToken_def
      enc_FrontToBackValidToken_def enc_IpcReject_def enc_IpcLogon_def enc_IpcOrderSingle_def
      enc_IpcExecution_def
      intro!: hfi.reads_back hif.reads_back hbi.reads_back hib.reads_back hifv.reads_back
        hfbv.reads_back hbfv.reads_back hrej.reads_back hst.reads_back hlog.reads_back
        hos.reads_back hev.reads_back)

theorem ipc_frames_read_back_witness:
  "frame_reads_back Helper_OrderSingle (get_IpcOrderSingle 0) IT_OrderSingle 0
     \<lparr>io_symbol = ''AAPL'', io_orderId = ''o1'', io_price = fzero, io_quantity = fzero, io_type = Side_Sell\<rparr>"
  using ipc_frames_read_back[of "''AAPL''" "''o1''" 0 0 0 0 fzero fzero Side_Sell "[]" fzero fzero]
    side_all_ok[of Side_Sell]
  by (simp add: short_def Side_all_def)

text \<open>
  The receive loop cuts the byte stream exactly at the frame borders: whatever frames the
  peer sent back to back, that many rounds deliver them in order, whole and with the cursor
  at the start, and leave the rest of the stream untouched.
\<close>

theorem receive_loop_delivers_frames:
  assumes "\<forall>(ty, body) \<in> set fs. IpcType_ok ty \<and> length body < 2 ^ 31"
  shows "recv_rounds stream_recv junk d (length fs) (concat (map (\<lambda>(ty, body). frame_of ty body) fs) @ rest)
    = (map (\<lambda>(ty, body). IE_receive \<lparr>m_valid = True, m_read = 0, m_data = frame_of ty body\<rparr>) fs, rest)"
  using assms by (rule recv_rounds_frames)

theorem receive_loop_delivers_frames_witness:
  "fst (recv_rounds stream_recv 0 \<lparr>ih_MsgType = IT_Reject, ih_BodySize = 0\<rparr> 2 (frame_of IT_HandShakeAuth [] @ frame_of IT_Status [2] @ [1, 0]))
    = [IE_receive \<lparr>m_valid = True, m_read = 0, m_data = frame_of IT_HandShakeAuth []\<rparr>,
       IE_receive \<lparr>m_valid = True, m_read = 0, m_data = frame_of IT_Status [2]\<rparr>]"
proof -
  have "\<forall>(ty, body) \<in> set [(IT_HandShakeAuth, []), (IT_Status, [2 :: byte])]. IpcType_ok ty \<and> length body < 2 ^ 31"
    by (auto intro!: IpcType_all_ok simp: IpcType_all_def)
  from receive_loop_delivers_frames[OF this, of 0 "\<lparr>ih_MsgType = IT_Reject, ih_BodySize = 0\<rparr>" "[1, 0]"] show ?thesis
    by (simp add: numeral_2_eq_2)
qed

end
