(* ===== verification/BackClaims.thy ===== *)
theory BackClaims
  imports BackFront ServerClaims IpcClaims
begin

text \<open>
  The properties of the client back end, on its own and together with the server it talks to.
\<close>

section \<open>The shared count\<close>

definition in_step :: "InternalClient \<Rightarrow> User \<Rightarrow> bool" where
  "in_step x u \<longleftrightarrow> isLoggedin x \<and> us_login u \<and> getUserId x = us_userid u \<and> us_seqnum u = ucast (getSeqNumber x)"

lemma ucast_suc:
  assumes "unat (n :: u32) < 2 ^ 32 - 1"
  shows "(ucast (n + 1) :: u64) = ucast n + 1"
proof -
  have "unat (n + 1) = unat n + 1" using assms by (simp add: unat_word_ariths)
  then have "(of_nat (unat (n + 1)) :: u64) = of_nat (unat n) + 1" by (simp only: of_nat_add of_nat_1)
  then show ?thesis by simp
qed

lemma in_step_next:
  "in_step x u \<Longrightarrow> unat (getSeqNumber x) < 2 ^ 32 - 1 \<Longrightarrow> in_step (nextSeqNumber x) (us_nextSeqNumber u)"
  using ucast_suc[of "getSeqNumber x"] by (simp add: in_step_def nextSeqNumber_def us_nextSeqNumber_def)

lemma ucast_back [simp]: "(ucast (ucast (n :: u32) :: u64) :: u32) = n"
  by (simp add: ucast_up_ucast_id is_up)

lemma back_output_user:
  "us_login (bk_user b) \<Longrightarrow> bk_user (back_output_step provider lib now True i b) = us_nextSeqNumber (bk_user b)"
  by (simp add: back_output_step_def Let_def)

lemma back_input_user:
  assumes "back_input lib now error d b = Some b'" "us_login (bk_user b)" "error \<noteq> 0"
  shows "bk_user b' = us_nextSeqNumber (bk_user b)"
  using assms by (auto simp: back_input_def back_buildHeader_def back_output_def split: parse_result.splits)

text \<open>
  C30: as long as the two sides take turns, their counters agree and nobody's number is refused:
  when the client sends a message and the server reads it, and when the server sends one and the
  client reads it, both counters move to the same value and the header that was sent passes the
  receiver's check of names and number.
\<close>

theorem turns_stay_in_step:
  assumes step: "in_step (cs_heap s c) (bk_user b)" "unat (getSeqNumber (cs_heap s c)) < 2 ^ 32 - 1"
    and provider: "cf_ProviderName cf = provider"
  shows "(process lib now recv c s = Some (False, s1) \<longrightarrow> b1 = back_output_step provider lib now True i b \<longrightarrow>
       in_step (cs_heap s1 c) (bk_user b1)
       \<and> verifyUserSpecific cf (back_header provider lib now i (bk_user b)) (cs_heap s1 c) = None)
    \<and> (output_task cf lib now True j s = Some s2 \<longrightarrow> so_Client j = c \<longrightarrow> isConnected c s \<longrightarrow> \<not> shouldDisconnect (cs_heap s c)
       \<longrightarrow> back_input lib now error d b = Some b2 \<longrightarrow> error \<noteq> 0 \<longrightarrow>
       in_step (cs_heap s2 c) (bk_user b2)
       \<and> back_verifyUserSpecific provider (output_header cf lib now j (cs_heap s c)) (bk_user b2) = None)"
proof -
  have l: "isLoggedin (cs_heap s c)" "us_login (bk_user b)" using step(1) by (simp_all add: in_step_def)
  note nx = in_step_next[OF step]
  show ?thesis
  proof (intro conjI impI)
    assume p: "process lib now recv c s = Some (False, s1)" and b1: "b1 = back_output_step provider lib now True i b"
    note h = process_counts(1)[OF p l(1)]
    show "in_step (cs_heap s1 c) (bk_user b1)" using nx by (simp add: h b1 back_output_user[OF l(2)])
    show "verifyUserSpecific cf (back_header provider lib now i (bk_user b)) (cs_heap s1 c) = None"
      using step(1) by (simp add: h verifyUserSpecific_def back_header_def nextSeqNumber_def Let_def provider in_step_def)
  next
    assume o: "output_task cf lib now True j s = Some s2" "so_Client j = c" "isConnected c s" "\<not> shouldDisconnect (cs_heap s c)"
      and i: "back_input lib now error d b = Some b2" "error \<noteq> 0"
    note h = output_task_counts[OF o l(1)] and u = back_input_user[OF i(1) l(2) i(2)]
    show "in_step (cs_heap s2 c) (bk_user b2)" using nx by (simp add: h u)
    show "back_verifyUserSpecific provider (output_header cf lib now j (cs_heap s c)) (bk_user b2) = None"
      using step(1) by (simp add: u back_verifyUserSpecific_def output_header_def us_nextSeqNumber_def Let_def provider in_step_def)
  qed
qed

definition sample_user :: User where
  "sample_user = (User_init 0 30)\<lparr>us_login := True, us_userid := ''alice'', us_seqnum := 7\<rparr>"

definition sample_back :: "User \<Rightarrow> backend" where
  "sample_back u = \<lparr>bk_user = u, bk_fm = \<lparr>fm_auth = False, fm_handshake = False, fm_token = None\<rparr>,
     bq_header = [], bq_router = [], bq_auth = [], bq_heartbeat = [], bq_execution = [], bq_output = [],
     bq_builder = [], bk_ipc_header = \<lparr>ih_MsgType = IT_Reject, ih_BodySize = 0\<rparr>, bk_front = [], bk_initiator = [],
     bk_wire = []\<rparr>"

lemma sample_in_step: "in_step (cs_heap sample_session 0) (bk_user (sample_back sample_user))"
  by (simp add: in_step_def sample_session_simps sample_user_def sample_back_def)

theorem turns_stay_in_step_witness:
  "\<exists>s1. process plain_lib 0 (99, sample_frame) 0 sample_session = Some (False, s1)
     \<and> in_step (cs_heap s1 0) (bk_user (back_output_step ''srv'' plain_lib 0 True
         \<lparr>bo_ReceiveTime = 0, bo_MessageType = MT_Logout, bo_Message = M_Logout\<rparr> (sample_back sample_user)))"
proof -
  have p: "process plain_lib 0 (99, sample_frame) 0 sample_session
      = Some (False, (upd_client 0 nextSeqNumber sample_session)\<lparr>q_header := ts_push sample_message (q_header sample_session)\<rparr>)"
    by (rule process_sample) (simp_all add: sample_session_simps)
  have "unat (getSeqNumber (cs_heap sample_session 0)) < 2 ^ 32 - 1" "cf_ProviderName ex_config = ''srv''"
    by (simp_all add: sample_session_simps ex_config_def)
  from turns_stay_in_step[OF sample_in_step this, of plain_lib 0 "(99, sample_frame)"] p show ?thesis by blast
qed

text \<open>
  C31: a logon brings the two sides in step, wherever their counters stood: after the server has
  accepted the client's logon and sent its answer, and the client has handled the answer, both
  are logged in under the client's name and hold the same number.
\<close>

theorem logon_brings_in_step:
  assumes client: "um_Client i = c" "um_Header i = back_header provider lib now k (bk_user b)"
    and server: "logon_onInput lib cf now1 i s = Some s1" "\<not> isLoggedin (cs_heap s c)" "isLoggedin (cs_heap s1 c)"
    and answer: "output_task cf lib now2 True j s1 = Some s2" "so_Client j = c" "isConnected c s1" "\<not> shouldDisconnect (cs_heap s1 c)"
    and handled: "sm_Header m = output_header cf lib now2 j (cs_heap s1 c)"
      "parseMessage lib MT_Logon (fl_Logon lib) (sm_Message m) (sm_Header m) = Inr l"
  shows "in_step (cs_heap s2 c) (bk_user (back_handleLogon lib now3 m b'))
    \<and> getUserId (cs_heap s2 c) = us_userid (bk_user b)"
proof -
  have u: "getUserId (cs_heap s1 c) = us_userid (bk_user b)"
    using server client
    by (auto simp: logon_onInput_def logon_verify_def append_output_def upd_client_def do_login_def login_def setSince_def
        setSeqNumber_def back_header_def Let_def split: sum.splits if_splits option.splits)
  have h: "cs_heap s2 c = nextSeqNumber (cs_heap s1 c)" by (rule output_task_counts[OF answer server(3)])
  have m: "h_MsgSeqNum (sm_Header m) = getSeqNumber (cs_heap s1 c)" "h_TargetCompId (sm_Header m) = getUserId (cs_heap s1 c)"
    by (simp_all add: handled(1) output_header_def)
  have "bk_user (back_handleLogon lib now3 m b') = us_do_login (h_TargetCompId (sm_Header m))
      (us_setSeqNumber (ucast (h_MsgSeqNum (sm_Header m) + 1)) ((bk_user b')\<lparr>us_elapsing := lg_HeartBtInt l, us_since := now3\<rparr>))"
    using handled(2) by (simp add: back_handleLogon_def Let_def front_send_def)
  then show ?thesis
    using server(3) u by (simp add: in_step_def h m nextSeqNumber_def us_do_login_def us_setSeqNumber_def)
qed

text \<open>A connection that is not logged in, and what it and the client exchange.\<close>

definition logon_session :: server where
  "logon_session = sample_session\<lparr>cs_heap := (\<lambda>_. InternalClient_new (Some 0))\<rparr>"

definition logon_message :: UnparsedMessage where
  "logon_message = \<lparr>um_Client = 0, um_ReceiveTime = 0, um_Header = back_header ''srv'' plain_lib 9
     \<lparr>bo_ReceiveTime = 0, bo_MessageType = MT_Logon, bo_Message = M_Logon Logon_init\<rparr> (User_init 0 30),
     um_Message = [(''98'', ''0''), (''108'', ''30'')]\<rparr>"

theorem logon_brings_in_step_witness:
  "\<exists>s1 s2 m. logon_onInput plain_lib ex_config 5 logon_message logon_session = Some s1
     \<and> output_task ex_config plain_lib 6 True (hd (q_output s1)) s1 = Some s2
     \<and> in_step (cs_heap s2 0) (bk_user (back_handleLogon plain_lib 7 m (sample_back (User_init 0 30))))"
proof -
  let ?l = "\<lparr>lg_EncryptMethod = EM_None, lg_HeartBtInt = 30\<rparr>"
  have p: "parseMessage plain_lib MT_Logon (fl_Logon plain_lib) (um_Message logon_message) (um_Header logon_message) = Inr ?l"
    by (simp add: parseMessage_def logon_message_def sample_logon)
  have c: "um_Client logon_message = 0" "cs_heap logon_session c = InternalClient_new (Some 0)" for c
    by (simp_all add: logon_message_def logon_session_def)
  have e: "heartbeat_interval ex_config 30 = Some 30"
    using heartbeat_interval_eq[of 30 ex_config 30] by (simp add: ex_config_def)
  let ?j = "\<lparr>so_Client = 0, so_ReceiveTime = um_ReceiveTime logon_message, so_MessageType = MT_Logon, so_Message = M_Logon ?l\<rparr>"
  have q: "q_output logon_session = []" "sk_fd logon_session 0 = 5" "sk_open logon_session 5"
    by (simp_all add: logon_session_def sample_session_simps sample_session_def input_accept_def Acceptor_accept_def
        newClientSocket_def Selector_client_def server_init_def Let_def)
  obtain s1 where s1: "logon_onInput plain_lib ex_config 5 logon_message logon_session = Some s1" "q_output s1 = [?j]"
    "cs_heap s1 0 = do_login 5 logon_message 30 (InternalClient_new (Some 0))" "sk_fd s1 0 = 5" "sk_open s1 5"
    using p c e q
    by (simp add: logon_onInput_def logon_verify_def InternalClient_new_def append_output_def upd_client_def ts_push_def
        Logon_init_def Let_def)
  have l: "isLoggedin (cs_heap s1 0)" "\<not> shouldDisconnect (cs_heap s1 0)" "isConnected 0 s1"
    using s1 by (simp_all add: do_login_def login_def setSince_def setSeqNumber_def InternalClient_new_def Let_def
        isConnected_def BaseSocket_isOpen_def)
  have k: "ic_socket (cs_heap s1 0) = Some 0"
    using s1(3) by (simp add: do_login_def login_def setSince_def setSeqNumber_def InternalClient_new_def Let_def)
  have "\<exists>s2. output_task ex_config plain_lib 6 True ?j s1 = Some s2"
    using l k by (simp add: output_task_def client_send_def isConnected_def BaseSocket_isOpen_def upd_client_def nextSeqNumber_def)
  then obtain s2 where s2: "output_task ex_config plain_lib 6 True ?j s1 = Some s2" ..
  let ?m = "\<lparr>sm_ReceiveTime = 0, sm_Header = output_header ex_config plain_lib 6 ?j (cs_heap s1 0),
    sm_Message = [(''98'', ''0''), (''108'', ''30'')]\<rparr>"
  have h: "um_Header logon_message = back_header ''srv'' plain_lib 9
     \<lparr>bo_ReceiveTime = 0, bo_MessageType = MT_Logon, bo_Message = M_Logon Logon_init\<rparr> (bk_user (sample_back (User_init 0 30)))"
    by (simp add: logon_message_def sample_back_def)
  have "\<not> isLoggedin (cs_heap logon_session 0)" by (simp add: c InternalClient_new_def)
  note st = logon_brings_in_step[OF c(1) h s1(1) this l(1) s2 _ l(3,2)]
  have "in_step (cs_heap s2 0) (bk_user (back_handleLogon plain_lib 7 ?m (sample_back (User_init 0 30))))"
    by (rule conjunct1[OF st]) (simp_all add: parseMessage_def sample_logon)
  with s1 s2 show ?thesis by auto
qed

section \<open>Execution reports\<close>

text \<open>
  C32: the server's report of a trade ends the client: it carries no price, and the execution
  unit of the back end reads the price of every report of a new, partly filled or filled order.
  Then the polling loop of the back end returns, and stops every unit. The acknowledgement of an
  order carries both price and quantity and reaches the front end as one frame.
\<close>

theorem fill_report_crashes_back_end:
  assumes parse: "fl_ExecutionReport lib (sm_Message i) = Inr r"
  shows "(r = event_report symbol exec e \<longrightarrow> ev_execStatus e \<in> {OS_PartiallyFilled, OS_Filled} \<longrightarrow> execution_onInput lib i b = None)
    \<and> (r = ack_report symbol info \<longrightarrow> execution_onInput lib i b = Some (front_send (Helper_ExecutionEvent IT_ExecNew
        \<lparr>ie_symbol = symbol, ie_orderId = o_orderId (oi_order info), ie_execId = oi_execid info, ie_avgPrice = fzero,
         ie_price = oi_price info, ie_side = o_side (oi_order info), ie_quantity = o_originalQty (oi_order info),
         ie_remainQty = o_remainQty (oi_order info)\<rparr>) b))
    \<and> (pu_status (fst (st B_Execution)) (snd (st B_Execution)) = None \<longrightarrow>
        back_loop ((True, st) # rounds) b = Some (False, back_stopped, b) \<and> set back_stopped = set back_started)"
proof (intro conjI impI)
  assume "r = event_report symbol exec e" "ev_execStatus e \<in> {OS_PartiallyFilled, OS_Filled}"
  then show "execution_onInput lib i b = None"
    using parse by (auto simp: execution_onInput_def parseMessage_def event_report_def treatNewOrder_def
        sendNotificationNew_def ExecutionReport_init_def)
next
  assume "r = ack_report symbol info"
  then show "execution_onInput lib i b = Some (front_send (Helper_ExecutionEvent IT_ExecNew
        \<lparr>ie_symbol = symbol, ie_orderId = o_orderId (oi_order info), ie_execId = oi_execid info, ie_avgPrice = fzero,
         ie_price = oi_price info, ie_side = o_side (oi_order info), ie_quantity = o_originalQty (oi_order info),
         ie_remainQty = o_remainQty (oi_order info)\<rparr>) b)"
    using parse by (simp add: execution_onInput_def parseMessage_def ack_report_def order_report_def treatNewOrder_def
        sendNotificationNew_def)
next
  assume "pu_status (fst (st B_Execution)) (snd (st B_Execution)) = None"
  then show "back_loop ((True, st) # rounds) b = Some (False, back_stopped, b)"
    by (simp add: polls_ok_def back_polled_def)
  show "set back_stopped = set back_started" by (auto simp: back_stopped_def back_started_def)
qed

definition sample_fill :: Event where
  "sample_fill = \<lparr>ev_execStatus = OS_Filled, ev_lastPrice = f32_of_int 2, ev_lastQty = f32_of_int 1,
     ev_order = \<lparr>o_userId = ''alice'', o_orderId = ''o1'', o_originalQty = f32_of_int 1, o_remainQty = fzero,
       o_avgPrice = f32_of_int 2, o_side = Side_Buy, o_status = OS_Filled\<rparr>\<rparr>"

definition fill_lib :: fixlib where
  "fill_lib = plain_lib\<lparr>fl_ExecutionReport := (\<lambda>m. case map_of m ''37'' of None \<Rightarrow> Inl (missing 37)
     | Some oid \<Rightarrow> Inr (event_report ''ACME'' ''x1'' (sample_fill\<lparr>ev_order := (ev_order sample_fill)\<lparr>o_orderId := oid\<rparr>\<rparr>)))\<rparr>"

theorem fill_report_crashes_back_end_witness:
  "execution_onInput fill_lib \<lparr>sm_ReceiveTime = 0, sm_Header = sample_header, sm_Message = [(''37'', ''o7'')]\<rparr> (sample_back sample_user) = None"
proof -
  let ?i = "\<lparr>sm_ReceiveTime = 0, sm_Header = sample_header, sm_Message = [(''37'', ''o7'')]\<rparr>"
  let ?e = "sample_fill\<lparr>ev_order := (ev_order sample_fill)\<lparr>o_orderId := ''o7''\<rparr>\<rparr>"
  have "fl_ExecutionReport fill_lib (sm_Message ?i) = Inr (event_report ''ACME'' ''x1'' ?e)" by (simp add: fill_lib_def)
  note fill_report_crashes_back_end[OF this]
  from conjunct1[OF this, rule_format, OF refl] show ?thesis by (simp add: sample_fill_def)
qed

section \<open>The front end\<close>

text \<open>What the other processes of the client send: events of the two connections, in order.\<close>

datatype back_ipc = From_initiator u8 IpcHeader net_buffer | From_front u8 IpcHeader net_buffer

fun back_ipc_step :: "backend \<Rightarrow> back_ipc \<Rightarrow> backend" where
  "back_ipc_step b (From_initiator junk d f) = initiator_onReceive junk d f b"
| "back_ipc_step b (From_front junk d f) = front_onReceive junk d f b"

text \<open>The token a frame of the initiator, or of the front end, carries.\<close>

fun token_of :: "back_ipc \<Rightarrow> string option" where
  "token_of (From_initiator junk d f) = (case get_IpcHeader junk d f of (h, f1) \<Rightarrow>
     if ih_MsgType h = IT_InitiatorToBackAuth then Some (aib_token (fst (get_AuthInitiatorToBack \<lparr>aib_token = [], aib_apikey = []\<rparr> f1)))
     else None)"
| "token_of (From_front junk d f) = (case get_IpcHeader junk d f of (h, f1) \<Rightarrow>
     if ih_MsgType h = IT_FrontToBackValidToken then Some (fbv_token (fst (get_FrontToBackValidToken \<lparr>fbv_token = []\<rparr> f1)))
     else None)"

fun is_front :: "back_ipc \<Rightarrow> bool" where
  "is_front (From_front junk d f) = True" | "is_front _ = False"

fun is_handshake :: "back_ipc \<Rightarrow> bool" where
  "is_handshake (From_front junk d f) = (ih_MsgType (fst (get_IpcHeader junk d f)) = IT_HandShakeAuth)" | "is_handshake _ = False"

fun front_frame :: "back_ipc \<Rightarrow> net_buffer" where
  "front_frame (From_front junk d f) = buf_reset (snd (get_IpcHeader junk d f))" | "front_frame (From_initiator junk d f) = f"

definition token_given :: "back_ipc list \<Rightarrow> string \<Rightarrow> bool" where
  "token_given evs t \<longleftrightarrow> (\<exists>e \<in> set evs. \<not> is_front e \<and> token_of e = Some t)"

definition front_proved :: "back_ipc list \<Rightarrow> bool" where
  "front_proved evs \<longleftrightarrow> (\<exists>xs e ys t. evs = xs @ e # ys \<and> token_given xs t \<and> is_front e \<and> token_of e = Some t)"

definition opened :: "back_ipc list \<Rightarrow> back_ipc list \<Rightarrow> bool" where
  "opened evs after \<longleftrightarrow> (\<exists>xs e. evs = xs @ e # after \<and> front_proved xs \<and> is_handshake e)"

definition front_inv :: "back_ipc list \<Rightarrow> backend \<Rightarrow> bool" where
  "front_inv evs b \<longleftrightarrow> (\<forall>t. fm_token (bk_fm b) = Some t \<longrightarrow> token_given evs t)
    \<and> (fm_auth (bk_fm b) \<longrightarrow> front_proved evs)
    \<and> (if fm_auth (bk_fm b) \<and> fm_handshake (bk_fm b)
       then \<exists>after. opened evs after \<and> bq_builder b = map front_frame (filter is_front after)
       else \<not> fm_handshake (bk_fm b) \<and> bq_builder b = [])"

lemma token_given_snoc: "token_given evs t \<Longrightarrow> token_given (evs @ [e]) t"
  by (auto simp: token_given_def)

lemma front_proved_snoc: "front_proved evs \<Longrightarrow> front_proved (evs @ [e])"
  unfolding front_proved_def by (metis append.assoc append_Cons)

lemma opened_snoc: "opened evs after \<Longrightarrow> opened (evs @ [e]) (after @ [e])"
  unfolding opened_def by (metis append.assoc append_Cons)

lemma opened_other:
  "\<not> is_front e \<Longrightarrow> opened evs after \<Longrightarrow> \<exists>after'. opened (evs @ [e]) after' \<and> filter is_front after' = filter is_front after"
  using opened_snoc[of evs after e] by (auto intro!: exI[of _ "after @ [e]"])

lemma opened_now: "front_proved evs \<Longrightarrow> is_handshake e \<Longrightarrow> opened (evs @ [e]) []"
  unfolding opened_def by blast

lemma front_proved_now: "token_given evs t \<Longrightarrow> is_front e \<Longrightarrow> token_of e = Some t \<Longrightarrow> front_proved (evs @ [e])"
  unfolding front_proved_def by blast

lemma front_onReceive_eq:
  "front_onReceive junk d f b =
     (let h = fst (get_IpcHeader junk d f); fm = bk_fm b in
      if fm_auth fm \<and> fm_handshake fm then b\<lparr>bq_builder := ts_push (front_frame (From_front junk d f)) (bq_builder b)\<rparr>
      else if fm_auth fm then (if ih_MsgType h = IT_HandShakeAuth then b\<lparr>bk_fm := fm\<lparr>fm_handshake := True\<rparr>\<rparr>
        else fm_reject ''Client is missing handshake to processed'' b)
      else case token_of (From_front junk d f) of
          None \<Rightarrow> fm_reject ''Client is missing token authentication to processed'' b
        | Some t \<Rightarrow> (case fm_token fm of
            None \<Rightarrow> fm_reject ''Client is didn't set token before front to back validation'' b
          | Some t' \<Rightarrow> if t = t' then (front_send (Helper_BackToFrontToken \<lparr>fbv_token = t\<rparr>) b)\<lparr>bk_fm := fm\<lparr>fm_auth := True\<rparr>\<rparr>
              else fm_reject ''Invalid token provided, shuting down connection and process'' b))"
  by (auto simp: front_onReceive_def authValidation_def Let_def split: prod.splits option.splits)

lemma reject_keeps [simp]:
  "bk_fm (fm_reject t b) = bk_fm b" "bq_builder (fm_reject t b) = bq_builder b" "bk_user (fm_reject t b) = bk_user b"
  by (simp_all add: fm_reject_def front_send_def)

lemma initiator_onReceive_eq:
  "initiator_onReceive junk d f b = (case token_of (From_initiator junk d f) of None \<Rightarrow> b | Some t \<Rightarrow> setupToken t b)"
  by (auto simp: initiator_onReceive_def split: prod.splits IpcType.splits)

lemma front_inv_step:
  assumes "front_inv evs b"
  shows "front_inv (evs @ [e]) (back_ipc_step b e)"
proof (cases e)
  case (From_initiator junk d f)
  have new: "token_of e = Some t \<Longrightarrow> token_given (evs @ [e]) t" for t
    using From_initiator by (auto simp: token_given_def)
  have inv: "fm_token (bk_fm b) = Some t \<longrightarrow> token_given evs t" "fm_auth (bk_fm b) \<longrightarrow> front_proved (evs @ [e])"
    "if fm_auth (bk_fm b) \<and> fm_handshake (bk_fm b)
     then \<exists>after. opened (evs @ [e]) after \<and> bq_builder b = map front_frame (filter is_front after)
     else \<not> fm_handshake (bk_fm b) \<and> bq_builder b = []" for t
    using assms opened_other[of e evs] From_initiator by (auto simp: front_inv_def front_proved_snoc split: if_splits) metis
  show ?thesis
  proof (cases "token_of e")
    case None
    then have "back_ipc_step b e = b" using From_initiator by (simp add: initiator_onReceive_eq)
    with inv show ?thesis unfolding front_inv_def by (metis token_given_snoc)
  next
    case (Some t)
    then have "back_ipc_step b e = setupToken t b" using From_initiator by (simp add: initiator_onReceive_eq)
    with inv new[OF Some] show ?thesis by (auto simp: front_inv_def setupToken_def split: if_splits)
  qed
next
  case (From_front junk d f)
  let ?fm = "bk_fm b"
  have st: "back_ipc_step b e = front_onReceive junk d f b" using From_front by simp
  consider (opened) "fm_auth ?fm" "fm_handshake ?fm" | (auth) "fm_auth ?fm" "\<not> fm_handshake ?fm" | (no) "\<not> fm_auth ?fm" by blast
  then show ?thesis
  proof cases
    case opened
    with assms obtain after where a: "opened evs after" "bq_builder b = map front_frame (filter is_front after)"
      by (auto simp: front_inv_def)
    have "opened (evs @ [e]) (after @ [e])" "map front_frame (filter is_front (after @ [e])) = bq_builder b @ [front_frame e]"
      using a From_front by (simp_all add: opened_snoc)
    moreover have "back_ipc_step b e = b\<lparr>bq_builder := bq_builder b @ [front_frame e]\<rparr>"
      using opened From_front by (simp add: front_onReceive_eq ts_push_def)
    ultimately show ?thesis using assms opened by (auto simp: front_inv_def token_given_snoc front_proved_snoc)
  next
    case auth
    then have i: "front_proved evs" "bq_builder b = []" using assms by (auto simp: front_inv_def)
    show ?thesis
    proof (cases "is_handshake e")
      case True
      then have "back_ipc_step b e = b\<lparr>bk_fm := ?fm\<lparr>fm_handshake := True\<rparr>\<rparr>"
        using auth From_front by (simp add: front_onReceive_eq Let_def)
      with opened_now[OF i(1) True] i assms auth show ?thesis
        by (auto simp: front_inv_def token_given_snoc front_proved_snoc intro!: exI[of _ "[]"])
    next
      case False
      then have "back_ipc_step b e = fm_reject ''Client is missing handshake to processed'' b"
        using auth From_front by (simp add: front_onReceive_eq Let_def)
      with i assms auth show ?thesis by (auto simp: front_inv_def token_given_snoc front_proved_snoc)
    qed
  next
    case no
    then have i: "\<not> fm_handshake ?fm" "bq_builder b = []" "\<And>t. fm_token ?fm = Some t \<Longrightarrow> token_given evs t"
      using assms by (auto simp: front_inv_def)
    show ?thesis
    proof (cases "\<exists>t. token_of e = Some t \<and> fm_token ?fm = Some t")
      case True
      then obtain t where t: "token_of e = Some t" "fm_token ?fm = Some t" by blast
      then have "back_ipc_step b e = (front_send (Helper_BackToFrontToken \<lparr>fbv_token = t\<rparr>) b)\<lparr>bk_fm := ?fm\<lparr>fm_auth := True\<rparr>\<rparr>"
        using no From_front by (simp add: front_onReceive_eq Let_def)
      moreover have "front_proved (evs @ [e])" using front_proved_now[OF i(3)[OF t(2)] _ t(1)] From_front by simp
      ultimately show ?thesis using i by (auto simp: front_inv_def front_send_def token_given_snoc)
    next
      case False
      then have "\<exists>x. back_ipc_step b e = fm_reject x b"
        using no From_front by (auto simp: front_onReceive_eq Let_def split: option.splits)
      then show ?thesis using i no by (auto simp: front_inv_def token_given_snoc)
    qed
  qed
qed

lemma front_inv_run:
  "front_inv evs b \<Longrightarrow> front_inv (evs @ rest) (foldl back_ipc_step b rest)"
proof (induction rest arbitrary: evs b)
  case (Cons e rest)
  from Cons.IH[OF front_inv_step[OF Cons.prems]] show ?case by simp
qed simp

context frame
begin

lemma frame_header:
  assumes "ok x" "length (enc x) < 2 ^ 32"
  obtains n where "get_IpcHeader junk d (helper x) = (\<lparr>ih_MsgType = ty, ih_BodySize = n\<rparr>, skip sizeof_IpcHeader (helper x))"
proof -
  let ?h = "\<lparr>ih_MsgType = ty, ih_BodySize = of_nat (length (enc x))\<rparr>"
  have r: "reads_at (helper x) (enc_IpcHeader ?h @ (enc x @ []))"
    using assms frame_bytes[OF assms(1)] frame_fresh[OF assms(1)] by (simp add: reads_at_def enc_IpcHeader_def)
  have k: "IpcType_ok (ih_MsgType ?h)" using ty_ok by simp
  have "get_IpcHeader junk d (helper x) = (?h, skip (length (enc_IpcHeader ?h)) (helper x))" by (rule wh.get_enc[OF k r])
  then show thesis by (intro that) (simp add: enc_IpcHeader_def sizeof_IpcHeader_def)
qed

lemma frame_reset: "ok x \<Longrightarrow> buf_reset (skip n (helper x)) = helper x"
  using frame_fresh[of x] by (simp add: buf_reset_def skip_def)

lemma frame_message:
  assumes "ok x" "length (enc x) < 2 ^ 32"
  shows "fst (get d' (skip sizeof_IpcHeader (helper x))) = x"
proof -
  obtain n where h: "get_IpcHeader 0 d (helper x) = (\<lparr>ih_MsgType = ty, ih_BodySize = n\<rparr>, skip sizeof_IpcHeader (helper x))"
    by (rule frame_header[OF assms])
  show ?thesis by (rule frame_read(3)[OF assms h])
qed

end

text \<open>What the back end makes of the frames of an honest front end.\<close>

lemma front_token:
  assumes "short t" "\<not> fm_auth (bk_fm b)" "fm_token (bk_fm b) = Some t"
  shows "front_onReceive junk d (Helper_FrontToBackToken \<lparr>fbv_token = t\<rparr>) b
    = (front_send (Helper_BackToFrontToken \<lparr>fbv_token = t\<rparr>) b)\<lparr>bk_fm := (bk_fm b)\<lparr>fm_auth := True\<rparr>\<rparr>"
proof -
  have ok: "ok_FrontToBackValidToken \<lparr>fbv_token = t\<rparr>" "length (enc_FrontToBackValidToken \<lparr>fbv_token = t\<rparr>) < 2 ^ 32"
    using assms(1) by (simp_all add: ok_FrontToBackValidToken_def enc_FrontToBackValidToken_def short_ok) (simp add: short_def)
  obtain n where h: "get_IpcHeader junk d (Helper_FrontToBackToken \<lparr>fbv_token = t\<rparr>)
      = (\<lparr>ih_MsgType = IT_FrontToBackValidToken, ih_BodySize = n\<rparr>, skip sizeof_IpcHeader (Helper_FrontToBackToken \<lparr>fbv_token = t\<rparr>))"
    by (rule hfbv.frame_header[OF ok])
  then have "token_of (From_front junk d (Helper_FrontToBackToken \<lparr>fbv_token = t\<rparr>)) = Some t"
    by (simp add: hfbv.frame_message[OF ok])
  with assms(2,3) show ?thesis by (simp add: front_onReceive_eq Let_def del: token_of.simps)
qed

lemma initiator_token:
  assumes "short t" "short key"
  shows "initiator_onReceive junk d (Helper_InitiatorToBack \<lparr>aib_token = t, aib_apikey = key\<rparr>) b = setupToken t b"
proof -
  let ?x = "\<lparr>aib_token = t, aib_apikey = key\<rparr>"
  have ok: "ok_AuthInitiatorToBack ?x" "length (enc_AuthInitiatorToBack ?x) < 2 ^ 32"
    using assms by (simp_all add: ok_AuthInitiatorToBack_def enc_AuthInitiatorToBack_def short_ok) (simp add: short_def)
  obtain n where h: "get_IpcHeader junk d (Helper_InitiatorToBack ?x)
      = (\<lparr>ih_MsgType = IT_InitiatorToBackAuth, ih_BodySize = n\<rparr>, skip sizeof_IpcHeader (Helper_InitiatorToBack ?x))"
    by (rule hib.frame_header[OF ok])
  then have "token_of (From_initiator junk d (Helper_InitiatorToBack ?x)) = Some t" by (simp add: hib.frame_message[OF ok])
  then show ?thesis by (simp add: initiator_onReceive_eq del: token_of.simps)
qed

lemma front_handshake:
  assumes "fm_auth (bk_fm b)" "\<not> fm_handshake (bk_fm b)"
  shows "front_onReceive junk d Helper_HandShake b = b\<lparr>bk_fm := (bk_fm b)\<lparr>fm_handshake := True\<rparr>\<rparr>"
proof -
  let ?h = "\<lparr>ih_MsgType = IT_HandShakeAuth, ih_BodySize = 0\<rparr>"
  have k: "IpcType_ok (ih_MsgType ?h)" by (simp add: IpcType_all_ok IpcType_all_def)
  have "reads_at Helper_HandShake (enc_IpcHeader ?h @ [])"
    using k by (simp add: Helper_HandShake_def wh.put_enc append_bytes_def Buffer_init_def reads_at_def enc_IpcHeader_def)
  from wh.get_enc[OF k this, of junk d] show ?thesis using assms by (simp add: front_onReceive_eq Let_def)
qed

lemma front_logon:
  assumes "fm_auth (bk_fm b)" "fm_handshake (bk_fm b)" "short (il_UserId l)"
  shows "front_onReceive junk d (Helper_Logon l) b = b\<lparr>bq_builder := bq_builder b @ [Helper_Logon l]\<rparr>"
    and "\<exists>h. builder_step junk dl do now (Helper_Logon l) b' = back_output now
            (M_Logon (Logon_init\<lparr>lg_EncryptMethod := EM_None, lg_HeartBtInt := il_HeartBeat l + 1\<rparr>))
            (b'\<lparr>bk_ipc_header := h, bk_user := (bk_user b')\<lparr>us_userid := il_UserId l, us_seqnum := ucast (il_SeqNum l)\<rparr>\<rparr>)"
proof -
  have ok: "ok_IpcLogon l" using assms(3) by (simp add: ok_IpcLogon_def short_ok)
  have len: "length (enc_IpcLogon l) < 2 ^ 32" using assms(3) by (simp add: short_def enc_IpcLogon_def)
  obtain n where h: "get_IpcHeader junk d (Helper_Logon l) = (\<lparr>ih_MsgType = IT_Logon, ih_BodySize = n\<rparr>, skip sizeof_IpcHeader (Helper_Logon l))"
    by (rule hlog.frame_header[OF ok len])
  then show "front_onReceive junk d (Helper_Logon l) b = b\<lparr>bq_builder := bq_builder b @ [Helper_Logon l]\<rparr>"
    using assms by (simp add: front_onReceive_eq hlog.frame_reset[OF ok] ts_push_def)
  obtain n' where "get_IpcHeader junk (bk_ipc_header b') (Helper_Logon l) = (\<lparr>ih_MsgType = IT_Logon, ih_BodySize = n'\<rparr>, skip sizeof_IpcHeader (Helper_Logon l))"
    by (rule hlog.frame_header[OF ok len])
  with hlog.frame_message[OF ok len, of dl] show "\<exists>h. builder_step junk dl do now (Helper_Logon l) b' = back_output now
            (M_Logon (Logon_init\<lparr>lg_EncryptMethod := EM_None, lg_HeartBtInt := il_HeartBeat l + 1\<rparr>))
            (b'\<lparr>bk_ipc_header := h, bk_user := (bk_user b')\<lparr>us_userid := il_UserId l, us_seqnum := ucast (il_SeqNum l)\<rparr>\<rparr>)"
    by (intro exI[of _ "\<lparr>ih_MsgType = IT_Logon, ih_BodySize = n'\<rparr>"])
      (simp add: builder_step_def buildLogon_def us_setSeqNumber_def us_setUserId_def Let_def case_prod_beta)
qed

lemma front_order:
  assumes "fm_auth (bk_fm b)" "fm_handshake (bk_fm b)"
    "short (io_symbol x) \<and> short (io_orderId x) \<and> wf_f32 (io_price x) \<and> wf_f32 (io_quantity x) \<and> side_ok (io_type x)"
  shows "front_onReceive junk d (Helper_OrderSingle x) b = b\<lparr>bq_builder := bq_builder b @ [Helper_OrderSingle x]\<rparr>"
    and "\<exists>h. builder_step junk dl do now (Helper_OrderSingle x) b' = back_output now (M_NewOrderSingle (NewOrderSingle_init\<lparr>
            no_ClOrdID := io_orderId x, no_HandlInst := HI_Manual, no_OrderQty := Some (io_quantity x),
            no_OrdType := OT_Limit, no_Price := Some (io_price x), no_Side := io_type x, no_Symbol := io_symbol x\<rparr>))
          (b'\<lparr>bk_ipc_header := h\<rparr>)"
proof -
  have ok: "ok_IpcOrderSingle x" using assms(3) by (simp add: ok_IpcOrderSingle_def short_ok)
  have len: "length (enc_IpcOrderSingle x) < 2 ^ 32" using assms(3) by (simp add: short_def enc_IpcOrderSingle_def)
  obtain n where h: "get_IpcHeader junk d (Helper_OrderSingle x) = (\<lparr>ih_MsgType = IT_OrderSingle, ih_BodySize = n\<rparr>, skip sizeof_IpcHeader (Helper_OrderSingle x))"
    by (rule hos.frame_header[OF ok len])
  then show "front_onReceive junk d (Helper_OrderSingle x) b = b\<lparr>bq_builder := bq_builder b @ [Helper_OrderSingle x]\<rparr>"
    using assms by (simp add: front_onReceive_eq hos.frame_reset[OF ok] ts_push_def)
  obtain n' where "get_IpcHeader junk (bk_ipc_header b') (Helper_OrderSingle x) = (\<lparr>ih_MsgType = IT_OrderSingle, ih_BodySize = n'\<rparr>, skip sizeof_IpcHeader (Helper_OrderSingle x))"
    by (rule hos.frame_header[OF ok len])
  with hos.frame_message[OF ok len, of junk do] show "\<exists>h. builder_step junk dl do now (Helper_OrderSingle x) b' = back_output now (M_NewOrderSingle (NewOrderSingle_init\<lparr>
            no_ClOrdID := io_orderId x, no_HandlInst := HI_Manual, no_OrderQty := Some (io_quantity x),
            no_OrdType := OT_Limit, no_Price := Some (io_price x), no_Side := io_type x, no_Symbol := io_symbol x\<rparr>))
          (b'\<lparr>bk_ipc_header := h\<rparr>)"
    by (intro exI[of _ "\<lparr>ih_MsgType = IT_OrderSingle, ih_BodySize = n'\<rparr>"])
      (simp add: builder_step_def buildOrderSingle_def Let_def case_prod_beta)
qed

text \<open>
  C33: no frame of the front end reaches the message builder before the front end has proved
  itself: whatever the two processes send in whatever order, if the builder has received anything,
  then the initiator had given a token, later the front end sent that token, later still a
  handshake, and the builder's queue holds exactly the frames the front end sent after it, in
  order and with the cursor back at their start.
\<close>

theorem builder_gets_frames_of_proved_front:
  assumes "bk_fm b = \<lparr>fm_auth = False, fm_handshake = False, fm_token = None\<rparr>" "bq_builder b = []"
    and "bq_builder (foldl back_ipc_step b evs) \<noteq> []"
  shows "\<exists>after. opened evs after \<and> bq_builder (foldl back_ipc_step b evs) = map front_frame (filter is_front after)"
proof -
  have "front_inv [] b" using assms(1,2) by (simp add: front_inv_def)
  from front_inv_run[OF this, of evs] assms(3) show ?thesis by (auto simp: front_inv_def split: if_splits)
qed

text \<open>The initiator gives a token, the front end sends it, then a handshake, then an order.\<close>

definition sample_order :: IpcOrderSingle where
  "sample_order = \<lparr>io_symbol = ''ACME'', io_orderId = ''o1'', io_price = f32_of_int 2, io_quantity = f32_of_int 1, io_type = Side_Buy\<rparr>"

lemma sample_order_ok:
  "short (io_symbol sample_order) \<and> short (io_orderId sample_order) \<and> wf_f32 (io_price sample_order)
    \<and> wf_f32 (io_quantity sample_order) \<and> side_ok (io_type sample_order)"
  using side_all_ok[of Side_Buy] wf_f32_whole[of 2] wf_f32_whole[of 1] by (simp add: sample_order_def short_def Side_all_def)

definition sample_traffic :: "back_ipc list" where
  "sample_traffic = (let h = \<lparr>ih_MsgType = IT_Reject, ih_BodySize = 0\<rparr> in
     [From_initiator 0 h (Helper_InitiatorToBack \<lparr>aib_token = ''t'', aib_apikey = ''k''\<rparr>),
      From_front 0 h (Helper_FrontToBackToken \<lparr>fbv_token = ''t''\<rparr>), From_front 0 h Helper_HandShake,
      From_front 0 h (Helper_OrderSingle sample_order)])"

lemma sample_traffic_opens:
  "bq_builder (foldl back_ipc_step (sample_back u) sample_traffic) = [Helper_OrderSingle sample_order]"
proof -
  have "short ''t''" "short ''k''" by (simp_all add: short_def)
  then show ?thesis
    using sample_order_ok
    by (simp add: sample_traffic_def sample_back_def initiator_token setupToken_def front_token front_send_def
        front_handshake front_order Let_def)
qed

theorem builder_gets_frames_of_proved_front_witness:
  "\<exists>after. opened sample_traffic after \<and> map front_frame (filter is_front after) = [Helper_OrderSingle sample_order]"
proof -
  have "bk_fm (sample_back sample_user) = \<lparr>fm_auth = False, fm_handshake = False, fm_token = None\<rparr>"
    "bq_builder (sample_back sample_user) = []" by (simp_all add: sample_back_def)
  from builder_gets_frames_of_proved_front[OF this, of sample_traffic] show ?thesis
    by (simp add: sample_traffic_opens) metis
qed

text \<open>
  An order the front end sends arrives at the server's side as it was entered: the frame the
  front end builds passes the authentication unchanged, and the builder makes of it a limit order
  with the same identifier, symbol, side, price and quantity. A logon frame sets the user's name
  and number and asks for a heartbeat interval one second longer than the one entered.
\<close>

theorem front_order_becomes_fix_order:
  assumes "fm_auth (bk_fm b)" "fm_handshake (bk_fm b)"
  shows "(short (io_symbol x) \<and> short (io_orderId x) \<and> wf_f32 (io_price x) \<and> wf_f32 (io_quantity x) \<and> side_ok (io_type x) \<longrightarrow>
      (\<exists>f h. front_onReceive junk d (Helper_OrderSingle x) b = b\<lparr>bq_builder := bq_builder b @ [f]\<rparr>
        \<and> builder_step junk dl do now f b' = back_output now (M_NewOrderSingle (NewOrderSingle_init\<lparr>
            no_ClOrdID := io_orderId x, no_HandlInst := HI_Manual, no_OrderQty := Some (io_quantity x),
            no_OrdType := OT_Limit, no_Price := Some (io_price x), no_Side := io_type x, no_Symbol := io_symbol x\<rparr>))
          (b'\<lparr>bk_ipc_header := h\<rparr>)))
    \<and> (short (il_UserId l) \<longrightarrow>
      (\<exists>f h. front_onReceive junk d (Helper_Logon l) b = b\<lparr>bq_builder := bq_builder b @ [f]\<rparr>
        \<and> builder_step junk dl do now f b' = back_output now
            (M_Logon (Logon_init\<lparr>lg_EncryptMethod := EM_None, lg_HeartBtInt := il_HeartBeat l + 1\<rparr>))
            (b'\<lparr>bk_ipc_header := h, bk_user := (bk_user b')\<lparr>us_userid := il_UserId l, us_seqnum := ucast (il_SeqNum l)\<rparr>\<rparr>)))"
  using front_order(1)[OF assms, where x = x and junk = junk and d = d]
    front_order(2)[OF assms, where x = x and junk = junk and dl = dl and do = do and now = now and b' = b']
    front_logon(1)[OF assms, where l = l and junk = junk and d = d]
    front_logon(2)[OF assms, where l = l and junk = junk and dl = dl and do = do and now = now and b' = b']
  by blast

theorem front_order_becomes_fix_order_witness:
  "\<exists>f h. builder_step 0 \<lparr>il_UserId = [], il_SeqNum = 0, il_HeartBeat = 0\<rparr> sample_order 5 f (sample_back sample_user)
    = back_output 5 (M_NewOrderSingle (NewOrderSingle_init\<lparr>
      no_ClOrdID := ''o1'', no_HandlInst := HI_Manual, no_OrderQty := Some (f32_of_int 1),
      no_OrdType := OT_Limit, no_Price := Some (f32_of_int 2), no_Side := Side_Buy, no_Symbol := ''ACME''\<rparr>))
    ((sample_back sample_user)\<lparr>bk_ipc_header := h\<rparr>)"
proof -
  let ?b = "(sample_back sample_user)\<lparr>bk_fm := \<lparr>fm_auth = True, fm_handshake = True, fm_token = Some ''t''\<rparr>\<rparr>"
  have "fm_auth (bk_fm ?b)" "fm_handshake (bk_fm ?b)" by simp_all
  note all = front_order_becomes_fix_order[OF this, of sample_order 0 "bk_ipc_header (sample_back sample_user)"
      "\<lparr>il_UserId = [], il_SeqNum = 0, il_HeartBeat = 0\<rparr>" sample_order 5 "sample_back sample_user"]
  have x: "io_symbol sample_order = ''ACME''" "io_orderId sample_order = ''o1''" "io_price sample_order = f32_of_int 2"
    "io_quantity sample_order = f32_of_int 1" "io_type sample_order = Side_Buy"
    by (simp_all add: sample_order_def)
  from mp[OF conjunct1[OF all] sample_order_ok] show ?thesis unfolding x by blast
qed

end
