(* ===== verification/InitiatorClaims.thy ===== *)
theory InitiatorClaims
  imports Initiator BackClaims
begin

text \<open>
  The properties of the initiator, and of the three processes it brings together.
\<close>

section \<open>The table of clients\<close>

lemma row_matches_connected [simp]: "row_matches key name (r\<lparr>cr_connected := v\<rparr>) = row_matches key name r"
  by (simp add: row_matches_def)

lemma sql_select_connected:
  "sql_select key name (sql_connected v key' name' t) = map_option
     (\<lambda>r. if key' = Some key \<and> name' = name then r\<lparr>cr_connected := Some v\<rparr> else r) (sql_select key name t)"
  unfolding sql_select_def sql_connected_def by (induction t) (auto simp: row_matches_def)

text \<open>What the authentication of a front end does, on each branch.\<close>

definition reject_front :: "string \<Rightarrow> sref \<Rightarrow> initiator \<Rightarrow> initiator" where
  "reject_front text r s = s\<lparr>in_sent := in_sent s @ [(S_Front, sf_socket (in_heap s r), Helper_Reject \<lparr>ir_message = text\<rparr>)]\<rparr>"

definition accept_front :: "back_config \<Rightarrow> int \<Rightarrow> string \<Rightarrow> string \<Rightarrow> string \<Rightarrow> sref \<Rightarrow> initiator \<Rightarrow> initiator" where
  "accept_front cf pid key name server r s = s\<lparr>in_table := sql_connected True (Some key) name (in_table s),
     in_heap := (in_heap s)(r := (in_heap s r)\<lparr>sf_name := server, sf_apikey := Some key,
       sb_cmd := Some (snd (command_run pid (buildShellBack cf key)))\<rparr>),
     in_sent := in_sent s @ [(S_Front, sf_socket (in_heap s r), Helper_InitiatorToFront \<lparr>aif_name = server\<rparr>)]\<rparr>"

lemma identifyFrontend_cases:
  assumes "sf_apikey (in_heap s r) = None" "fst (get_AuthFrontToInitiator \<lparr>afi_apikey = [], afi_name = []\<rparr> buf) = \<lparr>afi_apikey = key, afi_name = name\<rparr>"
  shows "identifyFrontend cf pid buf r s = (case sql_select key name (in_table s) of
       None \<Rightarrow> Some (reject_front ''No user found'' r s)
     | Some row \<Rightarrow> (case (cr_connected row, cr_server row) of
           (Some True, Some _) \<Rightarrow> Some (reject_front ''User already logged in'' r s)
         | (Some False, Some server) \<Rightarrow> Some (accept_front cf pid key name server r s)
         | _ \<Rightarrow> None))"
proof -
  obtain b where b: "get_AuthFrontToInitiator \<lparr>afi_apikey = [], afi_name = []\<rparr> buf = (\<lparr>afi_apikey = key, afi_name = name\<rparr>, b)"
    using assms(2) by (metis prod.collapse)
  show ?thesis
  proof (cases "sql_select key name (in_table s)")
    case None
    then show ?thesis by (simp add: identifyFrontend_def assms(1) b session_login_def session_send_def reject_front_def)
  next
    case (Some row)
    show ?thesis
    proof (cases "(cr_connected row, cr_server row)")
      case (Pair connected server)
      then show ?thesis
        by (cases connected; cases server)
          (simp_all add: identifyFrontend_def assms(1) b Some session_login_def session_send_def reject_front_def accept_front_def
            split: bool.split)
    qed
  qed
qed

lemma front_auth_read:
  assumes "short key" "short name"
  shows "fst (get_AuthFrontToInitiator d (skip sizeof_IpcHeader (Helper_FrontToInitiator \<lparr>afi_apikey = key, afi_name = name\<rparr>)))
    = \<lparr>afi_apikey = key, afi_name = name\<rparr>"
  using assms by (intro hfi.frame_message)
    (simp_all add: ok_AuthFrontToInitiator_def short_ok enc_AuthFrontToInitiator_def, simp add: short_def)

text \<open>
  C36: a client that was logged in once stays connected in the table when its session is closed, if
  its server name is not its client name: the session remembers the server name and releases the
  client of that name. From then on the same credentials are refused. With equal names the
  same credentials are accepted again.
\<close>

theorem closed_session_stays_connected:
  assumes row: "sql_select key name (in_table s) = Some row" "cr_connected row = Some False" "cr_server row = Some server"
    and front: "sf_apikey (in_heap s r) = None"
      "fst (get_AuthFrontToInitiator \<lparr>afi_apikey = [], afi_name = []\<rparr> buf) = \<lparr>afi_apikey = key, afi_name = name\<rparr>"
    and first: "identifyFrontend cf pid buf r s = Some s1" "s2 = session_close w r s1"
    and again: "sf_apikey (in_heap s2 q) = None"
  shows "identifyFrontend cf pid' buf q s2 =
    (if server = name then Some (accept_front cf pid' key name server q s2)
     else Some (reject_front ''User already logged in'' q s2))"
proof -
  have s1: "s1 = accept_front cf pid key name server r s"
    using first(1) row by (simp add: identifyFrontend_cases[OF front])
  then have "in_table s2 = sql_connected False (Some key) server (sql_connected True (Some key) name (in_table s))"
    by (auto simp: first(2) session_close_def accept_front_def Let_def split: option.splits prod.splits)
  then have "sql_select key name (in_table s2) = Some (row\<lparr>cr_connected := Some (server \<noteq> name)\<rparr>)"
    using row by (simp add: sql_select_connected)
  then show ?thesis using row by (simp add: identifyFrontend_cases[OF again front(2)])
qed

definition sample_row :: client_row where
  "sample_row = \<lparr>cr_apikey = Some ''k'', cr_client = Some ''bob'', cr_server = Some ''alice'', cr_connected = Some False\<rparr>"

definition sample_config :: back_config where
  "sample_config = \<lparr>bc_Executable = ''back'', bc_ExecArgs = [''cfg.json''], bc_Address = ''/tmp/initiator''\<rparr>"

definition sample_auth :: net_buffer where
  "sample_auth = skip sizeof_IpcHeader (Helper_FrontToInitiator \<lparr>afi_apikey = ''k'', afi_name = ''bob''\<rparr>)"

definition sample_fronts :: initiator where
  "sample_fronts = front_accept ''u1'' 11 (front_accept ''u0'' 10 (initiator_init [sample_row]))"

lemma sample_fronts_simps:
  "in_table sample_fronts = [sample_row]" "in_session sample_fronts = [0, 1]" "in_btask sample_fronts = []"
  "in_heap sample_fronts 0 = Session_new ''u0'' 10" "in_heap sample_fronts 1 = Session_new ''u1'' 11"
  "sf_apikey (in_heap sample_fronts r) = None"
  by (simp_all add: sample_fronts_def front_accept_def newSession_def initiator_init_def) (simp add: Session_new_def)

lemma sample_auth_read:
  "fst (get_AuthFrontToInitiator \<lparr>afi_apikey = [], afi_name = []\<rparr> sample_auth) = \<lparr>afi_apikey = ''k'', afi_name = ''bob''\<rparr>"
  unfolding sample_auth_def by (rule front_auth_read) (simp_all add: short_def)

lemma sample_select: "sql_select ''k'' ''bob'' (in_table sample_fronts) = Some sample_row"
  by (simp add: sample_fronts_simps sql_select_def row_matches_def sample_row_def)

theorem closed_session_stays_connected_witness:
  "\<exists>s1. identifyFrontend sample_config 42 sample_auth 0 sample_fronts = Some s1
     \<and> identifyFrontend sample_config 43 sample_auth 1 (session_close None 0 s1)
       = Some (reject_front ''User already logged in'' 1 (session_close None 0 s1))"
proof -
  let ?s1 = "accept_front sample_config 42 ''k'' ''bob'' ''alice'' 0 sample_fronts"
  have r: "cr_connected sample_row = Some False" "cr_server sample_row = Some ''alice''" by (simp_all add: sample_row_def)
  have f: "sf_apikey (in_heap sample_fronts 0) = None" by (rule sample_fronts_simps)
  have 1: "identifyFrontend sample_config 42 sample_auth 0 sample_fronts = Some ?s1"
    by (simp add: identifyFrontend_cases[OF f sample_auth_read] sample_select r)
  have "sf_apikey (in_heap (session_close None 0 ?s1) 1) = None"
    by (simp add: session_close_def accept_front_def Let_def sample_fronts_simps Session_new_def split: prod.split)
  from closed_session_stays_connected[OF sample_select r f sample_auth_read 1 refl this, of 43] 1 show ?thesis by simp
qed

section \<open>Frames of the initiator\<close>

context frame
begin

lemma frame_received:
  assumes "ok x" "length (enc x) < 2 ^ 32"
  shows "read_frame junk d (take sizeof_IpcHeader (m_data (helper x)), int sizeof_IpcHeader) (drop sizeof_IpcHeader (m_data (helper x)))
    = Some (\<lparr>ih_MsgType = ty, ih_BodySize = of_nat (length (enc x))\<rparr>, \<lparr>m_valid = True, m_read = 0, m_data = enc x\<rparr>)"
proof -
  let ?h = "\<lparr>ih_MsgType = ty, ih_BodySize = of_nat (length (enc x)) :: u32\<rparr>"
  have l: "length (enc_IpcHeader ?h) = 5" by (simp add: enc_IpcHeader_def)
  let ?b = "append_bytes (enc_IpcHeader ?h) Buffer_init"
  have r: "reads_at ?b (enc_IpcHeader ?h @ [])" by (simp add: reads_at_def append_bytes_def Buffer_init_def l)
  have k: "IpcType_ok (ih_MsgType ?h)" using ty_ok by simp
  have g: "get_IpcHeader junk d ?b = (?h, skip 5 ?b)" using wh.get_enc[OF k r, of junk d] l by simp
  have m: "m_data (helper x) = enc_IpcHeader ?h @ enc x" by (simp add: frame_bytes[OF assms(1)] enc_IpcHeader_def)
  have t: "take 5 (m_data (helper x)) = enc_IpcHeader ?h" "drop 5 (m_data (helper x)) = enc x"
    unfolding m using l by simp_all
  show ?thesis
    using g by (simp add: read_frame_def sizeof_IpcHeader_def t)
      (simp add: append_bytes_def buf_clear_def buf_reset_def skip_def Buffer_init_def)
qed

lemma body_read:
  assumes "ok x" "length (enc x) < 2 ^ 63"
  shows "fst (get d \<lparr>m_valid = True, m_read = 0, m_data = enc x\<rparr>) = x"
proof -
  have "reads_at \<lparr>m_valid = True, m_read = 0, m_data = enc x\<rparr> (enc x @ [])" using assms(2) by (simp add: reads_at_def)
  from get_enc[OF assms(1) this, of d] show ?thesis by simp
qed

end

text \<open>The bytes of a frame, as the two reads of a handler get them.\<close>

abbreviation frame_head :: "net_buffer \<Rightarrow> byte list \<times> int" where
  "frame_head f \<equiv> (take sizeof_IpcHeader (m_data f), int sizeof_IpcHeader)"

abbreviation frame_body :: "net_buffer \<Rightarrow> byte list" where
  "frame_body f \<equiv> drop sizeof_IpcHeader (m_data f)"

lemma short_back_auth:
  assumes "short key"
  shows "ok_AuthBackToInitiator \<lparr>abi_apikey = key, abi_port = p\<rparr>" "length (enc_AuthBackToInitiator \<lparr>abi_apikey = key, abi_port = p\<rparr>) < 2 ^ 32"
    "length (enc_AuthBackToInitiator \<lparr>abi_apikey = key, abi_port = p\<rparr>) < 2 ^ 63"
  using assms by (simp_all add: ok_AuthBackToInitiator_def short_ok enc_AuthBackToInitiator_def) (simp_all add: short_def)

lemma back_event_auth:
  assumes "short key"
  shows "back_event junk d port (frame_head (Helper_BackToInitiator \<lparr>abi_apikey = key, abi_port = p\<rparr>))
      (frame_body (Helper_BackToInitiator \<lparr>abi_apikey = key, abi_port = p\<rparr>)) k s
    = (case findSession_apikey key s of Some (Some r) \<Rightarrow> (let s1 = setBackendSocket k r s in
         Some (s1\<lparr>in_btask := in_btask s1 @ [(Some r, \<lparr>ih_MsgType = IT_BackToInitiatorAuth,
           ih_BodySize = of_nat (length (enc_AuthBackToInitiator \<lparr>abi_apikey = key, abi_port = p\<rparr>))\<rparr>,
           \<lparr>m_valid = True, m_read = 0, m_data = enc_AuthBackToInitiator \<lparr>abi_apikey = key, abi_port = p\<rparr>\<rparr>)]\<rparr>))
       | _ \<Rightarrow> None)"
proof -
  let ?x = "\<lparr>abi_apikey = key, abi_port = p\<rparr>" and ?b = "\<lparr>m_valid = True, m_read = 0, m_data = enc_AuthBackToInitiator \<lparr>abi_apikey = key, abi_port = p\<rparr>\<rparr>"
  note ok = short_back_auth[OF assms, of p]
  have "reads_at ?b (enc_AuthBackToInitiator ?x @ [])" using ok(3) by (simp add: reads_at_def)
  from wbi.get_enc[OF ok(1) this]
  have g: "get_AuthBackToInitiator \<lparr>abi_apikey = [], abi_port = port\<rparr> ?b = (?x, skip (length (enc_AuthBackToInitiator ?x)) ?b)" .
  have b: "buf_reset (skip n ?b) = ?b" for n by (simp add: buf_reset_def skip_def)
  show ?thesis
    unfolding back_event_def hbi.frame_received[OF ok(1,2)] by (simp add: g b split: option.split)
qed

section \<open>From the login to the token\<close>

lemma find_key_passes:
  "\<forall>p \<in> set pre. f p \<noteq> None \<and> f p \<noteq> Some k \<Longrightarrow> find_key f k (pre @ rs) = find_key f k rs"
  by (induction pre) auto

lemma find_key_sound: "find_key f k rs = Some (Some r) \<Longrightarrow> f r = Some k \<and> r \<in> set rs"
  by (induction rs) (auto split: option.splits if_splits)

lemma find_key_find:
  "find_key f k rs = (case find (\<lambda>p. f p \<in> {None, Some k}) rs of None \<Rightarrow> Some None
     | Some r \<Rightarrow> if f r = None then None else Some (Some r))"
  by (induction rs) (auto split: option.split)

lemma shell_env:
  "sh_env (buildShellBack cf key) = [(''FIX42-apikey'', key), (''FIX42-initiator-address'', bc_Address cf)]"
  "sh_arg (buildShellBack cf key) = bc_ExecArgs cf" "sh_cmd (buildShellBack cf key) = bc_Executable cf"
proof -
  have n: "\<not> (''FIX42-initiator-address'' :: string) < ''FIX42-apikey''" by code_simp
  have f: "sh_env (fold addArgument as c) = sh_env c" "sh_arg (fold addArgument as c) = sh_arg c @ as"
    "sh_cmd (fold addArgument as c) = sh_cmd c" for as c
    by (induction as arbitrary: c) (simp_all add: addArgument_def)
  show "sh_env (buildShellBack cf key) = [(''FIX42-apikey'', key), (''FIX42-initiator-address'', bc_Address cf)]"
    using n by (simp add: buildShellBack_def f addEnvironement_def Command_new_def)
  show "sh_arg (buildShellBack cf key) = bc_ExecArgs cf" "sh_cmd (buildShellBack cf key) = bc_Executable cf"
    by (simp_all add: buildShellBack_def f addEnvironement_def Command_new_def)
qed

lemma command_exec_run: "command_exec (snd (command_run pid c)) = command_exec c"
  by (simp add: command_run_def command_exec_def Let_def)

lemma token_zero: "GenerateToken = ''0''"
  unfolding GenerateToken_def by code_simp

lemma identifyBackend_auth:
  assumes "short key" "sb_socket (in_heap s r) = Some k"
  shows "identifyBackend junk \<lparr>m_valid = True, m_read = 0, m_data = enc_AuthBackToInitiator \<lparr>abi_apikey = key, abi_port = p\<rparr>\<rparr> r s
    = Some (s\<lparr>in_heap := (in_heap s)(r := (in_heap s r)\<lparr>sb_token := Some ''0''\<rparr>),
        in_sent := in_sent s @ [(S_Back, k, Helper_InitiatorToBack \<lparr>aib_token = ''0'', aib_apikey = key\<rparr>),
          (S_Front, sf_socket (in_heap s r), Helper_InitiatorToFrontToken \<lparr>ifv_token = ''0'', ifv_port = p\<rparr>)]\<rparr>)"
proof -
  note ok = short_back_auth[OF assms(1), of p]
  obtain b where "get_AuthBackToInitiator \<lparr>abi_apikey = [], abi_port = junk\<rparr>
      \<lparr>m_valid = True, m_read = 0, m_data = enc_AuthBackToInitiator \<lparr>abi_apikey = key, abi_port = p\<rparr>\<rparr> = (\<lparr>abi_apikey = key, abi_port = p\<rparr>, b)"
    using hbi.body_read[OF ok(1,3)] by (metis prod.collapse)
  then show ?thesis using assms(2) by (simp add: identifyBackend_def session_send_def token_zero Let_def)
qed

lemma zero_token_lets_in:
  assumes "short key" "\<not> fm_auth (bk_fm b)"
  shows "fm_auth (bk_fm (front_onReceive junk d (Helper_FrontToBackToken \<lparr>fbv_token = ''0''\<rparr>)
    (initiator_onReceive junk d (Helper_InitiatorToBack \<lparr>aib_token = ''0'', aib_apikey = key\<rparr>) b)))"
proof -
  have "short ''0''" by (simp add: short_def)
  then show ?thesis using assms by (simp add: initiator_token front_token setupToken_def)
qed

text \<open>
  C34: the whole login: once a front end presents the key and the name of a client that is not
  connected, the initiator launches the back end with the key and its own address in the
  environment; when that back end connects and presents the key, it finds the session of
  that front end, provided every older session has a key of its own; it is sent a token and
  the front end the same token with the back end's port; the back end that receives it lets in
  any front end that presents ``0'', because that is the only token there is.
\<close>

theorem login_reaches_the_token:
  assumes row: "sql_select key name (in_table s) = Some row" "cr_connected row = Some False" "cr_server row = Some server"
    and front: "sf_apikey (in_heap s r) = None"
      "fst (get_AuthFrontToInitiator \<lparr>afi_apikey = [], afi_name = []\<rparr> buf) = \<lparr>afi_apikey = key, afi_name = name\<rparr>"
    and sessions: "in_session s = pre @ r # post" "\<forall>p \<in> set pre. p \<noteq> r \<and> getApiKey p s \<notin> {None, Some key}"
    and fresh: "short key" "in_btask s = []" "\<not> fm_auth (bk_fm b)"
  shows "\<exists>s1 s2 s3 c. identifyFrontend cf pid buf r s = Some s1 \<and> sb_cmd (in_heap s1 r) = Some c
    \<and> command_exec c = (bc_Executable cf, bc_Executable cf # bc_ExecArgs cf,
        [''FIX42-apikey='' @ key, ''FIX42-initiator-address='' @ bc_Address cf])
    \<and> back_event junk d port (frame_head (Helper_BackToInitiator \<lparr>abi_apikey = key, abi_port = p\<rparr>))
        (frame_body (Helper_BackToInitiator \<lparr>abi_apikey = key, abi_port = p\<rparr>)) k s1 = Some s2
    \<and> back_task port s2 = Some s3
    \<and> in_sent s3 = in_sent s @ [(S_Front, sf_socket (in_heap s r), Helper_InitiatorToFront \<lparr>aif_name = server\<rparr>),
        (S_Back, k, Helper_InitiatorToBack \<lparr>aib_token = ''0'', aib_apikey = key\<rparr>),
        (S_Front, sf_socket (in_heap s r), Helper_InitiatorToFrontToken \<lparr>ifv_token = ''0'', ifv_port = p\<rparr>)]
    \<and> fm_auth (bk_fm (front_onReceive junk d (Helper_FrontToBackToken \<lparr>fbv_token = ''0''\<rparr>)
        (initiator_onReceive junk d (Helper_InitiatorToBack \<lparr>aib_token = ''0'', aib_apikey = key\<rparr>) b)))"
proof -
  let ?s1 = "accept_front cf pid key name server r s"
  let ?c = "snd (command_run pid (buildShellBack cf key))"
  have 1: "identifyFrontend cf pid buf r s = Some ?s1" using row by (simp add: identifyFrontend_cases[OF front])
  have c: "sb_cmd (in_heap ?s1 r) = Some ?c" by (simp add: accept_front_def)
  have e: "command_exec ?c = (bc_Executable cf, bc_Executable cf # bc_ExecArgs cf,
        [''FIX42-apikey='' @ key, ''FIX42-initiator-address='' @ bc_Address cf])"
    unfolding command_exec_run by (simp add: command_exec_def shell_env)
  have "\<forall>q \<in> set pre. getApiKey q ?s1 \<noteq> None \<and> getApiKey q ?s1 \<noteq> Some key" "getApiKey r ?s1 = Some key"
    using sessions(2) by (auto simp: accept_front_def getApiKey_def)
  then have f: "findSession_apikey key ?s1 = Some (Some r)"
    unfolding findSession_apikey_def using find_key_passes[of pre "\<lambda>q. getApiKey q ?s1" key "r # post"]
    by (simp add: accept_front_def sessions(1))
  define s2 where "s2 = (setBackendSocket k r ?s1)\<lparr>in_btask := [(Some r, \<lparr>ih_MsgType = IT_BackToInitiatorAuth,
           ih_BodySize = of_nat (length (enc_AuthBackToInitiator \<lparr>abi_apikey = key, abi_port = p\<rparr>))\<rparr>,
           \<lparr>m_valid = True, m_read = 0, m_data = enc_AuthBackToInitiator \<lparr>abi_apikey = key, abi_port = p\<rparr>\<rparr>)]\<rparr>"
  have 2: "back_event junk d port (frame_head (Helper_BackToInitiator \<lparr>abi_apikey = key, abi_port = p\<rparr>))
        (frame_body (Helper_BackToInitiator \<lparr>abi_apikey = key, abi_port = p\<rparr>)) k ?s1 = Some s2"
    unfolding back_event_auth[OF fresh(1)] f using fresh(2)
    by (simp add: s2_def setBackendSocket_def accept_front_def Let_def)
  have k: "sb_socket (in_heap (s2\<lparr>in_btask := []\<rparr>) r) = Some k" by (simp add: s2_def setBackendSocket_def)
  have 3: "\<exists>s3. back_task port s2 = Some s3 \<and> in_sent s3 = in_sent s @ [(S_Front, sf_socket (in_heap s r), Helper_InitiatorToFront \<lparr>aif_name = server\<rparr>),
        (S_Back, k, Helper_InitiatorToBack \<lparr>aib_token = ''0'', aib_apikey = key\<rparr>),
        (S_Front, sf_socket (in_heap s r), Helper_InitiatorToFrontToken \<lparr>ifv_token = ''0'', ifv_port = p\<rparr>)]"
    using identifyBackend_auth[OF fresh(1) k, of port p]
    by (simp add: back_task_def s2_def session_received_def handleBackend_def)
      (simp add: accept_front_def setBackendSocket_def)
  with 1 c e 2 zero_token_lets_in[OF fresh(1,3)] show ?thesis by blast
qed

text \<open>The first front end of the sample logs in.\<close>

theorem login_reaches_the_token_witness:
  "\<exists>s1 s2. identifyFrontend sample_config 42 sample_auth 0 sample_fronts = Some s1
    \<and> back_event 0 \<lparr>ih_MsgType = IT_Reject, ih_BodySize = 0\<rparr> 0 (frame_head (Helper_BackToInitiator \<lparr>abi_apikey = ''k'', abi_port = 5000\<rparr>))
        (frame_body (Helper_BackToInitiator \<lparr>abi_apikey = ''k'', abi_port = 5000\<rparr>)) 20 s1 = Some s2"
proof -
  have r: "cr_connected sample_row = Some False" "cr_server sample_row = Some ''alice''" by (simp_all add: sample_row_def)
  have f: "sf_apikey (in_heap sample_fronts 0) = None" by (rule sample_fronts_simps)
  have l: "in_session sample_fronts = [] @ 0 # [1]" "\<forall>p \<in> set []. p \<noteq> 0 \<and> getApiKey p sample_fronts \<notin> {None, Some ''k''}"
    by (simp_all add: sample_fronts_simps)
  have "short ''k''" "\<not> fm_auth (bk_fm (sample_back sample_user))" by (simp_all add: short_def sample_back_def)
  from login_reaches_the_token[OF sample_select r f sample_auth_read l this(1) sample_fronts_simps(3) this(2)] show ?thesis by blast
qed

text \<open>
  The handler of the back ends stops at a session without a key: a back end that presents its
  key makes the handler throw, or dereference a null session, unless the first session
  that has no key or has that key is one that has it. So a front end that connects and says
  nothing stops every login after its own, and nobody notices: whether the
  initiator goes on does not depend on its handlers.
\<close>

theorem keyless_session_stops_back_handler:
  assumes "short key"
  shows "(back_event junk d port (frame_head (Helper_BackToInitiator \<lparr>abi_apikey = key, abi_port = p\<rparr>))
      (frame_body (Helper_BackToInitiator \<lparr>abi_apikey = key, abi_port = p\<rparr>)) k s = None
    \<longleftrightarrow> (case find (\<lambda>r. getApiKey r s \<in> {None, Some key}) (in_session s) of None \<Rightarrow> True | Some r \<Rightarrow> getApiKey r s = None))
    \<and> (find (\<lambda>r. getApiKey r s \<in> {None, Some key}) (in_session s) = None \<longrightarrow> in_next s \<notin> set (in_session s) \<longrightarrow>
        back_event junk d port (frame_head (Helper_BackToInitiator \<lparr>abi_apikey = key, abi_port = p\<rparr>))
          (frame_body (Helper_BackToInitiator \<lparr>abi_apikey = key, abi_port = p\<rparr>)) k (front_accept uid k' s) = None)
    \<and> initiator_loop (map (\<lambda>signal_run. (signal_run, crashed)) signals) = initiator_loop (map (\<lambda>signal_run. (signal_run, \<lambda>_. False)) signals)"
proof (intro conjI impI)
  show "back_event junk d port (frame_head (Helper_BackToInitiator \<lparr>abi_apikey = key, abi_port = p\<rparr>))
      (frame_body (Helper_BackToInitiator \<lparr>abi_apikey = key, abi_port = p\<rparr>)) k s = None
    \<longleftrightarrow> (case find (\<lambda>r. getApiKey r s \<in> {None, Some key}) (in_session s) of None \<Rightarrow> True | Some r \<Rightarrow> getApiKey r s = None)"
    unfolding back_event_auth[OF assms] findSession_apikey_def find_key_find by (simp add: Let_def split: option.split)
next
  assume n: "find (\<lambda>r. getApiKey r s \<in> {None, Some key}) (in_session s) = None" "in_next s \<notin> set (in_session s)"
  let ?s = "front_accept uid k' s"
  have p: "getApiKey q ?s = (if q = in_next s then None else getApiKey q s)" "in_session ?s = in_session s @ [in_next s]" for q
    by (simp_all add: front_accept_def newSession_def getApiKey_def) (simp add: Session_new_def)
  have "find_key (\<lambda>q. getApiKey q ?s) key (in_session s @ [in_next s]) = find_key (\<lambda>q. getApiKey q ?s) key [in_next s]"
    by (rule find_key_passes) (use n in \<open>auto simp: p find_None_iff\<close>)
  then have "findSession_apikey key ?s = None" by (simp add: findSession_apikey_def p)
  then show "back_event junk d port (frame_head (Helper_BackToInitiator \<lparr>abi_apikey = key, abi_port = p\<rparr>))
      (frame_body (Helper_BackToInitiator \<lparr>abi_apikey = key, abi_port = p\<rparr>)) k ?s = None"
    by (simp add: back_event_auth[OF assms])
next
  show "initiator_loop (map (\<lambda>signal_run. (signal_run, crashed)) signals) = initiator_loop (map (\<lambda>signal_run. (signal_run, \<lambda>_. False)) signals)"
    by (induction signals) simp_all
qed

theorem keyless_session_stops_back_handler_witness:
  "back_event 0 \<lparr>ih_MsgType = IT_Reject, ih_BodySize = 0\<rparr> 0 (frame_head (Helper_BackToInitiator \<lparr>abi_apikey = ''k'', abi_port = 5000\<rparr>))
      (frame_body (Helper_BackToInitiator \<lparr>abi_apikey = ''k'', abi_port = 5000\<rparr>)) 20
      (accept_front sample_config 42 ''k'' ''bob'' ''alice'' 1 sample_fronts) = None"
proof -
  let ?s = "accept_front sample_config 42 ''k'' ''bob'' ''alice'' 1 sample_fronts"
  have "getApiKey 0 ?s = None" "in_session ?s = [0, 1]"
    by (simp_all add: accept_front_def getApiKey_def sample_fronts_simps) (simp add: Session_new_def)
  then have "case find (\<lambda>r. getApiKey r ?s \<in> {None, Some ''k''}) (in_session ?s) of None \<Rightarrow> True | Some r \<Rightarrow> getApiKey r ?s = None"
    by simp
  moreover have "short ''k''" by (simp add: short_def)
  ultimately show ?thesis using keyless_session_stops_back_handler by blast
qed

section \<open>Every run of the initiator\<close>

text \<open>A session and the table: what holds of every session in every reachable state.\<close>

definition sess_ok :: "back_config \<Rightarrow> client_row list \<Rightarrow> Session \<Rightarrow> bool" where
  "sess_ok cf t x \<longleftrightarrow>
     (\<forall>key. sf_apikey x = Some key \<longrightarrow> (\<exists>row \<in> set t. cr_apikey row = Some key \<and> cr_server row = Some (sf_name x)))
   \<and> (\<forall>c. sb_cmd x = Some c \<longrightarrow> (\<exists>key. sf_apikey x = Some key \<and> command_exec c = (bc_Executable cf, bc_Executable cf # bc_ExecArgs cf,
        [''FIX42-apikey='' @ key, ''FIX42-initiator-address='' @ bc_Address cf])))
   \<and> (sb_socket x \<noteq> None \<longrightarrow> sf_apikey x \<noteq> None)
   \<and> (sb_token x \<noteq> None \<longrightarrow> sb_token x = Some ''0'' \<and> sb_socket x \<noteq> None)"

definition same_rows :: "client_row list \<Rightarrow> client_row list \<Rightarrow> bool" where
  "same_rows t u \<longleftrightarrow> map (\<lambda>r. r\<lparr>cr_connected := None\<rparr>) t = map (\<lambda>r. r\<lparr>cr_connected := None\<rparr>) u"

definition tasks_bound :: "(sref \<Rightarrow> Session) \<Rightarrow> (sref option \<times> IpcHeader \<times> net_buffer) list \<Rightarrow> bool" where
  "tasks_bound h ts \<longleftrightarrow> (\<forall>(r, _) \<in> set ts. \<forall>q. r = Some q \<longrightarrow> sb_socket (h q) \<noteq> None)"

definition initiator_inv :: "back_config \<Rightarrow> client_row list \<Rightarrow> initiator \<Rightarrow> bool" where
  "initiator_inv cf t s \<longleftrightarrow> (\<forall>r. sess_ok cf t (in_heap s r)) \<and> same_rows t (in_table s)
     \<and> tasks_bound (in_heap s) (in_btask s) \<and> (\<forall>r \<ge> in_next s. sb_socket (in_heap s r) = None)
     \<and> set (in_session s) \<subseteq> {..<in_next s}"

lemma same_rows_connected: "same_rows t u \<Longrightarrow> same_rows t (sql_connected v key name u)"
  unfolding same_rows_def sql_connected_def by (simp add: comp_def if_distrib cong: if_cong)

lemma sql_select_row:
  assumes "sql_select key name u = Some row" "same_rows t u"
  shows "\<exists>r \<in> set t. cr_apikey r = Some key \<and> cr_server r = cr_server row"
proof -
  from assms(1) have "row \<in> set u" "cr_apikey row = Some key"
    unfolding sql_select_def by (auto simp: find_Some_iff row_matches_def)
  then have "row\<lparr>cr_connected := None\<rparr> \<in> (\<lambda>r. r\<lparr>cr_connected := None\<rparr>) ` set t"
    using assms(2) by (metis image_eqI list.set_map same_rows_def)
  then obtain r where "r \<in> set t" "row\<lparr>cr_connected := None\<rparr> = r\<lparr>cr_connected := None\<rparr>" by blast
  then have "cr_apikey r = cr_apikey row \<and> cr_server r = cr_server row"
    by (metis client_row.select_convs(1,3) client_row.surjective client_row.update_convs(4))
  with \<open>r \<in> set t\<close> \<open>cr_apikey row = Some key\<close> show ?thesis by metis
qed

lemma new_sess_ok [simp]: "sess_ok cf t (Session_new uid k)"
  by (simp add: sess_ok_def Session_new_def)

lemma tasks_bound_mono:
  "tasks_bound h ts \<Longrightarrow> (\<And>q. sb_socket (h q) \<noteq> None \<Longrightarrow> sb_socket (h' q) \<noteq> None) \<Longrightarrow> tasks_bound h' ts"
  unfolding tasks_bound_def by fastforce

lemma identifyFrontend_inv:
  assumes inv: "initiator_inv cf t s" and i: "identifyFrontend cf pid buf r s = Some s'"
  shows "initiator_inv cf t s'"
proof (cases "sf_apikey (in_heap s r)")
  case (Some key)
  with i inv show ?thesis by (simp add: identifyFrontend_def)
next
  case None
  obtain key name where g: "fst (get_AuthFrontToInitiator \<lparr>afi_apikey = [], afi_name = []\<rparr> buf) = \<lparr>afi_apikey = key, afi_name = name\<rparr>"
    by (metis AuthFrontToInitiator.surjective old.unit.exhaust)
  note cs = i[unfolded identifyFrontend_cases[OF None g]]
  consider (rej) msg where "s' = reject_front msg r s"
    | (acc) row server where "sql_select key name (in_table s) = Some row" "cr_server row = Some server"
        "s' = accept_front cf pid key name server r s"
    using cs by (auto split: option.splits bool.splits)
  then show ?thesis
  proof cases
    case rej
    with inv show ?thesis by (simp add: initiator_inv_def reject_front_def)
  next
    case acc
    from inv have s: "same_rows t (in_table s)" "sess_ok cf t (in_heap s r)" by (simp_all add: initiator_inv_def)
    obtain y where y: "y \<in> set t" "cr_apikey y = Some key" "cr_server y = Some server"
      using sql_select_row[OF acc(1) s(1)] acc(2) by auto
    have "command_exec (snd (command_run pid (buildShellBack cf key))) = (bc_Executable cf, bc_Executable cf # bc_ExecArgs cf,
        [''FIX42-apikey='' @ key, ''FIX42-initiator-address='' @ bc_Address cf])"
      unfolding command_exec_run by (simp add: command_exec_def shell_env)
    with y s(2) have ok: "sess_ok cf t (in_heap s' r)"
      by (auto simp: acc(3) accept_front_def sess_ok_def)
    have "tasks_bound (in_heap s') (in_btask s')"
      by (rule tasks_bound_mono[of "in_heap s"]) (use inv in \<open>auto simp: initiator_inv_def acc(3) accept_front_def split: if_splits\<close>)
    with ok inv s(1) show ?thesis
      by (auto simp: initiator_inv_def acc(3) accept_front_def same_rows_connected)
  qed
qed

lemma identifyBackend_inv:
  assumes inv: "initiator_inv cf t s" and i: "identifyBackend junk buf r s = Some s'"
  shows "initiator_inv cf t s'"
proof -
  from i have h: "in_heap s' = (in_heap s)(r := (in_heap s r)\<lparr>sb_token := Some ''0''\<rparr>)" "sb_socket (in_heap s r) \<noteq> None"
    "in_table s' = in_table s" "in_btask s' = in_btask s" "in_next s' = in_next s" "in_session s' = in_session s"
    by (auto simp: identifyBackend_def session_send_def token_zero Let_def split: prod.splits option.splits)
  from inv have "sess_ok cf t (in_heap s r)" by (simp add: initiator_inv_def)
  with h(2) have "sess_ok cf t ((in_heap s r)\<lparr>sb_token := Some ''0''\<rparr>)" by (simp add: sess_ok_def)
  moreover have "tasks_bound (in_heap s') (in_btask s)"
    by (rule tasks_bound_mono[of "in_heap s"]) (use inv in \<open>auto simp: initiator_inv_def h split: if_splits\<close>)
  ultimately show ?thesis using inv by (auto simp: initiator_inv_def h)
qed

lemma front_accept_inv: "initiator_inv cf t s \<Longrightarrow> initiator_inv cf t (front_accept uid k s)"
proof -
  assume inv: "initiator_inv cf t s"
  have "tasks_bound ((in_heap s)(in_next s := Session_new uid k)) (in_btask s)"
    by (rule tasks_bound_mono[of "in_heap s"]) (use inv in \<open>auto simp: initiator_inv_def\<close>)
  moreover have "sb_socket (Session_new uid k) = None" by (simp add: Session_new_def)
  ultimately show ?thesis using inv
    by (simp add: initiator_inv_def front_accept_def newSession_def) (meson lessThan_subset_iff le_SucI order.refl subset_trans)
qed

lemma session_close_inv:
  assumes inv: "initiator_inv cf t s"
  shows "initiator_inv cf t (session_close w r s)"
proof (cases "sb_cmd (in_heap s r)")
  case None
  with inv show ?thesis by (simp add: session_close_def initiator_inv_def same_rows_connected Let_def)
next
  case (Some c)
  let ?c = "snd (command_stop w c)"
  have e: "command_exec ?c = command_exec c"
    by (auto simp: command_stop_def command_status_def command_exec_def split: wait_status.split option.split)
  have h: "in_heap (session_close w r s) = (in_heap s)(r := (in_heap s r)\<lparr>sb_cmd := Some ?c\<rparr>)"
    "in_table (session_close w r s) = sql_connected False (sf_apikey (in_heap s r)) (sf_name (in_heap s r)) (in_table s)"
    "in_btask (session_close w r s) = in_btask s" "in_next (session_close w r s) = in_next s"
    "in_session (session_close w r s) = in_session s"
    by (simp_all add: session_close_def Some Let_def split: prod.split)
  from inv have "sess_ok cf t (in_heap s r)" by (simp add: initiator_inv_def)
  then have "sess_ok cf t ((in_heap s r)\<lparr>sb_cmd := Some ?c\<rparr>)" by (simp add: sess_ok_def Some e)
  moreover have "tasks_bound (in_heap (session_close w r s)) (in_btask s)"
    by (rule tasks_bound_mono[of "in_heap s"]) (use inv in \<open>auto simp: initiator_inv_def h split: if_splits\<close>)
  ultimately show ?thesis using inv by (auto simp: initiator_inv_def h same_rows_connected)
qed

lemma front_event_inv:
  assumes inv: "initiator_inv cf t s" and e: "front_event junk d w hdr body k s = Some s'"
  shows "initiator_inv cf t s'"
proof (cases "read_frame junk d hdr body")
  case None
  with e obtain r where "s' = (session_close w r s)\<lparr>in_onremove := in_onremove (session_close w r s) @ [r]\<rparr>"
    by (auto simp: front_event_def front_process_def removeSession_def Let_def split: option.splits)
  with session_close_inv[OF inv, of w r] show ?thesis by (simp add: initiator_inv_def)
next
  case (Some f)
  with e inv show ?thesis by (auto simp: front_event_def front_process_def initiator_inv_def Let_def split: prod.splits)
qed

lemma back_event_inv:
  assumes inv: "initiator_inv cf t s" and e: "back_event junk d port hdr body k s = Some s'"
  shows "initiator_inv cf t s'"
proof (cases "read_frame junk d hdr body")
  case None
  with e inv show ?thesis by (simp add: back_event_def)
next
  case (Some f)
  obtain h b where f: "f = (h, b)" by (cases f)
  show ?thesis
  proof (cases "ih_MsgType h = IT_BackToInitiatorAuth")
    case False
    then have "s' = s\<lparr>in_btask := in_btask s @ [(findSession_back k s, h, b)]\<rparr>" using e by (simp add: back_event_def Some f)
    moreover have "findSession_back k s = Some q \<Longrightarrow> sb_socket (in_heap s q) = Some k" for q
      by (auto simp: findSession_back_def find_Some_iff)
    ultimately show ?thesis using inv by (auto simp: initiator_inv_def tasks_bound_def)
  next
    case True
    obtain auth b1 where g: "get_AuthBackToInitiator \<lparr>abi_apikey = [], abi_port = port\<rparr> b = (auth, b1)"
      by (cases "get_AuthBackToInitiator \<lparr>abi_apikey = [], abi_port = port\<rparr> b")
    note e' = e[unfolded back_event_def Some f, simplified, unfolded True g, simplified]
    obtain r where r: "findSession_apikey (abi_apikey auth) s = Some (Some r)"
      using e' by (auto split: option.splits)
    have r2: "s' = (setBackendSocket k r s)\<lparr>in_btask := in_btask s @ [(Some r, h, buf_reset b1)]\<rparr>"
      using e' by (simp add: r Let_def setBackendSocket_def)
    have kr: "sf_apikey (in_heap s r) = Some (abi_apikey auth)"
      using find_key_sound[OF r[unfolded findSession_apikey_def]] by (simp add: getApiKey_def)
    have "r < in_next s" using find_key_sound[OF r[unfolded findSession_apikey_def]] inv by (auto simp: initiator_inv_def)
    from inv have ok: "sess_ok cf t (in_heap s r)" by (simp add: initiator_inv_def)
    have "sess_ok cf t ((in_heap s r)\<lparr>sb_socket := Some k\<rparr>)"
      using ok kr by (simp add: sess_ok_def)
    moreover have "tasks_bound ((in_heap s)(r := (in_heap s r)\<lparr>sb_socket := Some k\<rparr>)) (in_btask s)"
      by (rule tasks_bound_mono[of "in_heap s"]) (use inv in \<open>auto simp: initiator_inv_def\<close>)
    then have "tasks_bound (in_heap s') (in_btask s')" by (simp add: r2 setBackendSocket_def tasks_bound_def)
    ultimately show ?thesis using inv \<open>r < in_next s\<close> by (auto simp: initiator_inv_def r2 setBackendSocket_def)
  qed
qed

lemma pool_inv:
  assumes "initiator_inv cf t s"
  shows "front_task cf pid s = Some s' \<Longrightarrow> initiator_inv cf t s'" "back_task junk s = Some s' \<Longrightarrow> initiator_inv cf t s'"
proof -
  have i: "initiator_inv cf t (s\<lparr>in_ftask := rest\<rparr>)" for rest using assms by (simp add: initiator_inv_def)
  show "initiator_inv cf t s'" if "front_task cf pid s = Some s'"
    using that assms identifyFrontend_inv[OF i]
    by (auto simp: front_task_def session_received_def handleFrontend_def i split: list.splits prod.splits option.splits IpcType.splits)
  have j: "in_btask s = x # rest \<Longrightarrow> initiator_inv cf t (s\<lparr>in_btask := rest\<rparr>)" for x rest
    using assms by (simp add: initiator_inv_def tasks_bound_def)
  show "initiator_inv cf t s'" if "back_task junk s = Some s'"
    using that assms identifyBackend_inv[OF j] j
    by (auto simp: back_task_def session_received_def handleBackend_def split: list.splits prod.splits option.splits IpcType.splits)
qed

lemma initiator_step_inv:
  assumes "initiator_step cf s s'" "initiator_inv cf t s"
  shows "initiator_inv cf t s'"
  using assms(1)
proof cases
  case remove
  then show ?thesis using assms(2)
    by (auto simp: session_remove_task_def initiator_inv_def split: list.splits if_splits dest!: set_remove1_subset[THEN subsetD])
next
  case (accept_back k)
  then show ?thesis using assms(2) by (simp add: initiator_inv_def back_accept_def)
next
  case (accept_front uid k)
  then show ?thesis using front_accept_inv[OF assms(2)] by simp
next
  case (front_data junk d w hdr body k)
  then show ?thesis by (rule front_event_inv[OF assms(2)])
next
  case (back_data junk d port hdr body k)
  then show ?thesis by (rule back_event_inv[OF assms(2)])
next
  case (front_pool pid)
  then show ?thesis by (rule pool_inv(1)[OF assms(2)])
next
  case (back_pool junk)
  then show ?thesis by (rule pool_inv(2)[OF assms(2)])
qed

lemma initiator_reach_inv: "initiator_reach cf t s \<Longrightarrow> initiator_inv cf t s"
proof (induction rule: initiator_reach.induct)
  case start
  show ?case by (simp add: initiator_inv_def initiator_init_def same_rows_def tasks_bound_def) (simp add: Session_new_def)
next
  case (step s s')
  from initiator_step_inv[OF step(2,3)] show ?case .
qed

text \<open>
  C35: whatever the front ends and back ends send and in whatever order the threads run, a back end
  is launched only for a session whose front end presented the key of a client of the table, and
  with that key in its environment; a token is given only to a session that has such a key and
  the back end's connection; and the answer to a back end's frame never lacks a socket.
\<close>

theorem no_backend_without_client:
  assumes "initiator_reach cf t s"
  shows "(\<forall>c. sb_cmd (in_heap s r) = Some c \<longrightarrow> (\<exists>row \<in> set t. \<exists>key. cr_apikey row = Some key \<and> cr_server row = Some (sf_name (in_heap s r))
        \<and> command_exec c = (bc_Executable cf, bc_Executable cf # bc_ExecArgs cf,
            [''FIX42-apikey='' @ key, ''FIX42-initiator-address='' @ bc_Address cf])))
    \<and> (sb_token (in_heap s r) \<noteq> None \<longrightarrow> sb_socket (in_heap s r) \<noteq> None
        \<and> (\<exists>row \<in> set t. cr_apikey row = sf_apikey (in_heap s r) \<and> cr_apikey row \<noteq> None))
    \<and> (in_btask s = (Some q, h, b) # rest \<longrightarrow> back_task junk s \<noteq> None)"
proof -
  note inv = initiator_reach_inv[OF assms]
  then have ok: "sess_ok cf t (in_heap s r)" by (simp add: initiator_inv_def)
  have "back_task junk s \<noteq> None" if q: "in_btask s = (Some q, h, b) # rest"
  proof -
    have "sb_socket (in_heap s q) \<noteq> None" using inv q by (simp add: initiator_inv_def tasks_bound_def)
    then show ?thesis using q by (auto simp: back_task_def session_received_def handleBackend_def identifyBackend_def
        session_send_def Let_def split: IpcType.split prod.split)
  qed
  with ok show ?thesis by (fastforce simp: sess_ok_def)
qed

text \<open>A front end connects, presents the key, and its back end is launched.\<close>

theorem no_backend_without_client_witness:
  "\<exists>s. initiator_reach sample_config [sample_row] s \<and> (\<exists>c. sb_cmd (in_heap s 0) = Some c \<and> command_exec c
     = (''back'', [''back'', ''cfg.json''], [''FIX42-apikey=k'', ''FIX42-initiator-address=/tmp/initiator'']))"
proof -
  let ?x = "\<lparr>afi_apikey = ''k'', afi_name = ''bob''\<rparr>" and ?d = "\<lparr>ih_MsgType = IT_Reject, ih_BodySize = 0\<rparr>"
  let ?f = "Helper_FrontToInitiator ?x" and ?b = "\<lparr>m_valid = True, m_read = 0, m_data = enc_AuthFrontToInitiator ?x\<rparr>"
  let ?h = "\<lparr>ih_MsgType = IT_FrontToInitiatorAuth, ih_BodySize = of_nat (length (enc_AuthFrontToInitiator ?x))\<rparr>"
  define s1 where "s1 = front_accept ''u0'' 10 (initiator_init [sample_row])"
  define s2 where "s2 = s1\<lparr>in_ftask := [(Some 0, ?h, ?b)]\<rparr>"
  define s3 where "s3 = accept_front sample_config 42 ''k'' ''bob'' ''alice'' 0 s1"
  have s1: "in_session s1 = [0]" "in_heap s1 0 = Session_new ''u0'' 10" "in_ftask s1 = []" "in_table s1 = [sample_row]"
    by (simp_all add: s1_def front_accept_def newSession_def initiator_init_def)
  have ok: "ok_AuthFrontToInitiator ?x" "length (enc_AuthFrontToInitiator ?x) < 2 ^ 32" "length (enc_AuthFrontToInitiator ?x) < 2 ^ 63"
    by (simp_all add: ok_AuthFrontToInitiator_def enc_AuthFrontToInitiator_def string_ok_def)
  have "findSession_front 10 s1 = Some 0" by (simp add: findSession_front_def s1) (simp add: Session_new_def)
  then have e: "front_event 0 ?d None (frame_head ?f) (frame_body ?f) 10 s1 = Some s2"
    using hfi.frame_received[OF ok(1,2), of 0 ?d] by (simp add: front_event_def front_process_def s2_def s1(3))
  have k: "sf_apikey (in_heap s1 0) = None" by (simp add: s1(2)) (simp add: Session_new_def)
  have row: "sql_select ''k'' ''bob'' (in_table s1) = Some sample_row" "cr_connected sample_row = Some False" "cr_server sample_row = Some ''alice''"
    by (simp_all add: s1(4) sql_select_def row_matches_def sample_row_def)
  have "s2\<lparr>in_ftask := []\<rparr> = s1" by (simp add: s2_def s1(3)[symmetric])
  then have p: "front_task sample_config 42 s2 = Some s3"
    using row by (simp add: front_task_def s2_def session_received_def handleFrontend_def s3_def
        identifyFrontend_cases[OF k hfi.body_read[OF ok(1,3)]])
  have "initiator_reach sample_config [sample_row] s3"
    unfolding s1_def
    by (rule initiator_reach.step[OF initiator_reach.step[OF initiator_reach.step[OF initiator_reach.start
          initiator_step.accept_front[of _ _ "''u0''" 10]] initiator_step.front_data[OF e[unfolded s1_def]]] initiator_step.front_pool[OF p]])
  moreover obtain c where "sb_cmd (in_heap s3 0) = Some c" by (simp add: s3_def accept_front_def)
  moreover from no_backend_without_client[OF \<open>initiator_reach sample_config [sample_row] s3\<close>, THEN conjunct1, rule_format, OF this]
  have "command_exec c = (''back'', [''back'', ''cfg.json''], [''FIX42-apikey=k'', ''FIX42-initiator-address=/tmp/initiator''])"
    by (auto simp: sample_config_def sample_row_def)
  ultimately show ?thesis by blast
qed

end
