(* ===== verification/GuiClaims.thy ===== *)
theory GuiClaims
  imports Gui InitiatorClaims
begin

text \<open>
  The properties of the login screen, on its own and with the back end it logs in through.
\<close>

lemmas login_steps = gui_emit_def gui_deliver_def run_slot_def slot_takes_def login_onSubmit_def sendIdentification_def
  validatedIdentification_def invalidIdentification_def tokenAuth_def tokenValidated_def backNotifyStatus_def backNotifyLogon_def

text \<open>The login up to the token: the button, the connection, the answer of the initiator, its token.\<close>

definition login_with_token :: "string \<Rightarrow> string \<Rightarrow> string \<Rightarrow> u32 \<Rightarrow> login_screen \<Rightarrow> login_screen" where
  "login_with_token apikey server token port g = gui_run apikey
     [Emit GS_connectionReady, Deliver, Emit (GS_IdentifyFront server), Deliver, Emit (GS_ValidationToken token port), Deliver]
     (login_onSubmit apikey False g)"

lemma login_with_token_eq:
  "login_with_token apikey server token port (Login_init uid hb seq) = (Login_init uid hb seq)
     \<lparr>lo_enabled := False, lo_progress := Some 3, lo_name := server,
      lo_conn := [SL_sendIdentification, SL_invalidIdentification, SL_tokenValidated], lo_start := (1, 1), lo_port := Some port,
      lo_to_initiator := [Helper_FrontToInitiator \<lparr>afi_apikey = apikey, afi_name = uid\<rparr>],
      lo_to_back := [Helper_FrontToBackToken \<lparr>fbv_token = token\<rparr>]\<rparr>"
  by (simp add: login_with_token_def login_steps Login_init_def Let_def)

text \<open>The frames the login screen has sent to the back end, as the back end receives them.\<close>

definition back_receives :: "u8 \<Rightarrow> IpcHeader \<Rightarrow> net_buffer list \<Rightarrow> backend \<Rightarrow> backend" where
  "back_receives junk d fs b = foldl back_ipc_step b (map (From_front junk d) fs)"

text \<open>The rest of it, when each answer of the back end comes in its turn.\<close>

definition login_to_logon :: "string \<Rightarrow> string \<Rightarrow> IpcLogon \<Rightarrow> login_screen \<Rightarrow> login_screen" where
  "login_to_logon apikey token l g = gui_run apikey
     [Emit (GS_TokenValidation token), Deliver, Emit (GS_Status (PUStatus_code PU_Initialize)), Deliver,
      Emit (GS_Status (PUStatus_code PU_Running)), Deliver, Emit (GS_Logon l), Deliver] g"

text \<open>
  C37: from the button to the logon: when each answer comes in its turn, the screen identifies itself
  to the initiator, connects to the port and sends the token, then the handshake, then
  the logon with the name the initiator gave it; it is accepted when the logon is answered. A
  back end that was given the same token lets exactly the logon through, and makes of it a FIX logon
  under that name and number that asks for one second more than was entered.
\<close>

theorem login_screen_logs_in:
  assumes fresh: "bk_fm b = \<lparr>fm_auth = False, fm_handshake = False, fm_token = Some token\<rparr>" "bq_builder b = []"
    and short: "short token" "short server"
  shows "let g = login_to_logon apikey token l (login_with_token apikey server token port (Login_init uid hb seq)) in
    lo_accepted g \<and> lo_port g = Some port \<and> lo_progress g = Some 7
    \<and> lo_to_initiator g = [Helper_FrontToInitiator \<lparr>afi_apikey = apikey, afi_name = uid\<rparr>]
    \<and> bk_front (back_receives junk d (lo_to_back g) b) = bk_front b @ [Helper_BackToFrontToken \<lparr>fbv_token = token\<rparr>]
    \<and> (\<exists>f h. bq_builder (back_receives junk d (lo_to_back g) b) = [f]
        \<and> builder_step junk dl do now f b' = back_output now
            (M_Logon (Logon_init\<lparr>lg_EncryptMethod := EM_None, lg_HeartBtInt := hb + 1\<rparr>))
            (b'\<lparr>bk_ipc_header := h, bk_user := (bk_user b')\<lparr>us_userid := server, us_seqnum := ucast seq\<rparr>\<rparr>))"
proof -
  let ?l = "\<lparr>il_UserId = server, il_SeqNum = seq, il_HeartBeat = hb\<rparr>"
  define g where "g = login_to_logon apikey token l (login_with_token apikey server token port (Login_init uid hb seq))"
  have g: "lo_accepted g" "lo_port g = Some port" "lo_progress g = Some 7"
    "lo_to_initiator g = [Helper_FrontToInitiator \<lparr>afi_apikey = apikey, afi_name = uid\<rparr>]"
    "lo_to_back g = [Helper_FrontToBackToken \<lparr>fbv_token = token\<rparr>, Helper_HandShake, Helper_Logon ?l]"
    unfolding g_def login_to_logon_def login_with_token_eq by (simp_all add: login_steps Login_init_def)
  have l: "short (il_UserId ?l)" using short(2) by simp
  have r: "bq_builder (back_receives junk d (lo_to_back g) b) = [Helper_Logon ?l]"
    "bk_front (back_receives junk d (lo_to_back g) b) = bk_front b @ [Helper_BackToFrontToken \<lparr>fbv_token = token\<rparr>]"
    using short l by (simp_all add: g(5) back_receives_def front_token front_handshake front_logon(1) fresh front_send_def)
  obtain h where "builder_step junk dl do now (Helper_Logon ?l) b' = back_output now
            (M_Logon (Logon_init\<lparr>lg_EncryptMethod := EM_None, lg_HeartBtInt := hb + 1\<rparr>))
            (b'\<lparr>bk_ipc_header := h, bk_user := (bk_user b')\<lparr>us_userid := server, us_seqnum := ucast seq\<rparr>\<rparr>)"
    using front_logon(2)[of "sample_back sample_user\<lparr>bk_fm := \<lparr>fm_auth = True, fm_handshake = True, fm_token = None\<rparr>\<rparr>" ?l junk dl do now b'] l
    by auto
  with g r show ?thesis unfolding g_def[symmetric] Let_def by blast
qed

theorem login_screen_logs_in_witness:
  "\<exists>f. bq_builder (back_receives 0 \<lparr>ih_MsgType = IT_Reject, ih_BodySize = 0\<rparr>
      (lo_to_back (login_to_logon ''k'' ''0'' \<lparr>il_UserId = [], il_SeqNum = 0, il_HeartBeat = 0\<rparr>
         (login_with_token ''k'' ''alice'' ''0'' 5000 (Login_init ''bob'' 5 1))))
      ((sample_back sample_user)\<lparr>bk_fm := \<lparr>fm_auth = False, fm_handshake = False, fm_token = Some ''0''\<rparr>\<rparr>)) = [f]"
proof -
  let ?b = "(sample_back sample_user)\<lparr>bk_fm := \<lparr>fm_auth = False, fm_handshake = False, fm_token = Some ''0''\<rparr>\<rparr>"
  have "bk_fm ?b = \<lparr>fm_auth = False, fm_handshake = False, fm_token = Some ''0''\<rparr>" "bq_builder ?b = []" "short ''0''" "short ''alice''"
    by (simp_all add: sample_back_def short_def)
  from login_screen_logs_in[OF this] show ?thesis unfolding Let_def by blast
qed

text \<open>The signals a back end still has after it has reported that it runs.\<close>

fun late_step :: "gui_step \<Rightarrow> bool" where
  "late_step Deliver = True"
| "late_step (Emit sig) = (case sig of GS_Status st \<Rightarrow> st \<noteq> PUStatus_code PU_Running
     | GS_Logon _ \<Rightarrow> True | GS_TokenValidation _ \<Rightarrow> True | GS_ExecutionNew _ \<Rightarrow> True | GS_ExecutionEvent _ \<Rightarrow> True
     | _ \<Rightarrow> False)"

definition login_stuck :: "net_buffer list \<Rightarrow> login_screen \<Rightarrow> bool" where
  "login_stuck fs g \<longleftrightarrow> \<not> lo_accepted g \<and> lo_to_back g = fs
     \<and> set (lo_conn g) \<subseteq> {SL_sendIdentification, SL_invalidIdentification, SL_backNotifyStatus}
     \<and> (\<forall>e \<in> set (lo_events g). \<exists>st. e = (SL_backNotifyStatus, GS_Status st) \<and> st \<noteq> PUStatus_code PU_Running)"

lemma login_stuck_run:
  "list_all late_step xs \<Longrightarrow> login_stuck fs g \<Longrightarrow> login_stuck fs (gui_run apikey xs g)"
proof (induction xs arbitrary: g)
  case (Cons x xs)
  have "login_stuck fs (gui_run apikey [x] g)"
  proof (cases x)
    case (Emit sig)
    with Cons.prems show ?thesis
      by (auto simp: login_stuck_def gui_emit_def slot_takes_def split: gui_signal.splits)
  next
    case Deliver
    show ?thesis
    proof (cases "lo_events g")
      case Nil
      with Deliver Cons.prems(2) show ?thesis by (simp add: gui_deliver_def)
    next
      case (Cons e es)
      with Cons.prems(2) obtain st where e: "e = (SL_backNotifyStatus, GS_Status st)" "st \<noteq> PUStatus_code PU_Running"
        by (auto simp: login_stuck_def)
      with Deliver \<open>lo_events g = e # es\<close> Cons.prems(2) show ?thesis
        by (auto simp: login_stuck_def gui_deliver_def run_slot_def slot_takes_def backNotifyStatus_def)
    qed
  qed
  with Cons.IH Cons.prems(1) show ?case by (cases x) simp_all
qed simp

text \<open>
  The login hangs when the back end is quick. It reports that it is initialised and running as
  soon as the token matched, it does not wait for the handshake; if these two reports arrive
  before the screen has handled the answer to its token, they are lost, because only that handler
  connects the slot for them. Then, whatever the back end still reports, the screen is never
  accepted and never sends more than the token and the handshake.
\<close>

theorem early_status_hangs_login:
  assumes "list_all late_step xs"
  shows "let g = gui_run apikey ([Emit (GS_TokenValidation t), Emit (GS_Status (PUStatus_code PU_Initialize)),
        Emit (GS_Status (PUStatus_code PU_Running)), Deliver] @ xs) (login_with_token apikey server token port (Login_init uid hb seq))
    in \<not> lo_accepted g \<and> lo_to_back g = [Helper_FrontToBackToken \<lparr>fbv_token = token\<rparr>, Helper_HandShake]"
proof -
  let ?g = "gui_run apikey [Emit (GS_TokenValidation t), Emit (GS_Status (PUStatus_code PU_Initialize)),
        Emit (GS_Status (PUStatus_code PU_Running)), Deliver] (login_with_token apikey server token port (Login_init uid hb seq))"
  have "login_stuck [Helper_FrontToBackToken \<lparr>fbv_token = token\<rparr>, Helper_HandShake] ?g"
    unfolding login_with_token_eq by (simp add: login_steps Login_init_def login_stuck_def)
  from login_stuck_run[OF assms this, of apikey] show ?thesis by (simp add: login_stuck_def Let_def)
qed

theorem early_status_hangs_login_witness:
  "\<not> lo_accepted (gui_run ''k'' ([Emit (GS_TokenValidation ''0''), Emit (GS_Status (PUStatus_code PU_Initialize)),
      Emit (GS_Status (PUStatus_code PU_Running)), Deliver] @ [Emit (GS_Status (PUStatus_code PU_Stop)), Deliver])
      (login_with_token ''k'' ''alice'' ''0'' 5000 (Login_init ''bob'' 5 1)))"
proof -
  have "list_all late_step [Emit (GS_Status (PUStatus_code PU_Stop)), Deliver]" by simp
  from early_status_hangs_login[OF this] show ?thesis by (simp only: Let_def) blast
qed

section \<open>The order widgets\<close>

text \<open>Every entry of the map of the historic names a row of the table, so no event touches a missing one.\<close>

definition historic_inv :: "historic \<Rightarrow> bool" where
  "historic_inv t \<longleftrightarrow> (\<forall>oid k. hi_root t oid = Some k \<longrightarrow> k < length (hi_rows t) \<and> ie_orderId (hr_exec (hi_rows t ! k)) = oid)"

lemma historic_keeps_inv:
  assumes "historic_inv t"
  shows "historic_inv (historic_newOrder x t)" "historic_inv (historic_eventOrder toInt x t)"
  using assms
  by (auto simp: historic_inv_def historic_newOrder_def historic_eventOrder_def nth_append nth_list_update Let_def
      less_Suc_eq split: option.splits)

text \<open>An order entered on the screen becomes the FIX order, its quantity cut to a whole number.\<close>

lemma entered_order_becomes_fix_order:
  assumes "order_onSubmit stof stoul symbol oid price qty ask = Some f" "stof price = Some p" "stoul qty = Some q"
    and "fm_auth (bk_fm b)" "fm_handshake (bk_fm b)" "short symbol" "short oid" "wf_f32 p" "q \<le> 2 ^ 24"
  shows "\<exists>g h. front_onReceive junk d f b = b\<lparr>bq_builder := bq_builder b @ [g]\<rparr>
    \<and> builder_step junk dl do now g b' = back_output now (M_NewOrderSingle (NewOrderSingle_init\<lparr>
        no_ClOrdID := oid, no_HandlInst := HI_Manual, no_OrderQty := Some (f32_of_int (int q)), no_OrdType := OT_Limit,
        no_Price := Some p, no_Side := (if ask then Side_SellPlus else Side_BuyMinus), no_Symbol := symbol\<rparr>))
      (b'\<lparr>bk_ipc_header := h\<rparr>)"
proof -
  let ?x = "\<lparr>io_symbol = symbol, io_orderId = oid, io_price = p, io_quantity = f32_of_int (int q),
    io_type = (if ask then Side_SellPlus else Side_BuyMinus)\<rparr>"
  have f: "f = Helper_OrderSingle ?x" using assms(1-3) by (simp add: order_onSubmit_def)
  have x: "short (io_symbol ?x) \<and> short (io_orderId ?x) \<and> wf_f32 (io_price ?x) \<and> wf_f32 (io_quantity ?x) \<and> side_ok (io_type ?x)"
    using assms(6-9) wf_f32_whole[of q] side_all_ok[of Side_SellPlus] side_all_ok[of Side_BuyMinus] by (simp add: Side_all_def)
  from front_order(1)[OF assms(4,5) x, of junk d] front_order(2)[OF assms(4,5) x, of junk dl do now b'] show ?thesis
    unfolding f by (simp only: IpcOrderSingle.simps) blast
qed

end
