(* ===== verification/EndToEnd.thy ===== *)
theory EndToEnd
  imports GuiClaims
begin

text \<open>
  An order on its whole way: the screen of the client, its back end, the market of the server, the
  report, the back end again and the table of the screen.
\<close>

definition entered_order :: "string \<Rightarrow> string \<Rightarrow> Price \<Rightarrow> nat \<Rightarrow> bool \<Rightarrow> NewOrderSingle" where
  "entered_order symbol oid p q ask = NewOrderSingle_init\<lparr>
     no_ClOrdID := oid, no_HandlInst := HI_Manual, no_OrderQty := Some (f32_of_int (int q)), no_OrdType := OT_Limit,
     no_Price := Some p, no_Side := (if ask then Side_SellPlus else Side_BuyMinus), no_Symbol := symbol\<rparr>"

text \<open>What the screen is told of an order the market has taken.\<close>

definition taken_execution :: "string \<Rightarrow> string \<Rightarrow> ExecId \<Rightarrow> Price \<Rightarrow> nat \<Rightarrow> bool \<Rightarrow> IpcExecution" where
  "taken_execution market oid exec p q ask = \<lparr>ie_symbol = market, ie_orderId = oid, ie_execId = exec, ie_avgPrice = fzero,
     ie_price = p, ie_side = (if ask then Side_SellPlus else Side_BuyMinus), ie_quantity = f32_of_int (int q),
     ie_remainQty = f32_of_int (int q)\<rparr>"

lemma execution_frame_shown:
  assumes "short (ie_symbol x)" "short (ie_orderId x)" "short (ie_execId x)" "wf_f32 (ie_avgPrice x)" "wf_f32 (ie_price x)"
    "side_ok (ie_side x)" "wf_f32 (ie_quantity x)" "wf_f32 (ie_remainQty x)"
  shows "gui_back_onReceive junk d dx (Helper_ExecutionEvent IT_ExecNew x) = Some (GS_ExecutionNew x)"
proof -
  have ok: "ok_IpcExecution x" using assms by (simp add: ok_IpcExecution_def short_ok)
  have len: "length (enc_IpcExecution x) < 2 ^ 32" using assms(1-3) by (simp add: short_def enc_IpcExecution_def)
  obtain n where h: "get_IpcHeader junk d (Helper_ExecutionEvent IT_ExecNew x)
      = (\<lparr>ih_MsgType = IT_ExecNew, ih_BodySize = n\<rparr>, skip sizeof_IpcHeader (Helper_ExecutionEvent IT_ExecNew x))"
    by (rule hen.frame_header[OF ok len])
  show ?thesis using hen.frame_message[OF ok len, of dx] by (simp add: gui_back_onReceive_def h)
qed

lemma entered_order_sel:
  "no_Price (entered_order symbol oid p q ask) = Some p" "no_OrderQty (entered_order symbol oid p q ask) = Some (f32_of_int (int q))"
  "no_ClOrdID (entered_order symbol oid p q ask) = oid"
  "no_Side (entered_order symbol oid p q ask) = (if ask then Side_SellPlus else Side_BuyMinus)"
  by (simp_all add: entered_order_def)


definition way_message :: "NewOrderSingle ParsedMessage" where
  "way_message = ex_message ''x'' (entered_order ''ACME'' ''c'' (f32_of_int 10) 5 False)"

definition way_market :: market where
  "way_market = (arrived way_message (MarketContainer_init ''ACME''))\<lparr>mk_orders := [], mk_order_now := Some way_message\<rparr>"

lemma way_market_facts:
  "mk_order_now way_market = Some way_message" "tickets way_market = [''x'']" "\<not> qm_lock (mk_mutex way_market)"
  "getSymbol (mk_ob way_market) = ''ACME''" "pm_ExecutionId way_message = ''x''"
  "pm_Message way_message = entered_order ''ACME'' ''c'' (f32_of_int 10) 5 False"
  by (simp_all add: way_market_def way_message_def arrived_def enqueue_order_def MarketContainer_init_def qm_init_def qm_allow_def
      OrderBook_init_def getSymbol_def)

lemma way_market_takes:
  "allowTick Side_BuyMinus (mk_ob way_market) = (True, snd (allowTick Side_BuyMinus (mk_ob way_market)))"
  "\<not> has ''c'' (snd (allowTick Side_BuyMinus (mk_ob way_market)))"
  by (simp_all add: way_market_def arrived_def enqueue_order_def MarketContainer_init_def allowTick_def Let_def tick_allows_def
      has_def OrderBook_init_def computeTick_def)

definition way_back :: backend where
  "way_back = (sample_back sample_user)\<lparr>bk_fm := \<lparr>fm_auth = True, fm_handshake = True, fm_token = None\<rparr>\<rparr>"

definition way_lib :: "kvs \<Rightarrow> fixlib" where
  "way_lib kv = plain_lib\<lparr>fl_ExecutionReport := (\<lambda>m. if m = kv
     then Inr (ack_report ''ACME'' (order_info ''u'' way_message (f32_of_int 10) (f32_of_int 5))) else Inl (missing 37))\<rparr>"


end
