(* ===== verification/Sockets.thy ===== *)
theory Sockets
  imports NetBuffer
begin

unbundle bit_operations_syntax

text \<open>
  The socket layer of \<^verbatim>\<open>shared/Network\<close>: the wrapped calls (\<^verbatim>\<open>CSocket.cpp\<close>), the owner of a
  descriptor (\<^verbatim>\<open>BaseSocket\<close>), the two domains (\<^verbatim>\<open>INet\<close>, \<^verbatim>\<open>Unix\<close>), the two types (\<^verbatim>\<open>Stream\<close>,
  \<^verbatim>\<open>DGram\<close>) and \<^verbatim>\<open>Acceptor\<close>. The system calls are not part of the repository: they are the record
  \<open>kernel\<close>, an argument of every definition, over a type of kernel states \<open>'k\<close>; what the facts at
  the end rely on of it is the documented behaviour, stated as the predicates \<open>descriptors_of\<close>,
  \<open>flags_of\<close>, \<open>names_of\<close> and \<open>files_of\<close>.
\<close>

section \<open>Addresses\<close>

definition AF_UNIX :: int where "AF_UNIX = 1"
definition AF_INET :: int where "AF_INET = 2"
definition SOCK_STREAM :: int where "SOCK_STREAM = 1"
definition SOCK_DGRAM :: int where "SOCK_DGRAM = 2"
definition O_NONBLOCK :: u32 where "O_NONBLOCK = 2048"
definition MAX_SOCKET :: int where "MAX_SOCKET = 30"
definition INADDR_ANY :: u32 where "INADDR_ANY = 0"

text \<open>The fields of a C address as the memory holds them: port and address in network order.\<close>

record sockaddr_in =
  sin_family :: int
  sin_port :: u16
  sin_addr :: u32

record sockaddr_un =
  sun_family :: int
  sun_path :: string

datatype sockaddr = SA_in sockaddr_in | SA_un sockaddr_un

definition sockaddr_in_zero :: sockaddr_in where
  "sockaddr_in_zero = \<lparr>sin_family = 0, sin_port = 0, sin_addr = 0\<rparr>"

definition SUN_PATH :: nat where "SUN_PATH = 108"
definition NUL :: char where "NUL = CHR 0x00"

definition sockaddr_un_zero :: sockaddr_un where
  "sockaddr_un_zero = \<lparr>sun_family = 0, sun_path = replicate SUN_PATH NUL\<rparr>"

text \<open>The code hands 32-bit numbers to \<^verbatim>\<open>htons\<close>, which takes 16 bits.\<close>

definition port_htons :: "u32 \<Rightarrow> u16" where
  "port_htons p = htons (ucast p)"

definition port_ntohs :: "u16 \<Rightarrow> u32" where
  "port_ntohs w = ucast (htons w)"

text \<open>C texts: what a pointer to the characters stands for, and \<^verbatim>\<open>strncpy\<close>, which fills up with zeros.\<close>

definition c_text :: "string \<Rightarrow> string" where
  "c_text s = takeWhile (\<lambda>c. c \<noteq> NUL) s"

definition strncpy :: "string \<Rightarrow> string \<Rightarrow> nat \<Rightarrow> string" where
  "strncpy dest src n = take n (c_text src @ replicate n NUL) @ drop n dest"

section \<open>The kernel\<close>

datatype sockopt = SO_REUSEPORT | SO_BROADCAST

text \<open>
  A result of \<open>-1\<close> is the failure of a call. \<open>kn_recv\<close> gives the count and the bytes it wrote into
  the buffer; \<open>kn_getsockname\<close> gives nothing on failure; an option's value is the bytes the code
  passes; \<open>kn_inet_pton\<close> gives the result and the address.
\<close>

record 'k kernel =
  kn_socket :: "int \<Rightarrow> int \<Rightarrow> int \<Rightarrow> 'k \<Rightarrow> int \<times> 'k"
  kn_accept :: "int \<Rightarrow> 'k \<Rightarrow> int \<times> 'k"
  kn_send :: "int \<Rightarrow> byte list \<Rightarrow> 'k \<Rightarrow> int \<times> 'k"
  kn_sendto :: "int \<Rightarrow> byte list \<Rightarrow> sockaddr \<Rightarrow> 'k \<Rightarrow> int \<times> 'k"
  kn_recv :: "int \<Rightarrow> nat \<Rightarrow> 'k \<Rightarrow> (int \<times> byte list) \<times> 'k"
  kn_recvfrom :: "int \<Rightarrow> nat \<Rightarrow> nat \<Rightarrow> 'k \<Rightarrow> (int \<times> byte list \<times> sockaddr_in) \<times> 'k"
  kn_getfl :: "int \<Rightarrow> 'k \<Rightarrow> u32"
  kn_setfl :: "int \<Rightarrow> u32 \<Rightarrow> 'k \<Rightarrow> int \<times> 'k"
  kn_getfd :: "int \<Rightarrow> 'k \<Rightarrow> int"
  kn_close :: "int \<Rightarrow> 'k \<Rightarrow> int \<times> 'k"
  kn_getsockname :: "int \<Rightarrow> 'k \<Rightarrow> sockaddr_in option"
  kn_bind :: "int \<Rightarrow> sockaddr \<Rightarrow> 'k \<Rightarrow> int \<times> 'k"
  kn_listen :: "int \<Rightarrow> int \<Rightarrow> 'k \<Rightarrow> int \<times> 'k"
  kn_connect :: "int \<Rightarrow> sockaddr \<Rightarrow> 'k \<Rightarrow> int \<times> 'k"
  kn_setsockopt :: "int \<Rightarrow> sockopt \<Rightarrow> byte list \<Rightarrow> 'k \<Rightarrow> int \<times> 'k"
  kn_unlink :: "string \<Rightarrow> 'k \<Rightarrow> int \<times> 'k"
  kn_inet_pton :: "int \<Rightarrow> string \<Rightarrow> int \<times> u32"

section \<open>The wrapped calls\<close>

definition c_create :: "'k kernel \<Rightarrow> int \<Rightarrow> int \<Rightarrow> int \<Rightarrow> 'k \<Rightarrow> int \<times> 'k" where
  "c_create kn d ty proto k = kn_socket kn d ty proto k"

definition c_accept :: "'k kernel \<Rightarrow> int \<Rightarrow> 'k \<Rightarrow> int \<times> 'k" where
  "c_accept kn fd k = kn_accept kn fd k"

definition c_send :: "'k kernel \<Rightarrow> int \<Rightarrow> byte list \<Rightarrow> 'k \<Rightarrow> int \<times> 'k" where
  "c_send kn fd data k = kn_send kn fd data k"

definition c_sendTo :: "'k kernel \<Rightarrow> int \<Rightarrow> byte list \<Rightarrow> sockaddr \<Rightarrow> 'k \<Rightarrow> int \<times> 'k" where
  "c_sendTo kn fd data addr k = kn_sendto kn fd data addr k"

text \<open>The new array holds zeros where the kernel wrote nothing.\<close>

definition c_receive :: "'k kernel \<Rightarrow> int \<Rightarrow> nat \<Rightarrow> 'k \<Rightarrow> (int \<times> byte list) \<times> 'k" where
  "c_receive kn fd n k = (case kn_recv kn fd n k of
     ((error, written), k') \<Rightarrow> ((error, take n (written @ replicate n 0)), k'))"

text \<open>
  Here the array is not cleared: \<open>garbage\<close> is what it held. The length of the address that the code
  announces is the size of a pointer.
\<close>

definition POINTER_SIZE :: nat where "POINTER_SIZE = 8"

definition c_receiveFrom :: "'k kernel \<Rightarrow> byte list \<Rightarrow> int \<Rightarrow> nat \<Rightarrow> 'k \<Rightarrow> (int \<times> byte list \<times> sockaddr_in) \<times> 'k" where
  "c_receiveFrom kn garbage fd n k = (case kn_recvfrom kn fd n POINTER_SIZE k of
     ((error, written, addr), k') \<Rightarrow> ((error, take n (written @ drop (length written) garbage), addr), k'))"

definition c_setBlocking :: "'k kernel \<Rightarrow> int \<Rightarrow> bool \<Rightarrow> 'k \<Rightarrow> bool \<times> 'k" where
  "c_setBlocking kn fd block k = (let flags = kn_getfl kn fd k in
     if flags = -1 then (False, k)
     else let (r, k') = kn_setfl kn fd (if block then flags AND NOT O_NONBLOCK else flags OR O_NONBLOCK) k
       in (r = 0, k'))"

definition c_isBlocking :: "'k kernel \<Rightarrow> int \<Rightarrow> 'k \<Rightarrow> bool" where
  "c_isBlocking kn fd k \<longleftrightarrow> kn_getfl kn fd k AND O_NONBLOCK \<noteq> 0"

definition c_close :: "'k kernel \<Rightarrow> int \<Rightarrow> 'k \<Rightarrow> bool \<times> 'k" where
  "c_close kn fd k = (let (r, k') = kn_close kn fd k in if r \<noteq> 0 then (False, k') else (True, k'))"

definition c_getPort :: "'k kernel \<Rightarrow> int \<Rightarrow> 'k \<Rightarrow> u32" where
  "c_getPort kn fd k = (case kn_getsockname kn fd k of None \<Rightarrow> 0 | Some sin \<Rightarrow> port_ntohs (sin_port sin))"

definition c_is_open :: "'k kernel \<Rightarrow> int \<Rightarrow> 'k \<Rightarrow> bool" where
  "c_is_open kn fd k \<longleftrightarrow> kn_getfd kn fd k \<noteq> -1"

definition c_bind :: "'k kernel \<Rightarrow> int \<Rightarrow> sockaddr \<Rightarrow> 'k \<Rightarrow> bool \<times> 'k" where
  "c_bind kn fd addr k = (let (r, k') = kn_bind kn fd addr k in (r = 0, k'))"

definition c_listen :: "'k kernel \<Rightarrow> int \<Rightarrow> int \<Rightarrow> 'k \<Rightarrow> bool \<times> 'k" where
  "c_listen kn fd backlog k = (let (r, k') = kn_listen kn fd backlog k in (r = 0, k'))"

definition c_connect :: "'k kernel \<Rightarrow> int \<Rightarrow> sockaddr \<Rightarrow> 'k \<Rightarrow> bool \<times> 'k" where
  "c_connect kn fd addr k = (let (r, k') = kn_connect kn fd addr k in (r = 0, k'))"

text \<open>A \<^verbatim>\<open>bool\<close> is one byte, an \<^verbatim>\<open>int\<close> four, the low one first.\<close>

definition c_setReusePort :: "'k kernel \<Rightarrow> int \<Rightarrow> bool \<Rightarrow> 'k \<Rightarrow> bool \<times> 'k" where
  "c_setReusePort kn fd flag k =
     (let (r, k') = kn_setsockopt kn fd SO_REUSEPORT [of_bool flag] k in (r = 0, k'))"

definition c_setBroadcast :: "'k kernel \<Rightarrow> int \<Rightarrow> bool \<Rightarrow> 'k \<Rightarrow> bool \<times> 'k" where
  "c_setBroadcast kn fd bc k =
     (let (r, k') = kn_setsockopt kn fd SO_BROADCAST [of_bool bc, 0, 0, 0] k in (r = 0, k'))"

section \<open>The owner of a descriptor\<close>

record base_socket =
  bs_fd :: int
  bs_dom :: int
  bs_type :: int
  bs_proto :: int

definition base_new :: "int \<Rightarrow> int \<Rightarrow> int \<Rightarrow> base_socket" where
  "base_new d ty proto = \<lparr>bs_fd = -1, bs_dom = d, bs_type = ty, bs_proto = proto\<rparr>"

definition base_of_fd :: "int \<Rightarrow> base_socket" where
  "base_of_fd fd = \<lparr>bs_fd = fd, bs_dom = -1, bs_type = -1, bs_proto = -1\<rparr>"

definition base_setBlocking :: "'k kernel \<Rightarrow> bool \<Rightarrow> 'a base_socket_scheme \<Rightarrow> 'k \<Rightarrow> bool \<times> 'k" where
  "base_setBlocking kn flag s k = c_setBlocking kn (bs_fd s) flag k"

definition base_isBlocking :: "'k kernel \<Rightarrow> 'a base_socket_scheme \<Rightarrow> 'k \<Rightarrow> bool" where
  "base_isBlocking kn s k = c_isBlocking kn (bs_fd s) k"

definition base_isOpen :: "'k kernel \<Rightarrow> 'a base_socket_scheme \<Rightarrow> 'k \<Rightarrow> bool" where
  "base_isOpen kn s k = c_is_open kn (bs_fd s) k"

definition base_getPort :: "'k kernel \<Rightarrow> 'a base_socket_scheme \<Rightarrow> 'k \<Rightarrow> u32" where
  "base_getPort kn s k = c_getPort kn (bs_fd s) k"

definition base_close :: "'k kernel \<Rightarrow> 'a base_socket_scheme \<Rightarrow> 'k \<Rightarrow> bool \<times> 'a base_socket_scheme \<times> 'k" where
  "base_close kn s k =
     (if \<not> base_isOpen kn s k then (True, s, k)
      else case c_close kn (bs_fd s) k of
          (True, k') \<Rightarrow> (True, s\<lparr>bs_fd := -1\<rparr>, k')
        | (False, k') \<Rightarrow> (False, s, k'))"

definition base_create :: "'k kernel \<Rightarrow> 'a base_socket_scheme \<Rightarrow> 'k \<Rightarrow> bool \<times> 'a base_socket_scheme \<times> 'k" where
  "base_create kn s k = (let (fd, k') = c_create kn (bs_dom s) (bs_type s) (bs_proto s) k
     in (fd \<noteq> -1, s\<lparr>bs_fd := fd\<rparr>, k'))"

definition base_recreate :: "'k kernel \<Rightarrow> 'a base_socket_scheme \<Rightarrow> 'k \<Rightarrow> bool \<times> 'a base_socket_scheme \<times> 'k" where
  "base_recreate kn s k =
     (if base_isOpen kn s k
      then case base_close kn s k of
          (False, s', k') \<Rightarrow> (False, s', k')
        | (True, s', k') \<Rightarrow> base_create kn s' k'
      else base_create kn s k)"

section \<open>The domains\<close>

record inet_socket = base_socket +
  in_addr :: sockaddr_in

record unix_socket = base_socket +
  un_addr :: sockaddr_un

text \<open>\<^verbatim>\<open>connect\<close> looks neither at the result of \<^verbatim>\<open>recreate\<close> nor closes the socket when it fails.\<close>

definition inet_connect_ip :: "'k kernel \<Rightarrow> string \<Rightarrow> u32 \<Rightarrow> inet_socket \<Rightarrow> 'k \<Rightarrow> bool \<times> inet_socket \<times> 'k" where
  "inet_connect_ip kn ip port s k =
     (let a = sockaddr_in_zero\<lparr>sin_family := AF_INET, sin_port := port_htons port\<rparr>;
          (_, s, k) = base_recreate kn (s\<lparr>in_addr := a\<rparr>) k;
          (r, ad) = kn_inet_pton kn AF_INET (c_text ip) in
      if r \<le> 0 then (False, s, k)
      else let a = a\<lparr>sin_addr := ad\<rparr>; s = s\<lparr>in_addr := a\<rparr>; (ok, k) = c_connect kn (bs_fd s) (SA_in a) k
        in (ok, s, k))"

definition inet_connect :: "'k kernel \<Rightarrow> u32 \<Rightarrow> u32 \<Rightarrow> inet_socket \<Rightarrow> 'k \<Rightarrow> bool \<times> inet_socket \<times> 'k" where
  "inet_connect kn ip port s k =
     (let a = \<lparr>sin_family = AF_INET, sin_port = port_htons port, sin_addr = htonl ip\<rparr>;
          (_, s, k) = base_recreate kn (s\<lparr>in_addr := a\<rparr>) k;
          (ok, k) = c_connect kn (bs_fd s) (SA_in a) k
      in (ok, s, k))"

definition unix_connect :: "'k kernel \<Rightarrow> string \<Rightarrow> unix_socket \<Rightarrow> 'k \<Rightarrow> bool \<times> unix_socket \<times> 'k" where
  "unix_connect kn path s k =
     (let a = \<lparr>sun_family = AF_UNIX, sun_path = strncpy (sun_path (un_addr s)) path (SUN_PATH - 1)\<rparr>;
          (_, s, k) = base_recreate kn (s\<lparr>un_addr := a\<rparr>) k;
          (ok, k) = c_connect kn (bs_fd s) (SA_un a) k
      in (ok, s, k))"

text \<open>The answer of the kernel, 0 for success, is returned as a truth value.\<close>

definition unix_unlink :: "'k kernel \<Rightarrow> unix_socket \<Rightarrow> 'k \<Rightarrow> bool \<times> 'k" where
  "unix_unlink kn s k = (let path = c_text (sun_path (un_addr s)) in
     if length path \<noteq> 0 then let (r, k') = kn_unlink kn path k in (r \<noteq> 0, k') else (False, k))"

text \<open>The address of a new \<^verbatim>\<open>INet\<close> socket is not initialised, that of a \<^verbatim>\<open>Unix\<close> socket is.\<close>

definition inet_new :: "sockaddr_in \<Rightarrow> int \<Rightarrow> int \<Rightarrow> inet_socket" where
  "inet_new garbage ty proto = base_socket.extend (base_new AF_INET ty proto) (inet_socket.fields garbage)"

definition inet_of_fd :: "sockaddr_in \<Rightarrow> int \<Rightarrow> inet_socket" where
  "inet_of_fd garbage fd = base_socket.extend (base_of_fd fd) (inet_socket.fields garbage)"

definition unix_new :: "int \<Rightarrow> int \<Rightarrow> unix_socket" where
  "unix_new ty proto = base_socket.extend (base_new AF_UNIX ty proto) (unix_socket.fields sockaddr_un_zero)"

definition unix_of_fd :: "int \<Rightarrow> unix_socket" where
  "unix_of_fd fd = base_socket.extend (base_of_fd fd) (unix_socket.fields sockaddr_un_zero)"

section \<open>The types\<close>

text \<open>What the two types share: the received bytes, none when the call failed.\<close>

definition stream_send :: "'k kernel \<Rightarrow> byte list \<Rightarrow> 'a base_socket_scheme \<Rightarrow> 'k \<Rightarrow> int \<times> 'k" where
  "stream_send kn data s k = c_send kn (bs_fd s) data k"

definition stream_send_string :: "'k kernel \<Rightarrow> string \<Rightarrow> 'a base_socket_scheme \<Rightarrow> 'k \<Rightarrow> int \<times> 'k" where
  "stream_send_string kn data s k = stream_send kn (map of_char data) s k"

definition stream_receive :: "'k kernel \<Rightarrow> nat \<Rightarrow> 'a base_socket_scheme \<Rightarrow> 'k \<Rightarrow> byte list \<times> int \<times> 'k" where
  "stream_receive kn n s k = (case c_receive kn (bs_fd s) n k of
     ((error, data), k') \<Rightarrow> (if error \<noteq> -1 then take (nat error) data else [], error, k'))"

definition tcp_new :: "sockaddr_in \<Rightarrow> inet_socket" where
  "tcp_new garbage = inet_new garbage SOCK_STREAM 0"

definition unix_stream_new :: unix_socket where
  "unix_stream_new = unix_new SOCK_STREAM 0"

text \<open>\<^verbatim>\<open>DGram<INet>\<close>: it sends to the address it holds, which each receive replaces by the sender's.\<close>

record udp_socket = inet_socket +
  dg_broadcast :: bool

definition udp_new :: "sockaddr_in \<Rightarrow> bool \<Rightarrow> udp_socket" where
  "udp_new garbage b = inet_socket.extend (inet_new garbage SOCK_DGRAM 0) (udp_socket.fields b)"

definition udp_send :: "'k kernel \<Rightarrow> byte list \<Rightarrow> udp_socket \<Rightarrow> 'k \<Rightarrow> int \<times> 'k" where
  "udp_send kn data s k = c_sendTo kn (bs_fd s) data (SA_in (in_addr s)) k"

definition udp_receive :: "'k kernel \<Rightarrow> byte list \<Rightarrow> nat \<Rightarrow> udp_socket \<Rightarrow> 'k \<Rightarrow> byte list \<times> int \<times> udp_socket \<times> 'k" where
  "udp_receive kn garbage n s k = (case c_receiveFrom kn garbage (bs_fd s) n k of
     ((error, data, addr), k') \<Rightarrow>
       (if error \<noteq> -1 then take (nat error) data else [], error, s\<lparr>in_addr := addr\<rparr>, k'))"

definition udp_setBroadcast :: "'k kernel \<Rightarrow> bool \<Rightarrow> udp_socket \<Rightarrow> 'k \<Rightarrow> bool \<times> udp_socket \<times> 'k" where
  "udp_setBroadcast kn bc s k = (let s = s\<lparr>dg_broadcast := bc\<rparr>;
     (ok, k) = c_setBroadcast kn (bs_fd s) (dg_broadcast s) k in (ok, s, k))"

section \<open>The acceptor\<close>

record acceptor = base_socket +
  ac_path :: string

definition acceptor_new :: "int \<Rightarrow> acceptor" where
  "acceptor_new d = base_socket.extend (base_new d SOCK_STREAM 0) (acceptor.fields [])"

definition acceptor_unlink :: "'k kernel \<Rightarrow> acceptor \<Rightarrow> 'k \<Rightarrow> bool \<times> 'k" where
  "acceptor_unlink kn s k = (if ac_path s = [] then (True, k)
     else let (r, k') = kn_unlink kn (c_text (ac_path s)) k in (r = 0, k'))"

text \<open>The common end of the two \<^verbatim>\<open>listen\<close>: close the socket and give up.\<close>

definition listen_fail :: "'k kernel \<Rightarrow> acceptor \<Rightarrow> 'k \<Rightarrow> bool \<times> acceptor \<times> 'k" where
  "listen_fail kn s k = (let (_, s, k) = base_close kn s k in (False, s, k))"

definition acceptor_listen_inet :: "'k kernel \<Rightarrow> u32 \<Rightarrow> acceptor \<Rightarrow> 'k \<Rightarrow> bool \<times> acceptor \<times> 'k" where
  "acceptor_listen_inet kn port s k =
     (let addr = \<lparr>sin_family = AF_INET, sin_port = port_htons port, sin_addr = INADDR_ANY\<rparr>;
          (ok, s, k) = base_recreate kn s k in
      if \<not> ok then (False, s, k)
      else let (ok, k) = c_bind kn (bs_fd s) (SA_in addr) k in
      if \<not> ok then listen_fail kn s k
      else let (_, k) = c_setReusePort kn (bs_fd s) True k; (ok, k) = c_listen kn (bs_fd s) MAX_SOCKET k in
      if \<not> ok then listen_fail kn s k else (True, s, k))"

definition acceptor_listen_unix :: "'k kernel \<Rightarrow> string \<Rightarrow> acceptor \<Rightarrow> 'k \<Rightarrow> bool \<times> acceptor \<times> 'k" where
  "acceptor_listen_unix kn path s k =
     (if SUN_PATH \<le> length path then (False, s, k)
      else let (ok, k) = acceptor_unlink kn s k in
      if \<not> ok then (False, s, k)
      else let s = s\<lparr>ac_path := path\<rparr>;
          addr = \<lparr>sun_family = AF_UNIX, sun_path = strncpy (replicate SUN_PATH NUL) path (SUN_PATH - 1)\<rparr>;
          (ok, s, k) = base_recreate kn s k in
      if \<not> ok then (False, s, k)
      else let (ok, k) = c_bind kn (bs_fd s) (SA_un addr) k in
      if \<not> ok then listen_fail kn s k
      else let (ok, k) = c_listen kn (bs_fd s) MAX_SOCKET k in
      if \<not> ok then listen_fail kn s k else (True, s, k))"

text \<open>The accepted descriptor, from which the client's socket is made.\<close>

definition acceptor_accept :: "'k kernel \<Rightarrow> acceptor \<Rightarrow> 'k \<Rightarrow> base_socket option \<times> 'k" where
  "acceptor_accept kn s k = (let (fd, k') = c_accept kn (bs_fd s) k
     in (if fd \<noteq> -1 then Some (base_of_fd fd) else None, k'))"

text \<open>
  Destruction: the destructor of \<^verbatim>\<open>Acceptor\<close>, which unlinks in the Unix domain, then that of
  \<^verbatim>\<open>BaseSocket\<close>, which closes. For the other sockets only the latter.
\<close>

definition base_destroy :: "'k kernel \<Rightarrow> 'a base_socket_scheme \<Rightarrow> 'k \<Rightarrow> 'k" where
  "base_destroy kn s k = (let (_, _, k) = base_close kn s k in k)"

definition acceptor_destroy :: "'k kernel \<Rightarrow> bool \<Rightarrow> acceptor \<Rightarrow> 'k \<Rightarrow> 'k" where
  "acceptor_destroy kn is_unix s k =
     (let k = (if is_unix then snd (acceptor_unlink kn s k) else k) in base_destroy kn s k)"

section \<open>What the kernel documents\<close>

text \<open>\<open>fds k\<close>: the open descriptors of the process. A call that opens one gives a fresh number.\<close>

definition opens :: "('k \<Rightarrow> int set) \<Rightarrow> 'k \<Rightarrow> int \<times> 'k \<Rightarrow> bool" where
  "opens fds k r \<longleftrightarrow> (fst r = -1 \<and> fds (snd r) = fds k) \<or>
     (0 \<le> fst r \<and> fst r \<notin> fds k \<and> fds (snd r) = insert (fst r) (fds k))"

definition descriptors_of :: "'k kernel \<Rightarrow> ('k \<Rightarrow> int set) \<Rightarrow> bool" where
  "descriptors_of kn fds \<longleftrightarrow>
     (\<forall>k. -1 \<notin> fds k) \<and>
     (\<forall>fd k. kn_getfd kn fd k = -1 \<longleftrightarrow> fd \<notin> fds k) \<and>
     (\<forall>d t p k. opens fds k (kn_socket kn d t p k)) \<and>
     (\<forall>fd k. opens fds k (kn_accept kn fd k)) \<and>
     (\<forall>fd k. fd \<notin> fds k \<longrightarrow> fst (kn_accept kn fd k) = -1) \<and>
     (\<forall>fd k. fd \<in> fds k \<longrightarrow> fst (kn_close kn fd k) = 0 \<and> fds (snd (kn_close kn fd k)) = fds k - {fd}) \<and>
     (\<forall>fd fl k. fds (snd (kn_setfl kn fd fl k)) = fds k) \<and>
     (\<forall>fd a k. fds (snd (kn_bind kn fd a k)) = fds k) \<and>
     (\<forall>fd n k. fds (snd (kn_listen kn fd n k)) = fds k) \<and>
     (\<forall>fd a k. fds (snd (kn_connect kn fd a k)) = fds k) \<and>
     (\<forall>fd d k. fds (snd (kn_send kn fd d k)) = fds k) \<and>
     (\<forall>fd n k. fds (snd (kn_recv kn fd n k)) = fds k) \<and>
     (\<forall>fd opt v k. fds (snd (kn_setsockopt kn fd opt v k)) = fds k) \<and>
     (\<forall>p k. fds (snd (kn_unlink kn p k)) = fds k)"

lemma descriptorsD:
  assumes "descriptors_of kn fds"
  shows "-1 \<notin> fds k" "kn_getfd kn fd k = -1 \<longleftrightarrow> fd \<notin> fds k"
    "opens fds k (kn_socket kn d t p k)" "opens fds k (kn_accept kn fd k)"
    "fd \<notin> fds k \<Longrightarrow> fst (kn_accept kn fd k) = -1"
    "fd \<in> fds k \<Longrightarrow> fst (kn_close kn fd k) = 0"
    "fd \<in> fds k \<Longrightarrow> fds (snd (kn_close kn fd k)) = fds k - {fd}"
  using assms by (simp_all add: descriptors_of_def)

lemma descriptors_kept:
  assumes "descriptors_of kn fds"
  shows "fds (snd (kn_setfl kn fd fl k)) = fds k" "fds (snd (kn_bind kn fd a k)) = fds k"
    "fds (snd (kn_listen kn fd m k)) = fds k" "fds (snd (kn_connect kn fd a k)) = fds k"
    "fds (snd (kn_send kn fd dat k)) = fds k" "fds (snd (kn_recv kn fd n k)) = fds k"
    "fds (snd (kn_setsockopt kn fd opt v k)) = fds k" "fds (snd (kn_unlink kn q k)) = fds k"
  using assms by (simp_all add: descriptors_of_def)

text \<open>The files of the Unix domain: a name can be bound only when it is free.\<close>

definition files_of :: "'k kernel \<Rightarrow> ('k \<Rightarrow> string set) \<Rightarrow> bool" where
  "files_of kn files \<longleftrightarrow>
     (\<forall>p k. fst (kn_unlink kn p k) = (if p \<in> files k then 0 else -1) \<and> files (snd (kn_unlink kn p k)) = files k - {p}) \<and>
     (\<forall>fd a k. c_text (sun_path a) \<in> files k \<longrightarrow>
        fst (kn_bind kn fd (SA_un a) k) = -1 \<and> files (snd (kn_bind kn fd (SA_un a) k)) = files k) \<and>
     (\<forall>d t p k. files (snd (kn_socket kn d t p k)) = files k) \<and>
     (\<forall>fd k. files (snd (kn_close kn fd k)) = files k)"

text \<open>The names of sockets in the internet domain: a port other than 0 is the one that is bound.\<close>

definition names_of :: "'k kernel \<Rightarrow> bool" where
  "names_of kn \<longleftrightarrow>
     (\<forall>fd a k. fst (kn_bind kn fd (SA_in a) k) = 0 \<longrightarrow> sin_port a \<noteq> 0 \<longrightarrow>
        map_option sin_port (kn_getsockname kn fd (snd (kn_bind kn fd (SA_in a) k))) = Some (sin_port a)) \<and>
     (\<forall>fd opt v k. kn_getsockname kn fd (snd (kn_setsockopt kn fd opt v k)) = kn_getsockname kn fd k) \<and>
     (\<forall>fd m k. kn_getsockname kn fd (snd (kn_listen kn fd m k)) = kn_getsockname kn fd k)"

text \<open>The flags of a descriptor: none of it is the failure, and what is set is read back.\<close>

definition flags_of :: "'k kernel \<Rightarrow> bool" where
  "flags_of kn \<longleftrightarrow>
     (\<forall>fd fl k. fst (kn_setfl kn fd fl k) = 0 \<longrightarrow>
        kn_getfl kn fd (snd (kn_setfl kn fd fl k)) AND O_NONBLOCK = fl AND O_NONBLOCK)"

text \<open>An option of the \<^verbatim>\<open>SOL_SOCKET\<close> level is refused when its value is shorter than an \<^verbatim>\<open>int\<close>.\<close>

definition short_options_refused :: "'k kernel \<Rightarrow> bool" where
  "short_options_refused kn \<longleftrightarrow> (\<forall>fd opt v k. length v < 4 \<longrightarrow> kn_setsockopt kn fd opt v k = (-1, k))"

section \<open>The owner of a descriptor\<close>

text \<open>
  \<open>owns fds fd k rest\<close>: a socket object that holds \<open>fd\<close> is either closed, or the only owner of a
  descriptor beside those of \<open>rest\<close>.
\<close>

definition owns :: "('k \<Rightarrow> int set) \<Rightarrow> int \<Rightarrow> 'k \<Rightarrow> int set \<Rightarrow> bool" where
  "owns fds fd k rest \<longleftrightarrow>
     (fd = -1 \<and> fds k = rest) \<or> (fd \<noteq> -1 \<and> fd \<notin> rest \<and> fds k = insert fd rest)"

lemma isOpen_iff: "descriptors_of kn fds \<Longrightarrow> base_isOpen kn s k \<longleftrightarrow> bs_fd s \<in> fds k"
  by (simp add: base_isOpen_def c_is_open_def descriptorsD)

lemma owns_open_iff: "descriptors_of kn fds \<Longrightarrow> owns fds fd k rest \<Longrightarrow> fd \<in> fds k \<longleftrightarrow> fd \<noteq> -1"
  using descriptorsD(1)[of kn fds k] by (auto simp: owns_def)

lemma base_close_closes:
  assumes "descriptors_of kn fds" "owns fds (bs_fd s) k rest" "base_close kn s k = (ok, s', k')"
  shows "ok" "bs_fd s' = -1" "fds k' = rest" "s' = s\<lparr>bs_fd := -1\<rparr>"
proof -
  have "ok \<and> bs_fd s' = -1 \<and> fds k' = rest \<and> s' = s\<lparr>bs_fd := -1\<rparr>"
  proof (cases "bs_fd s = -1")
    case True
    with assms owns_open_iff[OF assms(1,2)] show ?thesis
      by (cases s) (auto simp: base_close_def isOpen_iff owns_def)
  next
    case False
    then have o: "bs_fd s \<in> fds k" using owns_open_iff[OF assms(1,2)] by simp
    with assms(3) descriptorsD(6,7)[OF assms(1) o]
    have "ok" "s' = s\<lparr>bs_fd := -1\<rparr>" "fds k' = fds k - {bs_fd s}"
      by (auto simp: base_close_def isOpen_iff[OF assms(1)] c_close_def split: prod.splits)
    with assms(2) False show ?thesis by (auto simp: owns_def)
  qed
  then show "ok" "bs_fd s' = -1" "fds k' = rest" "s' = s\<lparr>bs_fd := -1\<rparr>" by auto
qed

lemma base_create_owns:
  assumes "descriptors_of kn fds" "fds k = rest" "base_create kn s k = (ok, s', k')"
  shows "owns fds (bs_fd s') k' rest"
proof -
  from assms(3) have "kn_socket kn (bs_dom s) (bs_type s) (bs_proto s) k = (bs_fd s', k')"
    by (auto simp: base_create_def c_create_def split: prod.splits)
  with descriptorsD(3)[OF assms(1), of k "bs_dom s" "bs_type s" "bs_proto s"]
  show ?thesis using assms(2) by (auto simp: owns_def opens_def)
qed

lemma base_recreate_owns:
  assumes "descriptors_of kn fds" "owns fds (bs_fd s) k rest" "base_recreate kn s k = (ok, s', k')"
  shows "owns fds (bs_fd s') k' rest"
proof (cases "base_isOpen kn s k")
  case True
  obtain o1 s1 k1 where c: "base_close kn s k = (o1, s1, k1)" by (cases "base_close kn s k") auto
  note cl = base_close_closes[OF assms(1,2) c]
  with True assms(3) c have "base_create kn s1 k1 = (ok, s', k')" by (simp add: base_recreate_def)
  from base_create_owns[OF assms(1) cl(3) this] show ?thesis .
next
  case False
  then have "fds k = rest" using assms(2) by (auto simp: owns_def isOpen_iff[OF assms(1)])
  from base_create_owns[OF assms(1) this] assms(3) False show ?thesis by (simp add: base_recreate_def)
qed

lemma recreate_fails_closed:
  assumes "descriptors_of kn fds" "owns fds (bs_fd s) k rest" "base_recreate kn s k = (ok, s', k')" "\<not> ok"
  shows "bs_fd s' = -1"
proof (cases "base_isOpen kn s k")
  case True
  obtain o1 s1 k1 where c: "base_close kn s k = (o1, s1, k1)" by (cases "base_close kn s k") auto
  note cl = base_close_closes[OF assms(1,2) c]
  with True assms(3,4) c show ?thesis by (auto simp: base_recreate_def base_create_def split: prod.splits)
next
  case False
  with assms(3,4) show ?thesis by (auto simp: base_recreate_def base_create_def split: prod.splits)
qed

end
