(* ===== verification/SocketClaims.thy ===== *)
theory SocketClaims
  imports Sockets
begin

text \<open>
  The properties of the socket layer: no operation loses a descriptor, whatever the kernel answers;
  what a failed \<^verbatim>\<open>listen\<close> leaves; the ports; the flags.
\<close>

section \<open>Objects that own a descriptor\<close>

text \<open>Operations in a row: the object, the descriptors handed out, the kernel.\<close>

primrec run_ops :: "('k kernel \<Rightarrow> 'op \<Rightarrow> 's \<Rightarrow> 'k \<Rightarrow> 's \<times> int list \<times> 'k) \<Rightarrow>
    'k kernel \<Rightarrow> 'op list \<Rightarrow> 's \<Rightarrow> 'k \<Rightarrow> 's \<times> int list \<times> 'k" where
  "run_ops step kn [] s k = (s, [], k)"
| "run_ops step kn (a # ops) s k = (let (s1, given, k1) = step kn a s k;
      (s2, given2, k2) = run_ops step kn ops s1 k1 in (s2, given @ given2, k2))"

locale descriptor_owner =
  fixes step :: "'k kernel \<Rightarrow> 'op \<Rightarrow> 's \<Rightarrow> 'k \<Rightarrow> 's \<times> int list \<times> 'k"
    and fd_of :: "'s \<Rightarrow> int"
  assumes step_owns: "descriptors_of kn fds \<Longrightarrow> owns fds (fd_of s) k rest \<Longrightarrow> step kn a s k = (s', given, k') \<Longrightarrow>
      owns fds (fd_of s') k' (rest \<union> set given) \<and> distinct given \<and> set given \<inter> rest = {}"
begin

lemma run_owns:
  "descriptors_of kn fds \<Longrightarrow> owns fds (fd_of s) k rest \<Longrightarrow> run_ops step kn ops s k = (s', given, k') \<Longrightarrow>
     owns fds (fd_of s') k' (rest \<union> set given) \<and> distinct given \<and> set given \<inter> rest = {}"
proof (induction ops arbitrary: s k rest given)
  case (Cons a ops)
  obtain s1 g1 k1 where st: "step kn a s k = (s1, g1, k1)" by (cases "step kn a s k") auto
  obtain s2 g2 k2 where rn: "run_ops step kn ops s1 k1 = (s2, g2, k2)" by (cases "run_ops step kn ops s1 k1") auto
  have e: "s' = s2" "given = g1 @ g2" "k' = k2" using Cons.prems(3) st rn by auto
  from step_owns[OF Cons.prems(1,2) st]
  have 1: "owns fds (fd_of s1) k1 (rest \<union> set g1)" "distinct g1" "set g1 \<inter> rest = {}" by auto
  from Cons.IH[OF Cons.prems(1) 1(1)] rn e
  have "owns fds (fd_of s') k' (rest \<union> set g1 \<union> set g2)" "distinct g2" "set g2 \<inter> (rest \<union> set g1) = {}" by auto
  with 1 e show ?case by (auto simp: Un_assoc)
qed (auto simp: owns_def)

end

lemma owns_move: "fds k' = fds k \<Longrightarrow> owns fds fd k rest \<Longrightarrow> owns fds fd k' rest"
  by (simp add: owns_def)

section \<open>The operations of the acceptor and of the client sockets\<close>

datatype acceptor_op = Listen_inet u32 | Listen_unix string | Accept | Close | Set_blocking bool | Unlink

definition acceptor_step :: "'k kernel \<Rightarrow> acceptor_op \<Rightarrow> acceptor \<Rightarrow> 'k \<Rightarrow> acceptor \<times> int list \<times> 'k" where
  "acceptor_step kn a s k = (case a of
      Listen_inet port \<Rightarrow> let (_, s, k) = acceptor_listen_inet kn port s k in (s, [], k)
    | Listen_unix path \<Rightarrow> let (_, s, k) = acceptor_listen_unix kn path s k in (s, [], k)
    | Accept \<Rightarrow> let (c, k) = acceptor_accept kn s k in (s, (case c of None \<Rightarrow> [] | Some b \<Rightarrow> [bs_fd b]), k)
    | Close \<Rightarrow> let (_, s, k) = base_close kn s k in (s, [], k)
    | Set_blocking b \<Rightarrow> (s, [], snd (base_setBlocking kn b s k))
    | Unlink \<Rightarrow> (s, [], snd (acceptor_unlink kn s k)))"

datatype stream_op = Connect_ip string u32 | Connect u32 u32 | Send "byte list" | Receive nat | Close_stream

definition tcp_step :: "'k kernel \<Rightarrow> stream_op \<Rightarrow> inet_socket \<Rightarrow> 'k \<Rightarrow> inet_socket \<times> int list \<times> 'k" where
  "tcp_step kn a s k = (case a of
      Connect_ip ip port \<Rightarrow> let (_, s, k) = inet_connect_ip kn ip port s k in (s, [], k)
    | Connect ip port \<Rightarrow> let (_, s, k) = inet_connect kn ip port s k in (s, [], k)
    | Send d \<Rightarrow> (s, [], snd (stream_send kn d s k))
    | Receive n \<Rightarrow> (s, [], snd (snd (stream_receive kn n s k)))
    | Close_stream \<Rightarrow> let (_, s, k) = base_close kn s k in (s, [], k))"

section \<open>Every operation keeps the account\<close>

lemma kept_calls:
  assumes "descriptors_of kn fds"
  shows "fds (snd (c_bind kn fd a k)) = fds k" "fds (snd (c_listen kn fd m k)) = fds k"
    "fds (snd (c_connect kn fd a k)) = fds k" "fds (snd (c_setReusePort kn fd b k)) = fds k"
    "fds (snd (c_setBlocking kn fd b k)) = fds k" "fds (snd (c_send kn fd dat k)) = fds k"
    "fds (snd (c_receive kn fd n k)) = fds k" "fds (snd (acceptor_unlink kn s k)) = fds k"
  using descriptors_kept[OF assms]
  by (auto simp: c_bind_def c_listen_def c_connect_def c_setReusePort_def c_setBlocking_def c_send_def
      c_receive_def acceptor_unlink_def Let_def split: prod.splits) (metis snd_conv)+

lemma kept_callsD:
  assumes "descriptors_of kn fds"
  shows "c_bind kn fd a k = (r, k') \<Longrightarrow> fds k' = fds k" "c_listen kn fd m k = (r, k') \<Longrightarrow> fds k' = fds k"
    "c_connect kn fd a k = (r, k') \<Longrightarrow> fds k' = fds k" "c_setReusePort kn fd b k = (r, k') \<Longrightarrow> fds k' = fds k"
    "acceptor_unlink kn s k = (r, k') \<Longrightarrow> fds k' = fds k"
  using kept_calls[OF assms] by (metis snd_conv)+

lemma listen_fail_owns:
  assumes "descriptors_of kn fds" "owns fds (bs_fd s) k rest" "listen_fail kn s k = (ok, s', k')"
  shows "\<not> ok" "bs_fd s' = -1" "fds k' = rest" "ac_path s' = ac_path s"
proof -
  obtain o1 s1 k1 where c: "base_close kn s k = (o1, s1, k1)" by (cases "base_close kn s k") auto
  with assms(3) have "\<not> ok" "s' = s1" "k' = k1" by (auto simp: listen_fail_def)
  with base_close_closes[OF assms(1,2) c]
  show "\<not> ok" "bs_fd s' = -1" "fds k' = rest" "ac_path s' = ac_path s" by auto
qed

text \<open>After binding: listen, or give up.\<close>

lemma listen_end_owns:
  assumes d: "descriptors_of kn fds" and o: "owns fds (bs_fd s) k rest"
    and r: "(let (l, k) = c_listen kn (bs_fd s) m k in if \<not> l then listen_fail kn s k else (True, s, k)) = (ok, s', k')"
  shows "owns fds (bs_fd s') k' rest \<and> (\<not> ok \<longrightarrow> bs_fd s' = -1)"
proof -
  obtain l k1 where c: "c_listen kn (bs_fd s) m k = (l, k1)" by (cases "c_listen kn (bs_fd s) m k") auto
  have o1: "owns fds (bs_fd s) k1 rest" using owns_move[OF kept_callsD(2)[OF d c] o] .
  show ?thesis
  proof (cases l)
    case True
    with c r o1 show ?thesis by auto
  next
    case False
    with c r have "listen_fail kn s k1 = (ok, s', k')" by auto
    from listen_fail_owns[OF d o1 this] show ?thesis by (auto simp: owns_def)
  qed
qed

lemma listen_inet_owns:
  assumes d: "descriptors_of kn fds" and o: "owns fds (bs_fd s) k rest"
    and l: "acceptor_listen_inet kn port s k = (ok, s', k')"
  shows "owns fds (bs_fd s') k' rest \<and> (\<not> ok \<longrightarrow> bs_fd s' = -1)"
proof -
  define addr where "addr = SA_in \<lparr>sin_family = AF_INET, sin_port = port_htons port, sin_addr = INADDR_ANY\<rparr>"
  obtain ok1 s1 k1 where r: "base_recreate kn s k = (ok1, s1, k1)" by (cases "base_recreate kn s k") auto
  note o1 = base_recreate_owns[OF d o r]
  show ?thesis
  proof (cases ok1)
    case False
    with r l have "ok = ok1" "s' = s1" "k' = k1" by (auto simp: acceptor_listen_inet_def)
    with False o1 recreate_fails_closed[OF d o r] show ?thesis by auto
  next
    case True
    obtain b k2 where b: "c_bind kn (bs_fd s1) addr k1 = (b, k2)" by (cases "c_bind kn (bs_fd s1) addr k1") auto
    have o2: "owns fds (bs_fd s1) k2 rest" using owns_move[OF kept_callsD(1)[OF d b] o1] .
    show ?thesis
    proof (cases b)
      case False
      with True r b l have "listen_fail kn s1 k2 = (ok, s', k')"
        by (simp add: acceptor_listen_inet_def addr_def)
      from listen_fail_owns[OF d o2 this] show ?thesis by (auto simp: owns_def)
    next
      case b1: True
      obtain q k3 where q: "c_setReusePort kn (bs_fd s1) True k2 = (q, k3)" by (cases "c_setReusePort kn (bs_fd s1) True k2") auto
      have o3: "owns fds (bs_fd s1) k3 rest" using owns_move[OF kept_callsD(4)[OF d q] o2] .
      have "(let (l, k) = c_listen kn (bs_fd s1) MAX_SOCKET k3 in if \<not> l then listen_fail kn s1 k else (True, s1, k)) = (ok, s', k')"
        using True r b b1 q l by (simp add: acceptor_listen_inet_def addr_def)
      from listen_end_owns[OF d o3 this] show ?thesis .
    qed
  qed
qed

lemma listen_unix_owns:
  assumes d: "descriptors_of kn fds" and o: "owns fds (bs_fd s) k rest"
    and l: "acceptor_listen_unix kn path s k = (ok, s', k')"
  shows "owns fds (bs_fd s') k' rest"
proof -
  define s0 where "s0 = s\<lparr>ac_path := path\<rparr>"
  define addr where "addr = SA_un \<lparr>sun_family = AF_UNIX, sun_path = strncpy (replicate SUN_PATH NUL) path (SUN_PATH - 1)\<rparr>"
  obtain u k0 where u: "acceptor_unlink kn s k = (u, k0)" by (cases "acceptor_unlink kn s k") auto
  have o0: "owns fds (bs_fd s) k0 rest" using owns_move[OF kept_callsD(5)[OF d u] o] .
  then have o0': "owns fds (bs_fd s0) k0 rest" by (simp add: s0_def)
  consider "SUN_PATH \<le> length path" | "length path < SUN_PATH" "\<not> u" | "length path < SUN_PATH" u by linarith
  then show ?thesis
  proof cases
    case 1
    with l o show ?thesis by (auto simp: acceptor_listen_unix_def)
  next
    case 2
    with l u o0 show ?thesis by (auto simp: acceptor_listen_unix_def)
  next
    case 3
    obtain ok1 s1 k1 where r: "base_recreate kn s0 k0 = (ok1, s1, k1)" by (cases "base_recreate kn s0 k0") auto
    note o1 = base_recreate_owns[OF d o0' r]
    show ?thesis
    proof (cases ok1)
      case False
      with 3 u r l o1 show ?thesis by (auto simp: acceptor_listen_unix_def s0_def)
    next
      case True
      obtain b k2 where b: "c_bind kn (bs_fd s1) addr k1 = (b, k2)" by (cases "c_bind kn (bs_fd s1) addr k1") auto
      have o2: "owns fds (bs_fd s1) k2 rest" using owns_move[OF kept_callsD(1)[OF d b] o1] .
      show ?thesis
      proof (cases b)
        case False
        with 3 u True r b l have "listen_fail kn s1 k2 = (ok, s', k')"
          by (simp add: acceptor_listen_unix_def addr_def s0_def)
        from listen_fail_owns[OF d o2 this] show ?thesis by (auto simp: owns_def)
      next
        case b1: True
        have "(let (l, k) = c_listen kn (bs_fd s1) MAX_SOCKET k2 in if \<not> l then listen_fail kn s1 k else (True, s1, k)) = (ok, s', k')"
          using 3 u True r b b1 l by (simp add: acceptor_listen_unix_def addr_def s0_def)
        from listen_end_owns[OF d o2 this] show ?thesis by blast
      qed
    qed
  qed
qed

lemma accept_owns:
  assumes d: "descriptors_of kn fds" and o: "owns fds (bs_fd s) k rest" and a: "acceptor_accept kn s k = (c, k')"
  shows "case c of None \<Rightarrow> fds k' = fds k
    | Some b \<Rightarrow> bs_fd b \<notin> fds k \<and> 0 \<le> bs_fd b \<and> fds k' = insert (bs_fd b) (fds k)"
  using a descriptorsD(4)[OF d, of k "bs_fd s"]
  by (auto simp: acceptor_accept_def c_accept_def base_of_fd_def opens_def split: prod.splits if_splits)

lemma acceptor_step_owns:
  assumes d: "descriptors_of kn fds" and o: "owns fds (bs_fd s) k rest"
    and st: "acceptor_step kn a s k = (s', given, k')"
  shows "owns fds (bs_fd s') k' (rest \<union> set given) \<and> distinct given \<and> set given \<inter> rest = {}"
proof (cases a)
  case (Listen_inet port)
  obtain ok s1 k1 where l: "acceptor_listen_inet kn port s k = (ok, s1, k1)" by (cases "acceptor_listen_inet kn port s k") auto
  with st Listen_inet listen_inet_owns[OF d o l] show ?thesis by (auto simp: acceptor_step_def)
next
  case (Listen_unix path)
  obtain ok s1 k1 where l: "acceptor_listen_unix kn path s k = (ok, s1, k1)" by (cases "acceptor_listen_unix kn path s k") auto
  with st Listen_unix listen_unix_owns[OF d o l] show ?thesis by (auto simp: acceptor_step_def)
next
  case Accept
  obtain c k1 where l: "acceptor_accept kn s k = (c, k1)" by (cases "acceptor_accept kn s k") auto
  with st Accept have e: "s' = s" "k' = k1" "given = (case c of None \<Rightarrow> [] | Some b \<Rightarrow> [bs_fd b])"
    by (auto simp: acceptor_step_def)
  with accept_owns[OF d o l] o show ?thesis by (cases c) (auto simp: owns_def)
next
  case Close
  obtain ok s1 k1 where l: "base_close kn s k = (ok, s1, k1)" by (cases "base_close kn s k") auto
  with st Close base_close_closes[OF d o l] show ?thesis by (auto simp: acceptor_step_def owns_def)
next
  case (Set_blocking b)
  with st have "s' = s" "given = []" "k' = snd (c_setBlocking kn (bs_fd s) b k)"
    by (auto simp: acceptor_step_def base_setBlocking_def)
  with owns_move[OF kept_calls(5)[OF d] o] show ?thesis by simp
next
  case Unlink
  with st have "s' = s" "given = []" "k' = snd (acceptor_unlink kn s k)" by (auto simp: acceptor_step_def)
  with owns_move[OF kept_calls(8)[OF d] o] show ?thesis by simp
qed

lemma connect_owns:
  assumes d: "descriptors_of kn fds" and o: "owns fds (bs_fd s) k rest"
  shows "inet_connect kn ip port s k = (ok, s', k') \<Longrightarrow> owns fds (bs_fd s') k' rest"
    and "inet_connect_ip kn t port s k = (ok, s', k') \<Longrightarrow> owns fds (bs_fd s') k' rest"
proof -
  have rc: "owns fds (bs_fd s1) k1 rest" if "base_recreate kn (s\<lparr>in_addr := a\<rparr>) k = (ok1, s1, k1)" for a ok1 s1 k1
    using base_recreate_owns[OF d _ that] o by simp
  have cn: "owns fds fd k2 rest" if "c_connect kn fd a k1 = (ok2, k2)" "owns fds fd k1 rest" for fd a k1 ok2 k2
    using owns_move[OF kept_callsD(3)[OF d that(1)] that(2)] .
  show "owns fds (bs_fd s') k' rest" if "inet_connect kn ip port s k = (ok, s', k')"
  proof -
    define a where "a = \<lparr>sin_family = AF_INET, sin_port = port_htons port, sin_addr = htonl ip\<rparr>"
    obtain o1 s1 k1 where r: "base_recreate kn (s\<lparr>in_addr := a\<rparr>) k = (o1, s1, k1)"
      by (cases "base_recreate kn (s\<lparr>in_addr := a\<rparr>) k") auto
    obtain o2 k2 where c: "c_connect kn (bs_fd s1) (SA_in a) k1 = (o2, k2)"
      by (cases "c_connect kn (bs_fd s1) (SA_in a) k1") auto
    from that r c have "s' = s1" "k' = k2" by (simp_all add: inet_connect_def a_def Let_def)
    with cn[OF c rc[OF r]] show ?thesis by simp
  qed
  show "owns fds (bs_fd s') k' rest" if q: "inet_connect_ip kn t port s k = (ok, s', k')"
  proof -
    define a where "a = sockaddr_in_zero\<lparr>sin_family := AF_INET, sin_port := port_htons port\<rparr>"
    obtain r1 ad where p: "kn_inet_pton kn AF_INET (c_text t) = (r1, ad)" by fastforce
    obtain o1 s1 k1 where r: "base_recreate kn (s\<lparr>in_addr := a\<rparr>) k = (o1, s1, k1)"
      by (cases "base_recreate kn (s\<lparr>in_addr := a\<rparr>) k") auto
    define a2 where "a2 = a\<lparr>sin_addr := ad\<rparr>"
    obtain o2 k2 where c: "c_connect kn (bs_fd s1) (SA_in a2) k1 = (o2, k2)"
      by (cases "c_connect kn (bs_fd s1) (SA_in a2) k1") auto
    show ?thesis
    proof (cases "r1 \<le> 0")
      case True
      with q r p have "s' = s1" "k' = k1" by (simp_all add: inet_connect_ip_def a_def Let_def)
      with rc[OF r] show ?thesis by simp
    next
      case False
      with q r p c have "s' = s1\<lparr>in_addr := a2\<rparr>" "k' = k2" by (auto simp: inet_connect_ip_def a_def a2_def Let_def)
      with cn[OF c rc[OF r]] show ?thesis by simp
    qed
  qed
qed

lemma tcp_step_owns:
  assumes d: "descriptors_of kn fds" and o: "owns fds (bs_fd s) k rest"
    and st: "tcp_step kn a s k = (s', given, k')"
  shows "owns fds (bs_fd s') k' (rest \<union> set given) \<and> distinct given \<and> set given \<inter> rest = {}"
proof (cases a)
  case (Connect_ip ip port)
  obtain ok s1 k1 where l: "inet_connect_ip kn ip port s k = (ok, s1, k1)" by (cases "inet_connect_ip kn ip port s k") auto
  with st Connect_ip connect_owns(2)[OF d o l] show ?thesis by (auto simp: tcp_step_def)
next
  case (Connect ip port)
  obtain ok s1 k1 where l: "inet_connect kn ip port s k = (ok, s1, k1)" by (cases "inet_connect kn ip port s k") auto
  with st Connect connect_owns(1)[OF d o l] show ?thesis by (auto simp: tcp_step_def)
next
  case (Send dat)
  with st have "s' = s" "given = []" "k' = snd (c_send kn (bs_fd s) dat k)"
    by (auto simp: tcp_step_def stream_send_def)
  with owns_move[OF kept_calls(6)[OF d] o] show ?thesis by simp
next
  case (Receive n)
  obtain e dt k1 where c: "c_receive kn (bs_fd s) n k = ((e, dt), k1)" by (metis surj_pair)
  then have k1: "fds k1 = fds k" using kept_calls(7)[OF d, of "bs_fd s" n k] by simp
  from st Receive c have "s' = s" "given = []" "k' = k1" by (auto simp: tcp_step_def stream_receive_def)
  with owns_move[OF k1 o] show ?thesis by simp
next
  case Close_stream
  obtain ok s1 k1 where l: "base_close kn s k = (ok, s1, k1)" by (cases "base_close kn s k") auto
  with st Close_stream base_close_closes[OF d o l] show ?thesis by (auto simp: tcp_step_def owns_def)
qed

interpretation acc: descriptor_owner acceptor_step bs_fd
  by unfold_locales (rule acceptor_step_owns)

interpretation tcp: descriptor_owner tcp_step bs_fd
  by unfold_locales (rule tcp_step_owns)

lemma destroy_frees:
  assumes "descriptors_of kn fds" "owns fds (bs_fd s) k rest"
  shows "fds (base_destroy kn s k) = rest"
proof -
  obtain ok s1 k1 where c: "base_close kn s k = (ok, s1, k1)" by (cases "base_close kn s k") auto
  with base_close_closes[OF assms c] show ?thesis by (simp add: base_destroy_def)
qed

lemma acceptor_destroy_frees:
  assumes "descriptors_of kn fds" "owns fds (bs_fd s) k rest"
  shows "fds (acceptor_destroy kn u s k) = rest"
proof -
  have "owns fds (bs_fd s) (if u then snd (acceptor_unlink kn s k) else k) rest"
    using assms(2) owns_move[OF kept_calls(8)[OF assms(1)] assms(2)] by simp
  from destroy_frees[OF assms(1) this] show ?thesis by (simp add: acceptor_destroy_def Let_def)
qed

lemma new_owns: "bs_fd s = -1 \<Longrightarrow> owns fds (bs_fd s) k (fds k)"
  by (simp add: owns_def)

section \<open>A small kernel\<close>

text \<open>A process with a list of open descriptors, flags, bound ports and files; for the witnesses.\<close>

record small_kernel =
  sk_fds :: "int list"
  sk_flags :: "int \<Rightarrow> u32"
  sk_names :: "int \<Rightarrow> sockaddr_in option"
  sk_files :: "string list"

definition is_fd :: "small_kernel \<Rightarrow> int \<Rightarrow> bool" where
  "is_fd k fd \<longleftrightarrow> 0 \<le> fd \<and> fd \<in> set (sk_fds k)"

definition fresh_fd :: "small_kernel \<Rightarrow> int" where
  "fresh_fd k = fold max (sk_fds k) 0 + 1"

definition small_open :: "small_kernel \<Rightarrow> int \<times> small_kernel" where
  "small_open k = (fresh_fd k, k\<lparr>sk_fds := fresh_fd k # sk_fds k\<rparr>)"

definition small_bind :: "int \<Rightarrow> sockaddr \<Rightarrow> small_kernel \<Rightarrow> int \<times> small_kernel" where
  "small_bind fd a k = (case a of
      SA_in i \<Rightarrow> (0, k\<lparr>sk_names := (sk_names k)(fd := Some i)\<rparr>)
    | SA_un u \<Rightarrow> (let p = c_text (sun_path u) in
        if p \<in> set (sk_files k) then (-1, k) else (0, k\<lparr>sk_files := p # sk_files k\<rparr>)))"

definition small :: "small_kernel kernel" where
  "small = \<lparr>kn_socket = (\<lambda>d t p k. if d \<in> {1, 2} then small_open k else (-1, k)),
     kn_accept = (\<lambda>fd k. if is_fd k fd then small_open k else (-1, k)),
     kn_send = (\<lambda>fd d k. (int (length d), k)), kn_sendto = (\<lambda>fd d a k. (int (length d), k)),
     kn_recv = (\<lambda>fd n k. ((0, []), k)), kn_recvfrom = (\<lambda>fd n m k. ((0, [], sockaddr_in_zero), k)),
     kn_getfl = (\<lambda>fd k. sk_flags k fd),
     kn_setfl = (\<lambda>fd fl k. (0, k\<lparr>sk_flags := (sk_flags k)(fd := fl)\<rparr>)),
     kn_getfd = (\<lambda>fd k. if is_fd k fd then 0 else -1),
     kn_close = (\<lambda>fd k. if is_fd k fd then (0, k\<lparr>sk_fds := filter (\<lambda>x. x \<noteq> fd) (sk_fds k)\<rparr>) else (-1, k)),
     kn_getsockname = (\<lambda>fd k. sk_names k fd), kn_bind = small_bind, kn_listen = (\<lambda>fd m k. (0, k)),
     kn_connect = (\<lambda>fd a k. (-1, k)),
     kn_setsockopt = (\<lambda>fd opt v k. (if length v < 4 then -1 else 0, k)),
     kn_unlink = (\<lambda>p k. if p \<in> set (sk_files k) then (0, k\<lparr>sk_files := filter (\<lambda>f. f \<noteq> p) (sk_files k)\<rparr>) else (-1, k)),
     kn_inet_pton = (\<lambda>d t. (1, 0))\<rparr>"

definition small_start :: "string list \<Rightarrow> small_kernel" where
  "small_start files = \<lparr>sk_fds = [0, 1, 2], sk_flags = (\<lambda>_. 0), sk_names = (\<lambda>_. None), sk_files = files\<rparr>"

definition small_fds :: "small_kernel \<Rightarrow> int set" where
  "small_fds k = {fd. is_fd k fd}"

lemma fresh_fd_fresh: "0 < fresh_fd k \<and> \<not> is_fd k (fresh_fd k)"
proof -
  have m: "x \<le> fold max xs x \<and> (\<forall>y \<in> set xs. y \<le> fold max xs x)" for x :: int and xs
  proof (induction xs arbitrary: x)
    case (Cons a xs)
    from Cons.IH[of "max a x"] show ?case by auto
  qed simp
  from m[of 0 "sk_fds k"] show ?thesis by (auto simp: fresh_fd_def is_fd_def)
qed

lemma small_opens: "opens small_fds k (small_open k)"
  using fresh_fd_fresh[of k] by (auto simp: opens_def small_open_def small_fds_def is_fd_def)

lemma small_descriptors: "descriptors_of small small_fds"
  unfolding descriptors_of_def
  by (auto simp: small_def small_opens small_bind_def Let_def split: sockaddr.splits)
    (auto simp: small_fds_def is_fd_def opens_def)

lemma small_files: "files_of small (\<lambda>k. set (sk_files k))"
  by (auto simp: files_of_def small_def small_bind_def small_open_def Let_def)

section \<open>The properties\<close>



lemma c_text_strncpy:
  assumes "NUL \<notin> set p" "length p < n"
  shows "c_text (strncpy d p n) = p"
proof -
  have p: "c_text p = p" using assms(1) by (auto simp: c_text_def takeWhile_eq_all_conv)
  obtain m where n: "n = length p + Suc m" using assms(2) less_iff_Suc_add by auto
  have "strncpy d p n = p @ NUL # replicate m NUL @ drop n d"
    unfolding strncpy_def p n by (simp add: take_replicate min_def)
  then show ?thesis using assms(1) by (simp add: c_text_def takeWhile_append)
qed

lemma files_socket:
  assumes "files_of kn files"
  shows "base_close kn s k = (ok, s', k') \<Longrightarrow> files k' = files k"
    "base_create kn s k = (ok, s', k') \<Longrightarrow> files k' = files k"
    "base_recreate kn s k = (ok, s', k') \<Longrightarrow> files k' = files k"
proof -
  have u: "kn_close kn fd k = (r, k') \<Longrightarrow> files k' = files k" "kn_socket kn d t p k = (r, k') \<Longrightarrow> files k' = files k"
    for fd k r k' d t p using assms by (metis files_of_def snd_conv)+
  have cl: "files k' = files k" if "base_close kn s k = (ok, s', k')" for s k ok k' and s' :: "'b base_socket_scheme"
    using that u(1)[of "bs_fd s" k] by (auto simp: base_close_def c_close_def Let_def split: if_splits prod.splits bool.splits)
  have cr: "files k' = files k" if "base_create kn s k = (ok, s', k')" for s k ok k' and s' :: "'b base_socket_scheme"
    using that u(2)[of "bs_dom s" "bs_type s" "bs_proto s" k]
    by (auto simp: base_create_def c_create_def Let_def split: prod.splits)
  show "base_close kn s k = (ok, s', k') \<Longrightarrow> files k' = files k" by (rule cl)
  show "base_create kn s k = (ok, s', k') \<Longrightarrow> files k' = files k" by (rule cr)
  show "base_recreate kn s k = (ok, s', k') \<Longrightarrow> files k' = files k"
    by (auto simp: base_recreate_def split: if_splits prod.splits bool.splits dest: cl cr)
qed

lemma socket_path:
  shows "base_close kn s k = (ok, s', k') \<Longrightarrow> ac_path s' = ac_path s"
    and "base_create kn s k = (ok, s', k') \<Longrightarrow> ac_path s' = ac_path s"
    and "base_recreate kn s k = (ok, s', k') \<Longrightarrow> ac_path s' = ac_path s"
proof -
  have cl: "ac_path s' = ac_path s" if "base_close kn s k = (ok, s', k')" for s k ok s' k'
    using that by (auto simp: base_close_def split: if_splits prod.splits bool.splits)
  have cr: "ac_path s' = ac_path s" if "base_create kn s k = (ok, s', k')" for s k ok s' k'
    using that by (auto simp: base_create_def Let_def split: prod.splits)
  show "base_close kn s k = (ok, s', k') \<Longrightarrow> ac_path s' = ac_path s" by (rule cl)
  show "base_create kn s k = (ok, s', k') \<Longrightarrow> ac_path s' = ac_path s" by (rule cr)
  show "base_recreate kn s k = (ok, s', k') \<Longrightarrow> ac_path s' = ac_path s"
    by (fastforce simp: base_recreate_def split: if_splits prod.splits bool.splits dest: cl cr)
qed

lemma listen_taken_path:
  assumes f: "files_of kn files" and p: "path \<in> files k" "NUL \<notin> set path" "length path < SUN_PATH - 1"
    and s: "ac_path s = []" and l: "acceptor_listen_unix kn path s k = (ok, s', k')"
  shows "\<not> ok \<and> ac_path s' = path \<and> files k' = files k"
proof -
  define s0 where "s0 = s\<lparr>ac_path := path\<rparr>"
  define a where "a = \<lparr>sun_family = AF_UNIX, sun_path = strncpy (replicate SUN_PATH NUL) path (SUN_PATH - 1)\<rparr>"
  have len: "length path < SUN_PATH" using p(3) by simp
  obtain ok1 s1 k1 where r: "base_recreate kn s0 k = (ok1, s1, k1)" by (cases "base_recreate kn s0 k") auto
  have k1: "files k1 = files k" and p1: "ac_path s1 = path"
    using files_socket(3)[OF f r] socket_path(3)[OF r] by (simp_all add: s0_def)
  show ?thesis
  proof (cases ok1)
    case False
    with l r len s k1 p1 show ?thesis by (auto simp: acceptor_listen_unix_def acceptor_unlink_def s0_def)
  next
    case True
    have "c_text (sun_path a) \<in> files k1" using p k1 by (simp add: a_def c_text_strncpy)
    with f have b: "fst (kn_bind kn (bs_fd s1) (SA_un a) k1) = -1" "files (snd (kn_bind kn (bs_fd s1) (SA_un a) k1)) = files k1"
      unfolding files_of_def by blast+
    obtain k2 where k2: "c_bind kn (bs_fd s1) (SA_un a) k1 = (False, k2)" "files k2 = files k1"
      using b by (cases "kn_bind kn (bs_fd s1) (SA_un a) k1") (auto simp: c_bind_def)
    have "listen_fail kn s1 k2 = (ok, s', k')"
      using l r len s True k2 by (simp add: acceptor_listen_unix_def acceptor_unlink_def s0_def a_def)
    then obtain o1 where c: "base_close kn s1 k2 = (o1, s', k')" and "\<not> ok"
      by (auto simp: listen_fail_def split: prod.splits)
    with files_socket(1)[OF f c] socket_path(1)[OF c] k1 p1 k2 show ?thesis by simp
  qed
qed

text \<open>
  An acceptor that was refused a path because someone else listens on it removes that path: the
  failed \<^verbatim>\<open>listen\<close> has stored the path, and the destructor, or the next \<^verbatim>\<open>listen\<close>, unlinks it. Under
  the documented behaviour of the calls the first attempt changes no file and is refused; the
  destruction takes the other's name away, and so does a second attempt before it is bound again.
\<close>

theorem refused_listen_removes_foreign_path:
  assumes "files_of kn files" "path \<in> files k" "path \<noteq> []" "NUL \<notin> set path" "length path < SUN_PATH - 1"
  shows "case acceptor_listen_unix kn path (acceptor_new AF_UNIX) k of (ok, s, k1) \<Rightarrow>
     \<not> ok \<and> files k1 = files k \<and> path \<notin> files (acceptor_destroy kn True s k1) \<and>
     fst (acceptor_unlink kn s k1) \<and> path \<notin> files (snd (acceptor_unlink kn s k1))"
proof -
  obtain ok s k1 where l: "acceptor_listen_unix kn path (acceptor_new AF_UNIX) k = (ok, s, k1)"
    by (cases "acceptor_listen_unix kn path (acceptor_new AF_UNIX) k") auto
  have "ac_path (acceptor_new AF_UNIX) = []" by (simp add: acceptor_new_def base_socket.extend_def acceptor.fields_def)
  from listen_taken_path[OF assms(1,2,4,5) this l]
  have r: "\<not> ok" "ac_path s = path" "files k1 = files k" by auto
  have "c_text path = path" using assms(4) by (auto simp: c_text_def takeWhile_eq_all_conv)
  then have u: "acceptor_unlink kn s k1 = (fst (kn_unlink kn path k1) = 0, snd (kn_unlink kn path k1))"
    using r(2) assms(3) by (simp add: acceptor_unlink_def split: prod.splits)
  have k2: "fst (kn_unlink kn path k1) = 0" "files (snd (kn_unlink kn path k1)) = files k - {path}"
    using assms(1,2) r(3) unfolding files_of_def by simp_all
  obtain o2 s2 k3 where c: "base_close kn s (snd (kn_unlink kn path k1)) = (o2, s2, k3)"
    by (cases "base_close kn s (snd (kn_unlink kn path k1))") auto
  from files_socket(1)[OF assms(1) c] k2 have "path \<notin> files k3" by simp
  then have "path \<notin> files (acceptor_destroy kn True s k1)"
    using c u by (simp add: acceptor_destroy_def base_destroy_def)
  with l r u k2 show ?thesis by simp
qed

theorem refused_listen_removes_foreign_path_witness:
  "case acceptor_listen_unix small ''/tmp/b'' (acceptor_new AF_UNIX) (small_start [''/tmp/b'']) of (ok, s, k1) \<Rightarrow>
     \<not> ok \<and> ''/tmp/b'' \<notin> set (sk_files (acceptor_destroy small True s k1))"
  using refused_listen_removes_foreign_path[OF small_files, of "''/tmp/b''" "small_start [''/tmp/b'']"]
  by (auto simp: small_start_def NUL_def SUN_PATH_def split: prod.splits)

section \<open>Ports and flags\<close>

lemma port_ntohs_htons: "port_ntohs (port_htons p) = of_nat (unat p mod 65536)"
proof -
  have "port_ntohs (port_htons p) = (ucast (ucast p :: u16) :: u32)" by (simp add: port_ntohs_def port_htons_def)
  also have "\<dots> = take_bit 16 p" by (rule bit_word_eqI) (auto simp: bit_simps)
  also have "\<dots> = of_nat (take_bit 16 (unat p))" by (simp flip: take_bit_of_nat)
  finally show ?thesis by (simp add: take_bit_eq_mod)
qed

text \<open>A port is cut to 16 bits: the acceptor listens on the rest, and \<^verbatim>\<open>getPort\<close> answers that.\<close>

theorem listening_port_is_cut:
  assumes n: "names_of kn" and p: "port_htons port \<noteq> 0" and l: "acceptor_listen_inet kn port s k = (True, s', k')"
  shows "base_getPort kn s' k' = of_nat (unat port mod 65536)"
proof -
  define a where "a = \<lparr>sin_family = AF_INET, sin_port = port_htons port, sin_addr = INADDR_ANY\<rparr>"
  obtain ok1 s1 k1 where r: "base_recreate kn s k = (ok1, s1, k1)" by (cases "base_recreate kn s k") auto
  obtain r2 k2 where b: "kn_bind kn (bs_fd s1) (SA_in a) k1 = (r2, k2)" by fastforce
  obtain r3 k3 where q: "kn_setsockopt kn (bs_fd s1) SO_REUSEPORT [1] k2 = (r3, k3)" by fastforce
  obtain r4 k4 where i: "kn_listen kn (bs_fd s1) MAX_SOCKET k3 = (r4, k4)" by fastforce
  from l r b q i have e: "r2 = 0" "s' = s1" "k' = k4"
    by (auto simp: acceptor_listen_inet_def c_bind_def c_setReusePort_def c_listen_def listen_fail_def a_def
        split: if_splits prod.splits)
  have "map_option sin_port (kn_getsockname kn (bs_fd s1) k2) = Some (port_htons port)"
    using n b e(1) p unfolding names_of_def a_def by (metis fst_conv snd_conv sockaddr_in.select_convs(2))
  moreover have "kn_getsockname kn (bs_fd s1) k3 = kn_getsockname kn (bs_fd s1) k2"
    using n q unfolding names_of_def by (metis snd_conv)
  moreover have "kn_getsockname kn (bs_fd s1) k4 = kn_getsockname kn (bs_fd s1) k3"
    using n i unfolding names_of_def by (metis snd_conv)
  ultimately show ?thesis
    using e by (auto simp: base_getPort_def c_getPort_def port_ntohs_htons split: option.splits)
qed

text \<open>\<^verbatim>\<open>isBlocking\<close> answers the opposite of what was set.\<close>

theorem blocking_is_reported_inverted:
  assumes "flags_of kn" "base_setBlocking kn b s k = (True, k')"
  shows "base_isBlocking kn s k' = (\<not> b)"
proof -
  define fl where "fl = (if b then kn_getfl kn (bs_fd s) k AND NOT O_NONBLOCK else kn_getfl kn (bs_fd s) k OR O_NONBLOCK)"
  from assms(2) have "kn_setfl kn (bs_fd s) fl k = (0, k')"
    by (auto simp: base_setBlocking_def c_setBlocking_def Let_def fl_def split: if_splits prod.splits)
  then have "kn_getfl kn (bs_fd s) k' AND O_NONBLOCK = fl AND O_NONBLOCK"
    using assms(1) unfolding flags_of_def by (metis fst_conv snd_conv)
  moreover have "(fl AND O_NONBLOCK = 0) = b"
  proof (cases b)
    case True
    have "(x AND NOT O_NONBLOCK) AND O_NONBLOCK = 0" for x by (rule bit_word_eqI) (simp add: bit_simps)
    with True show ?thesis by (simp add: fl_def)
  next
    case False
    have "(x OR O_NONBLOCK) AND O_NONBLOCK = O_NONBLOCK" for x by (rule bit_word_eqI) (auto simp: bit_simps)
    with False show ?thesis by (simp add: fl_def O_NONBLOCK_def)
  qed
  ultimately show ?thesis by (simp add: base_isBlocking_def c_isBlocking_def)
qed

text \<open>The option is handed over as one byte, so it is refused, and nothing changes.\<close>

lemma reuse_port_never_set:
  "short_options_refused kn \<Longrightarrow> c_setReusePort kn fd b k = (False, k)"
  by (simp add: short_options_refused_def c_setReusePort_def)

text \<open>A socket made from an accepted descriptor has no domain to be created in again.\<close>

lemma accepted_socket_cannot_be_recreated:
  assumes "\<And>t p k. kn_socket kn (-1) t p k = (-1, k)" "bs_dom s = -1"
  shows "fst (base_create kn s k) = False"
  using assms by (simp add: base_create_def c_create_def)

end
