(* ===== verification/Config.thy ===== *)
theory Config
  imports ServerNet Initiator "HOL-Library.Monad_Syntax"
begin

text \<open>
  The configuration files of the four processes: \<^verbatim>\<open>from_json\<close> and \<^verbatim>\<open>to_json\<close> of each \<^verbatim>\<open>Config.cpp\<close>, and
  \<^verbatim>\<open>Configuration::Load\<close>. The JSON library is not part of the repository: what the code calls of it is
  the record \<open>jsonlib\<close> over a type of JSON values, and what a round trip relies on is the predicate
  \<open>json_laws\<close>. A call that throws is \<open>None\<close>. The server's configuration extends what its units read of
  it, the initiator's what its sessions read.
\<close>

section \<open>The JSON library\<close>

record 'j jsonlib =
  jl_parse :: "string \<Rightarrow> 'j option"
  jl_dump :: "nat \<Rightarrow> 'j \<Rightarrow> string"
  jl_at :: "'j \<Rightarrow> string \<Rightarrow> 'j option"
  jl_object :: "(string \<times> 'j) list \<Rightarrow> 'j"
  jl_of_string :: "string \<Rightarrow> 'j"
  jl_of_strings :: "string list \<Rightarrow> 'j"
  jl_of_u32 :: "u32 \<Rightarrow> 'j"
  jl_of_float :: "f32 \<Rightarrow> 'j"
  jl_string :: "'j \<Rightarrow> string option"
  jl_strings :: "'j \<Rightarrow> string list option"
  jl_u32 :: "'j \<Rightarrow> u32 option"
  jl_float :: "'j \<Rightarrow> f32 option"

definition json_laws :: "'j jsonlib \<Rightarrow> bool" where
  "json_laws L \<longleftrightarrow>
     (\<forall>kvs k. distinct (map fst kvs) \<longrightarrow> jl_at L (jl_object L kvs) k = map_of kvs k) \<and>
     (\<forall>s. jl_string L (jl_of_string L s) = Some s) \<and> (\<forall>xs. jl_strings L (jl_of_strings L xs) = Some xs) \<and>
     (\<forall>w. jl_u32 L (jl_of_u32 L w) = Some w) \<and> (\<forall>x. jl_float L (jl_of_float L x) = Some x)"

section \<open>The server\<close>

record srv_config = config +
  cf_TcpPort :: u32

definition srv_from_json :: "'j jsonlib \<Rightarrow> 'j \<Rightarrow> srv_config option" where
  "srv_from_json L json = do {
     user \<leftarrow> jl_at L json ''user'';
     hb \<leftarrow> jl_at L user ''heartbeat'';
     max_to \<leftarrow> jl_at L hb ''max-to'' \<bind> jl_float L;
     network \<leftarrow> jl_at L json ''network'';
     port \<leftarrow> jl_at L network ''tcp-port'' \<bind> jl_u32 L;
     fixconfig \<leftarrow> jl_at L json ''fix-config'';
     markets \<leftarrow> jl_at L fixconfig ''market-list'' \<bind> jl_strings L;
     provider \<leftarrow> jl_at L fixconfig ''provider-name'' \<bind> jl_string L;
     Some \<lparr>cf_ProviderName = provider, cf_MaxTO = max_to, cf_Market = markets, cf_TcpPort = port\<rparr> }"

definition srv_to_json :: "'j jsonlib \<Rightarrow> srv_config \<Rightarrow> 'j" where
  "srv_to_json L c = jl_object L [
     (''user'', jl_object L [(''heartbeat'', jl_object L [(''max-to'', jl_of_float L (cf_MaxTO c))])]),
     (''network'', jl_object L [(''tcp-port'', jl_of_u32 L (cf_TcpPort c))]),
     (''fix-config'', jl_object L [(''market-list'', jl_of_strings L (cf_Market c)),
        (''provider-name'', jl_of_string L (cf_ProviderName c))])]"

definition srv_print :: "'j jsonlib \<Rightarrow> srv_config \<Rightarrow> string" where
  "srv_print L c = ''GlobalConfig'' @ jl_dump L 2 (srv_to_json L c) @ [CHR 0x0A]"

section \<open>The client back end\<close>

record bck_config =
  bb_Ip :: string
  bb_Port :: u32
  bb_ProviderName :: string

definition bck_from_json :: "'j jsonlib \<Rightarrow> 'j \<Rightarrow> bck_config option" where
  "bck_from_json L json = do {
     server \<leftarrow> jl_at L json ''fix-server'';
     ip \<leftarrow> jl_at L server ''ip'' \<bind> jl_string L;
     port \<leftarrow> jl_at L server ''port'' \<bind> jl_u32 L;
     provider \<leftarrow> jl_at L server ''provider'' \<bind> jl_string L;
     Some \<lparr>bb_Ip = ip, bb_Port = port, bb_ProviderName = provider\<rparr> }"

definition bck_to_json :: "'j jsonlib \<Rightarrow> bck_config \<Rightarrow> 'j" where
  "bck_to_json L c = jl_object L [(''fix-server'', jl_object L [(''ip'', jl_of_string L (bb_Ip c)),
     (''port'', jl_of_u32 L (bb_Port c)), (''provider'', jl_of_string L (bb_ProviderName c))])]"

definition bck_print :: "'j jsonlib \<Rightarrow> bck_config \<Rightarrow> string" where
  "bck_print L c = ''GlobalConfig'' @ jl_dump L 2 (bck_to_json L c) @ [CHR 0x0A]"

section \<open>The initiator\<close>

record ini_config = back_config +
  ic_Port :: u32
  ic_ConnectionString :: string

definition ini_from_json :: "'j jsonlib \<Rightarrow> 'j \<Rightarrow> ini_config option" where
  "ini_from_json L json = do {
     front \<leftarrow> jl_at L json ''front'';
     port \<leftarrow> jl_at L front ''port'' \<bind> jl_u32 L;
     back_part \<leftarrow> jl_at L json ''back'';
     executable \<leftarrow> jl_at L back_part ''exec-path'' \<bind> jl_string L;
     args \<leftarrow> jl_at L back_part ''args'' \<bind> jl_strings L;
     address \<leftarrow> jl_at L back_part ''address'' \<bind> jl_string L;
     db \<leftarrow> jl_at L json ''database'';
     connstr \<leftarrow> jl_at L db ''connstr'' \<bind> jl_string L;
     Some \<lparr>bc_Executable = executable, bc_ExecArgs = args, bc_Address = address, ic_Port = port,
       ic_ConnectionString = connstr\<rparr> }"

definition ini_to_json :: "'j jsonlib \<Rightarrow> ini_config \<Rightarrow> 'j" where
  "ini_to_json L c = jl_object L [
     (''front'', jl_object L [(''port'', jl_of_u32 L (ic_Port c))]),
     (''back'', jl_object L [(''exec-path'', jl_of_string L (bc_Executable c)),
        (''args'', jl_of_strings L (bc_ExecArgs c)), (''address'', jl_of_string L (bc_Address c))]),
     (''database'', jl_object L [(''connstr'', jl_of_string L (ic_ConnectionString c))])]"

definition ini_print :: "'j jsonlib \<Rightarrow> ini_config \<Rightarrow> string" where
  "ini_print L c = ''GlobalConfig'' @ jl_dump L 2 (ini_to_json L c) @ [CHR 0x0A]"

section \<open>The GUI\<close>

record gui_config =
  gc_BackIp :: string
  gc_InitiatorIp :: string
  gc_InitiatorPort :: u32
  gc_ApiKey :: string

definition gui_from_json :: "'j jsonlib \<Rightarrow> 'j \<Rightarrow> gui_config option" where
  "gui_from_json L json = do {
     key \<leftarrow> jl_at L json ''api-key'' \<bind> jl_string L;
     initiator_part \<leftarrow> jl_at L json ''initiator'';
     ip \<leftarrow> jl_at L initiator_part ''ip'' \<bind> jl_string L;
     port \<leftarrow> jl_at L initiator_part ''port'' \<bind> jl_u32 L;
     backend_part \<leftarrow> jl_at L json ''back'';
     back_ip \<leftarrow> jl_at L backend_part ''ip'' \<bind> jl_string L;
     Some \<lparr>gc_BackIp = back_ip, gc_InitiatorIp = ip, gc_InitiatorPort = port, gc_ApiKey = key\<rparr> }"

definition gui_to_json :: "'j jsonlib \<Rightarrow> gui_config \<Rightarrow> 'j" where
  "gui_to_json L c = jl_object L [
     (''initiator'', jl_object L [(''ip'', jl_of_string L (gc_InitiatorIp c)), (''port'', jl_of_u32 L (gc_InitiatorPort c))]),
     (''back'', jl_object L [(''ip'', jl_of_string L (gc_BackIp c))]),
     (''api-key'', jl_of_string L (gc_ApiKey c))]"

definition gui_print :: "'j jsonlib \<Rightarrow> gui_config \<Rightarrow> string" where
  "gui_print L c = ''GlobalConfig'' @ jl_dump L 2 (gui_to_json L c) @ [CHR 0x0A]"

section \<open>Loading\<close>

text \<open>
  \<open>file\<close>: the text of the file when it could be opened. The two exceptions of the source, after the
  test whether the path exists and after opening, are constructed and not thrown, so neither test has
  an effect; reading from a stream that did not open throws in the parser. The object keeps its
  value when anything throws.
\<close>

datatype 'a load_result = Loaded 'a | Load_threw

definition Configuration_Load :: "'j jsonlib \<Rightarrow> ('j \<Rightarrow> 'c option) \<Rightarrow> string option \<Rightarrow> 'c \<Rightarrow> 'c load_result \<times> 'c" where
  "Configuration_Load L from_json file old =
     (case do { content \<leftarrow> file; json \<leftarrow> jl_parse L content; from_json json } of
        None \<Rightarrow> (Load_threw, old) | Some c \<Rightarrow> (Loaded c, c))"

section \<open>Facts\<close>

lemma json_lawsD [simp]:
  assumes "json_laws L"
  shows "distinct (map fst kvs) \<Longrightarrow> jl_at L (jl_object L kvs) k = map_of kvs k"
    "jl_string L (jl_of_string L s) = Some s" "jl_strings L (jl_of_strings L xs) = Some xs"
    "jl_u32 L (jl_of_u32 L w) = Some w" "jl_float L (jl_of_float L x) = Some x"
  using assms by (simp_all add: json_laws_def)

text \<open>A small JSON library for the witness.\<close>

datatype json = J_string string | J_strings "string list" | J_u32 u32 | J_float f32 | J_object "(string \<times> json) list"

definition small_json :: "json jsonlib" where
  "small_json = \<lparr>jl_parse = (\<lambda>t. Some (J_string t)), jl_dump = (\<lambda>n j. []),
     jl_at = (\<lambda>j k. case j of J_object kvs \<Rightarrow> map_of kvs k | _ \<Rightarrow> None), jl_object = J_object,
     jl_of_string = J_string, jl_of_strings = J_strings, jl_of_u32 = J_u32, jl_of_float = J_float,
     jl_string = (\<lambda>j. case j of J_string s \<Rightarrow> Some s | _ \<Rightarrow> None),
     jl_strings = (\<lambda>j. case j of J_strings s \<Rightarrow> Some s | _ \<Rightarrow> None),
     jl_u32 = (\<lambda>j. case j of J_u32 w \<Rightarrow> Some w | _ \<Rightarrow> None),
     jl_float = (\<lambda>j. case j of J_float x \<Rightarrow> Some x | _ \<Rightarrow> None)\<rparr>"

lemma small_json_laws: "json_laws small_json"
  by (simp add: json_laws_def small_json_def)

text \<open>
  The configuration that a process writes is the one it reads back, for each of the four
  processes: \<^verbatim>\<open>to_json\<close> puts every value where \<^verbatim>\<open>from_json\<close> looks for it, and loses none.
\<close>

theorem configurations_read_back:
  assumes "json_laws L"
  shows "srv_from_json L (srv_to_json L sc) = Some sc \<and> bck_from_json L (bck_to_json L bc) = Some bc \<and>
    ini_from_json L (ini_to_json L ic) = Some ic \<and> gui_from_json L (gui_to_json L gc) = Some gc"
  using assms
  by (simp add: srv_from_json_def srv_to_json_def bck_from_json_def bck_to_json_def ini_from_json_def
      ini_to_json_def gui_from_json_def gui_to_json_def)

theorem configurations_read_back_witness:
  "bck_from_json small_json (bck_to_json small_json \<lparr>bb_Ip = ''127.0.0.1'', bb_Port = 8080, bb_ProviderName = ''srv''\<rparr>)
     = Some \<lparr>bb_Ip = ''127.0.0.1'', bb_Port = 8080, bb_ProviderName = ''srv''\<rparr>"
  using configurations_read_back[OF small_json_laws] by blast

text \<open>A key that is missing stops the process: the exception of \<^verbatim>\<open>at\<close> is caught nowhere.\<close>

lemma missing_section_throws:
  "jl_at L j ''user'' = None \<Longrightarrow> srv_from_json L j = None"
  "jl_at L j ''fix-server'' = None \<Longrightarrow> bck_from_json L j = None"
  "jl_at L j ''front'' = None \<Longrightarrow> ini_from_json L j = None"
  "jl_at L j ''api-key'' = None \<Longrightarrow> gui_from_json L j = None"
  by (simp_all add: srv_from_json_def bck_from_json_def ini_from_json_def gui_from_json_def)

text \<open>Loading replaces the configuration by the one in the file, or throws and leaves it.\<close>

lemma load_all_or_nothing:
  "Configuration_Load L f file old = (r, c) \<Longrightarrow>
     (r = Load_threw \<and> c = old) \<or> (\<exists>t j. file = Some t \<and> jl_parse L t = Some j \<and> f j = Some c \<and> r = Loaded c)"
  by (auto simp: Configuration_Load_def split: option.splits Option.bind_splits)

end
