(* ===== verification/ThreadsClaims.thy ===== *)
theory ThreadsClaims
  imports Threads
begin

text \<open>What the queue, the ticket lock and the thread pool guarantee, and where they do not.\<close>

section \<open>The ticket lock\<close>

lemma reach_prefix:
  assumes "qm_reach late s"
  shows "\<exists>rest. qs_order s = qs_log s @ rest"
  using qm_invD(8)[OF qm_reach_inv[OF assms]] by blast

text \<open>C15: the market lock is a lock: in every reachable state of any number of threads taking,
  withdrawing and using tickets, however their steps interleave, at most one worker is inside,
  and the workers that entered did so in the order in which the router took their tickets.\<close>

theorem market_lock_exclusive_fifo:
  assumes "qm_reach late s"
  shows "(qs_pc s x = Inside \<longrightarrow> qs_pc s y = Inside \<longrightarrow> x = y)
    \<and> (\<exists>rest. qs_order s = qs_log s @ rest)"
proof (intro conjI impI)
  assume x: "qs_pc s x = Inside" and y: "qs_pc s y = Inside"
  note J = qm_invD(4)[OF qm_reach_inv[OF assms]]
  show "x = y" using J[of x] J[of y] x y by auto
qed (rule reach_prefix[OF assms])

definition two_tickets :: "nat qm_sys" where
  "two_tickets = (let s = (qs_init :: nat qm_sys);
       s1 = goto 5 Ticket s\<lparr>qs_m := qm_allow 5 (qs_m s), qs_order := qs_order s @ [5]\<rparr>;
       s2 = goto 6 Ticket s1\<lparr>qs_m := qm_allow 6 (qs_m s1), qs_order := qs_order s1 @ [6]\<rparr>
     in s2)"

lemma two_tickets_reach: "qm_reach late two_tickets"
  unfolding two_tickets_def Let_def
  by (rule qr_step[OF qr_step[OF qr_init st_allow] st_allow]) (simp_all add: qs_init_def)

lemma two_tickets_eval:
  "qs_order two_tickets = [5, 6]" "qs_log two_tickets = []" "qs_pc two_tickets 5 = Ticket"
  "qm_queue (qs_m two_tickets) = [5, 6]" "qs_pc two_tickets 3 = Idle"
  by (simp_all add: two_tickets_def Let_def qs_init_def qm_init_def qm_allow_def)

lemma own_steps_reach: "own_steps x s s' \<Longrightarrow> qm_reach False s \<Longrightarrow> qm_reach False s'"
  by (induction rule: own_steps.induct) (auto intro: qr_step)

theorem market_lock_exclusive_fifo_witness:
  "\<exists>s :: nat qm_sys. qm_reach False s \<and> qs_pc s 5 = Inside \<and> qs_pc s 6 \<noteq> Inside
    \<and> (\<exists>rest. qs_order s = qs_log s @ rest)"
proof -
  let ?s = "goto 5 Loop two_tickets"
  have r: "qm_reach False ?s" by (rule qr_step[OF two_tickets_reach st_start]) (simp add: two_tickets_eval)
  have "enters 5 ?s" by (rule front_enters[OF qm_reach_inv[OF r]]) (simp_all add: two_tickets_eval qm_front_def)
  then obtain s where s: "own_steps 5 ?s s" "qs_pc s 5 = Inside" by (auto simp: enters_def)
  note r' = own_steps_reach[OF s(1) r]
  from market_lock_exclusive_fifo[OF r', of 5 6] s(2) r' show ?thesis by auto
qed

text \<open>No worker whose turn it is can be stopped by the others: in every reachable state, a
  worker in the spin loop whose identifier heads the queue gets inside by its own steps alone.\<close>

theorem market_lock_front_progress:
  assumes "qm_reach late s" "qm_front (qs_m s) = Some x"
    "qs_pc s x \<in> {Loop, SawNonEmpty, SawFront, SawFree}"
  shows "\<exists>s'. own_steps x s s' \<and> qs_pc s' x = Inside"
  using front_enters[OF qm_reach_inv[OF assms(1)] assms(2,3)] by (simp add: enters_def)

theorem market_lock_front_progress_witness:
  "\<exists>s'. own_steps 5 (goto 5 Loop two_tickets) s' \<and> qs_pc s' 5 = Inside"
proof (rule market_lock_front_progress)
  show "qm_reach False (goto 5 Loop two_tickets)"
    by (rule qr_step[OF two_tickets_reach st_start]) (simp add: two_tickets_eval)
qed (simp_all add: two_tickets_eval qm_front_def)

text \<open>A worker whose ticket was withdrawn never enters: once its identifier is out of the queue
  and it is withdrawn or at the head of the spin loop, this stays so whatever any thread does, the
  worker itself included. Starting it costs the pool a thread for good.\<close>

theorem withdrawn_worker_spins:
  assumes "qm_reach late s" "x \<notin> set (qm_queue (qs_m s))"
    "qs_pc s x \<in> {Withdrawn, Loop, SawNonEmpty}" "(qm_step late)\<^sup>*\<^sup>* s s'"
  shows "x \<notin> set (qm_queue (qs_m s')) \<and> qs_pc s' x \<in> {Withdrawn, Loop, SawNonEmpty}"
proof -
  have "qm_reach late s' \<and> lost x s'"
    using assms(4)
  proof (induction rule: rtranclp_induct)
    case base
    then show ?case using assms(1-3) by (simp add: lost_def)
  next
    case (step t u)
    then show ?case using lost_stays[OF step(2) qm_reach_inv] qr_step by blast
  qed
  then show ?thesis by (simp add: lost_def)
qed

definition one_withdrawn :: "nat qm_sys" where
  "one_withdrawn = (let s = two_tickets in goto 5 Withdrawn s
     \<lparr>qs_m := snd (qm_finish 5 (qs_m s)), qs_order := erase_first (\<lambda>y. y = 5) (qs_order s)\<rparr>)"

lemma one_withdrawn_reach: "qm_reach late one_withdrawn"
  unfolding one_withdrawn_def Let_def
  by (rule qr_step[OF two_tickets_reach st_finish]) (auto simp: two_tickets_eval intro: surjective_pairing)

theorem withdrawn_worker_spins_witness:
  "(5::nat) \<notin> set (qm_queue (qs_m (goto 5 Loop one_withdrawn)))
    \<and> qs_pc (goto 5 Loop one_withdrawn) 5 \<in> {Withdrawn, Loop, SawNonEmpty}"
proof (rule withdrawn_worker_spins[of True one_withdrawn])
  show "(qm_step True)\<^sup>*\<^sup>* one_withdrawn (goto 5 Loop one_withdrawn)"
    by (rule r_into_rtranclp, rule st_start) (simp add: one_withdrawn_def Let_def)
  show "(5::nat) \<notin> set (qm_queue (qs_m one_withdrawn))"
    by (simp add: one_withdrawn_def Let_def two_tickets_eval qm_finish_def)
qed (simp_all add: one_withdrawn_reach, simp add: one_withdrawn_def Let_def)

section \<open>Queues and pool\<close>

text \<open>A processing unit handles every message given to it exactly once, in the order in which
  the messages were pushed, and leaves an empty queue.\<close>

theorem unit_handles_in_order:
  "drain onInput (fold ts_push xs q) s = ([], fold onInput (q @ xs) s)"
  using tsq.contents_push_all[of xs q] by (simp add: drain_fold)

text \<open>While the pool runs, a worker takes every queued task in the order of submission and then
  waits for the next; once \<^verbatim>\<open>stop(WaitEmpty)\<close> was called, it finishes at most one more task however
  many are queued; and a pool started again after a stop ends its threads at once, without a task.\<close>

theorem pool_runs_tasks:
  "(\<not> tp_terminate p \<longrightarrow> worker_run (3 * length (tp_queue p)) W_wait p
      = (W_wait, p\<lparr>tp_queue := []\<rparr>, tp_queue p))
   \<and> (tp_isStarted p \<longrightarrow> length (snd (snd (worker_run n W_wait (snd (pool_stop WaitEmpty p))))) \<le> 1)
   \<and> (tp_isStarted p \<longrightarrow> worker_run (Suc n) W_head (snd (pool_start (snd (pool_stop fin p))))
      = (W_exit, snd (pool_start (snd (pool_stop fin p))), []))"
proof (intro conjI impI)
  assume "\<not> tp_terminate p"
  then show "worker_run (3 * length (tp_queue p)) W_wait p = (W_wait, p\<lparr>tp_queue := []\<rparr>, tp_queue p)"
    by (rule worker_runs_all)
next
  let ?p = "snd (pool_stop WaitEmpty p)"
  assume st: "tp_isStarted p"
  have t: "tp_terminate ?p" using st by (simp add: pool_stop_def)
  show "length (snd (snd (worker_run n W_wait ?p))) \<le> 1"
  proof (cases n)
    case (Suc m)
    show ?thesis
    proof (cases "tp_queue ?p")
      case Nil
      then show ?thesis using st by (simp add: Suc worker_step_def pool_empty_def ts_empty_def pool_stop_def)
    next
      case (Cons tk q)
      let ?r = "?p\<lparr>tp_queue := q\<rparr>"
      have "worker_step W_wait ?p = Some (W_run tk, ?r)"
        using Cons st by (simp add: worker_step_def pool_empty_def ts_empty_def ts_pop_front_def pool_stop_def)
      moreover have "length (snd (snd (worker_run m (W_run tk) ?r))) = 0"
      proof (cases m)
        case (Suc k)
        have "length (snd (snd (worker_run k W_head ?r))) = 0"
          by (cases k) (use t in \<open>simp_all add: worker_run_head_terminated del: worker_run.simps(2)\<close>)
        moreover have "worker_step (W_run tk) ?r = Some (W_head, ?r)" by (simp add: worker_step_def)
        ultimately show ?thesis by (simp add: Suc case_prod_beta)
      qed simp
      ultimately show ?thesis by (simp add: Suc case_prod_beta)
    qed
  qed simp
next
  assume "tp_isStarted p"
  then have "tp_terminate (snd (pool_start (snd (pool_stop fin p))))"
    by (simp add: pool_stop_def pool_start_def)
  then show "worker_run (Suc n) W_head (snd (pool_start (snd (pool_stop fin p))))
      = (W_exit, snd (pool_start (snd (pool_stop fin p))), [])"
    by (rule worker_run_head_terminated)
qed

definition pool_of_two :: "nat pool" where
  "pool_of_two = pool_enqueue 8 (pool_enqueue 7 pool_create)"

lemma pool_of_two_eval: "\<not> tp_terminate pool_of_two" "tp_isStarted pool_of_two"
    "tp_queue pool_of_two = [7, 8]"
  by (simp_all add: pool_of_two_def pool_enqueue_def pool_create_def pool_start_def pool_new_def ts_push_def)

theorem pool_runs_tasks_witness:
  "snd (snd (worker_run 6 W_wait pool_of_two)) = [7, 8]
    \<and> length (snd (snd (worker_run 6 W_wait (snd (pool_stop WaitEmpty pool_of_two))))) \<le> 1"
  using pool_runs_tasks[of pool_of_two 6 Direct] pool_of_two_eval by simp

end
