(* ===== verification/Log.thy ===== *)
theory Log
  imports ThreadsClaims FixConvert "HOL-Library.Finite_Map"
begin

text \<open>
  The loggers of \<^verbatim>\<open>shared/Log\<close>: the levels, the manager that makes loggers by type, the console, file
  and buffer loggers with the thread pool behind the buffer, and the rotation of the log files. The
  text of a time stamp is an argument (\<open>stamp\<close>); the file system is a finite map from names to
  contents, its directories what the calls answer.
\<close>

section \<open>Levels, events and lines\<close>

datatype Level = L_Verbose | L_Debug | L_Info | L_Warning | L_Error | L_Fatal

fun LevelToString :: "Level \<Rightarrow> string" where
  "LevelToString L_Verbose = ''VERB''"
| "LevelToString L_Debug = ''DEBUG''"
| "LevelToString L_Info = ''INFO''"
| "LevelToString L_Warning = ''WARN''"
| "LevelToString L_Error = ''ERR''"
| "LevelToString L_Fatal = ''FATAL''"

record LogEvent =
  ev_level :: Level
  ev_time :: time_point
  ev_content :: string

definition log_line :: "(time_point \<Rightarrow> string) \<Rightarrow> string \<Rightarrow> LogEvent \<Rightarrow> string" where
  "log_line stamp name e = ''['' @ LevelToString (ev_level e) @ ''] ('' @ name @ '') '' @
     stamp (ev_time e) @ '' - '' @ ev_content e"

definition NS_PER_S :: int where "NS_PER_S = 1000000000"

definition floor_seconds :: "time_point \<Rightarrow> time_point" where
  "floor_seconds t = (t div NS_PER_S) * NS_PER_S"

text \<open>The file logger cuts the time to seconds.\<close>

definition file_stamp :: "(time_point \<Rightarrow> string) \<Rightarrow> time_point \<Rightarrow> string" where
  "file_stamp stamp t = stamp (floor_seconds t)"

section \<open>The manager\<close>

text \<open>The classes that are registered, and a logger with its name and, for a buffer, its loggers.\<close>

datatype logger_class = LC_Console | LC_File | LC_Buffer

datatype logger = Console string | File string | Buffer string "logger list"

record manager =
  mg_custom :: "(string, logger_class) fmap"
  mg_default :: "logger_class option"

definition manager_init :: manager where
  "manager_init = \<lparr>mg_custom = fmempty, mg_default = None\<rparr>"

definition registerNewLogger :: "string \<Rightarrow> logger_class \<Rightarrow> manager \<Rightarrow> manager" where
  "registerNewLogger ty c m = m\<lparr>mg_custom := fmupd ty c (mg_custom m)\<rparr>"

definition registerDefaultLogger :: "logger_class \<Rightarrow> manager \<Rightarrow> manager" where
  "registerDefaultLogger c m = m\<lparr>mg_default := Some c\<rparr>"

text \<open>
  Making a logger: a type that is not registered gives an empty function, whose call throws
  (\<open>LE_bad_call\<close>). The constructor of a buffer asks the manager for a console and a file logger, so a
  buffer registered under one of these names never finishes: \<open>n\<close> bounds the depth.
\<close>

datatype logger_error = LE_bad_call | LE_depth

fun make_logger :: "nat \<Rightarrow> manager \<Rightarrow> logger_class option \<Rightarrow> string \<Rightarrow> logger_error + logger" where
  "make_logger n m None name = Inl LE_bad_call"
| "make_logger n m (Some LC_Console) name = Inr (Console name)"
| "make_logger n m (Some LC_File) name = Inr (File name)"
| "make_logger 0 m (Some LC_Buffer) name = Inl LE_depth"
| "make_logger (Suc n) m (Some LC_Buffer) name =
     (case make_logger n m (fmlookup (mg_custom m) ''console'') name of
        Inl e \<Rightarrow> Inl e
      | Inr c \<Rightarrow> (case make_logger n m (fmlookup (mg_custom m) ''file'') name of
          Inl e \<Rightarrow> Inl e
        | Inr f \<Rightarrow> Inr (Buffer name [c, f])))"

definition newLogger_type :: "nat \<Rightarrow> string \<Rightarrow> string \<Rightarrow> manager \<Rightarrow> logger_error + logger" where
  "newLogger_type n ty name m = make_logger n m (fmlookup (mg_custom m) ty) name"

definition newLogger :: "nat \<Rightarrow> string \<Rightarrow> manager \<Rightarrow> logger_error + logger" where
  "newLogger n name m = make_logger n m (mg_default m) name"

text \<open>What the server's \<^verbatim>\<open>main\<close> registers, and what those of the client processes do.\<close>

definition server_loggers :: "manager \<Rightarrow> manager" where
  "server_loggers m = registerDefaultLogger LC_Buffer (registerNewLogger ''file'' LC_File
     (registerNewLogger ''console'' LC_Console m))"

definition client_loggers :: "manager \<Rightarrow> manager" where
  "client_loggers m = registerDefaultLogger LC_Buffer (registerNewLogger ''buffer'' LC_Buffer
     (registerNewLogger ''file'' LC_File (registerNewLogger ''console'' LC_Console m)))"

section \<open>Writing\<close>

text \<open>The standard output, the open log file (nothing while it is closed) and the buffer's pool.\<close>

record log_state =
  lg_console :: "string list"
  lg_file :: "string list option"
  lg_pool :: "(logger list \<times> LogEvent) pool"

definition log_init :: log_state where
  "log_init = \<lparr>lg_console = [], lg_file = None, lg_pool = pool_create\<rparr>"

fun newEventLog :: "(time_point \<Rightarrow> string) \<Rightarrow> logger \<Rightarrow> LogEvent \<Rightarrow> log_state \<Rightarrow> log_state" where
  "newEventLog stamp (Console name) e s = s\<lparr>lg_console := lg_console s @ [log_line stamp name e]\<rparr>"
| "newEventLog stamp (File name) e s = s\<lparr>lg_file :=
     map_option (\<lambda>ls. ls @ [log_line (file_stamp stamp) name e]) (lg_file s)\<rparr>"
| "newEventLog stamp (Buffer name ls) e s = s\<lparr>lg_pool := pool_enqueue (ls, e) (lg_pool s)\<rparr>"

definition log_event :: "(time_point \<Rightarrow> string) \<Rightarrow> logger \<Rightarrow> Level \<Rightarrow> time_point \<Rightarrow> string \<Rightarrow> log_state \<Rightarrow> log_state" where
  "log_event stamp l lvl now content s =
     newEventLog stamp l \<lparr>ev_level = lvl, ev_time = now, ev_content = content\<rparr> s"

text \<open>The task of the buffer, and what a list of them writes.\<close>

definition buffer_task :: "(time_point \<Rightarrow> string) \<Rightarrow> logger list \<times> LogEvent \<Rightarrow> log_state \<Rightarrow> log_state" where
  "buffer_task stamp t s = fold (\<lambda>l. newEventLog stamp l (snd t)) (fst t) s"

text \<open>The pool has one worker: it runs for \<open>n\<close> steps and writes what it takes.\<close>

definition buffer_runs :: "(time_point \<Rightarrow> string) \<Rightarrow> nat \<Rightarrow> (logger list \<times> LogEvent) worker \<Rightarrow> log_state \<Rightarrow> (logger list \<times> LogEvent) worker \<times> log_state" where
  "buffer_runs stamp n w s = (case worker_run n w (lg_pool s) of
     (w', p, ts) \<Rightarrow> (w', fold (buffer_task stamp) ts (s\<lparr>lg_pool := p\<rparr>)))"

definition Buffer_Stop :: "log_state \<Rightarrow> log_state" where
  "Buffer_Stop s = s\<lparr>lg_pool := snd (pool_stop WaitEmpty (lg_pool s))\<rparr>"

definition File_Deinit :: "log_state \<Rightarrow> log_state" where
  "File_Deinit s = s\<lparr>lg_file := None\<rparr>"

section \<open>The log files\<close>

type_synonym 'c files = "(string, 'c) fmap"

definition log_name :: "string \<Rightarrow> nat \<Rightarrow> string" where
  "log_name path i = path @ ''.'' @ dec_string i @ ''.log''"

text \<open>\<^verbatim>\<open>std::rename\<close>: a file of the new name is replaced; without the old one nothing happens.\<close>

definition fs_rename :: "string \<Rightarrow> string \<Rightarrow> 'c files \<Rightarrow> 'c files" where
  "fs_rename a b fs = (case fmlookup fs a of None \<Rightarrow> fs | Some c \<Rightarrow> fmupd b c (fmdrop a fs))"

lemma dec_string_inj: "dec_string i = dec_string j \<longleftrightarrow> i = j"
  by (metis dec_val_dec_string)

lemma log_name_inj [simp]: "log_name path i = log_name path j \<longleftrightarrow> i = j"
  by (simp add: log_name_def dec_string_inj)

lemma finite_log_names: "finite {j. i \<le> j \<and> log_name path j \<in> fmdom' fs}"
proof -
  have "log_name path ` {j. i \<le> j \<and> log_name path j \<in> fmdom' fs} \<subseteq> fmdom' fs" by auto
  then have "finite (log_name path ` {j. i \<le> j \<and> log_name path j \<in> fmdom' fs})"
    using finite_fmdom' finite_subset by blast
  then show ?thesis by (rule finite_imageD) (simp add: inj_on_def)
qed

function moveFile :: "string \<Rightarrow> nat \<Rightarrow> 'c files \<Rightarrow> 'c files" where
  "moveFile path it fs =
     (let fs = (if log_name path it \<in> fmdom' fs then moveFile path (it + 1) fs else fs)
      in fs_rename (log_name path it) (log_name path (it + 1)) fs)"
  by pat_completeness auto
termination
proof (relation "measure (\<lambda>(path, it, fs). card {j. it \<le> j \<and> log_name path j \<in> fmdom' fs})")
  fix path it and fs :: "'c files"
  assume a: "log_name path it \<in> fmdom' fs"
  have "{j. it + 1 \<le> j \<and> log_name path j \<in> fmdom' fs} \<subset> {j. it \<le> j \<and> log_name path j \<in> fmdom' fs}"
    (is "?A \<subset> ?B")
  proof -
    have "it \<in> ?B" "it \<notin> ?A" "?A \<subseteq> ?B" using a by auto
    then show ?thesis by blast
  qed
  from psubset_card_mono[OF finite_log_names this]
  show "((path, it + 1, fs), path, it, fs) \<in> measure (\<lambda>(path, it, fs). card {j. it \<le> j \<and> log_name path j \<in> fmdom' fs})"
    by simp
qed simp
declare moveFile.simps [simp del]

text \<open>
  Paths as \<^verbatim>\<open>std::filesystem\<close> takes them apart, for texts without repeated separators: the directory
  before the last separator, the name after it, and the stem of a name.
\<close>

definition parent_path :: "string \<Rightarrow> string" where
  "parent_path p = rev (drop 1 (dropWhile (\<lambda>c. c \<noteq> CHR ''/'') (rev p)))"

definition file_name :: "string \<Rightarrow> string" where
  "file_name p = rev (takeWhile (\<lambda>c. c \<noteq> CHR ''/'') (rev p))"

definition stem :: "string \<Rightarrow> string" where
  "stem f = (let s = rev (drop 1 (dropWhile (\<lambda>c. c \<noteq> CHR ''.'') (rev f)))
     in if f = ''.'' \<or> f = ''..'' \<or> s = [] then f else s)"

definition path_join :: "string \<Rightarrow> string \<Rightarrow> string" where
  "path_join d f = (if d = [] then f else d @ ''/'' @ f)"

text \<open>
  \<^verbatim>\<open>File::Init\<close>; \<open>dir\<close>: the directory exists or could be made. The stream is opened for writing, which
  empties the file; it fails where there is no directory.
\<close>

definition File_Init :: "bool \<Rightarrow> string \<Rightarrow> string list files \<Rightarrow> log_state \<Rightarrow> string list files \<times> log_state" where
  "File_Init dir file fs s =
     (let path = log_name file 0;
          fs = (if path \<in> fmdom' fs then moveFile (path_join (parent_path path) (stem (stem (file_name path)))) 0 fs else fs)
      in if dir then (fmupd path [] fs, s\<lparr>lg_file := Some []\<rparr>) else (fs, s))"

section \<open>Rotation\<close>

lemma moveFile_eq: "moveFile p k fs = fs_rename (log_name p k) (log_name p (k + 1))
    (if log_name p k \<in> fmdom' fs then moveFile p (k + 1) fs else fs)"
  by (subst moveFile.simps) (simp add: Let_def)

lemma moveFile_shifts:
  assumes "\<forall>i < n. log_name p (k + i) \<in> fmdom' fs" "log_name p (k + n) \<notin> fmdom' fs"
  shows "fmlookup (moveFile p k fs) (log_name p k) = None \<and>
    (\<forall>i < n. fmlookup (moveFile p k fs) (log_name p (k + i + 1)) = fmlookup fs (log_name p (k + i))) \<and>
    (\<forall>x. (\<forall>i \<le> n. x \<noteq> log_name p (k + i)) \<longrightarrow> fmlookup (moveFile p k fs) x = fmlookup fs x)"
  using assms
proof (induction n arbitrary: k)
  case 0
  then have "fmlookup fs (log_name p k) = None" by (simp add: fmdom'_notD)
  then show ?case using 0 by (simp add: moveFile_eq fs_rename_def)
next
  case (Suc n)
  let ?m = "moveFile p (k + 1) fs"
  have here: "log_name p k \<in> fmdom' fs" using Suc.prems(1) by (metis add_0_right zero_less_Suc)
  have "\<forall>i < n. log_name p (k + 1 + i) \<in> fmdom' fs"
    using Suc.prems(1) by (metis Suc_eq_plus1_left add.assoc Suc_mono)
  moreover have "log_name p (k + 1 + n) \<notin> fmdom' fs" using Suc.prems(2) by simp
  ultimately have IH: "fmlookup ?m (log_name p (k + 1)) = None"
    "\<And>i. i < n \<Longrightarrow> fmlookup ?m (log_name p (k + 1 + i + 1)) = fmlookup fs (log_name p (k + 1 + i))"
    "\<And>x. \<forall>i \<le> n. x \<noteq> log_name p (k + 1 + i) \<Longrightarrow> fmlookup ?m x = fmlookup fs x"
    using Suc.IH[of "k + 1"] by blast+
  obtain c where c: "fmlookup fs (log_name p k) = Some c" using here by (metis fmdom'_notI option.exhaust)
  have "fmlookup ?m (log_name p k) = Some c" using IH(3)[of "log_name p k"] c by simp
  then have mv: "moveFile p k fs = fmupd (log_name p (k + 1)) c (fmdrop (log_name p k) ?m)"
    using here by (simp add: moveFile_eq[of p k fs] fs_rename_def)
  show ?case
  proof (intro conjI allI impI)
    show "fmlookup (moveFile p k fs) (log_name p k) = None" by (simp add: mv)
  next
    fix i assume i: "i < Suc n"
    show "fmlookup (moveFile p k fs) (log_name p (k + i + 1)) = fmlookup fs (log_name p (k + i))"
    proof (cases i)
      case 0
      then show ?thesis by (simp add: mv c)
    next
      case (Suc j)
      with i IH(2)[of j] show ?thesis by (simp add: mv)
    qed
  next
    fix x assume x: "\<forall>i \<le> Suc n. x \<noteq> log_name p (k + i)"
    have "x \<noteq> log_name p (k + 1 + i)" if "i \<le> n" for i using x that by (metis Suc_eq_plus1_left Suc_le_mono add.assoc)
    then have "fmlookup ?m x = fmlookup fs x" using IH(3)[of x] by blast
    moreover have "x \<noteq> log_name p k" "x \<noteq> log_name p (k + 1)"
      using x by (metis add_0_right zero_le, metis le_add1 plus_1_eq_Suc)
    ultimately show "fmlookup (moveFile p k fs) x = fmlookup fs x" by (simp add: mv)
  qed
qed

text \<open>The first free number.\<close>

lemma first_free: "\<exists>n. (\<forall>i < n. log_name p (k + i) \<in> fmdom' fs) \<and> log_name p (k + n) \<notin> fmdom' fs"
proof -
  have "\<exists>n. log_name p (k + n) \<notin> fmdom' fs"
  proof (rule ccontr)
    assume "\<not> ?thesis"
    then have "{j. k \<le> j \<and> log_name p j \<in> fmdom' fs} = {k..}" by (auto simp: le_iff_add)
    with finite_log_names[of k p fs] show False by (simp add: infinite_Ici)
  qed
  then show ?thesis using exists_least_iff[of "\<lambda>n. log_name p (k + n) \<notin> fmdom' fs"] by blast
qed

lemma stem_base: "b \<noteq> [] \<Longrightarrow> CHR ''/'' \<notin> set b \<Longrightarrow> stem (stem (b @ ''.0.log'')) = b"
  by (simp add: stem_def Let_def)

lemma dec_string_0 [simp]: "dec_string 0 = ''0''"
  by (subst dec_string.simps) (simp add: digit_char_def char_of_def bit_0)

lemma log_path_parts:
  assumes "b \<noteq> []" "CHR ''/'' \<notin> set b" "d \<noteq> []"
  shows "path_join (parent_path (log_name (d @ ''/'' @ b) 0)) (stem (stem (file_name (log_name (d @ ''/'' @ b) 0)))) = d @ ''/'' @ b"
proof -
  have n: "log_name (d @ ''/'' @ b) 0 = d @ ''/'' @ b @ ''.0.log''" by (simp add: log_name_def)
  have f: "file_name (d @ ''/'' @ b @ ''.0.log'') = b @ ''.0.log''"
    using assms(2) by (simp add: file_name_def takeWhile_append)
  have p: "parent_path (d @ ''/'' @ b @ ''.0.log'') = d"
    using assms(2) by (simp add: parent_path_def dropWhile_append)
  show ?thesis unfolding n f p stem_base[OF assms(1,2)] using assms(3) by (simp add: path_join_def)
qed

end
