(* ===== verification/LogClaims.thy ===== *)
theory LogClaims
  imports Log
begin

text \<open>
  The properties of the loggers: the rotation of the files, the order of what is written, and what
  \<^verbatim>\<open>Buffer::Stop\<close> drops.
\<close>

section \<open>The manager\<close>

lemma registered_default_logger:
  "newLogger (Suc n) name (server_loggers m) = Inr (Buffer name [Console name, File name])"
  "newLogger (Suc n) name (client_loggers m) = Inr (Buffer name [Console name, File name])"
  by (cases n; simp add: newLogger_def server_loggers_def client_loggers_def registerNewLogger_def registerDefaultLogger_def)+

text \<open>A logger asked for before the registration throws; a buffer under the name of its own part never ends.\<close>

lemma unregistered_logger_throws:
  "newLogger n name manager_init = Inl LE_bad_call"
  "newLogger_type n ty name manager_init = Inl LE_bad_call"
  "newLogger (Suc n) name (registerDefaultLogger LC_Buffer manager_init) = Inl LE_bad_call"
  by (simp_all add: newLogger_def newLogger_type_def manager_init_def registerDefaultLogger_def)

lemma buffer_as_console_never_made:
  "newLogger_type n ''console'' name (registerNewLogger ''console'' LC_Buffer m) = Inl LE_depth"
proof (induction n)
  case (Suc n)
  then show ?case by (simp add: newLogger_type_def registerNewLogger_def)
qed (simp add: newLogger_type_def registerNewLogger_def)

section \<open>Rotation\<close>

text \<open>
  Opening the log file loses no log: the files numbered from 0 without a gap move up by one with
  their contents, the new file 0 is empty and open, and every other file stays as it is, those after
  the gap included.
\<close>

theorem log_rotation_keeps_files:
  assumes "b \<noteq> []" "CHR ''/'' \<notin> set b" "d \<noteq> []"
  shows "\<exists>n. (\<forall>i < n. log_name (d @ ''/'' @ b) i \<in> fmdom' fs) \<and> log_name (d @ ''/'' @ b) n \<notin> fmdom' fs \<and>
    (case File_Init True (d @ ''/'' @ b) fs s of (fs', s') \<Rightarrow>
       lg_file s' = Some [] \<and> fmlookup fs' (log_name (d @ ''/'' @ b) 0) = Some [] \<and>
       (\<forall>i < n. fmlookup fs' (log_name (d @ ''/'' @ b) (i + 1)) = fmlookup fs (log_name (d @ ''/'' @ b) i)) \<and>
       (\<forall>x. (\<forall>i \<le> n. x \<noteq> log_name (d @ ''/'' @ b) i) \<longrightarrow> fmlookup fs' x = fmlookup fs x))"
proof -
  let ?p = "d @ ''/'' @ b"
  obtain n where n: "\<forall>i < n. log_name ?p (0 + i) \<in> fmdom' fs" "log_name ?p (0 + n) \<notin> fmdom' fs"
    using first_free[of ?p 0 fs] by blast
  note sh = moveFile_shifts[OF n]
  have i: "File_Init True ?p fs s = (fmupd (log_name ?p 0) [] (moveFile ?p 0 fs), s\<lparr>lg_file := Some []\<rparr>)"
  proof (cases "log_name ?p 0 \<in> fmdom' fs")
    case True
    then show ?thesis by (simp only: File_Init_def Let_def log_path_parts[OF assms] if_True)
  next
    case False
    then have "fmlookup fs (log_name ?p 0) = None" by (rule fmdom'_notD)
    with False have "moveFile ?p 0 fs = fs" unfolding moveFile_eq[of ?p 0 fs] fs_rename_def by simp
    with False show ?thesis by (simp add: File_Init_def)
  qed
  show ?thesis
  proof (intro exI[of _ n] conjI)
    show "\<forall>i < n. log_name ?p i \<in> fmdom' fs" "log_name ?p n \<notin> fmdom' fs" using n by simp_all
    show "case File_Init True ?p fs s of (fs', s') \<Rightarrow>
       lg_file s' = Some [] \<and> fmlookup fs' (log_name ?p 0) = Some [] \<and>
       (\<forall>i < n. fmlookup fs' (log_name ?p (i + 1)) = fmlookup fs (log_name ?p i)) \<and>
       (\<forall>x. (\<forall>i \<le> n. x \<noteq> log_name ?p i) \<longrightarrow> fmlookup fs' x = fmlookup fs x)"
      unfolding i using sh by auto
  qed
qed

definition two_logs :: "string list files" where
  "two_logs = fmupd (log_name ''log/srv'' 0) [''a''] (fmupd (log_name ''log/srv'' 1) [''b''] fmempty)"

theorem log_rotation_keeps_files_witness:
  "\<exists>fs' s'. File_Init True ''log/srv'' two_logs log_init = (fs', s') \<and>
     fmlookup fs' (log_name ''log/srv'' 0) = Some [] \<and> fmlookup fs' (log_name ''log/srv'' 1) = Some [''a'']"
proof -
  obtain fs' s' where e: "File_Init True ''log/srv'' two_logs log_init = (fs', s')" by fastforce
  obtain n where n: "log_name ''log/srv'' n \<notin> fmdom' two_logs"
    and l: "fmlookup fs' (log_name ''log/srv'' 0) = Some []"
    and m: "\<forall>i < n. fmlookup fs' (log_name ''log/srv'' (i + 1)) = fmlookup two_logs (log_name ''log/srv'' i)"
    using log_rotation_keeps_files[of "''srv''" "''log''" two_logs log_init] e by auto
  have "n \<noteq> 0" using n by (auto simp: two_logs_def)
  then have "fmlookup fs' (log_name ''log/srv'' 1) = Some [''a'']" using m[rule_format, of 0] by (simp add: two_logs_def)
  with e l show ?thesis by blast
qed

section \<open>What is written\<close>

abbreviation written_by :: "(time_point \<Rightarrow> string) \<Rightarrow> string \<Rightarrow> LogEvent list \<Rightarrow> log_state \<Rightarrow> log_state \<Rightarrow> bool" where
  "written_by stamp name es s s' \<equiv> lg_console s' = lg_console s @ map (log_line stamp name) es \<and>
     lg_file s' = map_option (\<lambda>ls. ls @ map (log_line (file_stamp stamp) name) es) (lg_file s)"

lemma buffer_tasks_written:
  "written_by stamp name es s (fold (buffer_task stamp) (map (Pair [Console name, File name]) es) s)"
proof (induction es arbitrary: s)
  case Nil
  then show ?case by (cases "lg_file s") simp_all
next
  case (Cons e es)
  show ?case using Cons.IH[of "buffer_task stamp ([Console name, File name], e) s"]
    by (cases "lg_file s") (simp_all add: buffer_task_def)
qed

lemma buffer_enqueues:
  "fold (newEventLog stamp (Buffer name ls)) es s =
     s\<lparr>lg_pool := (lg_pool s)\<lparr>tp_queue := tp_queue (lg_pool s) @ map (Pair ls) es\<rparr>\<rparr>"
  by (induction es arbitrary: s) (simp_all add: pool_enqueue_def ts_push_def)

lemma stopped_worker_run:
  assumes "tp_terminate p" "tp_finish p = WaitEmpty"
  shows "\<exists>k \<le> 1. snd (snd (worker_run n W_wait p)) = take k (tp_queue p)"
proof (cases n)
  case (Suc m)
  show ?thesis
  proof (cases "tp_queue p")
    case Nil
    then show ?thesis using assms by (auto simp: Suc worker_step_def pool_empty_def ts_empty_def)
  next
    case (Cons t q)
    let ?r = "p\<lparr>tp_queue := q\<rparr>"
    have st: "worker_step W_wait p = Some (W_run t, ?r)"
      using Cons assms by (simp add: worker_step_def pool_empty_def ts_empty_def ts_pop_front_def)
    have "snd (snd (worker_run m (W_run t) ?r)) = []"
    proof (cases m)
      case (Suc k)
      have "snd (snd (worker_run k W_head ?r)) = []"
        by (cases k) (use assms in \<open>simp_all add: worker_run_head_terminated del: worker_run.simps(2)\<close>)
      moreover have "worker_step (W_run t) ?r = Some (W_head, ?r)" by (simp add: worker_step_def)
      ultimately show ?thesis by (simp add: Suc case_prod_beta)
    qed simp
    with st Cons show ?thesis by (intro exI[of _ 1]) (simp add: Suc case_prod_beta)
  qed
qed (auto intro: exI[of _ 0])

text \<open>
  While the worker of the buffer runs, it writes every event, in the order of logging, to the
  console and to the open file, each event once; but after \<^verbatim>\<open>Buffer::Stop\<close>, which asks it to wait for
  the empty queue, it writes at most the first pending event, however long it is given, and drops
  the others: the last lines of a process, those that say why it ended, may be missing.
\<close>

theorem stop_drops_pending_events:
  assumes "tp_isStarted (lg_pool s)" "\<not> tp_terminate (lg_pool s)" "tp_queue (lg_pool s) = []"
    and "s1 = fold (newEventLog stamp (Buffer name [Console name, File name])) es s"
  shows "written_by stamp name es s (snd (buffer_runs stamp (3 * length es) W_wait s1)) \<and>
    (\<exists>k \<le> 1. written_by stamp name (take k es) s (snd (buffer_runs stamp n W_wait (Buffer_Stop s1))))"
proof
  let ?ts = "map (Pair [Console name, File name]) es"
  have s1: "s1 = s\<lparr>lg_pool := (lg_pool s)\<lparr>tp_queue := ?ts\<rparr>\<rparr>" using assms(3,4) by (simp add: buffer_enqueues)
  have "worker_run (3 * length ?ts) W_wait (lg_pool s1) = (W_wait, (lg_pool s1)\<lparr>tp_queue := []\<rparr>, ?ts)"
    using worker_runs_all[of "lg_pool s1"] assms(2) by (simp add: s1)
  then have "snd (buffer_runs stamp (3 * length es) W_wait s1)
      = fold (buffer_task stamp) ?ts (s1\<lparr>lg_pool := (lg_pool s1)\<lparr>tp_queue := []\<rparr>\<rparr>)"
    by (simp add: buffer_runs_def)
  then show "written_by stamp name es s (snd (buffer_runs stamp (3 * length es) W_wait s1))"
    using buffer_tasks_written[of stamp name es "s1\<lparr>lg_pool := (lg_pool s1)\<lparr>tp_queue := []\<rparr>\<rparr>"] by (simp add: s1)
next
  let ?ts = "map (Pair [Console name, File name]) es"
  let ?q = "lg_pool (Buffer_Stop s1)"
  have s1: "s1 = s\<lparr>lg_pool := (lg_pool s)\<lparr>tp_queue := ?ts\<rparr>\<rparr>" using assms(3,4) by (simp add: buffer_enqueues)
  have q: "tp_terminate ?q" "tp_finish ?q = WaitEmpty" "tp_queue ?q = ?ts"
    using assms(1) by (simp_all add: Buffer_Stop_def pool_stop_def s1)
  obtain w p ts where r: "worker_run n W_wait ?q = (w, p, ts)" by (cases "worker_run n W_wait ?q") auto
  obtain k where k: "k \<le> 1" "ts = take k ?ts" using stopped_worker_run[OF q(1,2), of n] r q(3) by auto
  have "snd (buffer_runs stamp n W_wait (Buffer_Stop s1))
      = fold (buffer_task stamp) (map (Pair [Console name, File name]) (take k es)) ((Buffer_Stop s1)\<lparr>lg_pool := p\<rparr>)"
    using r k(2) by (simp add: buffer_runs_def take_map)
  then show "\<exists>k \<le> 1. written_by stamp name (take k es) s (snd (buffer_runs stamp n W_wait (Buffer_Stop s1)))"
    using k(1) buffer_tasks_written[of stamp name "take k es" "(Buffer_Stop s1)\<lparr>lg_pool := p\<rparr>"]
    by (intro exI[of _ k]) (simp add: Buffer_Stop_def s1)
qed

definition three_events :: "LogEvent list" where
  "three_events = map (\<lambda>c. \<lparr>ev_level = L_Info, ev_time = 0, ev_content = c\<rparr>) [''one'', ''two'', ''three'']"

theorem stop_drops_pending_events_witness:
  "lg_console (snd (buffer_runs (\<lambda>_. ''now'') 9 W_wait
       (fold (newEventLog (\<lambda>_. ''now'') (Buffer ''x'' [Console ''x'', File ''x''])) three_events log_init)))
     = map (log_line (\<lambda>_. ''now'') ''x'') three_events \<and>
   length (lg_console (snd (buffer_runs (\<lambda>_. ''now'') 100 W_wait (Buffer_Stop
       (fold (newEventLog (\<lambda>_. ''now'') (Buffer ''x'' [Console ''x'', File ''x''])) three_events log_init))))) \<le> 1"
proof -
  have p: "tp_isStarted (lg_pool log_init)" "\<not> tp_terminate (lg_pool log_init)" "tp_queue (lg_pool log_init) = []"
    by (simp_all add: log_init_def pool_create_def pool_start_def pool_new_def)
  have "3 * length three_events = 9" "lg_console log_init = []" by (simp_all add: three_events_def log_init_def)
  with stop_drops_pending_events[where stamp = "\<lambda>_. ''now''" and name = "''x''" and es = three_events
      and n = 100, OF p refl] show ?thesis by auto
qed

end
