(* ===== verification/SqlPool.thy ===== *)
theory SqlPool
  imports Prelude
begin

text \<open>
  The pool of database connections (\<^verbatim>\<open>shared/PgSQL\<close>). A connection is its \<^verbatim>\<open>m_inuse\<close>; what is sent through
  it is the library's. Threads ask for a connection and give it back; a turn of a thread is what it
  does under one lock of a connection's mutex.
\<close>

section \<open>The pool\<close>

record sql_pool =
  sp_connstr :: string
  sp_inuse :: "bool list"

definition sql_pool_empty :: sql_pool where
  "sql_pool_empty = \<lparr>sp_connstr = [], sp_inuse = []\<rparr>"

definition AddNewConnection :: "sql_pool \<Rightarrow> sql_pool" where
  "AddNewConnection p = p\<lparr>sp_inuse := sp_inuse p @ [False]\<rparr>"

definition sql_Init :: "string \<Rightarrow> nat \<Rightarrow> sql_pool \<Rightarrow> sql_pool" where
  "sql_Init connstr n p = (AddNewConnection ^^ n) (p\<lparr>sp_connstr := connstr\<rparr>)"

definition sql_done :: "nat \<Rightarrow> sql_pool \<Rightarrow> sql_pool" where
  "sql_done i p = p\<lparr>sp_inuse := (sp_inuse p)[i := False]\<rparr>"

text \<open>
  \<^verbatim>\<open>GetAvailableConnection\<close> at its \<open>i\<close>-th connection: taken, or on to the next; after the last one the
  outer loop begins again.
\<close>

datatype sql_thread = Idle | Scanning nat | Holding nat

definition scan_turn :: "nat \<Rightarrow> sql_pool \<Rightarrow> sql_thread \<times> sql_pool" where
  "scan_turn i p = (if length (sp_inuse p) \<le> i then (Scanning 0, p)
     else if sp_inuse p ! i then (Scanning (i + 1), p)
     else (Holding i, p\<lparr>sp_inuse := (sp_inuse p)[i := True]\<rparr>))"

definition thread_turn :: "nat \<Rightarrow> (nat \<Rightarrow> sql_thread) \<times> sql_pool \<Rightarrow> (nat \<Rightarrow> sql_thread) \<times> sql_pool" where
  "thread_turn t = (\<lambda>(th, p). case th t of
       Idle \<Rightarrow> (th(t := Scanning 0), p)
     | Scanning i \<Rightarrow> (case scan_turn i p of (x, p') \<Rightarrow> (th(t := x), p'))
     | Holding i \<Rightarrow> (th(t := Idle), sql_done i p))"

section \<open>A connection has one user\<close>

definition sql_inv :: "(nat \<Rightarrow> sql_thread) \<times> sql_pool \<Rightarrow> bool" where
  "sql_inv s \<longleftrightarrow> (\<forall>t i. fst s t = Holding i \<longrightarrow> i < length (sp_inuse (snd s)) \<and> sp_inuse (snd s) ! i) \<and>
     (\<forall>t u i. fst s t = Holding i \<longrightarrow> fst s u = Holding i \<longrightarrow> t = u)"

lemma thread_turn_inv: "sql_inv s \<Longrightarrow> sql_inv (thread_turn t s)"
proof -
  assume i: "sql_inv s"
  obtain th p where s: "s = (th, p)" by (cases s)
  show ?thesis
  proof (cases "th t")
    case (Scanning k)
    with i s show ?thesis
      by (auto simp: sql_inv_def thread_turn_def scan_turn_def nth_list_update split: if_splits)
  qed (use i s in \<open>auto simp: sql_inv_def thread_turn_def sql_done_def nth_list_update split: if_splits\<close>)
qed

theorem sql_connections_exclusive:
  "sql_inv (fold thread_turn ts (\<lambda>_. Idle, sql_Init connstr n sql_pool_empty))"
proof -
  have st: "sql_inv s \<Longrightarrow> sql_inv (fold thread_turn ts s)" for s
    by (induction ts arbitrary: s) (simp_all add: thread_turn_inv)
  show ?thesis by (rule st) (simp add: sql_inv_def)
qed

text \<open>Alone, a thread takes the first free connection; with none free it goes round for ever.\<close>

fun scan_run :: "nat \<Rightarrow> nat \<Rightarrow> sql_pool \<Rightarrow> sql_thread \<times> sql_pool" where
  "scan_run 0 i p = (Scanning i, p)"
| "scan_run (Suc n) i p = (case scan_turn i p of
       (Scanning j, p') \<Rightarrow> scan_run n j p' | (Idle, p') \<Rightarrow> (Idle, p') | (Holding j, p') \<Rightarrow> (Holding j, p'))"

lemma scan_finds:
  "\<forall>j. i \<le> j \<and> j < k \<longrightarrow> sp_inuse p ! j \<Longrightarrow> i \<le> k \<Longrightarrow> k < length (sp_inuse p) \<Longrightarrow> \<not> sp_inuse p ! k \<Longrightarrow>
     scan_run (Suc (k - i)) i p = (Holding k, p\<lparr>sp_inuse := (sp_inuse p)[k := True]\<rparr>)"
proof (induction "k - i" arbitrary: i)
  case (Suc m)
  then have "sp_inuse p ! i" "i < k" by auto
  moreover have "scan_run (Suc (k - Suc i)) (Suc i) p = (Holding k, p\<lparr>sp_inuse := (sp_inuse p)[k := True]\<rparr>)"
    using Suc.hyps(1)[of "Suc i"] Suc.hyps(2) Suc.prems by auto
  moreover have "k - i = Suc (k - Suc i)" using \<open>i < k\<close> by simp
  ultimately show ?case using Suc.prems(3) by (simp add: scan_turn_def)
qed (simp add: scan_turn_def)

lemma no_free_connection_spins:
  "\<forall>j < length (sp_inuse p). sp_inuse p ! j \<Longrightarrow> \<exists>j. scan_run n i p = (Scanning j, p)"
  by (induction n arbitrary: i) (auto simp: scan_turn_def)

text \<open>
  The pool of the initiator has one connection: a statement that throws leaves it in use, since
  \<^verbatim>\<open>done\<close> is then not called, and every later request, of any thread, goes round for ever.
\<close>

lemma abandoned_connection_blocks_all:
  "scan_turn 0 (sql_Init connstr 1 sql_pool_empty) = (Holding 0, p) \<Longrightarrow> \<exists>j. scan_run n i p = (Scanning j, p)"
proof (rule no_free_connection_spins)
  assume "scan_turn 0 (sql_Init connstr 1 sql_pool_empty) = (Holding 0, p)"
  then have "sp_inuse p = [True]"
    by (auto simp: scan_turn_def sql_Init_def AddNewConnection_def sql_pool_empty_def)
  then show "\<forall>j < length (sp_inuse p). sp_inuse p ! j" by simp
qed

end
