(* ===== verification/Startup.thy ===== *)
theory Startup
  imports SocketClaims Utils ServerCore BackFront Initiator Config
begin

text \<open>
  How the processes come up: the loops that connect until it works, over the sockets and their
  kernel, the port the back end offers to its front end, and the four \<^verbatim>\<open>main\<close> functions with their
  exit codes.
\<close>

section \<open>Connecting until it works\<close>

text \<open>
  \<open>attempt\<close> is one call of \<^verbatim>\<open>connect\<close> and the five seconds after it; a loop that never ends is \<open>None\<close>.
\<close>

partial_function (option) connect_loop :: "('s \<Rightarrow> 'k \<Rightarrow> bool \<times> 's \<times> 'k) \<Rightarrow> 's \<Rightarrow> 'k \<Rightarrow> ('s \<times> 'k) option" where
  "connect_loop attempt s k = (let (ok, s', k') = attempt s k in
     if ok then Some (s', k') else connect_loop attempt s' k')"

declare connect_loop.simps [code]

text \<open>The back end to the FIX server, at a fixed address; the front end to the initiator and to its back end.\<close>

definition back_server_connect :: "'k kernel \<Rightarrow> inet_socket \<Rightarrow> 'k \<Rightarrow> (inet_socket \<times> 'k) option" where
  "back_server_connect kn s k = connect_loop (inet_connect_ip kn (Ip_set_bytes 127 0 0 1) 8080) s k"

definition gui_initiator_connect :: "'k kernel \<Rightarrow> gui_config \<Rightarrow> sockaddr_in \<Rightarrow> 'k \<Rightarrow> (inet_socket \<times> 'k) option" where
  "gui_initiator_connect kn cf garbage k =
     connect_loop (inet_connect_ip kn (gc_InitiatorIp cf) (gc_InitiatorPort cf)) (tcp_new garbage) k"

definition setTargetPort :: "'k kernel \<Rightarrow> gui_config \<Rightarrow> u32 \<Rightarrow> sockaddr_in \<Rightarrow> 'k \<Rightarrow> (inet_socket \<times> 'k) option" where
  "setTargetPort kn cf port garbage k = connect_loop (inet_connect_ip kn (gc_BackIp cf) port) (tcp_new garbage) k"

text \<open>The port for the front end: the kernel chooses it; 0 when listening failed.\<close>

definition initAcceptor :: "'k kernel \<Rightarrow> acceptor \<Rightarrow> 'k \<Rightarrow> u32 \<times> acceptor \<times> 'k" where
  "initAcceptor kn a k = (let (ok, a', k') = acceptor_listen_inet kn 0 a k in
     if \<not> ok then (0, a', k') else (base_getPort kn a' k', a', k'))"

text \<open>
  \<^verbatim>\<open>InitiatorManager::connect\<close> of the back end: the environment variables, of which a missing address
  is undefined at the first attempt and a missing key when the frame is built (no result), the
  connection, and the frame with the key and the port.
\<close>

definition back_initiator_connect :: "'k kernel \<Rightarrow> string option \<Rightarrow> string option \<Rightarrow> acceptor \<Rightarrow> 'k \<Rightarrow>
    (net_buffer \<times> unix_socket \<times> acceptor \<times> 'k) option" where
  "back_initiator_connect kn key address a k = (case address of
       None \<Rightarrow> None
     | Some path \<Rightarrow> (case connect_loop (unix_connect kn path) unix_stream_new k of
         None \<Rightarrow> None
       | Some (s, k1) \<Rightarrow> (case key of
           None \<Rightarrow> None
         | Some apikey \<Rightarrow> (let (port, a', k2) = initAcceptor kn a k1
             in Some (Helper_BackToInitiator \<lparr>abi_apikey = apikey, abi_port = port\<rparr>, s, a', k2)))))"

section \<open>The loop\<close>

text \<open>The states before the \<open>n\<close>-th attempt, when all before it failed.\<close>

primrec attempts :: "('s \<Rightarrow> 'k \<Rightarrow> bool \<times> 's \<times> 'k) \<Rightarrow> nat \<Rightarrow> 's \<Rightarrow> 'k \<Rightarrow> bool \<times> 's \<times> 'k" where
  "attempts attempt 0 s k = attempt s k"
| "attempts attempt (Suc n) s k = (case attempt s k of (ok, s', k') \<Rightarrow> attempts attempt n s' k')"

lemma connect_loop_unfold:
  "attempt s k = (ok, s', k') \<Longrightarrow>
     connect_loop attempt s k = (if ok then Some (s', k') else connect_loop attempt s' k')"
  by (subst connect_loop.simps) simp

lemma connect_loop_returns:
  "attempts attempt n s k = (True, s', k') \<Longrightarrow> \<forall>m < n. \<not> fst (attempts attempt m s k) \<Longrightarrow>
     connect_loop attempt s k = Some (s', k')"
proof (induction n arbitrary: s k)
  case (Suc n)
  obtain ok s1 k1 where a: "attempt s k = (ok, s1, k1)" by (cases "attempt s k") auto
  have "\<not> ok" using Suc.prems(2)[rule_format, of 0] a by simp
  moreover have "connect_loop attempt s1 k1 = Some (s', k')"
  proof (rule Suc.IH)
    show "attempts attempt n s1 k1 = (True, s', k')" using Suc.prems(1) a by simp
    show "\<forall>m < n. \<not> fst (attempts attempt m s1 k1)"
      using Suc.prems(2) a by (metis Suc_mono attempts.simps(2) case_prod_conv)
  qed
  ultimately show ?case using connect_loop_unfold[of attempt s k ok s1 k1] a by simp
qed (simp add: connect_loop_unfold)

lemma connect_loop_ends:
  assumes "connect_loop attempt s k = Some r"
  shows "\<exists>n. attempts attempt n s k = (True, r)"
proof (rule connect_loop.raw_induct[where P = "\<lambda>f s k r. \<exists>n. attempts f n s k = (True, r)", OF _ assms])
  fix loop :: "('a \<Rightarrow> 'b \<Rightarrow> bool \<times> 'a \<times> 'b) \<Rightarrow> 'a \<Rightarrow> 'b \<Rightarrow> ('a \<times> 'b) option" and f s k r
  assume IH: "\<And>f s k r. loop f s k = Some r \<Longrightarrow> \<exists>n. attempts f n s k = (True, r)"
    and e: "(let (ok, s', k') = f s k in if ok then Some (s', k') else loop f s' k') = Some r"
  obtain ok s1 k1 where a: "f s k = (ok, s1, k1)" by (cases "f s k") auto
  show "\<exists>n. attempts f n s k = (True, r)"
  proof (cases ok)
    case True
    with e a have "attempts f 0 s k = (True, r)" by simp
    then show ?thesis by blast
  next
    case False
    with e a have "loop f s1 k1 = Some r" by simp
    from IH[OF this] obtain n where "attempts f n s1 k1 = (True, r)" by blast
    then have "attempts f (Suc n) s k = (True, r)" using a by simp
    then show ?thesis by blast
  qed
qed

text \<open>
  The loop returns exactly when some attempt succeeds, with the socket of the first that does; when
  every attempt fails the process never comes up.
\<close>

theorem connect_loop_returns_iff:
  "(\<exists>r. connect_loop attempt s k = Some r) \<longleftrightarrow> (\<exists>n. fst (attempts attempt n s k))"
proof
  assume "\<exists>r. connect_loop attempt s k = Some r"
  then show "\<exists>n. fst (attempts attempt n s k)" using connect_loop_ends by (metis fst_conv)
next
  assume "\<exists>n. fst (attempts attempt n s k)"
  then obtain n where n: "fst (attempts attempt n s k)" "\<forall>m < n. \<not> fst (attempts attempt m s k)"
    using exists_least_iff[of "\<lambda>n. fst (attempts attempt n s k)"] by blast
  obtain s' k' where "attempts attempt n s k = (True, s', k')" using n(1) by (metis fst_conv prod_cases3)
  from connect_loop_returns[OF this n(2)] show "\<exists>r. connect_loop attempt s k = Some r" by blast
qed

section \<open>However many attempts it took\<close>

lemma attempts_own:
  assumes d: "descriptors_of kn fds"
  shows "owns fds (bs_fd s) k rest \<Longrightarrow> attempts (inet_connect_ip kn ip port) n s k = (ok, s', k') \<Longrightarrow>
    owns fds (bs_fd s') k' rest"
proof (induction n arbitrary: s k)
  case 0
  then show ?case using connect_owns(2)[OF d 0(1)] by simp
next
  case (Suc n)
  obtain o1 s1 k1 where a: "inet_connect_ip kn ip port s k = (o1, s1, k1)" by (cases "inet_connect_ip kn ip port s k") auto
  from Suc.IH[OF connect_owns(2)[OF d Suc.prems(1) a]] Suc.prems(2) a show ?case by simp
qed

text \<open>The front end holds one descriptor more after connecting, however often it tried.\<close>

lemma connecting_opens_one:
  assumes "descriptors_of kn fds" "gui_initiator_connect kn cf garbage k = Some (s, k')"
  shows "fds k' = fds k \<or> (bs_fd s \<notin> fds k \<and> fds k' = insert (bs_fd s) (fds k))"
proof -
  have o: "owns fds (bs_fd (tcp_new garbage)) k (fds k)"
    by (rule new_owns) (simp add: tcp_new_def inet_new_def base_new_def base_socket.extend_def)
  obtain n where "attempts (inet_connect_ip kn (gc_InitiatorIp cf) (gc_InitiatorPort cf)) n (tcp_new garbage) k = (True, s, k')"
    using connect_loop_ends assms(2) unfolding gui_initiator_connect_def by metis
  from attempts_own[OF assms(1) o this] show ?thesis by (auto simp: owns_def)
qed

section \<open>The four processes\<close>

text \<open>How a process ends: with an exit code, or by an exception that nobody catches.\<close>

datatype exit = Exit int | Uncaught

definition main_help :: "int \<Rightarrow> exit" where
  "main_help r = Exit r"

text \<open>The arguments, the program's name among them: the configuration to load, or the end.\<close>

definition main_args :: "string list \<Rightarrow> exit + string" where
  "main_args av = (if length av \<noteq> 2 then Inl (main_help 1)
     else if av ! 1 = ''-h'' then Inl (main_help 0) else Inr (av ! 1))"

text \<open>
  \<open>file\<close> is the content of a path that can be opened; \<open>None\<close> as a result: the process is still running.
  The clients drop the result of \<^verbatim>\<open>Core::start\<close>; the server returns it.
\<close>

definition server_process :: "'j jsonlib \<Rightarrow> (string \<Rightarrow> string option) \<Rightarrow> string list \<Rightarrow>
    (bool \<times> unit_name statuses) list \<Rightarrow> exit option" where
  "server_process L file av rounds = (case main_args av of
       Inl e \<Rightarrow> Some e
     | Inr path \<Rightarrow> (case Configuration_Load L (srv_from_json L) (file path)
           \<lparr>cf_ProviderName = [], cf_MaxTO = fzero, cf_Market = [], cf_TcpPort = 0\<rparr> of
         (Load_threw, _) \<Rightarrow> Some Uncaught
       | (Loaded c, _) \<Rightarrow> map_option (\<lambda>(code, _). Exit code) (server_main (cf_Market c) rounds)))"

definition back_process :: "'j jsonlib \<Rightarrow> (string \<Rightarrow> string option) \<Rightarrow> string list \<Rightarrow>
    (bool \<times> back_unit statuses) list \<Rightarrow> backend \<Rightarrow> exit option" where
  "back_process L file av rounds b = (case main_args av of
       Inl e \<Rightarrow> Some e
     | Inr path \<Rightarrow> (case Configuration_Load L (bck_from_json L) (file path)
           \<lparr>bb_Ip = [], bb_Port = 0, bb_ProviderName = []\<rparr> of
         (Load_threw, _) \<Rightarrow> Some Uncaught
       | (Loaded c, _) \<Rightarrow> map_option (\<lambda>_. Exit 0) (back_start rounds b)))"

definition initiator_process :: "'j jsonlib \<Rightarrow> (string \<Rightarrow> string option) \<Rightarrow> string list \<Rightarrow>
    (bool \<times> (string \<Rightarrow> bool)) list \<Rightarrow> exit option" where
  "initiator_process L file av rounds = (case main_args av of
       Inl e \<Rightarrow> Some e
     | Inr path \<Rightarrow> (case Configuration_Load L (ini_from_json L) (file path)
           \<lparr>bc_Executable = [], bc_ExecArgs = [], bc_Address = [], ic_Port = 0, ic_ConnectionString = []\<rparr> of
         (Load_threw, _) \<Rightarrow> Some Uncaught
       | (Loaded c, _) \<Rightarrow> map_option (\<lambda>_. Exit 0) (initiator_loop rounds)))"

text \<open>\<open>app\<close>: what the toolkit's event loop returns, once it does.\<close>

definition gui_process :: "'j jsonlib \<Rightarrow> (string \<Rightarrow> string option) \<Rightarrow> string list \<Rightarrow> int option \<Rightarrow> exit option" where
  "gui_process L file av app = (case main_args av of
       Inl e \<Rightarrow> Some e
     | Inr path \<Rightarrow> (case Configuration_Load L (gui_from_json L) (file path)
           \<lparr>gc_BackIp = [], gc_InitiatorIp = [], gc_InitiatorPort = 0, gc_ApiKey = []\<rparr> of
         (Load_threw, _) \<Rightarrow> Some Uncaught
       | (Loaded c, _) \<Rightarrow> map_option Exit app))"

text \<open>
  No exit code tells a crash: a configured back end or initiator that ends returns 0, whatever ended
  it, and the server returns 1 after a stop that was asked for and 0 after a crash.
\<close>

lemma client_exit_code_is_0:
  assumes "main_args av = Inr path" "file path = Some t" "jl_parse L t = Some j"
  shows "bck_from_json L j = Some c \<Longrightarrow> back_process L file av rounds b = Some e \<Longrightarrow> e = Exit 0"
    and "ini_from_json L j = Some c' \<Longrightarrow> initiator_process L file av rounds' = Some e \<Longrightarrow> e = Exit 0"
  using assms by (auto simp: back_process_def initiator_process_def Configuration_Load_def)

lemma server_exit_code_inverted:
  assumes "main_args av = Inr path" "file path = Some t" "jl_parse L t = Some j" "srv_from_json L j = Some c"
    and "core_start (cf_Market c) rounds core_new = Some (stopped_cleanly, co)"
  shows "server_process L file av rounds = Some (Exit (of_bool stopped_cleanly))"
  using assms by (simp add: server_process_def Configuration_Load_def server_main_def)

lemma bad_configuration_is_uncaught:
  "main_args av = Inr path \<Longrightarrow> file path = None \<Longrightarrow>
     server_process L file av rs = Some Uncaught \<and> back_process L file av rb b = Some Uncaught \<and>
     initiator_process L file av ri = Some Uncaught \<and> gui_process L file av app = Some Uncaught"
  by (simp add: server_process_def back_process_def initiator_process_def gui_process_def Configuration_Load_def)

end
