(* ===== verification/Epoll.thy ===== *)
theory Epoll
  imports Sockets IpcClaims "HOL-Library.Finite_Map"
begin

text \<open>
  The epoll wrapper (\<^verbatim>\<open>CEPoll.cpp\<close>), the selector at the level of its system calls
  (\<^verbatim>\<open>Selector.inl\<close>), and \<^verbatim>\<open>IPCNetworkManager::receiveLoop\<close> over both: which frames of a stream the
  loop delivers, and when. The three calls are the record \<open>epoll_calls\<close>; what the documentation says
  of a descriptor that is watched edge triggered is the predicate \<open>edge_triggered\<close>.
\<close>

section \<open>The wrapper\<close>

definition EPOLLIN :: u32 where "EPOLLIN = 1"
definition EPOLLET :: u32 where "EPOLLET = 0x80000000"
definition EPOLL_CTL_ADD :: int where "EPOLL_CTL_ADD = 1"
definition MAX_EVENT_EPOLL :: int where "MAX_EVENT_EPOLL = 30"

record epoll_event =
  ee_events :: u32
  ee_fd :: int

text \<open>\<open>ep_wait\<close> gives the count and the events it wrote; -1 is a failure.\<close>

record 'k epoll_calls =
  ep_create :: "int \<Rightarrow> 'k \<Rightarrow> int \<times> 'k"
  ep_wait :: "int \<Rightarrow> int \<Rightarrow> int \<Rightarrow> 'k \<Rightarrow> (int \<times> epoll_event list) \<times> 'k"
  ep_ctl :: "int \<Rightarrow> int \<Rightarrow> int \<Rightarrow> epoll_event \<Rightarrow> 'k \<Rightarrow> int \<times> 'k"

definition c_epoll_create :: "'k epoll_calls \<Rightarrow> int \<Rightarrow> 'k \<Rightarrow> int \<times> 'k" where
  "c_epoll_create ep mx k = ep_create ep mx k"

definition c_epoll_wait :: "'k epoll_calls \<Rightarrow> int \<Rightarrow> int \<Rightarrow> int \<Rightarrow> 'k \<Rightarrow> (int \<times> epoll_event list) \<times> 'k" where
  "c_epoll_wait ep fd mx to k = ep_wait ep fd mx to k"

definition c_epoll_ctl :: "'k epoll_calls \<Rightarrow> int \<Rightarrow> int \<Rightarrow> int \<Rightarrow> epoll_event \<Rightarrow> 'k \<Rightarrow> int \<times> 'k" where
  "c_epoll_ctl ep efd cmd fd e k = ep_ctl ep efd cmd fd e k"

record epoll =
  em_max :: int
  em_fd :: int

definition EPoll_new :: "'k epoll_calls \<Rightarrow> int \<Rightarrow> 'k \<Rightarrow> epoll \<times> 'k" where
  "EPoll_new ep mx k = (let (fd, k') = c_epoll_create ep mx k in (\<lparr>em_max = mx, em_fd = fd\<rparr>, k'))"

definition EPoll_wait :: "'k epoll_calls \<Rightarrow> 'a epoll_scheme \<Rightarrow> int \<Rightarrow> 'k \<Rightarrow> (int \<times> epoll_event list) \<times> 'k" where
  "EPoll_wait ep s to k = c_epoll_wait ep (em_fd s) (em_max s) to k"

definition EPoll_ctl :: "'k epoll_calls \<Rightarrow> 'a epoll_scheme \<Rightarrow> int \<Rightarrow> int \<Rightarrow> epoll_event \<Rightarrow> 'k \<Rightarrow> int \<times> 'k" where
  "EPoll_ctl ep s cmd fd e k = c_epoll_ctl ep (em_fd s) cmd fd e k"

section \<open>The selector\<close>

text \<open>
  Clients are \<^verbatim>\<open>std::shared_ptr\<close>s, so they are references \<open>'c\<close> and \<open>heap\<close> gives the object; a null
  pointer is \<open>None\<close>.
\<close>

record 'c epoll_selector = epoll +
  es_clients :: "(int, 'c) fmap"
  es_to :: f32

definition sel_new :: "'k epoll_calls \<Rightarrow> 'k \<Rightarrow> 'c epoll_selector \<times> 'k" where
  "sel_new ep k = (let (e, k') = EPoll_new ep MAX_EVENT_EPOLL k in
     (epoll.extend e \<lparr>es_clients = fmempty, es_to = fzero\<rparr>, k'))"

definition sel_client :: "'k epoll_calls \<Rightarrow> ('c \<Rightarrow> 'b base_socket_scheme) \<Rightarrow> 'c option \<Rightarrow> 'c epoll_selector \<Rightarrow>
    'k \<Rightarrow> bool \<times> 'c epoll_selector \<times> 'k" where
  "sel_client ep heap c s k = (case c of
       None \<Rightarrow> (False, s, k)
     | Some p \<Rightarrow> (let fd = bs_fd (heap p);
           (r, k') = EPoll_ctl ep s EPOLL_CTL_ADD fd \<lparr>ee_events = EPOLLIN OR EPOLLET, ee_fd = fd\<rparr> k
         in if r \<noteq> -1
            then (True, s\<lparr>es_clients := (if fmlookup (es_clients s) fd = None then fmupd fd p (es_clients s) else es_clients s)\<rparr>, k')
            else (False, s, k')))"

definition sel_erase :: "('c \<Rightarrow> 'b base_socket_scheme) \<Rightarrow> 'c option \<Rightarrow> 'c epoll_selector \<Rightarrow> 'c epoll_selector" where
  "sel_erase heap c s = (case c of
       None \<Rightarrow> s
     | Some p \<Rightarrow> s\<lparr>es_clients := fmfilter (\<lambda>fd. case fmlookup (es_clients s) fd of
           None \<Rightarrow> True | Some q \<Rightarrow> bs_fd (heap p) \<noteq> bs_fd (heap q)) (es_clients s)\<rparr>)"

definition sel_timeout :: "f32 \<Rightarrow> 'c epoll_selector \<Rightarrow> 'c epoll_selector" where
  "sel_timeout to s = s\<lparr>es_to := to\<rparr>"

definition sel_getTimeout :: "'c epoll_selector \<Rightarrow> f32" where
  "sel_getTimeout s = es_to s"

text \<open>A \<^verbatim>\<open>float\<close> passed as an \<^verbatim>\<open>int\<close> is cut; outside the range of \<^verbatim>\<open>int\<close> the behaviour is undefined.\<close>

definition int_of_f32 :: "f32 \<Rightarrow> int option" where
  "int_of_f32 x = (let i = sgn (fval x) * (\<bar>fval x\<bar> div int f32_unit) in
     if is_fin x \<and> - (2 ^ 31) \<le> i \<and> i < 2 ^ 31 then Some i else None)"

text \<open>\<open>None\<close>: \<^verbatim>\<open>at\<close> throws on a descriptor without an entry, or the time-out has no value as an \<^verbatim>\<open>int\<close>.\<close>

definition sel_pull :: "'k epoll_calls \<Rightarrow> 'c epoll_selector \<Rightarrow> 'k \<Rightarrow> 'c list option \<times> 'k" where
  "sel_pull ep s k = (case int_of_f32 (es_to s) of
       None \<Rightarrow> (None, k)
     | Some to \<Rightarrow> (case EPoll_wait ep s to k of ((n, evs), k') \<Rightarrow>
         if n = -1 then (Some [], k')
         else (those (map (\<lambda>e. fmlookup (es_clients s) (ee_fd e)) (take (nat (min n MAX_EVENT_EPOLL)) evs)), k')))"

definition sel_size :: "'c epoll_selector \<Rightarrow> nat" where
  "sel_size s = fcard (fmdom (es_clients s))"

section \<open>The receive loop\<close>

text \<open>Before the loop: the results of both calls are dropped.\<close>

definition receive_start :: "'k epoll_calls \<Rightarrow> ('c \<Rightarrow> 'b base_socket_scheme) \<Rightarrow> 'c option \<Rightarrow> 'k \<Rightarrow> 'c epoll_selector \<times> 'k" where
  "receive_start ep heap c k = (let (s, k1) = sel_new ep k;
     (_, s', k2) = sel_client ep heap c (sel_timeout (f32_of_int 1000) s) k1 in (s', k2))"

text \<open>One round: nothing when no client is ready, else one frame, or what took its place, from the first.\<close>

definition receive_round :: "'k kernel \<Rightarrow> 'k epoll_calls \<Rightarrow> ('c \<Rightarrow> 'b base_socket_scheme) \<Rightarrow> u8 \<Rightarrow> IpcHeader \<Rightarrow>
    'c epoll_selector \<Rightarrow> 'k \<Rightarrow> ipc_event list option \<times> 'k" where
  "receive_round kn ep heap junk d s k = (case sel_pull ep s k of
       (None, k') \<Rightarrow> (None, k')
     | (Some [], k') \<Rightarrow> (Some [], k')
     | (Some (c # cs), k') \<Rightarrow> (case recv_round (\<lambda>n st. case stream_receive kn n (heap c) st of
           (bytes, err, st') \<Rightarrow> ((bytes, err), st')) junk d k' of (e, k'') \<Rightarrow> (Some [e], k'')))"

text \<open>What happens to a connection: its peer sends bytes, or the loop makes a round.\<close>

datatype loop_act = Peer "byte list" | Round

fun receive_loop :: "'k kernel \<Rightarrow> 'k epoll_calls \<Rightarrow> (byte list \<Rightarrow> 'k \<Rightarrow> 'k) \<Rightarrow> ('c \<Rightarrow> 'b base_socket_scheme) \<Rightarrow> u8 \<Rightarrow>
    IpcHeader \<Rightarrow> 'c epoll_selector \<Rightarrow> loop_act list \<Rightarrow> 'k \<Rightarrow> ipc_event list option \<times> 'k" where
  "receive_loop kn ep deliver heap junk d s [] k = (Some [], k)"
| "receive_loop kn ep deliver heap junk d s (Peer bs # acts) k =
     receive_loop kn ep deliver heap junk d s acts (deliver bs k)"
| "receive_loop kn ep deliver heap junk d s (Round # acts) k =
     (case receive_round kn ep heap junk d s k of
        (None, k') \<Rightarrow> (None, k')
      | (Some es, k') \<Rightarrow> (case receive_loop kn ep deliver heap junk d s acts k' of
          (r, k'') \<Rightarrow> (map_option ((@) es) r, k'')))"

section \<open>Edge triggered descriptors\<close>

text \<open>
  The documented behaviour for one epoll descriptor \<open>efd\<close> and one stream socket \<open>fd\<close>: \<open>waiting\<close> are
  the bytes not yet received, \<open>ready\<close> says that an event is to be reported. Watching a descriptor
  edge triggered makes it ready when bytes wait; a wait reports it once; only new bytes make it
  ready again; receiving takes bytes from the front. Waits are not interrupted by signals. Nothing is
  said of receiving from an empty stream, which blocks.
\<close>

definition edge_triggered :: "'k kernel \<Rightarrow> 'k epoll_calls \<Rightarrow> (byte list \<Rightarrow> 'k \<Rightarrow> 'k) \<Rightarrow> int \<Rightarrow> int \<Rightarrow>
    ('k \<Rightarrow> byte list) \<Rightarrow> ('k \<Rightarrow> bool) \<Rightarrow> ('k \<Rightarrow> bool) \<Rightarrow> bool" where
  "edge_triggered kn ep deliver efd fd waiting watched ready \<longleftrightarrow>
     (\<forall>mx k. 0 < mx \<longrightarrow> (case ep_create ep mx k of (e, k') \<Rightarrow>
        e = efd \<and> waiting k' = waiting k \<and> \<not> watched k' \<and> \<not> ready k')) \<and>
     (\<forall>e k. ee_events e AND EPOLLET \<noteq> 0 \<longrightarrow> ee_events e AND EPOLLIN \<noteq> 0 \<longrightarrow> ee_fd e = fd \<longrightarrow> \<not> watched k \<longrightarrow>
        (case ep_ctl ep efd EPOLL_CTL_ADD fd e k of (r, k') \<Rightarrow>
          r = 0 \<and> waiting k' = waiting k \<and> watched k' \<and> (ready k' \<longleftrightarrow> waiting k \<noteq> []))) \<and>
     (\<forall>mx to k. 0 < mx \<longrightarrow> watched k \<longrightarrow> (case ep_wait ep efd mx to k of ((n, evs), k') \<Rightarrow>
        n = int (length evs) \<and> map ee_fd evs = (if ready k then [fd] else []) \<and>
        waiting k' = waiting k \<and> watched k' \<and> \<not> ready k')) \<and>
     (\<forall>n k. n = 0 \<or> waiting k \<noteq> [] \<longrightarrow> (case kn_recv kn fd n k of ((c, w), k') \<Rightarrow>
        w = take n (waiting k) \<and> c = int (length w) \<and> waiting k' = drop n (waiting k) \<and>
        watched k' = watched k \<and> ready k' = ready k)) \<and>
     (\<forall>bs k. bs \<noteq> [] \<longrightarrow> waiting (deliver bs k) = waiting k @ bs \<and>
        watched (deliver bs k) = watched k \<and> ready (deliver bs k) = (ready k \<or> watched k))"

section \<open>The loop\<close>

lemma edgeD:
  assumes "edge_triggered kn ep deliver efd fd waiting watched ready"
  shows "0 < mx \<Longrightarrow> ep_create ep mx k = (e, k') \<Longrightarrow> e = efd \<and> waiting k' = waiting k \<and> \<not> watched k' \<and> \<not> ready k'"
    "ee_events ev AND EPOLLET \<noteq> 0 \<Longrightarrow> ee_events ev AND EPOLLIN \<noteq> 0 \<Longrightarrow> ee_fd ev = fd \<Longrightarrow> \<not> watched k \<Longrightarrow>
      ep_ctl ep efd EPOLL_CTL_ADD fd ev k = (r, k') \<Longrightarrow>
      r = 0 \<and> waiting k' = waiting k \<and> watched k' \<and> (ready k' \<longleftrightarrow> waiting k \<noteq> [])"
    "0 < mx \<Longrightarrow> watched k \<Longrightarrow> ep_wait ep efd mx to k = ((n, evs), k') \<Longrightarrow>
      n = int (length evs) \<and> map ee_fd evs = (if ready k then [fd] else []) \<and> waiting k' = waiting k \<and> watched k' \<and> \<not> ready k'"
    "i = 0 \<or> waiting k \<noteq> [] \<Longrightarrow> kn_recv kn fd i k = ((c, w), k') \<Longrightarrow>
      w = take i (waiting k) \<and> c = int (length w) \<and> waiting k' = drop i (waiting k) \<and> watched k' = watched k \<and> ready k' = ready k"
    "bs \<noteq> [] \<Longrightarrow> waiting (deliver bs k) = waiting k @ bs \<and> watched (deliver bs k) = watched k \<and>
      ready (deliver bs k) = (ready k \<or> watched k)"
proof -
  note a = assms[unfolded edge_triggered_def]
  show "0 < mx \<Longrightarrow> ep_create ep mx k = (e, k') \<Longrightarrow> e = efd \<and> waiting k' = waiting k \<and> \<not> watched k' \<and> \<not> ready k'"
    using a[THEN conjunct1, rule_format, of mx k] by simp
  show "ee_events ev AND EPOLLET \<noteq> 0 \<Longrightarrow> ee_events ev AND EPOLLIN \<noteq> 0 \<Longrightarrow> ee_fd ev = fd \<Longrightarrow> \<not> watched k \<Longrightarrow>
      ep_ctl ep efd EPOLL_CTL_ADD fd ev k = (r, k') \<Longrightarrow>
      r = 0 \<and> waiting k' = waiting k \<and> watched k' \<and> (ready k' \<longleftrightarrow> waiting k \<noteq> [])"
    using a[THEN conjunct2, THEN conjunct1, rule_format, of ev k] by simp
  show "0 < mx \<Longrightarrow> watched k \<Longrightarrow> ep_wait ep efd mx to k = ((n, evs), k') \<Longrightarrow>
      n = int (length evs) \<and> map ee_fd evs = (if ready k then [fd] else []) \<and> waiting k' = waiting k \<and> watched k' \<and> \<not> ready k'"
    using a[THEN conjunct2, THEN conjunct2, THEN conjunct1, rule_format, of mx k to] by simp
  show "i = 0 \<or> waiting k \<noteq> [] \<Longrightarrow> kn_recv kn fd i k = ((c, w), k') \<Longrightarrow>
      w = take i (waiting k) \<and> c = int (length w) \<and> waiting k' = drop i (waiting k) \<and> watched k' = watched k \<and> ready k' = ready k"
    using a[THEN conjunct2, THEN conjunct2, THEN conjunct2, THEN conjunct1, rule_format, of i k] by simp
  show "bs \<noteq> [] \<Longrightarrow> waiting (deliver bs k) = waiting k @ bs \<and> watched (deliver bs k) = watched k \<and>
      ready (deliver bs k) = (ready k \<or> watched k)"
    using a[THEN conjunct2, THEN conjunct2, THEN conjunct2, THEN conjunct2, rule_format, of bs k] by simp
qed

lemma edge_receive:
  assumes "edge_triggered kn ep deliver (em_fd s) (bs_fd so) waiting watched ready" "n = 0 \<or> waiting k \<noteq> []"
  shows "\<exists>k'. stream_receive kn n so k = (take n (waiting k), int (length (take n (waiting k))), k')
    \<and> waiting k' = drop n (waiting k) \<and> (watched k', ready k') = (watched k, ready k)"
proof -
  obtain c w k' where r: "kn_recv kn (bs_fd so) n k = ((c, w), k')" by (metis prod.exhaust)
  from edgeD(4)[OF assms r] r show ?thesis by (simp add: stream_receive_def c_receive_def min_def)
qed

text \<open>The loop listens: its selector has the one client, and the kernel watches it.\<close>

definition listens :: "('c \<Rightarrow> 'b base_socket_scheme) \<Rightarrow> 'c \<Rightarrow> int \<Rightarrow> 'c epoll_selector \<Rightarrow> bool" where
  "listens heap c efd s \<longleftrightarrow> em_fd s = efd \<and> em_max s = 30 \<and> fmlookup (es_clients s) (bs_fd (heap c)) = Some c \<and>
     int_of_f32 (es_to s) = Some 1000"

lemma pull_edge:
  assumes "edge_triggered kn ep deliver efd (bs_fd (heap c)) waiting watched ready" "listens heap c efd s" "watched k"
  shows "\<exists>k'. sel_pull ep s k = (Some (if ready k then [c] else []), k')
    \<and> waiting k' = waiting k \<and> watched k' \<and> \<not> ready k'"
proof -
  obtain n evs k' where r: "ep_wait ep efd 30 1000 k = ((n, evs), k')" by (metis prod.exhaust)
  with assms(1,3) have e: "n = int (length evs)" "map ee_fd evs = (if ready k then [bs_fd (heap c)] else [])"
    "waiting k' = waiting k" "watched k'" "\<not> ready k'"
    using edgeD(3)[OF assms(1) _ assms(3) r] by auto
  have "those (map (\<lambda>e. fmlookup (es_clients s) (ee_fd e)) (take (nat (min n MAX_EVENT_EPOLL)) evs))
      = Some (if ready k then [c] else [])"
    using e(1,2) assms(2) by (auto simp: listens_def MAX_EVENT_EPOLL_def split: if_splits)
  with r e assms(2) show ?thesis by (simp add: sel_pull_def listens_def EPoll_wait_def c_epoll_wait_def)
qed

lemma round_idle:
  assumes "edge_triggered kn ep deliver efd (bs_fd (heap c)) waiting watched ready" "listens heap c efd s" "watched k" "\<not> ready k"
  shows "\<exists>k'. receive_round kn ep heap junk d s k = (Some [], k') \<and> waiting k' = waiting k \<and> watched k' \<and> \<not> ready k'"
  using pull_edge[OF assms(1-3)] assms(4) by (auto simp: receive_round_def)

definition frame_event :: "IpcType \<times> byte list \<Rightarrow> ipc_event" where
  "frame_event f = IE_receive \<lparr>m_valid = True, m_read = 0, m_data = frame_of (fst f) (snd f)\<rparr>"

definition stream_of :: "(IpcType \<times> byte list) list \<Rightarrow> byte list" where
  "stream_of fs = concat (map (\<lambda>(ty, body). frame_of ty body) fs)"

definition frames_ok :: "(IpcType \<times> byte list) list \<Rightarrow> bool" where
  "frames_ok fs \<longleftrightarrow> (\<forall>(ty, body) \<in> set fs. IpcType_ok ty \<and> length body < 2 ^ 31)"

lemma stream_of_simps [simp]:
  "stream_of [] = []" "stream_of (f # fs) = frame_of (fst f) (snd f) @ stream_of fs" "stream_of (fs @ gs) = stream_of fs @ stream_of gs"
  by (auto simp: stream_of_def split: prod.splits)

lemma frame_of_nonempty [simp]: "frame_of ty body \<noteq> []"
  by (simp add: frame_of_def)

lemma round_frame:
  assumes "edge_triggered kn ep deliver efd (bs_fd (heap c)) waiting watched ready" "listens heap c efd s" "watched k" "ready k"
    "waiting k = stream_of (f # fs)" "frames_ok (f # fs)"
  shows "\<exists>k'. receive_round kn ep heap junk d s k = (Some [frame_event f], k') \<and> waiting k' = stream_of fs \<and> watched k' \<and> \<not> ready k'"
proof -
  obtain k1 where k1: "sel_pull ep s k = (Some [c], k1)" "waiting k1 = waiting k" "watched k1" "\<not> ready k1"
    using pull_edge[OF assms(1-3)] assms(4) by auto
  let ?recv = "\<lambda>n st. case stream_receive kn n (heap c) st of (bytes, err, st') \<Rightarrow> ((bytes, err), st')"
  have e: "edge_triggered kn ep deliver (em_fd s) (bs_fd (heap c)) waiting watched ready" using assms(1,2) by (simp add: listens_def)
  have "\<exists>k'. recv_round ?recv junk d k1 = (IE_receive \<lparr>m_valid = True, m_read = 0, m_data = frame_of (fst f) (snd f)\<rparr>, k')
      \<and> waiting k' = stream_of fs \<and> (watched k', ready k') = (watched k1, ready k1)"
  proof (rule recv_round_frame_by)
    fix n :: nat and k assume "n = 0 \<or> waiting k \<noteq> []"
    from edge_receive[OF e this] show "\<exists>k'. ?recv n k = ((take n (waiting k), int (length (take n (waiting k)))), k')
        \<and> waiting k' = drop n (waiting k) \<and> (watched k', ready k') = (watched k, ready k)" by auto
  qed (use assms(5,6) k1(2) in \<open>auto simp: frames_ok_def\<close>)
  with k1 show ?thesis by (auto simp: receive_round_def frame_event_def)
qed

lemma map_append_Nil [simp]: "map_option ((@) []) r = r"
  by (cases r) simp_all

lemma rounds_idle:
  assumes "edge_triggered kn ep deliver efd (bs_fd (heap c)) waiting watched ready" "listens heap c efd s"
  shows "watched k \<Longrightarrow> \<not> ready k \<Longrightarrow> \<exists>k'. receive_loop kn ep deliver heap junk d s (replicate r Round @ acts) k =
      receive_loop kn ep deliver heap junk d s acts k' \<and> waiting k' = waiting k \<and> watched k' \<and> \<not> ready k'"
proof (induction r arbitrary: k)
  case (Suc r)
  obtain k1 where "receive_round kn ep heap junk d s k = (Some [], k1)" "waiting k1 = waiting k" "watched k1" "\<not> ready k1"
    using round_idle[OF assms Suc.prems] by blast
  moreover from Suc.IH[OF this(3,4)] obtain k' where
    "receive_loop kn ep deliver heap junk d s (replicate r Round @ acts) k1 = receive_loop kn ep deliver heap junk d s acts k'"
    "waiting k' = waiting k1" "watched k'" "\<not> ready k'" by blast
  ultimately show ?case by auto
qed auto

text \<open>A burst: frames that arrive together, and the rounds until the next ones, at least one.\<close>

definition burst_acts :: "(IpcType \<times> byte list) list \<times> nat \<Rightarrow> loop_act list" where
  "burst_acts b = Peer (stream_of (fst b)) # replicate (Suc (snd b)) Round"

lemma bursts_run:
  assumes "edge_triggered kn ep deliver efd (bs_fd (heap c)) waiting watched ready" "listens heap c efd s"
  shows "watched k \<Longrightarrow> waiting k = stream_of fs \<Longrightarrow> \<not> ready k \<Longrightarrow> frames_ok (fs @ concat (map fst bs)) \<Longrightarrow> \<forall>b \<in> set bs. fst b \<noteq> [] \<Longrightarrow>
    \<exists>k'. receive_loop kn ep deliver heap junk d s (concat (map burst_acts bs)) k
        = (Some (map frame_event (take (length bs) (fs @ concat (map fst bs)))), k')
      \<and> waiting k' = stream_of (drop (length bs) (fs @ concat (map fst bs))) \<and> watched k' \<and> \<not> ready k'"
proof (induction bs arbitrary: k fs)
  case (Cons b bs)
  let ?k = "deliver (stream_of (fst b)) k" and ?rest = "concat (map burst_acts bs)"
  have "fst b \<noteq> []" using Cons.prems(5) by simp
  then have ne: "stream_of (fst b) \<noteq> []" by (cases "fst b") auto
  with Cons.prems(1-3) have d: "waiting ?k = stream_of (fs @ fst b)" "watched ?k" "ready ?k"
    using edgeD(5)[OF assms(1) ne, of k] by auto
  obtain f gs where fg: "fs @ fst b = f # gs" using \<open>fst b \<noteq> []\<close> by (cases "fs @ fst b") auto
  then have all: "fs @ concat (map fst (b # bs)) = f # gs @ concat (map fst bs)" by simp
  have ok: "frames_ok (f # gs)" "frames_ok (gs @ concat (map fst bs))"
    using Cons.prems(4) unfolding all by (auto simp: frames_ok_def)
  obtain k1 where k1: "receive_round kn ep heap junk d s ?k = (Some [frame_event f], k1)" "waiting k1 = stream_of gs" "watched k1" "\<not> ready k1"
    using round_frame[OF assms d(2,3) _ ok(1)] d(1) fg by auto
  obtain k2 where k2: "receive_loop kn ep deliver heap junk d s (replicate (snd b) Round @ ?rest) k1 =
      receive_loop kn ep deliver heap junk d s ?rest k2" "waiting k2 = waiting k1" "watched k2" "\<not> ready k2"
    using rounds_idle[OF assms k1(3,4)] by blast
  obtain k' where "receive_loop kn ep deliver heap junk d s ?rest k2
        = (Some (map frame_event (take (length bs) (gs @ concat (map fst bs)))), k')"
    "waiting k' = stream_of (drop (length bs) (gs @ concat (map fst bs)))" "watched k'" "\<not> ready k'"
    using Cons.IH[OF k2(3) _ k2(4) ok(2)] k1(2) k2(2) Cons.prems(5) by auto
  moreover have "burst_acts b = Peer (stream_of (fst b)) # Round # replicate (snd b) Round" by (simp add: burst_acts_def)
  ultimately show ?case using k1(1) k2(1) unfolding all by simp
qed simp

section \<open>From the start\<close>

lemma int_of_f32_1000: "int_of_f32 (f32_of_int 1000) = Some 1000"
  using fval_f32_of_int[of 1000] f32_of_int_eval[of 1000]
  by (simp add: int_of_f32_def f32_unit_def)

text \<open>The time-out of the loops is a thousand milliseconds: the number is handed to the kernel as it is.\<close>

lemma receive_start_listens:
  assumes e: "edge_triggered kn ep deliver efd (bs_fd (heap c)) waiting watched ready"
    and "receive_start ep heap (Some c) k = (s, k1)"
  shows "listens heap c efd s" "waiting k1 = waiting k" "watched k1" "ready k1 \<longleftrightarrow> waiting k \<noteq> []"
proof -
  let ?ev = "\<lparr>ee_events = EPOLLIN OR EPOLLET, ee_fd = bs_fd (heap c)\<rparr>"
  obtain fd k0 where c0: "ep_create ep MAX_EVENT_EPOLL k = (fd, k0)" by (cases "ep_create ep MAX_EVENT_EPOLL k")
  have n: "fd = efd" "waiting k0 = waiting k" "\<not> watched k0" "\<not> ready k0"
    using edgeD(1)[OF e _ c0] by (simp_all add: MAX_EVENT_EPOLL_def)
  obtain r k2 where c1: "ep_ctl ep efd EPOLL_CTL_ADD (bs_fd (heap c)) ?ev k0 = (r, k2)"
    by (cases "ep_ctl ep efd EPOLL_CTL_ADD (bs_fd (heap c)) ?ev k0")
  have "ee_events ?ev AND EPOLLET \<noteq> 0" "ee_events ?ev AND EPOLLIN \<noteq> 0" by (simp_all add: EPOLLIN_def EPOLLET_def)
  with edgeD(2)[OF e _ _ _ n(3) c1] n have a: "r = 0" "waiting k2 = waiting k" "watched k2" "ready k2 \<longleftrightarrow> waiting k \<noteq> []"
    by simp_all
  have "s = \<lparr>em_max = 30, em_fd = efd, es_clients = fmupd (bs_fd (heap c)) c fmempty, es_to = f32_of_int 1000\<rparr> \<and> k1 = k2"
    using assms(2) c0 c1 n(1) a(1)
    by (auto simp: receive_start_def sel_new_def EPoll_new_def c_epoll_create_def sel_timeout_def sel_client_def
        EPoll_ctl_def c_epoll_ctl_def epoll.extend_def MAX_EVENT_EPOLL_def)
  with a show "listens heap c efd s" "waiting k1 = waiting k" "watched k1" "ready k1 \<longleftrightarrow> waiting k \<noteq> []"
    by (simp_all add: listens_def int_of_f32_1000)
qed

text \<open>
  C14: over a socket that the selector watches edge triggered, the receive loop of the client's
  processes delivers one frame for each burst of frames that arrive together, however many rounds it
  makes in between: after as many bursts as there are elements of \<open>bs\<close> exactly that many frames have
  been delivered, whole and in order, and the rest of the stream waits. With frames that arrive one
  by one nothing waits; of two that arrive together the second is delivered when a third arrives.
\<close>

theorem one_frame_per_burst:
  assumes "edge_triggered kn ep deliver efd (bs_fd (heap c)) waiting watched ready" "waiting k = []"
    and "receive_start ep heap (Some c) k = (s, k1)"
    and "frames_ok (concat (map fst bs))" "\<forall>b \<in> set bs. fst b \<noteq> []"
  shows "\<exists>k'. receive_loop kn ep deliver heap junk d s (concat (map burst_acts bs)) k1
      = (Some (map frame_event (take (length bs) (concat (map fst bs)))), k')
    \<and> waiting k' = stream_of (drop (length bs) (concat (map fst bs)))"
  using bursts_run[where fs = "[]", OF assms(1) receive_start_listens(1)[OF assms(1,3)], of k1 bs junk d]
    receive_start_listens(2-4)[OF assms(1,3)] assms(2,4,5) by auto

text \<open>One connection, of which the kernel keeps what the statement speaks of.\<close>

record line =
  ln_bytes :: "byte list"
  ln_watched :: bool
  ln_ready :: bool

definition line_kernel :: "line kernel" where
  "line_kernel = \<lparr>kn_socket = (\<lambda>d t p k. (-1, k)), kn_accept = (\<lambda>fd k. (-1, k)),
     kn_send = (\<lambda>fd bs k. (int (length bs), k)), kn_sendto = (\<lambda>fd bs a k. (-1, k)),
     kn_recv = (\<lambda>fd n k. ((int (length (take n (ln_bytes k))), take n (ln_bytes k)), k\<lparr>ln_bytes := drop n (ln_bytes k)\<rparr>)),
     kn_recvfrom = (\<lambda>fd n m k. ((-1, [], sockaddr_in_zero), k)),
     kn_getfl = (\<lambda>fd k. 0), kn_setfl = (\<lambda>fd fl k. (-1, k)), kn_getfd = (\<lambda>fd k. 0), kn_close = (\<lambda>fd k. (-1, k)),
     kn_getsockname = (\<lambda>fd k. None), kn_bind = (\<lambda>fd a k. (-1, k)), kn_listen = (\<lambda>fd m k. (-1, k)),
     kn_connect = (\<lambda>fd a k. (-1, k)), kn_setsockopt = (\<lambda>fd opt v k. (-1, k)), kn_unlink = (\<lambda>p k. (-1, k)),
     kn_inet_pton = (\<lambda>a t. (0, 0))\<rparr>"

definition line_epoll :: "line epoll_calls" where
  "line_epoll = \<lparr>ep_create = (\<lambda>mx k. (9, k\<lparr>ln_watched := False, ln_ready := False\<rparr>)),
     ep_wait = (\<lambda>efd mx to k. (if ln_ready k then (1, [\<lparr>ee_events = EPOLLIN, ee_fd = 7\<rparr>]) else (0, []),
       k\<lparr>ln_ready := False\<rparr>)),
     ep_ctl = (\<lambda>efd cmd fd e k. (0, k\<lparr>ln_watched := True, ln_ready := ln_bytes k \<noteq> []\<rparr>))\<rparr>"

definition line_deliver :: "byte list \<Rightarrow> line \<Rightarrow> line" where
  "line_deliver bs k = k\<lparr>ln_bytes := ln_bytes k @ bs, ln_ready := ln_ready k \<or> ln_watched k\<rparr>"

lemma line_edge_triggered:
  "edge_triggered line_kernel line_epoll line_deliver 9 7 ln_bytes ln_watched ln_ready"
  unfolding edge_triggered_def by (simp add: line_kernel_def line_epoll_def line_deliver_def min_def)

definition ex_peer :: "nat \<Rightarrow> base_socket" where
  "ex_peer c = \<lparr>bs_fd = 7, bs_dom = AF_INET, bs_type = SOCK_STREAM, bs_proto = 0\<rparr>"

theorem one_frame_per_burst_witness:
  "\<exists>k'. receive_loop line_kernel line_epoll line_deliver ex_peer 0 \<lparr>ih_MsgType = IT_Reject, ih_BodySize = 0\<rparr>
      (fst (receive_start line_epoll ex_peer (Some 0) \<lparr>ln_bytes = [], ln_watched = False, ln_ready = False\<rparr>))
      [Peer (frame_of IT_HandShakeAuth [] @ frame_of IT_Status [2]), Round, Round, Round]
      (snd (receive_start line_epoll ex_peer (Some 0) \<lparr>ln_bytes = [], ln_watched = False, ln_ready = False\<rparr>))
    = (Some [frame_event (IT_HandShakeAuth, [])], k') \<and> ln_bytes k' = frame_of IT_Status [2]"
proof -
  have ok: "frames_ok [(IT_HandShakeAuth, []), (IT_Status, [2])]"
    by (auto simp: frames_ok_def intro!: IpcType_all_ok simp: IpcType_all_def)
  have e: "edge_triggered line_kernel line_epoll line_deliver 9 (bs_fd (ex_peer 0)) ln_bytes ln_watched ln_ready"
    using line_edge_triggered by (simp add: ex_peer_def)
  from one_frame_per_burst[where heap = ex_peer and c = 0 and bs = "[([(IT_HandShakeAuth, []), (IT_Status, [2])], 2)]"
      and k = "\<lparr>ln_bytes = [], ln_watched = False, ln_ready = False\<rparr>" and junk = 0
      and d = "\<lparr>ih_MsgType = IT_Reject, ih_BodySize = 0\<rparr>", OF e _ prod.collapse[symmetric]] ok
  show ?thesis by (simp add: burst_acts_def numeral_2_eq_2)
qed

text \<open>What the count means: frames that come one by one all arrive; two together leave one waiting.\<close>

lemma single_frames_arrive:
  assumes "edge_triggered kn ep deliver efd (bs_fd (heap c)) waiting watched ready" "waiting k = []"
    and "receive_start ep heap (Some c) k = (s, k1)" "frames_ok (map fst fs)"
  shows "\<exists>k'. receive_loop kn ep deliver heap junk d s (concat (map (\<lambda>(f, r). burst_acts ([f], r)) fs)) k1
      = (Some (map (frame_event \<circ> fst) fs), k') \<and> waiting k' = []"
proof -
  let ?bs = "map (\<lambda>(f, r). ([f], r)) fs"
  have c: "concat (map fst ?bs) = map fst fs" "concat (map burst_acts ?bs) = concat (map (\<lambda>(f, r). burst_acts ([f], r)) fs)"
    by (induction fs) auto
  have "\<forall>b \<in> set ?bs. fst b \<noteq> []" by auto
  with bursts_run[where fs = "[]", OF assms(1) receive_start_listens(1)[OF assms(1,3)], of k1 ?bs junk d]
    receive_start_listens(2-4)[OF assms(1,3)] assms(2,4)
  show ?thesis unfolding c by (auto simp: comp_def)
qed

lemma frames_together_wait:
  assumes "edge_triggered kn ep deliver efd (bs_fd (heap c)) waiting watched ready" "waiting k = []"
    and "receive_start ep heap (Some c) k = (s, k1)" "frames_ok [f, g]"
  shows "\<exists>k'. receive_loop kn ep deliver heap junk d s (Peer (stream_of [f, g]) # replicate (Suc n) Round) k1
      = (Some [frame_event f], k') \<and> waiting k' = stream_of [g]"
  using bursts_run[where fs = "[]", OF assms(1) receive_start_listens(1)[OF assms(1,3)], of k1 "[([f, g], n)]" junk d]
    receive_start_listens(2-4)[OF assms(1,3)] assms(2,4) by (auto simp: burst_acts_def)

text \<open>A client that is erased after its socket was closed takes every closed client with it.\<close>

lemma erase_drops_all_closed:
  assumes "bs_fd (heap p) = -1" "bs_fd (heap q) = -1" "fmlookup (es_clients s) fd = Some q"
  shows "fmlookup (es_clients (sel_erase heap (Some p) s)) fd = None"
  using assms by (simp add: sel_erase_def)

end
