(* ===== verification/GuiLoop.thy ===== *)
theory GuiLoop
  imports Epoll GuiClaims
begin

text \<open>
  \<^verbatim>\<open>BackManager\<close> of the front end as a whole: its connection, its loop over the selector, which is
  written out a second time there, and what the login screen sees of a back end through it.
\<close>

section \<open>The manager\<close>

record 'c back_manager =
  bm_running :: bool
  bm_socket :: "'c option"

text \<open>The start of the loop; nothing when it runs already.\<close>

definition bm_startConnection :: "'k epoll_calls \<Rightarrow> ('c \<Rightarrow> 'b base_socket_scheme) \<Rightarrow> 'c back_manager \<Rightarrow> 'k \<Rightarrow>
    ('c epoll_selector \<times> 'c back_manager \<times> 'k) option" where
  "bm_startConnection ep heap bm k = (if bm_running bm then None
     else (let (s, k1) = sel_new ep k;
               (_, s', k2) = sel_client ep heap (bm_socket bm) (sel_timeout (f32_of_int 1000) s) k1
       in Some (s', bm\<lparr>bm_running := True\<rparr>, k2)))"

definition bm_stop :: "'c back_manager \<Rightarrow> 'c back_manager" where
  "bm_stop bm = bm\<lparr>bm_running := False\<rparr>"

text \<open>\<open>None\<close>: \<^verbatim>\<open>pull\<close> threw.\<close>

definition bm_round :: "'k kernel \<Rightarrow> 'k epoll_calls \<Rightarrow> ('c \<Rightarrow> 'b base_socket_scheme) \<Rightarrow> u8 \<Rightarrow> IpcHeader \<Rightarrow> IpcExecution \<Rightarrow>
    'c epoll_selector \<Rightarrow> 'k \<Rightarrow> gui_signal list option \<times> 'k" where
  "bm_round kn ep heap junk d dx s k = (case sel_pull ep s k of
       (None, k') \<Rightarrow> (None, k')
     | (Some [], k') \<Rightarrow> (Some [], k')
     | (Some (c # cs), k') \<Rightarrow> (case gui_back_round (\<lambda>n st. case stream_receive kn n (heap c) st of
           (bytes, err, st') \<Rightarrow> ((bytes, err), st')) junk d dx k' of
         (Some sig, k'') \<Rightarrow> (Some [sig], k'') | (None, k'') \<Rightarrow> (Some [], k'')))"

text \<open>The signals of a run; \<^verbatim>\<open>m_running\<close> is read before each round.\<close>

datatype bm_act = BM_peer "byte list" | BM_round | BM_stop

fun bm_loop :: "'k kernel \<Rightarrow> 'k epoll_calls \<Rightarrow> (byte list \<Rightarrow> 'k \<Rightarrow> 'k) \<Rightarrow> ('c \<Rightarrow> 'b base_socket_scheme) \<Rightarrow> u8 \<Rightarrow> IpcHeader \<Rightarrow>
    IpcExecution \<Rightarrow> 'c epoll_selector \<Rightarrow> bm_act list \<Rightarrow> 'c back_manager \<Rightarrow> 'k \<Rightarrow> gui_signal list option \<times> 'c back_manager \<times> 'k" where
  "bm_loop kn ep deliver heap junk d dx s [] bm k = (Some [], bm, k)"
| "bm_loop kn ep deliver heap junk d dx s (BM_peer bs # acts) bm k =
     bm_loop kn ep deliver heap junk d dx s acts bm (deliver bs k)"
| "bm_loop kn ep deliver heap junk d dx s (BM_stop # acts) bm k =
     bm_loop kn ep deliver heap junk d dx s acts (bm_stop bm) k"
| "bm_loop kn ep deliver heap junk d dx s (BM_round # acts) bm k =
     (if \<not> bm_running bm then bm_loop kn ep deliver heap junk d dx s acts bm k
      else case bm_round kn ep heap junk d dx s k of
        (None, k') \<Rightarrow> (None, bm, k')
      | (Some gs, k') \<Rightarrow> (case bm_loop kn ep deliver heap junk d dx s acts bm k' of
          (r, bm', k'') \<Rightarrow> (map_option ((@) gs) r, bm', k'')))"

section \<open>The loop of the other managers\<close>

text \<open>It is the loop of \<open>Epoll\<close>, with the signals of the frames for the frames.\<close>

definition event_signals :: "u8 \<Rightarrow> IpcHeader \<Rightarrow> IpcExecution \<Rightarrow> ipc_event \<Rightarrow> gui_signal list" where
  "event_signals junk d dx e = (case e of
       IE_receive b \<Rightarrow> (case gui_back_onReceive junk d dx b of None \<Rightarrow> [] | Some g \<Rightarrow> [g]) | _ \<Rightarrow> [])"

fun bm_act_of :: "loop_act \<Rightarrow> bm_act" where
  "bm_act_of (Peer bs) = BM_peer bs"
| "bm_act_of Round = BM_round"

lemma bm_round_signals:
  "bm_round kn ep heap junk d dx s k = (case receive_round kn ep heap junk d s k of
     (r, k') \<Rightarrow> (map_option (\<lambda>es. concat (map (event_signals junk d dx) es)) r, k'))"
  by (auto simp: bm_round_def receive_round_def gui_back_round_def event_signals_def
      split: prod.splits option.splits list.splits ipc_event.splits)

lemma bm_loop_signals:
  "bm_running bm \<Longrightarrow> bm_loop kn ep deliver heap junk d dx s (map bm_act_of acts) bm k =
     (case receive_loop kn ep deliver heap junk d s acts k of
        (r, k') \<Rightarrow> (map_option (\<lambda>es. concat (map (event_signals junk d dx) es)) r, bm, k'))"
proof (induction acts arbitrary: k)
  case (Cons a acts)
  then show ?case
    by (cases a) (auto simp: bm_round_signals option.map_comp comp_def split: prod.splits option.splits)
qed simp

lemma bm_start_is_receive_start:
  "\<not> bm_running bm \<Longrightarrow> bm_startConnection ep heap bm k = Some (s, bm', k1) \<longleftrightarrow>
     receive_start ep heap (bm_socket bm) k = (s, k1) \<and> bm' = bm\<lparr>bm_running := True\<rparr>"
  by (auto simp: bm_startConnection_def receive_start_def Let_def split: prod.splits)

section \<open>A login that hangs\<close>

lemma Helper_Status_frame: "Helper_Status w = \<lparr>m_valid = True, m_read = 0, m_data = frame_of IT_Status [w]\<rparr>"
  using hst.frame_bytes[of w] hst.frame_fresh[of w] by (cases "Helper_Status w") (simp add: frame_of_def)

lemma status_signal: "event_signals junk d dx (frame_event (IT_Status, [w])) = [GS_Status w]"
proof -
  obtain h b where h: "get_IpcHeader junk d (Helper_Status w) = (h, b)" by (cases "get_IpcHeader junk d (Helper_Status w)")
  have "ih_MsgType h = IT_Status" "fst (get_u8 junk b) = w"
    using hst.frame_read(1)[OF _ _ h] hst.frame_read(3)[OF _ _ h, of junk] by simp_all
  with h show ?thesis
    by (simp add: event_signals_def frame_event_def gui_back_onReceive_def flip: Helper_Status_frame)
qed

definition see_signals :: "string \<Rightarrow> gui_signal list \<Rightarrow> login_screen \<Rightarrow> login_screen" where
  "see_signals apikey sigs g = gui_run apikey (concat (map (\<lambda>sig. [Emit sig, Deliver]) sigs)) g"

text \<open>The screen waits for the back end's status: connected to it once, and nothing queued.\<close>

definition awaits_status :: "login_screen \<Rightarrow> bool" where
  "awaits_status g \<longleftrightarrow> lo_events g = [] \<and> filter (\<lambda>sl. sl = SL_backNotifyStatus) (lo_conn g) = [SL_backNotifyStatus]"

lemma see_status:
  assumes "awaits_status g"
  shows "see_signals apikey [GS_Status (PUStatus_code PU_Initialize)] g = g\<lparr>lo_progress := Some 5\<rparr>"
    and "lo_to_back (see_signals apikey [GS_Status (PUStatus_code PU_Initialize), GS_Status (PUStatus_code PU_Running)] g)
      = lo_to_back g @ [Helper_Logon \<lparr>il_UserId = lo_name g, il_SeqNum = lo_seq g, il_HeartBeat = lo_hb g\<rparr>]"
  using assms by (simp_all add: see_signals_def awaits_status_def login_steps)

lemma map_bm_act: "map bm_act_of (burst_acts (fs, n)) = BM_peer (stream_of fs) # replicate (Suc n) BM_round"
  by (simp add: burst_acts_def)

text \<open>
  C39: the two statuses that the back end sends while it starts, seen through the loop of the front
  end's manager. When they arrive one after the other, the login screen answers the second with
  the logon. When they arrive together, the second is never read, however many rounds the loop makes,
  and no logon is sent: the back end waits for the logon, and the front end for the status.
\<close>

theorem statuses_together_hang_login:
  assumes "edge_triggered kn ep deliver efd (bs_fd (heap c)) waiting watched ready" "waiting k = []"
    and "bm_startConnection ep heap bm k = Some (s, bm1, k1)" "bm_socket bm = Some c" "awaits_status g"
  shows "let a = m_data (Helper_Status (PUStatus_code PU_Initialize)); b = m_data (Helper_Status (PUStatus_code PU_Running));
      run = (\<lambda>acts. bm_loop kn ep deliver heap junk d dx s acts bm1 k1) in
    (\<exists>sigs k'. run (BM_peer a # replicate (Suc n) BM_round @ BM_peer b # replicate (Suc m) BM_round) = (Some sigs, bm1, k') \<and>
       lo_to_back (see_signals apikey sigs g)
         = lo_to_back g @ [Helper_Logon \<lparr>il_UserId = lo_name g, il_SeqNum = lo_seq g, il_HeartBeat = lo_hb g\<rparr>]) \<and>
    (\<exists>sigs k'. run (BM_peer (a @ b) # replicate (Suc n) BM_round) = (Some sigs, bm1, k') \<and>
       see_signals apikey sigs g = g\<lparr>lo_progress := Some 5\<rparr> \<and> waiting k' = b)"
proof -
  define w1 w2 where w: "w1 = PUStatus_code PU_Initialize" "w2 = PUStatus_code PU_Running"
  have "\<not> bm_running bm" using assms(3) by (auto simp: bm_startConnection_def split: if_splits)
  from bm_start_is_receive_start[OF this, of ep heap k s bm1 k1] assms(3,4)
  have st: "receive_start ep heap (Some c) k = (s, k1)" "bm_running bm1" by auto
  have ok: "frames_ok (map fst [((IT_Status, [w1]), n), ((IT_Status, [w2]), m)])" "frames_ok [(IT_Status, [w1]), (IT_Status, [w2])]"
    by (auto simp: frames_ok_def intro!: IpcType_all_ok simp: IpcType_all_def)
  obtain k2 where "receive_loop kn ep deliver heap junk d s (burst_acts ([(IT_Status, [w1])], n) @ burst_acts ([(IT_Status, [w2])], m)) k1
      = (Some [frame_event (IT_Status, [w1]), frame_event (IT_Status, [w2])], k2)"
    using single_frames_arrive[OF assms(1,2) st(1) ok(1), of junk d] by auto
  then have a: "bm_loop kn ep deliver heap junk d dx s (map bm_act_of (burst_acts ([(IT_Status, [w1])], n) @ burst_acts ([(IT_Status, [w2])], m))) bm1 k1
      = (Some [GS_Status w1, GS_Status w2], bm1, k2)"
    by (subst bm_loop_signals[OF st(2)]) (simp add: status_signal)
  obtain k3 where k3: "receive_loop kn ep deliver heap junk d s (burst_acts ([(IT_Status, [w1]), (IT_Status, [w2])], n)) k1
      = (Some [frame_event (IT_Status, [w1])], k3)" "waiting k3 = frame_of IT_Status [w2]"
    using frames_together_wait[OF assms(1,2) st(1) ok(2), of junk d n] by (auto simp: burst_acts_def)
  then have b: "bm_loop kn ep deliver heap junk d dx s (map bm_act_of (burst_acts ([(IT_Status, [w1]), (IT_Status, [w2])], n))) bm1 k1
      = (Some [GS_Status w1], bm1, k3)"
    by (subst bm_loop_signals[OF st(2)]) (simp add: status_signal)
  show ?thesis
    using a b k3(2) see_status[OF assms(5)] unfolding Let_def w[symmetric]
    by (simp add: map_bm_act Helper_Status_frame del: replicate_Suc)
qed

definition blank_execution :: IpcExecution where
  "blank_execution = \<lparr>ie_symbol = [], ie_orderId = [], ie_execId = [], ie_avgPrice = fzero, ie_price = fzero, ie_side = Side_Sell,
     ie_quantity = fzero, ie_remainQty = fzero\<rparr>"

theorem statuses_together_hang_login_witness:
  "let g = (Login_init ''alice'' 30 1)\<lparr>lo_conn := [SL_backNotifyStatus]\<rparr>;
      k = \<lparr>ln_bytes = [], ln_watched = False, ln_ready = False\<rparr>;
      (s, k1) = receive_start line_epoll ex_peer (Some 0) k;
      (sigs, bm, k2) = bm_loop line_kernel line_epoll line_deliver ex_peer 0 \<lparr>ih_MsgType = IT_Reject, ih_BodySize = 0\<rparr> blank_execution s
        [BM_peer (m_data (Helper_Status (PUStatus_code PU_Initialize)) @ m_data (Helper_Status (PUStatus_code PU_Running))), BM_round, BM_round, BM_round]
        \<lparr>bm_running = True, bm_socket = Some 0\<rparr> k1
    in lo_progress (see_signals ''key'' (the sigs) g) = Some 5"
proof -
  let ?k = "\<lparr>ln_bytes = [], ln_watched = False, ln_ready = False\<rparr>"
  let ?g = "(Login_init ''alice'' 30 1)\<lparr>lo_conn := [SL_backNotifyStatus]\<rparr>"
  obtain s k1 where r: "receive_start line_epoll ex_peer (Some 0) ?k = (s, k1)"
    by (cases "receive_start line_epoll ex_peer (Some 0) ?k")
  have e: "edge_triggered line_kernel line_epoll line_deliver 9 (bs_fd (ex_peer 0)) ln_bytes ln_watched ln_ready"
    using line_edge_triggered by (simp add: ex_peer_def)
  have b: "bm_startConnection line_epoll ex_peer \<lparr>bm_running = False, bm_socket = Some 0\<rparr> ?k = Some (s, \<lparr>bm_running = True, bm_socket = Some 0\<rparr>, k1)"
    using r by (simp add: bm_start_is_receive_start)
  have g: "awaits_status ?g" by (simp add: awaits_status_def Login_init_def)
  from statuses_together_hang_login[where heap = ex_peer and c = 0 and k = ?k and n = 2 and m = 0 and apikey = "''key''"
      and junk = 0 and d = "\<lparr>ih_MsgType = IT_Reject, ih_BodySize = 0\<rparr>" and dx = blank_execution, OF e _ b _ g]
  show ?thesis using r by (auto simp: Let_def numeral_3_eq_3 numeral_2_eq_2)
qed

end
