(* ===== verification/SignedBuffer.thy ===== *)
theory SignedBuffer
  imports Sockets
begin

text \<open>
  The rest of \<^verbatim>\<open>net::Buffer\<close>: the codecs of the signed integers and the writer of C strings. A signed
  codec is an unsigned one on the other side of two casts, so its contract is derived from the
  contract of that one: the locale \<open>recoded\<close> extends \<open>wire\<close>, and gives \<open>wire\<close> again for the casted values.
\<close>

section \<open>Writers and readers\<close>

text \<open>The cast to the unsigned type, the byte order, and the cast back.\<close>

definition put_i8 :: "int \<Rightarrow> net_buffer \<Rightarrow> net_buffer" where
  "put_i8 v = append_bytes [word_of_int v]"

definition put_i16 :: "int \<Rightarrow> net_buffer \<Rightarrow> net_buffer" where
  "put_i16 v = append_bytes (le_bytes 2 (unat (htons (word_of_int v))))"

definition put_i32 :: "int \<Rightarrow> net_buffer \<Rightarrow> net_buffer" where
  "put_i32 v = append_bytes (le_bytes 4 (unat (htonl (word_of_int v))))"

definition get_i8 :: "int \<Rightarrow> net_buffer \<Rightarrow> int \<times> net_buffer" where
  "get_i8 d b = (case checkSize 1 b of (ok, b') \<Rightarrow>
     if ok then (sint (of_nat (of_le (peek 1 b')) :: u8), skip 1 b') else (d, b'))"

definition get_i16 :: "int \<Rightarrow> net_buffer \<Rightarrow> int \<times> net_buffer" where
  "get_i16 d b = (case checkSize 2 b of (ok, b') \<Rightarrow>
     if ok then (sint (htons (of_nat (of_le (peek 2 b')))), skip 2 b') else (d, b'))"

definition get_i32 :: "int \<Rightarrow> net_buffer \<Rightarrow> int \<times> net_buffer" where
  "get_i32 d b = (case checkSize 4 b of (ok, b') \<Rightarrow>
     if ok then (sint (htonl (of_nat (of_le (peek 4 b')))), skip 4 b') else (d, b'))"

text \<open>\<open>s\<close>: the characters at the pointer, of which the text ends before the first zero.\<close>

definition put_cstring :: "string \<Rightarrow> net_buffer \<Rightarrow> net_buffer" where
  "put_cstring s b = (let len = of_nat (length (c_text s)) :: u32
     in append_bytes (map byte_of (take (unat len) s)) (put_u32 len b))"

section \<open>The contract of a casted codec\<close>

locale recoded = wire put get enc ok
  for put :: "'a \<Rightarrow> net_buffer \<Rightarrow> net_buffer" and get :: "'a \<Rightarrow> net_buffer \<Rightarrow> 'a \<times> net_buffer"
    and enc :: "'a \<Rightarrow> byte list" and ok :: "'a \<Rightarrow> bool" +
  fixes into :: "'b \<Rightarrow> 'a" and out :: "'a \<Rightarrow> 'b" and within :: "'b \<Rightarrow> bool"
    and put2 :: "'b \<Rightarrow> net_buffer \<Rightarrow> net_buffer" and get2 :: "'b \<Rightarrow> net_buffer \<Rightarrow> 'b \<times> net_buffer"
  assumes out_into: "within x \<Longrightarrow> out (into x) = x"
    and ok_into: "within x \<Longrightarrow> ok (into x)"
    and put2: "put2 x b = put (into x) b"
    and get2: "ok v \<Longrightarrow> reads_at b (enc v @ post) \<Longrightarrow> get2 d b = map_prod out id (get (into d) b)"

sublocale recoded \<subseteq> casted: wire put2 get2 "\<lambda>x. enc (into x)" within
proof unfold_locales
  fix x b post d assume x: "within x" and r: "reads_at b (enc (into x) @ post)"
  from get2[OF ok_into[OF x] r, of d] get_enc[OF ok_into[OF x] r] out_into[OF x]
  show "get2 d b = (x, skip (length (enc (into x))) b)" by simp
qed (simp add: put2 put_enc ok_into)

interpretation s8: recoded put_u8 get_u8 "\<lambda>v. [v]" "\<lambda>_. True" word_of_int sint "\<lambda>i. - 128 \<le> i \<and> i < 128" put_i8 get_i8
proof unfold_locales
  fix v :: u8 and b post d assume "reads_at b ([v] @ post)"
  from reads_at_check[OF this] show "get_i8 d b = map_prod sint id (get_u8 (word_of_int d) b)"
    by (simp add: get_i8_def get_u8_def)
qed (simp_all add: put_i8_def put_u8_def sint_sbintrunc' signed_take_bit_int_eq_self)

interpretation s16: recoded put_u16 get_u16 be16 "\<lambda>_. True" word_of_int sint "\<lambda>i. - (2 ^ 15) \<le> i \<and> i < 2 ^ 15" put_i16 get_i16
proof unfold_locales
  fix v :: u16 and b post d assume "reads_at b (be16 v @ post)"
  from reads_at_check[OF this] show "get_i16 d b = map_prod sint id (get_u16 (word_of_int d) b)"
    by (simp add: get_i16_def get_u16_def)
qed (simp_all add: put_i16_def put_u16_def sint_sbintrunc' signed_take_bit_int_eq_self)

interpretation s32: recoded put_u32 get_u32 be32 "\<lambda>_. True" word_of_int sint "\<lambda>i. - (2 ^ 31) \<le> i \<and> i < 2 ^ 31" put_i32 get_i32
proof unfold_locales
  fix v :: u32 and b post d assume "reads_at b (be32 v @ post)"
  from reads_at_check[OF this] show "get_i32 d b = map_prod sint id (get_u32 (word_of_int d) b)"
    by (simp add: get_i32_def get_u32_def)
qed (simp_all add: put_i32_def put_u32_def sint_sbintrunc' signed_take_bit_int_eq_self)

section \<open>What it gives\<close>

lemma signed_read_back:
  "- 128 \<le> i \<Longrightarrow> i < 128 \<Longrightarrow> fst (get_i8 d (put_i8 i Buffer_init)) = i"
  "- (2 ^ 15) \<le> i \<Longrightarrow> i < 2 ^ 15 \<Longrightarrow> fst (get_i16 d (put_i16 i Buffer_init)) = i"
  "- (2 ^ 31) \<le> i \<Longrightarrow> i < 2 ^ 31 \<Longrightarrow> fst (get_i32 d (put_i32 i Buffer_init)) = i"
  by (simp_all add: s8.casted.read_written s16.casted.read_written s32.casted.read_written)

text \<open>The C string writer and the reader of strings: the text up to its first zero comes back.\<close>

lemma take_c_text: "take (length (c_text s)) s = c_text s"
  unfolding c_text_def by (rule takeWhile_eq_take[symmetric])

lemma put_cstring_is_put_string:
  assumes "string_ok (c_text s)"
  shows "put_cstring s b = put_string (c_text s) b"
  using unat_length_u32[OF assms] take_c_text[of s]
  by (cases "c_text s") (auto simp: put_cstring_def put_string_def Let_def word_less_nat_alt append_bytes_def)

lemma cstring_read_back:
  assumes "string_ok (c_text s)"
  shows "fst (get_string d (put_cstring s Buffer_init)) = c_text s"
  using assms unfolding put_cstring_is_put_string[OF assms]
  by (intro ws.read_written) (auto simp: string_ok_def)

end
