(* ===== verification/SelectorRefine.thy ===== *)
theory SelectorRefine
  imports Epoll Clients
begin

text \<open>
  The two layers of the connections: what the server's units see of a socket and of the selector
  (\<open>Clients\<close>) is implemented by the socket objects, the selector object and the kernel (\<open>Sockets\<close>,
  \<open>Epoll\<close>), operation by operation.
\<close>

section \<open>The kernel\<close>

text \<open>
  \<open>fds k\<close>: the open descriptors, \<open>watched k\<close>: those registered with the epoll descriptor \<open>efd\<close>. A
  descriptor can be added when it is open and not yet there; closing it takes it out.
\<close>

definition watches :: "'k kernel \<Rightarrow> 'k epoll_calls \<Rightarrow> int \<Rightarrow> ('k \<Rightarrow> int set) \<Rightarrow> ('k \<Rightarrow> int set) \<Rightarrow> bool" where
  "watches kn ep efd fds watched \<longleftrightarrow>
     (\<forall>fd e k. case ep_ctl ep efd EPOLL_CTL_ADD fd e k of (r, k') \<Rightarrow> fds k' = fds k \<and>
        (if fd \<in> fds k \<and> fd \<notin> watched k then r = 0 \<and> watched k' = insert fd (watched k)
         else r = -1 \<and> watched k' = watched k)) \<and>
     (\<forall>fd k. fd \<in> fds k \<longrightarrow> watched (snd (kn_close kn fd k)) = watched k - {fd}) \<and>
     (\<forall>mx to k. 0 < mx \<longrightarrow> (case ep_wait ep efd mx to k of ((n, evs), k') \<Rightarrow> fds k' = fds k \<and> watched k' = watched k \<and>
        (n = -1 \<and> evs = [] \<or> n = int (length evs) \<and> n \<le> mx \<and> ee_fd ` set evs \<subseteq> watched k)))"

text \<open>The state of the server's units and the objects it stands for.\<close>

definition implements :: "int \<Rightarrow> ('k \<Rightarrow> int set) \<Rightarrow> ('k \<Rightarrow> int set) \<Rightarrow> (sock \<Rightarrow> base_socket) \<Rightarrow> sock epoll_selector \<Rightarrow> 'k \<Rightarrow>
    'a selector_scheme \<Rightarrow> bool" where
  "implements efd fds watched heap sel k s \<longleftrightarrow>
     em_fd sel = efd \<and> em_max sel = 30 \<and> int_of_f32 (es_to sel) \<noteq> None \<and>
     sk_fd s = bs_fd \<circ> heap \<and> sk_open s = (\<lambda>fd. fd \<in> fds k) \<and> set (sk_epoll s) = watched k \<and>
     map_of (sl_clients s) = fmlookup (es_clients sel) \<and> distinct (map fst (sl_clients s))"

section \<open>The operations\<close>

lemma map_of_snoc: "map_of (xs @ [(a, b)]) = (if map_of xs a = None then (map_of xs)(a \<mapsto> b) else map_of xs)"
  by (rule ext) (auto simp: map_add_def split: option.splits)

lemma map_of_None_fst: "map_of xs a = None \<longleftrightarrow> a \<notin> fst ` set xs"
  by (simp add: map_of_eq_None_iff)

lemma map_of_filter_value:
  "distinct (map fst xs) \<Longrightarrow> map_of (filter (\<lambda>(_, v). P v) xs) a = (case map_of xs a of None \<Rightarrow> None | Some v \<Rightarrow> if P v then Some v else None)"
  by (induction xs) (auto simp: map_of_None_fst split: option.splits)

lemma distinct_filter_keys: "distinct (map fst xs) \<Longrightarrow> distinct (map fst (filter P xs))"
  by (induction xs) auto

lemma fmlookup_fmupd: "fmlookup (fmupd a b m) = (fmlookup m)(a \<mapsto> b)"
  by (rule ext) simp

lemma client_implemented:
  assumes "watches kn ep efd fds watched" "implements efd fds watched heap sel k s"
    and "sel_client ep heap (Some p) sel k = (ok, sel', k')" "Selector_client p s = (ok2, s')"
  shows "ok = ok2 \<and> implements efd fds watched heap sel' k' s'"
proof -
  let ?fd = "bs_fd (heap p)"
  obtain r k1 where c: "ep_ctl ep efd EPOLL_CTL_ADD ?fd \<lparr>ee_events = EPOLLIN OR EPOLLET, ee_fd = ?fd\<rparr> k = (r, k1)"
    by (metis prod.exhaust)
  with assms(1) have w: "fds k1 = fds k" "if ?fd \<in> fds k \<and> ?fd \<notin> watched k then r = 0 \<and> watched k1 = insert ?fd (watched k)
      else r = -1 \<and> watched k1 = watched k" by (auto simp: watches_def split: prod.splits)
  note i = assms(2)[unfolded implements_def]
  show ?thesis
  proof (cases "?fd \<in> fds k \<and> ?fd \<notin> watched k")
    case True
    with i assms(4) have "ok2" and s': "s' = s\<lparr>sk_epoll := sk_epoll s @ [?fd],
        sl_clients := (if map_of (sl_clients s) ?fd = None then sl_clients s @ [(?fd, p)] else sl_clients s)\<rparr>"
      by (auto simp: Selector_client_def Let_def)
    moreover from True c w i assms(3) have "ok" "k' = k1"
      "sel' = sel\<lparr>es_clients := (if fmlookup (es_clients sel) ?fd = None then fmupd ?fd p (es_clients sel) else es_clients sel)\<rparr>"
      by (auto simp: sel_client_def EPoll_ctl_def c_epoll_ctl_def Let_def split: if_splits)
    moreover have "distinct (map fst (if map_of (sl_clients s) ?fd = None then sl_clients s @ [(?fd, p)] else sl_clients s))"
      using i map_of_None_fst[of "sl_clients s" ?fd] by auto
    moreover have "map_of (if map_of (sl_clients s) ?fd = None then sl_clients s @ [(?fd, p)] else sl_clients s)
        = fmlookup (if fmlookup (es_clients sel) ?fd = None then fmupd ?fd p (es_clients sel) else es_clients sel)"
      using i by (simp add: map_of_snoc fmlookup_fmupd del: map_of_append)
    ultimately show ?thesis using i w True by (simp add: implements_def)
  next
    case False
    with i assms(4) have "\<not> ok2" "s' = s" by (auto simp: Selector_client_def Let_def)
    moreover from False c w(2) i assms(3) have "\<not> ok" "k' = k1" "sel' = sel"
      by (auto simp: sel_client_def EPoll_ctl_def c_epoll_ctl_def Let_def split: if_splits)
    ultimately show ?thesis using i w False by (auto simp: implements_def)
  qed
qed

lemma erase_implemented:
  assumes "implements efd fds watched heap sel k s"
  shows "implements efd fds watched heap (sel_erase heap (Some p) sel) k (Selector_erase p s)"
  using assms
  by (auto simp: implements_def sel_erase_def Selector_erase_def map_of_filter_value distinct_filter_keys fun_eq_iff split: option.splits)

lemma those_lookup: "those (map (\<lambda>e. fmlookup m (ee_fd e)) evs) = Selector_pull (map ee_fd evs) s" if "map_of (sl_clients s) = fmlookup m"
  by (induction evs) (simp_all add: that split: option.splits)

lemma pull_implemented:
  assumes "watches kn ep efd fds watched" "implements efd fds watched heap sel k s"
    and "sel_pull ep sel k = (r, k')"
  shows "implements efd fds watched heap sel k' s \<and> (\<exists>ready. set ready \<subseteq> set (sk_epoll s) \<and> r = Selector_pull ready s)"
proof -
  obtain to where to: "int_of_f32 (es_to sel) = Some to" using assms(2) by (auto simp: implements_def)
  obtain n evs k1 where w: "ep_wait ep efd 30 to k = ((n, evs), k1)" by (metis prod.exhaust)
  have n: "fds k1 = fds k" "watched k1 = watched k"
      "n = -1 \<and> evs = [] \<or> n = int (length evs) \<and> n \<le> 30 \<and> ee_fd ` set evs \<subseteq> watched k"
    using assms(1)[unfolded watches_def, THEN conjunct2, THEN conjunct2, rule_format, of 30 k to] w by simp_all
  note i = assms(2)[unfolded implements_def]
  have "EPoll_wait ep sel to k = ((n, evs), k1)" using w i by (simp add: EPoll_wait_def c_epoll_wait_def)
  moreover have "take (nat (min n MAX_EVENT_EPOLL)) evs = evs" using n(3) by (auto simp: MAX_EVENT_EPOLL_def)
  ultimately have p: "sel_pull ep sel k = (if n = -1 then Some [] else those (map (\<lambda>e. fmlookup (es_clients sel) (ee_fd e)) evs), k1)"
    using to by (simp add: sel_pull_def)
  have "(if n = -1 then Some [] else those (map (\<lambda>e. fmlookup (es_clients sel) (ee_fd e)) evs)) = Selector_pull (map ee_fd evs) s"
  proof (cases "n = -1")
    case True
    then have "evs = []" using n(3) by (elim disjE) simp_all
    then show ?thesis using True by simp
  next
    case False
    then show ?thesis using those_lookup[of s "es_clients sel" evs] i by simp
  qed
  with p assms(3) have "k' = k1" "r = Selector_pull (map ee_fd evs) s" by simp_all
  moreover have "set (sk_epoll s) = watched k" using i by blast
  with n(3) have "set (map ee_fd evs) \<subseteq> set (sk_epoll s)" by (elim disjE) simp_all
  ultimately have "\<exists>ready. set ready \<subseteq> set (sk_epoll s) \<and> r = Selector_pull ready s" by blast
  moreover have "implements efd fds watched heap sel k' s" using assms(2) n(1,2) \<open>k' = k1\<close> by (simp add: implements_def)
  ultimately show ?thesis by blast
qed

lemma close_implemented:
  assumes "descriptors_of kn fds" "watches kn ep efd fds watched" "implements efd fds watched heap sel k s"
    and "base_close kn (heap p) k = (ok, so, k')" "BaseSocket_close p s = (ok2, s')"
  shows "ok = ok2 \<and> implements efd fds watched (heap(p := so)) sel k' s'"
proof (cases "bs_fd (heap p) \<in> fds k")
  case True
  note i = assms(3)[unfolded implements_def]
  obtain r k1 where c: "kn_close kn (bs_fd (heap p)) k = (r, k1)" by (metis prod.exhaust)
  with descriptorsD(6,7)[OF assms(1) True]
  have k1: "r = 0" "fds k1 = fds k - {bs_fd (heap p)}" "watched k1 = watched k - {bs_fd (heap p)}"
    using assms(2)[unfolded watches_def, THEN conjunct2, THEN conjunct1, rule_format, OF True] by simp_all
  have "ok" "so = (heap p)\<lparr>bs_fd := -1\<rparr>" "k' = k1"
    using assms(4) c k1(1) True by (auto simp: base_close_def isOpen_iff[OF assms(1)] c_close_def)
  moreover have "ok2" "s' = s\<lparr>sk_open := (sk_open s)(sk_fd s p := False),
       sk_epoll := filter (\<lambda>fd. fd \<noteq> sk_fd s p) (sk_epoll s), sk_fd := (sk_fd s)(p := -1)\<rparr>"
    using assms(5) True i by (auto simp: BaseSocket_close_def BaseSocket_isOpen_def)
  ultimately show ?thesis using i k1 by (auto simp: implements_def fun_eq_iff)
next
  case False
  note i = assms(3)[unfolded implements_def]
  from False assms(4) have "ok" "so = heap p" "k' = k" by (auto simp: base_close_def isOpen_iff[OF assms(1)])
  moreover have "ok2" "s' = s" using False assms(5) i by (auto simp: BaseSocket_close_def BaseSocket_isOpen_def)
  ultimately show ?thesis using assms(3) by simp
qed

section \<open>Runs\<close>

text \<open>What a unit does with its connections, and what it gets to see.\<close>

datatype conn_op = CO_watch sock | CO_erase sock | CO_close sock | CO_pull
datatype conn_obs = OB_done bool | OB_ready "sock list option"

type_synonym 'k conn_state = "(sock \<Rightarrow> base_socket) \<times> sock epoll_selector \<times> 'k"

fun conn_detailed :: "'k kernel \<Rightarrow> 'k epoll_calls \<Rightarrow> conn_op \<Rightarrow> 'k conn_state \<Rightarrow> conn_obs \<times> 'k conn_state" where
  "conn_detailed kn ep (CO_watch p) (heap, sel, k) = (case sel_client ep heap (Some p) sel k of (ok, sel', k') \<Rightarrow>
     (OB_done ok, heap, sel', k'))"
| "conn_detailed kn ep (CO_erase p) (heap, sel, k) = (OB_done True, heap, sel_erase heap (Some p) sel, k)"
| "conn_detailed kn ep (CO_close p) (heap, sel, k) = (case base_close kn (heap p) k of (ok, so, k') \<Rightarrow>
     (OB_done ok, heap(p := so), sel, k'))"
| "conn_detailed kn ep CO_pull (heap, sel, k) = (case sel_pull ep sel k of (r, k') \<Rightarrow> (OB_ready r, heap, sel, k'))"

fun conn_run :: "'k kernel \<Rightarrow> 'k epoll_calls \<Rightarrow> conn_op list \<Rightarrow> 'k conn_state \<Rightarrow> conn_obs list \<times> 'k conn_state" where
  "conn_run kn ep [] st = ([], st)"
| "conn_run kn ep (a # ops) st = (let (b, st1) = conn_detailed kn ep a st; (obs, st2) = conn_run kn ep ops st1 in (b # obs, st2))"

text \<open>The abstract connections; which of the watched descriptors are ready is open.\<close>

inductive conn_may :: "conn_op \<Rightarrow> conn_obs \<Rightarrow> 'a selector_scheme \<Rightarrow> 'a selector_scheme \<Rightarrow> bool" where
  may_watch: "Selector_client p s = (ok, s') \<Longrightarrow> conn_may (CO_watch p) (OB_done ok) s s'"
| may_erase: "conn_may (CO_erase p) (OB_done True) s (Selector_erase p s)"
| may_close: "BaseSocket_close p s = (ok, s') \<Longrightarrow> conn_may (CO_close p) (OB_done ok) s s'"
| may_pull: "set ready \<subseteq> set (sk_epoll s) \<Longrightarrow> conn_may CO_pull (OB_ready (Selector_pull ready s)) s s"

inductive conn_may_run :: "conn_op list \<Rightarrow> conn_obs list \<Rightarrow> 'a selector_scheme \<Rightarrow> 'a selector_scheme \<Rightarrow> bool" where
  may_stop: "conn_may_run [] [] s s"
| may_go: "conn_may a b s s1 \<Longrightarrow> conn_may_run ops obs s1 s2 \<Longrightarrow> conn_may_run (a # ops) (b # obs) s s2"

lemma conn_step_implemented:
  assumes "descriptors_of kn fds" "watches kn ep efd fds watched" "implements efd fds watched heap sel k s"
    and "conn_detailed kn ep a (heap, sel, k) = (b, heap', sel', k')"
  shows "\<exists>s'. conn_may a b s s' \<and> implements efd fds watched heap' sel' k' s'"
proof (cases a)
  case (CO_watch p)
  obtain ok s' where "Selector_client p s = (ok, s')" by (metis prod.exhaust)
  with CO_watch assms(4) client_implemented[OF assms(2,3), of p] show ?thesis
    by (auto split: prod.splits intro: may_watch)
next
  case (CO_erase p)
  with assms(4) erase_implemented[OF assms(3), of p] show ?thesis by (auto intro: may_erase)
next
  case (CO_close p)
  obtain ok s' where "BaseSocket_close p s = (ok, s')" by (metis prod.exhaust)
  with CO_close assms(4) close_implemented[OF assms(1-3), of p] show ?thesis
    by (auto split: prod.splits intro: may_close)
next
  case CO_pull
  with assms(4) pull_implemented[OF assms(2,3)] show ?thesis by (auto split: prod.splits intro: may_pull)
qed


text \<open>A kernel of two lists, the open descriptors and the watched ones, that reports every watched one as ready.\<close>

record conn_kernel =
  ck_open :: "int list"
  ck_watched :: "int list"

definition ck_fds :: "conn_kernel \<Rightarrow> int set" where
  "ck_fds k = set (filter (\<lambda>fd. fd \<noteq> -1) (ck_open k))"

definition ck_close :: "int \<Rightarrow> conn_kernel \<Rightarrow> int \<times> conn_kernel" where
  "ck_close fd k = (if fd \<in> ck_fds k
     then (0, \<lparr>ck_open = filter (\<lambda>x. x \<noteq> fd) (ck_open k), ck_watched = filter (\<lambda>x. x \<noteq> fd) (ck_watched k)\<rparr>) else (-1, k))"

definition conn_calls :: "conn_kernel kernel" where
  "conn_calls = \<lparr>kn_socket = (\<lambda>d t p k. (-1, k)), kn_accept = (\<lambda>fd k. (-1, k)), kn_send = (\<lambda>fd d k. (int (length d), k)),
     kn_sendto = (\<lambda>fd d a k. (-1, k)), kn_recv = (\<lambda>fd n k. ((0, []), k)),
     kn_recvfrom = (\<lambda>fd n m k. ((0, [], sockaddr_in_zero), k)), kn_getfl = (\<lambda>fd k. 0), kn_setfl = (\<lambda>fd fl k. (0, k)),
     kn_getfd = (\<lambda>fd k. if fd \<in> ck_fds k then 0 else -1), kn_close = ck_close, kn_getsockname = (\<lambda>fd k. None),
     kn_bind = (\<lambda>fd a k. (-1, k)), kn_listen = (\<lambda>fd m k. (-1, k)), kn_connect = (\<lambda>fd a k. (-1, k)),
     kn_setsockopt = (\<lambda>fd opt v k. (0, k)), kn_unlink = (\<lambda>p k. (-1, k)), kn_inet_pton = (\<lambda>d t. (1, 0))\<rparr>"

definition conn_epoll :: "conn_kernel epoll_calls" where
  "conn_epoll = \<lparr>ep_create = (\<lambda>mx k. (9, k)),
     ep_wait = (\<lambda>efd mx to k. (let evs = map (\<lambda>fd. \<lparr>ee_events = EPOLLIN, ee_fd = fd\<rparr>) (take (nat mx) (ck_watched k))
       in if mx < 0 then (0, []) else (int (length evs), evs), k)),
     ep_ctl = (\<lambda>efd cmd fd e k. if fd \<in> ck_fds k \<and> fd \<notin> set (ck_watched k)
       then (0, k\<lparr>ck_watched := ck_watched k @ [fd]\<rparr>) else (-1, k))\<rparr>"

lemma conn_kernel_documented:
  "descriptors_of conn_calls ck_fds" "watches conn_calls conn_epoll 9 ck_fds (set \<circ> ck_watched)"
proof -
  show "descriptors_of conn_calls ck_fds"
    by (auto simp: descriptors_of_def conn_calls_def opens_def ck_close_def ck_fds_def)
  show "watches conn_calls conn_epoll 9 ck_fds (set \<circ> ck_watched)"
    by (auto simp: watches_def conn_calls_def conn_epoll_def ck_close_def ck_fds_def Let_def dest: in_set_takeD)
qed

definition conn_start :: "int list \<Rightarrow> conn_kernel conn_state" where
  "conn_start fds = ((\<lambda>p. \<lparr>bs_fd = 7 + int p, bs_dom = AF_INET, bs_type = SOCK_STREAM, bs_proto = 0\<rparr>),
     \<lparr>em_max = 30, em_fd = 9, es_clients = fmempty, es_to = fzero\<rparr>, \<lparr>ck_open = fds, ck_watched = []\<rparr>)"

definition conn_seen :: "int list \<Rightarrow> selector" where
  "conn_seen fds = \<lparr>sk_fd = (\<lambda>p. 7 + int p), sk_next = 2, sk_open = (\<lambda>fd. fd \<in> set fds \<and> fd \<noteq> -1), sk_epoll = [], sl_clients = []\<rparr>"

lemma int_of_fzero: "int_of_f32 fzero = Some 0"
  by (simp add: int_of_f32_def)


end
