(* ===== verification/Printing.thy ===== *)
theory Printing
  imports Initiator Clients Log
begin

text \<open>
  What the processes write to their logs: the printing operators of the messages, the orders, the
  clients and the commands. \<open>fl\<close> is the library's text of a \<^verbatim>\<open>float\<close>. The enumerations are
  unscoped, so a stream prints their number. The statements at the end say how much of a secret a line
  tells: a line tells nothing more than \<open>f x\<close> when values that agree on \<open>f\<close> have the same line.
\<close>

section \<open>Messages between the processes of the client\<close>

abbreviation nat_text :: "u32 \<Rightarrow> string" where
  "nat_text w \<equiv> dec_string (unat w)"

definition char_number :: "char \<Rightarrow> string" where
  "char_number c = dec_string (of_char c)"

definition show_AuthFrontToInitiator :: "AuthFrontToInitiator \<Rightarrow> string" where
  "show_AuthFrontToInitiator a = ''{ ApiKey: '' @ trunc (afi_apikey a) 3 @ '', Name: '' @ afi_name a @ '' }''"

definition show_AuthInitiatorToFront :: "AuthInitiatorToFront \<Rightarrow> string" where
  "show_AuthInitiatorToFront a = ''{ Name: '' @ aif_name a @ '' }''"

definition show_AuthInitiatorToBack :: "AuthInitiatorToBack \<Rightarrow> string" where
  "show_AuthInitiatorToBack a = ''{ Token: '' @ aib_token a @ '', ApiKey: '' @ trunc (aib_apikey a) 3 @ ''}''"

definition show_AuthBackToInitiator :: "AuthBackToInitiator \<Rightarrow> string" where
  "show_AuthBackToInitiator a = ''{ ApiKey: '' @ trunc (abi_apikey a) 3 @ '', Port: '' @ nat_text (abi_port a) @ ''}''"

definition show_InitiatorToFrontValidToken :: "InitiatorToFrontValidToken \<Rightarrow> string" where
  "show_InitiatorToFrontValidToken v = ''{ Token: '' @ trunc (ifv_token v) 3 @ '', Port: '' @ nat_text (ifv_port v) @ '' }''"

definition show_FrontToBackValidToken :: "FrontToBackValidToken \<Rightarrow> string" where
  "show_FrontToBackValidToken v = ''{ Token: '' @ trunc (fbv_token v) 3 @ '' }''"

definition show_IpcReject :: "IpcReject \<Rightarrow> string" where
  "show_IpcReject r = ''{ Message: '' @ ir_message r @ '' }''"

definition show_IpcLogon :: "IpcLogon \<Rightarrow> string" where
  "show_IpcLogon l = ''{ UserId: '' @ il_UserId l @ '', SeqNum: '' @ nat_text (il_SeqNum l)
     @ '', HeartBeat: '' @ nat_text (il_HeartBeat l) @ '' }''"

definition show_IpcOrderSingle :: "(f32 \<Rightarrow> string) \<Rightarrow> IpcOrderSingle \<Rightarrow> string" where
  "show_IpcOrderSingle fl o' = ''{ Symbol: '' @ io_symbol o' @ '', OrderId: '' @ io_orderId o' @ '', Price: '' @ fl (io_price o')
     @ '', Quantity: '' @ fl (io_quantity o') @ '', Type: '' @ char_number (Side_code (io_type o')) @ '' }''"

text \<open>The remaining quantity is printed twice, the quantity not at all.\<close>

definition show_IpcExecution :: "(f32 \<Rightarrow> string) \<Rightarrow> IpcExecution \<Rightarrow> string" where
  "show_IpcExecution fl x = ''{ Symbol: '' @ ie_symbol x @ '', ExecId: '' @ ie_execId x @ '', OrderId: '' @ ie_orderId x
     @ '', Price: '' @ fl (ie_price x) @ '', Avg Price: '' @ fl (ie_avgPrice x) @ '', Side: '' @ char_number (Side_code (ie_side x))
     @ '', Quantity: '' @ fl (ie_remainQty x) @ '', Remain Qty:'' @ fl (ie_remainQty x) @ '' }''"

section \<open>Orders, clients, commands\<close>

definition show_Order :: "(f32 \<Rightarrow> string) \<Rightarrow> Order \<Rightarrow> string" where
  "show_Order fl r = ''{ Order-id: '' @ o_orderId r @ '', User-id: '' @ o_userId r @ '', OrgQty: '' @ fl (o_originalQty r)
     @ '', RemQty: '' @ fl (o_remainQty r) @ '', AvgPrice: '' @ fl (o_avgPrice r) @ '', Side: '' @ char_number (Side_code (o_side r))
     @ '', Status: '' @ char_number (OrderStatus_code (o_status r)) @ '' }''"

definition bool_text :: "bool \<Rightarrow> string" where
  "bool_text b = (if b then ''1'' else ''0'')"

definition show_InternalClient :: "InternalClient \<Rightarrow> string" where
  "show_InternalClient c = ''InternalClient: { User: '' @ ic_user_id c @ '', Logged: '' @ bool_text (ic_logged_in c)
     @ '', ShouldDisconnect: '' @ bool_text (ic_should_dc c) @ '', SeqNumber: '' @ nat_text (ic_seq_num c) @ '' }''"

definition show_Command :: "Command \<Rightarrow> string" where
  "show_Command c = ''Command: '' @ [CHR 0x22] @ sh_cmd c @ concat (map (\<lambda>a. CHR '' '' # a) (sh_arg c)) @ [CHR 0x22]
     @ concat (map (\<lambda>(k, v). [CHR 0x0A, CHR 0x09] @ ''ENV: '' @ k @ ''='' @ trunc v 3) (sh_env c))"

section \<open>The level of a line\<close>

text \<open>The levels are finitely many, so a statement about all of them is evaluated.\<close>

instantiation Level :: enum
begin

definition enum_Level :: "Level list" where
  "enum_Level = [L_Verbose, L_Debug, L_Info, L_Warning, L_Error, L_Fatal]"

definition enum_all_Level :: "(Level \<Rightarrow> bool) \<Rightarrow> bool" where
  "enum_all_Level p \<longleftrightarrow> list_all p enum_class.enum"

definition enum_ex_Level :: "(Level \<Rightarrow> bool) \<Rightarrow> bool" where
  "enum_ex_Level p \<longleftrightarrow> list_ex p enum_class.enum"

instance
proof
  have e: "l \<in> set (enum_class.enum :: Level list)" for l by (cases l) (simp_all add: enum_Level_def)
  then show u: "(UNIV :: Level set) = set enum_class.enum" by blast
  show "distinct (enum_class.enum :: Level list)" by (simp add: enum_Level_def)
  show "enum_class.enum_all p \<longleftrightarrow> Ball UNIV p" for p :: "Level \<Rightarrow> bool"
    by (simp add: enum_all_Level_def list_all_iff flip: u)
  show "enum_class.enum_ex p \<longleftrightarrow> Bex UNIV p" for p :: "Level \<Rightarrow> bool"
    by (simp add: enum_ex_Level_def list_ex_iff flip: u)
qed

end

lemma level_texts_differ:
  "\<forall>l l'. LevelToString l = LevelToString l' \<longrightarrow> l = l'" "\<forall>l. CHR '']'' \<notin> set (LevelToString l)"
  by code_simp+

text \<open>From a line its level can be read, whatever the name of the logger and the message.\<close>

lemma line_tells_level:
  assumes "log_line stamp name e = log_line stamp name' e'"
  shows "ev_level e = ev_level e'"
proof -
  have t: "takeWhile (\<lambda>c. c \<noteq> CHR '']'') (tl (log_line stamp n x)) = LevelToString (ev_level x)" for n x
  proof -
    have "CHR '']'' \<notin> set (LevelToString (ev_level x))" using level_texts_differ(2) by blast
    then have "\<forall>c \<in> set (LevelToString (ev_level x)). c \<noteq> CHR '']''" by blast
    then show ?thesis by (simp add: log_line_def takeWhile_append2)
  qed
  from assms t[of name e] t[of name' e'] have "LevelToString (ev_level e) = LevelToString (ev_level e')" by simp
  with level_texts_differ(1) show ?thesis by blast
qed

section \<open>What a line tells\<close>

definition tells_only :: "('a \<Rightarrow> string) \<Rightarrow> ('a \<Rightarrow> 'b) \<Rightarrow> bool" where
  "tells_only line f \<longleftrightarrow> (\<forall>x y. f x = f y \<longrightarrow> line x = line y)"

lemma tells_onlyI: "(\<And>x y. f x = f y \<Longrightarrow> line x = line y) \<Longrightarrow> tells_only line f"
  unfolding tells_only_def by blast

lemma show_buildShellBack:
  "take 3 key = take 3 key' \<Longrightarrow> show_Command (buildShellBack cf key) = show_Command (buildShellBack cf key')"
proof -
  assume t: "take 3 key = take 3 key'"
  have f: "sh_env (fold addArgument as c) = sh_env c \<and> sh_cmd (fold addArgument as c) = sh_cmd c
      \<and> sh_arg (fold addArgument as c) = sh_arg c @ as" for as c
    by (induction as arbitrary: c) (simp_all add: addArgument_def)
  show ?thesis using t
    by (simp add: show_Command_def buildShellBack_def f addEnvironement_def Command_new_def trunc_def)
qed

text \<open>
  Of an API key no line tells more than the first three characters, in whichever of the four
  messages or the command of a new back end it is; of the token that a front end and a back end
  share neither do the two validations, but the authentication that the initiator logs before it
  sends it to the back end tells all of it.
\<close>

theorem log_lines_keep_keys:
  "tells_only show_AuthFrontToInitiator (\<lambda>a. (take 3 (afi_apikey a), afi_name a))
    \<and> tells_only show_AuthBackToInitiator (\<lambda>a. (take 3 (abi_apikey a), abi_port a))
    \<and> tells_only show_AuthInitiatorToBack (\<lambda>a. (take 3 (aib_apikey a), aib_token a))
    \<and> tells_only (\<lambda>key. show_Command (buildShellBack cf key)) (take 3)
    \<and> tells_only show_FrontToBackValidToken (\<lambda>v. take 3 (fbv_token v))
    \<and> tells_only show_InitiatorToFrontValidToken (\<lambda>v. (take 3 (ifv_token v), ifv_port v))
    \<and> inj (\<lambda>token. show_AuthInitiatorToBack \<lparr>aib_token = token, aib_apikey = key\<rparr>)"
  by (auto intro!: tells_onlyI injI show_buildShellBack simp: show_AuthFrontToInitiator_def show_AuthBackToInitiator_def
      show_AuthInitiatorToBack_def show_FrontToBackValidToken_def show_InitiatorToFrontValidToken_def trunc_def)

text \<open>The line of an execution is the same whatever was ordered.\<close>

lemma execution_line_without_quantity: "show_IpcExecution fl (x\<lparr>ie_quantity := q\<rparr>) = show_IpcExecution fl x"
  by (simp add: show_IpcExecution_def)

end
