(* ===== verification/InitiatorLoop.thy ===== *)
theory InitiatorLoop
  imports InitiatorClaims
begin

text \<open>
  The initiator as it runs: the builder of commands, the loops of \<^verbatim>\<open>FrontHandler\<close> and \<^verbatim>\<open>BackHandler\<close>
  around their event handlers, and the stop of \<^verbatim>\<open>Core\<close>. A round of a loop is a sequence of the
  steps of theory \<open>Initiator\<close>, so what holds in its reachable states holds between the rounds, whatever
  order the handlers, the pools and the removals take.
\<close>

section \<open>The builder of commands\<close>

text \<open>\<^verbatim>\<open>m_cmd\<close> is a \<^verbatim>\<open>unique_ptr\<close>: using the builder before the first command, or after \<^verbatim>\<open>result\<close>, is undefined.\<close>

definition newShellCommand :: "string \<Rightarrow> Command option \<Rightarrow> Command option" where
  "newShellCommand cmd b = Some (Command_new cmd)"

definition setEnvironement :: "string \<Rightarrow> string \<Rightarrow> Command option \<Rightarrow> Command option" where
  "setEnvironement k v b = map_option (addEnvironement k v) b"

definition builder_addArgument :: "string \<Rightarrow> Command option \<Rightarrow> Command option" where
  "builder_addArgument a b = map_option (addArgument a) b"

definition builder_result :: "Command option \<Rightarrow> Command option \<times> Command option" where
  "builder_result b = (b, None)"

lemma builder_is_buildShellBack:
  "fst (builder_result (fold builder_addArgument (bc_ExecArgs cf)
     (setEnvironement ''FIX42-initiator-address'' (bc_Address cf)
       (setEnvironement ''FIX42-apikey'' key (newShellCommand (bc_Executable cf) b))))) = Some (buildShellBack cf key)"
proof -
  have "fold builder_addArgument as (Some c) = Some (fold addArgument as c)" for as c
    by (induction as arbitrary: c) (simp_all add: builder_addArgument_def)
  then show ?thesis by (simp add: builder_result_def buildShellBack_def setEnvironement_def newShellCommand_def)
qed

section \<open>The two loops\<close>

text \<open>
  An event: the socket epoll reports, what \<^verbatim>\<open>waitpid\<close> answers when the session is removed, and what the
  two receives give. \<^verbatim>\<open>pull\<close> throws at a socket that was erased from the selector; a step that throws or
  is undefined ends the round, and with it the thread, as \<open>None\<close>.
\<close>

type_synonym handler_event = "nat \<times> wait_status option \<times> (byte list \<times> int) \<times> byte list"

fun front_events :: "u8 \<Rightarrow> IpcHeader \<Rightarrow> handler_event list \<Rightarrow> initiator \<Rightarrow> initiator option" where
  "front_events junk d [] s = Some s"
| "front_events junk d ((k, w, hdr, body) # es) s = Option.bind (front_event junk d w hdr body k s) (front_events junk d es)"

definition front_round :: "u8 \<Rightarrow> IpcHeader \<Rightarrow> string \<Rightarrow> nat option \<Rightarrow> handler_event list \<Rightarrow> initiator \<Rightarrow> initiator option" where
  "front_round junk d uid accepted es s =
     (let s1 = (case accepted of None \<Rightarrow> s | Some k \<Rightarrow> front_accept uid k s)
      in if fst ` set es \<subseteq> set (in_fsel s1) then front_events junk d es s1 else None)"

fun back_events :: "u8 \<Rightarrow> IpcHeader \<Rightarrow> u32 \<Rightarrow> handler_event list \<Rightarrow> initiator \<Rightarrow> initiator option" where
  "back_events junk d port [] s = Some s"
| "back_events junk d port ((k, w, hdr, body) # es) s = Option.bind (back_event junk d port hdr body k s) (back_events junk d port es)"

definition back_round :: "u8 \<Rightarrow> IpcHeader \<Rightarrow> u32 \<Rightarrow> nat option \<Rightarrow> handler_event list \<Rightarrow> initiator \<Rightarrow> initiator option" where
  "back_round junk d port accepted es s =
     (let s1 = (case accepted of None \<Rightarrow> s | Some k \<Rightarrow> back_accept k s)
      in if fst ` set es \<subseteq> set (in_bsel s1) then back_events junk d port es s1 else None)"

text \<open>What the threads do, one turn after the other.\<close>

datatype initiator_turn =
    T_front u8 IpcHeader string "nat option" "handler_event list"
  | T_back u8 IpcHeader u32 "nat option" "handler_event list"
  | T_front_pool int | T_back_pool u32 | T_remove

fun initiator_run :: "back_config \<Rightarrow> initiator_turn list \<Rightarrow> initiator \<Rightarrow> initiator option" where
  "initiator_run cf [] s = Some s"
| "initiator_run cf (t # ts) s = Option.bind (case t of
       T_front junk d uid accepted es \<Rightarrow> front_round junk d uid accepted es s
     | T_back junk d port accepted es \<Rightarrow> back_round junk d port accepted es s
     | T_front_pool pid \<Rightarrow> front_task cf pid s
     | T_back_pool junk \<Rightarrow> back_task junk s
     | T_remove \<Rightarrow> session_remove_task s) (initiator_run cf ts)"

section \<open>Core\<close>

text \<open>
  \<^verbatim>\<open>Core::start\<close> and \<^verbatim>\<open>stop\<close>, with the destructor's second \<^verbatim>\<open>stop\<close>: the handlers that run. The loop is
  \<open>initiator_loop\<close>, whose result is \<^verbatim>\<open>true\<close>.
\<close>

datatype handler_name = H_front | H_back

record initiator_core =
  ik_running :: bool
  ik_threads :: "handler_name list"

definition initiator_stop :: "initiator_core \<Rightarrow> initiator_core" where
  "initiator_stop co = (if ik_running co then co\<lparr>ik_running := False, ik_threads := []\<rparr> else co)"

definition initiator_start :: "(bool \<times> (string \<Rightarrow> bool)) list \<Rightarrow> initiator_core \<Rightarrow> (bool \<times> initiator_core) option" where
  "initiator_start rounds co = (let co1 = co\<lparr>ik_threads := [H_front, H_back], ik_running := True\<rparr> in
     map_option (\<lambda>r. (r, initiator_stop co1)) (initiator_loop rounds))"

lemma initiator_start_stops:
  "initiator_start rounds co = Some (r, co') \<Longrightarrow> r \<and> \<not> ik_running co' \<and> ik_threads co' = [] \<and> initiator_stop co' = co'"
proof -
  have "initiator_loop rounds = Some b \<Longrightarrow> b" for b by (induction rounds rule: initiator_loop.induct) (auto split: if_splits)
  then show "initiator_start rounds co = Some (r, co') \<Longrightarrow> r \<and> \<not> ik_running co' \<and> ik_threads co' = [] \<and> initiator_stop co' = co'"
    by (auto simp: initiator_start_def initiator_stop_def Let_def)
qed

section \<open>Runs are reachable\<close>

lemma front_events_reach:
  "initiator_reach cf t s \<Longrightarrow> front_events junk d es s = Some s' \<Longrightarrow> initiator_reach cf t s'"
proof (induction junk d es s rule: front_events.induct)
  case (2 junk d k w hdr body es s)
  then obtain s1 where s1: "front_event junk d w hdr body k s = Some s1" "front_events junk d es s1 = Some s'"
    by (auto simp: Option.bind_eq_Some_conv)
  from 2(1)[OF s1(1) initiator_reach.step[OF 2(2) front_data[OF s1(1)]] s1(2)] show ?case .
qed simp

lemma back_events_reach:
  "initiator_reach cf t s \<Longrightarrow> back_events junk d port es s = Some s' \<Longrightarrow> initiator_reach cf t s'"
proof (induction junk d port es s rule: back_events.induct)
  case (2 junk d port k w hdr body es s)
  then obtain s1 where s1: "back_event junk d port hdr body k s = Some s1" "back_events junk d port es s1 = Some s'"
    by (auto simp: Option.bind_eq_Some_conv)
  from 2(1)[OF s1(1) initiator_reach.step[OF 2(2) back_data[OF s1(1)]] s1(2)] show ?case .
qed simp

lemma front_round_reach:
  assumes "initiator_reach cf t s" "front_round junk d uid accepted es s = Some s'"
  shows "initiator_reach cf t s'"
  using assms(2) front_events_reach[OF assms(1)] front_events_reach[OF initiator_reach.step[OF assms(1) accept_front]]
  by (cases accepted) (auto simp: front_round_def Let_def split: if_splits)

lemma back_round_reach:
  assumes "initiator_reach cf t s" "back_round junk d port accepted es s = Some s'"
  shows "initiator_reach cf t s'"
  using assms(2) back_events_reach[OF assms(1)] back_events_reach[OF initiator_reach.step[OF assms(1) accept_back]]
  by (cases accepted) (auto simp: back_round_def Let_def split: if_splits)

theorem initiator_run_reachable:
  "initiator_reach cf t s \<Longrightarrow> initiator_run cf ts s = Some s' \<Longrightarrow> initiator_reach cf t s'"
proof (induction ts arbitrary: s)
  case (Cons a ts)
  from Cons.prems(2) obtain s1 where s1: "initiator_run cf [a] s = Some s1" "initiator_run cf ts s1 = Some s'"
    by (auto simp: Option.bind_eq_Some_conv)
  have "initiator_reach cf t s1"
    using s1(1) Cons.prems(1) by (cases a)
      (auto simp: Option.bind_eq_Some_conv intro: front_round_reach back_round_reach initiator_reach.step front_pool back_pool remove)
  from Cons.IH[OF this s1(2)] show ?case .
qed simp

end
