(* ===== verification/Listening.thy ===== *)
theory Listening
  imports SocketClaims ServerNet
begin

text \<open>
  The sockets on which the server and the initiator listen: the constructors of their input units
  and the rounds of the server's input over them. No constructor looks at the result of \<^verbatim>\<open>listen\<close>.
\<close>

section \<open>The constructors\<close>

definition tcp_input_new :: "'k kernel \<Rightarrow> u32 \<Rightarrow> 'k \<Rightarrow> acceptor \<times> 'k" where
  "tcp_input_new kn port k = (let (_, a, k) = acceptor_listen_inet kn port (acceptor_new AF_INET) k;
     (_, k) = base_setBlocking kn False a k in (a, k))"

definition front_handler_new :: "'k kernel \<Rightarrow> u32 \<Rightarrow> 'k \<Rightarrow> acceptor \<times> 'k" where
  "front_handler_new kn port k = (let (_, a, k) = acceptor_listen_inet kn port (acceptor_new AF_INET) k;
     (_, k) = base_setBlocking kn False a k in (a, k))"

definition back_handler_new :: "'k kernel \<Rightarrow> string \<Rightarrow> 'k \<Rightarrow> acceptor \<times> 'k" where
  "back_handler_new kn path k = (let (_, a, k) = acceptor_listen_unix kn path (acceptor_new AF_UNIX) k;
     (_, k) = base_setBlocking kn False a k in (a, k))"

section \<open>The rounds of the server's input\<close>

definition tcp_input_round :: "'k kernel \<Rightarrow> fixlib \<Rightarrow> time_point \<Rightarrow> acceptor \<Rightarrow> (int \<times> int \<times> string) list \<Rightarrow>
    'a server_scheme \<Rightarrow> 'k \<Rightarrow> 'a server_scheme option \<times> 'k" where
  "tcp_input_round kn lib now a ready s k = (case acceptor_accept kn a k of (c, k') \<Rightarrow>
     (input_round lib now (case c of None \<Rightarrow> -1 | Some so \<Rightarrow> bs_fd so) ready s, k'))"

text \<open>A round each of \<open>rs\<close>: its time and what epoll reports with what reading it gives.\<close>

fun tcp_input_rounds :: "'k kernel \<Rightarrow> fixlib \<Rightarrow> acceptor \<Rightarrow> (time_point \<times> (int \<times> int \<times> string) list) list \<Rightarrow>
    'a server_scheme \<Rightarrow> 'k \<Rightarrow> 'a server_scheme option \<times> 'k" where
  "tcp_input_rounds kn lib a [] s k = (Some s, k)"
| "tcp_input_rounds kn lib a ((now, ready) # rs) s k = (case tcp_input_round kn lib now a ready s k of
       (None, k') \<Rightarrow> (None, k') | (Some s', k') \<Rightarrow> tcp_input_rounds kn lib a rs s' k')"

section \<open>A port that is refused\<close>

text \<open>The address of the server, and a kernel that refuses to bind it (another process has it).\<close>

definition refuses :: "'k kernel \<Rightarrow> u32 \<Rightarrow> bool" where
  "refuses kn port \<longleftrightarrow> (\<forall>fd k. fst (kn_bind kn fd (SA_in \<lparr>sin_family = AF_INET, sin_port = port_htons port, sin_addr = INADDR_ANY\<rparr>) k) = -1)"

lemma refused_listen_closes:
  assumes d: "descriptors_of kn fds" and "refuses kn port" "bs_fd a = -1" and l: "acceptor_listen_inet kn port a k = (ok, a', k')"
  shows "bs_fd a' = -1 \<and> fds k' = fds k"
proof -
  have o: "owns fds (bs_fd a) k (fds k)" using assms(3) by (rule new_owns)
  have "\<not> ok"
  proof
    assume "ok"
    let ?ad = "SA_in \<lparr>sin_family = AF_INET, sin_port = port_htons port, sin_addr = INADDR_ANY\<rparr>"
    obtain o1 a1 k1 where r: "base_recreate kn a k = (o1, a1, k1)" by (cases "base_recreate kn a k") auto
    have "\<not> fst (c_bind kn (bs_fd a1) ?ad k1)" using assms(2) by (auto simp: refuses_def c_bind_def split: prod.splits) (metis fst_conv zero_neq_neg_one)
    then obtain k2 where b: "c_bind kn (bs_fd a1) ?ad k1 = (False, k2)" by (cases "c_bind kn (bs_fd a1) ?ad k1") auto
    show False using l \<open>ok\<close> r b by (auto simp: acceptor_listen_inet_def listen_fail_def Let_def split: if_splits prod.splits)
  qed
  with listen_inet_owns[OF d o l] have "owns fds (bs_fd a') k' (fds k)" "bs_fd a' = -1" by auto
  then show ?thesis by (auto simp: owns_def)
qed

lemma refused_input:
  assumes d: "descriptors_of kn fds" and "refuses kn port" and n: "tcp_input_new kn port k = (a, k')"
  shows "bs_fd a = -1 \<and> fds k' = fds k"
proof -
  obtain ok a1 k1 where l: "acceptor_listen_inet kn port (acceptor_new AF_INET) k = (ok, a1, k1)"
    by (cases "acceptor_listen_inet kn port (acceptor_new AF_INET) k") auto
  have "bs_fd (acceptor_new AF_INET) = -1" by (simp add: acceptor_new_def base_new_def base_socket.extend_def)
  from refused_listen_closes[OF d assms(2) this l] n l kept_calls(5)[OF d, of "bs_fd a1" False k1]
  show ?thesis by (auto simp: tcp_input_new_def base_setBlocking_def split: prod.splits)
qed

text \<open>
  A server whose port is refused comes up: its input accepts nobody, in no round and whatever the
  kernel is by then, its state never changes, and it holds no descriptor. Nothing is reported.
\<close>

theorem refused_port_goes_unnoticed:
  fixes s :: server
  assumes "descriptors_of kn fds" "refuses kn port" "tcp_input_new kn port k = (a, k1)"
  shows "fds k1 = fds k \<and> (\<forall>k'. fst (acceptor_accept kn a k') = None) \<and>
    (\<forall>ts k'. fst (tcp_input_rounds kn lib a (map (\<lambda>t. (t, [])) ts) s k') = Some s)"
proof -
  have a: "bs_fd a = -1" "fds k1 = fds k" using refused_input[OF assms] by simp_all
  have "fst (kn_accept kn (-1) k') = -1" for k' using descriptorsD(1,5)[OF assms(1)] by blast
  then have n: "fst (acceptor_accept kn a k') = None" for k'
    using a(1) by (auto simp: acceptor_accept_def c_accept_def split: prod.splits) (metis fst_conv)
  have "fst (tcp_input_rounds kn lib a (map (\<lambda>t. (t, [])) ts) s k') = Some s" for ts k'
  proof (induction ts arbitrary: k')
    case (Cons t ts)
    obtain k2 where "acceptor_accept kn a k' = (None, k2)" using n[of k'] by (cases "acceptor_accept kn a k'") auto
    then have "tcp_input_round kn lib t a [] s k' = (Some s, k2)"
      by (simp add: tcp_input_round_def input_round_def input_accept_def Acceptor_accept_def)
    then show ?case using Cons by simp
  qed simp
  with a(2) n show ?thesis by blast
qed

definition taken_port :: "small_kernel kernel" where
  "taken_port = small\<lparr>kn_bind := (\<lambda>fd a k. (-1, k))\<rparr>"

lemma taken_port_documented: "descriptors_of taken_port small_fds" "refuses taken_port port"
  using small_descriptors by (simp_all add: taken_port_def descriptors_of_def refuses_def)

theorem refused_port_goes_unnoticed_witness:
  "case tcp_input_new taken_port 8080 (small_start []) of (a, k1) \<Rightarrow>
     small_fds k1 = small_fds (small_start []) \<and> fst (acceptor_accept taken_port a k1) = None"
  using refused_port_goes_unnoticed[OF taken_port_documented, of 8080 "small_start []"]
  by (auto split: prod.splits)

text \<open>The small kernel has all of the documented behaviour.\<close>

lemma small_documented: "names_of small" "flags_of small" "short_options_refused small"
  by (simp_all add: names_of_def flags_of_def short_options_refused_def small_def small_bind_def)

lemma small_port_is_cut:
  "acceptor_listen_inet small 73616 (acceptor_new AF_INET) (small_start []) = (True, s, k) \<Longrightarrow> base_getPort small s k = 8080"
proof -
  have "port_ntohs (port_htons 73616) = 8080" by (simp add: port_ntohs_htons)
  moreover have "port_ntohs 0 = 0" by (simp add: port_ntohs_def htons_def numeral_2_eq_2)
  ultimately have "port_htons 73616 \<noteq> 0" by auto
  from listening_port_is_cut[OF small_documented(1) this]
  show "acceptor_listen_inet small 73616 (acceptor_new AF_INET) (small_start []) = (True, s, k) \<Longrightarrow> base_getPort small s k = 8080"
    by simp
qed

end
