(* ===== verification/Spec2Isabelle.thy ===== *)
theory Spec2Isabelle
  imports FixClaims EndToEnd SocketClaims Config LogClaims SqlPool Startup GuiLoop SignedBuffer SelectorRefine
    Printing InitiatorLoop Listening
begin

text \<open>
  A verification development for the FIX 4.2 exchange in this repository: a matching server, and a
  client made of three processes, an initiator, a back end and a graphical front end. File names
  below are under \<^verbatim>\<open>src/\<close>; a definition has the name of the function it models wherever Isabelle
  allows it, with the class as a prefix where two classes share a name.

  \<^bold>\<open>The program.\<close> The server (\<^verbatim>\<open>server/\<close>) accepts connections, reads FIX messages from them, checks
  their headers, and routes them by type to its session units (logon, logout, heartbeat) or, through
  a market router, to the units of one market: two pipelines, for new orders and for cancels, each an
  input thread and a worker thread, one order book, and a unit that reports the book's events. A
  ticket lock, \<^verbatim>\<open>QueueMutex\<close>, makes the two workers take the book in the order in which the messages
  arrived. Answers go back through one output unit. In the client (\<^verbatim>\<open>client/\<close>) the front end sends a
  name and a key to the initiator, which looks them up, launches a back end process for the client
  and hands both a token; the front end proves itself to the back end by the token, the back end
  logs in at the server, translates the front end's frames to FIX messages and the server's reports
  to frames. The frames between the client's processes are binary, over \<^verbatim>\<open>net::Buffer\<close>. Queues,
  locks, pools, sockets, loggers and configuration (\<^verbatim>\<open>shared/\<close>) serve both sides.

  \<^bold>\<open>Values.\<close> \<open>Prelude\<close> names the machine integers and collects the facts on lists, maps and words
  that several theories use. \<open>Float32\<close> is the C++ \<^verbatim>\<open>float\<close> (binary32: rounding, infinities, NaN,
  signed zeros), in which the program keeps prices and quantities. \<open>FixTypes\<close> has the enumerations,
  tags and messages of \<^verbatim>\<open>shared/Core\<close> and \<^verbatim>\<open>shared/Message-v2\<close>; \<open>FixConvert\<close> and \<open>FixTime\<close> the field
  conversions of \<^verbatim>\<open>FixConvertor.cpp\<close>, \<open>Utils\<close> the helpers of \<^verbatim>\<open>shared/Utils\<close>. \<open>FixClaims\<close>: what is
  written reads back, for every enumerator; for times, shifted by the host's offset from UTC. The
  character-coded enumerations share the locale \<open>char_enum\<close>, interpreted on each of them.

  \<^bold>\<open>Matching.\<close> \<open>PriceLadder\<close> is the ordered map of price levels, with the locale \<open>price_order\<close>
  interpreted on the comparators of the two sides; \<open>OrderBook\<close> is \<^verbatim>\<open>class OrderBook\<close>, one definition
  per member. \<open>BookFill\<close> and \<open>BookInv\<close> give its invariant (sorted levels, something left in every
  order, the id map exact) and that every member keeps it. \<open>BookSpec\<close> is the abstract
  specification, price-time matching on two plain queues, and \<open>BookRefine\<close> the proof that \<open>add\<close> and
  \<open>cancel\<close> implement it; \<open>BookClaims\<close> reads from that what is promised of trades: fairness, priority,
  conservation of quantity, no crossed book, the tick rule, and what goes wrong.

  \<^bold>\<open>Concurrency.\<close> \<open>Threads\<close> has the queue between units (locale \<open>fifo\<close>, interpreted on \<open>ts_push\<close> and
  \<open>ts_pop\<close>), the loop that drains it, the pool, the life cycle of a unit and the ticket lock as an
  interleaving of single reads and writes; \<open>ThreadsClaims\<close> proves the lock exclusive and first come
  first served under every interleaving, and shows where the pool and the loop lose work.

  \<^bold>\<open>The server.\<close> \<open>Framing\<close> is the reading and building of FIX messages; \<open>PlainLib\<close> a small concrete
  message library on which statements about an arbitrary one are evaluated; \<open>FramingClaims\<close>: a frame
  that is sent is read back, one changed character is refused. \<open>Clients\<close> is the connection table
  with its heaps of shared objects, \<open>ServerNet\<close>, \<open>ServerSession\<close> and \<open>MarketUnits\<close> the units, one
  definition per handler. \<open>Market\<close> composes the units of one market to a transition system,
  \<open>MarketClaims\<close> proves its invariant and that every pending message can be served. \<open>Server\<close>
  composes everything; \<open>ServerInv\<close> and \<open>ServerClaims\<close> prove that queues hold only validated messages
  on live connections, that every market inside the server behaves as the market system, and what
  ends the process. \<open>ServerCore\<close> is \<^verbatim>\<open>Core\<close>.

  \<^bold>\<open>The client.\<close> \<open>NetBuffer\<close> is \<^verbatim>\<open>net::Buffer\<close>, with the contract \<open>wire\<close> of one reader and writer
  pair, \<open>SignedBuffer\<close> its signed codecs, whose contract is derived (\<open>recoded\<close>) from the unsigned ones;
  \<open>Ipc\<close> the frames and the receive loop, every message an interpretation of \<open>wire\<close> and every
  frame builder one of its extension \<open>frame\<close>; \<open>IpcClaims\<close> their round trips and bounds. \<open>BackInput\<close>
  is the back end's own parser, shown equal to the server's and to a reference in phases. \<open>BackEnd\<close>
  and \<open>BackFront\<close> are the units of the back end, \<open>Initiator\<close> the initiator and \<open>Gui\<close> the front
  end's managers, login screen and order widgets; \<open>BackClaims\<close>, \<open>InitiatorClaims\<close> and \<open>GuiClaims\<close>
  prove the session in step with the server's, the login through the processes, and the errors.
  \<open>GuiLoop\<close> runs the front end's manager over the selector: two statuses that arrive together hang the
  login. \<open>InitiatorLoop\<close> has the loops of the initiator's handlers, whose runs stay in the reachable
  states, and \<open>Printing\<close> the log lines and how much of a key they tell.
  \<open>EndToEnd\<close> follows one order from the screen to the book and back.

  \<^bold>\<open>The systems underneath.\<close> \<open>Sockets\<close> is \<^verbatim>\<open>shared/Network\<close> over a record \<open>kernel\<close> of system calls,
  whose documented behaviour is stated as \<open>descriptors_of\<close>, \<open>files_of\<close> and \<open>names_of\<close>;
  \<open>SocketClaims\<close> proves, in the locale \<open>descriptor_owner\<close> interpreted on acceptors and TCP sockets,
  that no run of operations leaks a descriptor. \<open>Epoll\<close> is the selector over its system calls and the client's
  receive loop over it, with what edge triggering (predicate \<open>edge_triggered\<close>) makes of frames that
  arrive together; \<open>SelectorRefine\<close> proves, for every run, that these objects implement what
  \<open>Clients\<close> assumes of them. \<open>Listening\<close> has the constructors of the input units, which ignore a
  refused port, and the rounds of the server's input over its acceptor.
  \<open>Config\<close> reads and writes the configuration files over a record \<open>jsonlib\<close>;
  \<open>Log\<close> and \<open>LogClaims\<close> are the loggers; \<open>SqlPool\<close> the pool of database connections; \<open>Startup\<close> the
  connection loops and the four \<^verbatim>\<open>main\<close> functions.

  \<^bold>\<open>State and effects.\<close> Each class is a record, each member a function that returns the new state.
  Objects behind \<^verbatim>\<open>std::shared_ptr\<close> that several units mutate live in heaps and are named by
  references. An exception, or a read that C++ leaves undefined, is \<open>None\<close> or a value of an error
  type, so it is a branch of the model. A reply of the kernel, a generated identifier, a clock
  reading, what a dangling reference yields: each is an argument, so a theorem holds for all of them.
  A section of code under one lock is one step of a transition system; for the market's lock this is
  justified by the theorems of \<open>ThreadsClaims\<close>.

  \<^bold>\<open>Bounds and fuel.\<close> Integers that can wrap are words. Whole quantities are exact below $2^{24}$,
  which is the bound of the refinement theorem. Loops over data are structural or have a measure;
  loops that may never end are either lists of rounds (\<open>recv_rounds\<close>, \<open>core_loop\<close>), where the result
  \<open>None\<close> says that the loop is still running, or the \<open>partial_function\<close> \<open>connect_loop\<close>, with the theorem that
  says when it returns. \<open>make_logger\<close> has a depth because a buffer logger makes two others by name:
  one level is enough for what the processes register. \<open>worker_run\<close> counts the steps of a worker;
  three per queued task are enough (\<open>worker_runs_all\<close>). \<open>scan_run\<close> counts the looks at a
  connection; without bound it never ends while all are in use.

  \<^bold>\<open>Not modelled.\<close> The FIX-Message library, \<^verbatim>\<open>nlohmann::json\<close>, \<^verbatim>\<open>pqxx\<close> and Qt are not in the
  repository: the first two are the parameters \<open>fixlib\<close> and \<open>jsonlib\<close>, of the third only the two statements the
  initiator sends are kept, as operations on a list of rows, and of Qt the queued signals and what the
  slots read and decide. Building the windows, the progress texts, the signal handlers (a flag that
  a round of the polling loop reads), the texts of the logging calls themselves (the operators that
  print a value are in \<open>Printing\<close>), the accessors that only return a member, the code after the last
  \<^verbatim>\<open>return\<close> of \<^verbatim>\<open>FrontManager.cpp\<close>, the templates without a caller (\<^verbatim>\<open>ClientStore::forEach\<close>, \<^verbatim>\<open>utils::to\<close>),
  the build files, containers and the test tool are left out.
\<close>

end
